(* ===== verification/Prelude.thy ===== *)
theory Prelude
  imports Main "HOL-Library.Word"
begin

text \<open>
  The vocabulary every component of the development shares.

  \<^item> The machine integers of the runtime (\<open>u8\<close>, \<open>u32\<close>, \<open>u128\<close>, \dots) as words, with the
    checked, saturating and wrapping operations of Rust on them and the reading of each
    operation as arithmetic on natural numbers (collection \<open>rust_arith\<close>).
  \<^item> Sums of finitely supported functions, for the \<open>total issuance\<close> arguments.
  \<^item> The binary search of Rust's slices, as it is implemented in the standard library, with
    its contract on sorted slices.
  \<^item> The result of a fallible storage operation: a value or an error, together with the
    storage after it. An error does not undo the writes made before it, unless the function
    is wrapped in \<open>transactional\<close>.
\<close>

section \<open>Machine integers\<close>

named_theorems rust_arith \<open>readings of Rust integer operations on natural numbers\<close>

type_synonym u8 = "8 word"
type_synonym u16 = "16 word"
type_synonym u32 = "32 word"
type_synonym u64 = "64 word"
type_synonym u128 = "128 word"
type_synonym u256 = "256 word"
type_synonym i32 = "32 word"
type_synonym i64 = "64 word"
type_synonym bytes = "u8 list"

definition max_value :: "'a::len word" where
  "max_value = - 1"

definition checked_add :: "'a::len word \<Rightarrow> 'a word \<Rightarrow> 'a word option" where
  "checked_add a b = (if unat a + unat b < 2 ^ LENGTH('a) then Some (a + b) else None)"

definition checked_sub :: "'a::len word \<Rightarrow> 'a word \<Rightarrow> 'a word option" where
  "checked_sub a b = (if b \<le> a then Some (a - b) else None)"

definition checked_mul :: "'a::len word \<Rightarrow> 'a word \<Rightarrow> 'a word option" where
  "checked_mul a b = (if unat a * unat b < 2 ^ LENGTH('a) then Some (a * b) else None)"

definition checked_div :: "'a::len word \<Rightarrow> 'a word \<Rightarrow> 'a word option" where
  "checked_div a b = (if b = 0 then None else Some (a div b))"

definition saturating_add :: "'a::len word \<Rightarrow> 'a word \<Rightarrow> 'a word" where
  "saturating_add a b = (if unat a + unat b < 2 ^ LENGTH('a) then a + b else max_value)"

definition saturating_sub :: "'a::len word \<Rightarrow> 'a word \<Rightarrow> 'a word" where
  "saturating_sub a b = (if b \<le> a then a - b else 0)"

definition saturating_mul :: "'a::len word \<Rightarrow> 'a word \<Rightarrow> 'a word" where
  "saturating_mul a b = (if unat a * unat b < 2 ^ LENGTH('a) then a * b else max_value)"

lemma unat_max_value [rust_arith]: "unat (max_value :: 'a::len word) = 2 ^ LENGTH('a) - 1"
  by (simp add: max_value_def unsigned_minus_1_eq_mask mask_eq_exp_minus_1)

lemma unat_u128: "unat (x :: u128) < 2 ^ 128"
  using unsigned_less [where 'a = nat and w = x] by simp

lemma unat_u32: "unat (x :: u32) < 2 ^ 32"
  using unsigned_less [where 'a = nat and w = x] by simp

lemma checked_add_Some_iff [rust_arith]:
  "checked_add a (b :: 'a::len word) = Some c \<longleftrightarrow> unat c = unat a + unat b"
proof
  assume "checked_add a b = Some c"
  then show "unat c = unat a + unat b"
    by (auto simp: checked_add_def unat_word_ariths split: if_splits)
next
  assume c: "unat c = unat a + unat b"
  then have "unat a + unat b < 2 ^ LENGTH('a)"
    by (metis unsigned_less)
  with c show "checked_add a b = Some c"
    by (auto simp: checked_add_def unat_word_ariths intro: word_unat_eq_iff [THEN iffD2])
qed

lemma checked_add_None_iff [rust_arith]:
  "checked_add a (b :: 'a::len word) = None \<longleftrightarrow> 2 ^ LENGTH('a) \<le> unat a + unat b"
  by (auto simp: checked_add_def)

lemma checked_sub_Some_iff [rust_arith]:
  "checked_sub a (b :: 'a::len word) = Some c \<longleftrightarrow> unat b + unat c = unat a"
proof
  assume "checked_sub a b = Some c"
  then show "unat b + unat c = unat a"
    by (auto simp: checked_sub_def unat_sub word_le_nat_alt split: if_splits)
next
  assume c: "unat b + unat c = unat a"
  then have "b \<le> a" by (simp add: word_le_nat_alt)
  with c show "checked_sub a b = Some c"
    by (auto simp: checked_sub_def unat_sub intro!: word_unat_eq_iff [THEN iffD2])
qed

lemma checked_sub_None_iff [rust_arith]:
  "checked_sub a (b :: 'a::len word) = None \<longleftrightarrow> unat a < unat b"
  by (auto simp: checked_sub_def word_le_nat_alt)

lemma unat_saturating_add [rust_arith]:
  "unat (saturating_add a (b :: 'a::len word)) = min (unat a + unat b) (2 ^ LENGTH('a) - 1)"
  by (auto simp: saturating_add_def unat_max_value unat_word_ariths)

lemma unat_saturating_sub [rust_arith]:
  "unat (saturating_sub a (b :: 'a::len word)) = unat a - unat b"
  by (auto simp: saturating_sub_def unat_sub word_le_nat_alt)

lemma unat_saturating_mul [rust_arith]:
  "unat (saturating_mul a b :: 'a::len word) = min (unat a * unat b) (2 ^ LENGTH('a) - 1)"
  by (auto simp: saturating_mul_def unat_word_ariths unat_max_value)

lemma saturating_sub_self [simp]: "saturating_sub a a = 0"
  by (simp add: saturating_sub_def)

lemma saturating_0 [simp]:
  "saturating_add a 0 = a" "saturating_sub a 0 = a" "saturating_add 0 a = a"
  by (simp_all add: saturating_add_def saturating_sub_def)

lemma word_eq_unat: "a = b \<longleftrightarrow> unat a = unat (b :: 'a::len word)"
  by (simp add: word_unat_eq_iff)

lemmas unat_order = word_le_nat_alt word_less_nat_alt

lemma unat_min: "unat (min a (b :: 'a::len word)) = min (unat a) (unat b)"
  by (simp add: min_def word_le_nat_alt)

lemma unat_max: "unat (max a (b :: 'a::len word)) = max (unat a) (unat b)"
  by (simp add: max_def word_le_nat_alt)

declare unat_min [rust_arith] unat_max [rust_arith]

lemma saturating_add_commute: "saturating_add a b = saturating_add b a"
  by (simp add: saturating_add_def add.commute)

lemma saturating_add_assoc:
  "saturating_add (saturating_add a b) c = saturating_add a (saturating_add b c)"
  by (simp add: word_eq_unat unat_saturating_add)

lemma saturating_add_left_commute:
  "saturating_add a (saturating_add b c) = saturating_add b (saturating_add a c)"
  by (metis saturating_add_assoc saturating_add_commute)

section \<open>Sums of finitely supported functions\<close>

text \<open>
  A ledger gives every account an amount, zero for almost all of them. Its total is the sum
  over the accounts with an amount; one entry changed changes the total by the difference.
\<close>

definition supp_sum :: "('a \<Rightarrow> nat) \<Rightarrow> nat" where
  "supp_sum f = sum f {a. f a \<noteq> 0}"

lemma supp_sum_superset:
  assumes "finite A" and "{a. f a \<noteq> 0} \<subseteq> A"
  shows "supp_sum f = sum f A"
  unfolding supp_sum_def using assms by (intro sum.mono_neutral_left) auto

lemma finite_supp_upd [simp]: "finite {a. (f(x := v)) a \<noteq> (0::nat)} \<longleftrightarrow> finite {a. f a \<noteq> 0}"
proof -
  have "{a. (f(x := v)) a \<noteq> 0} \<subseteq> insert x {a. f a \<noteq> 0}" "{a. f a \<noteq> 0} \<subseteq> insert x {a. (f(x := v)) a \<noteq> 0}"
    by auto
  then show ?thesis by (meson finite_insert finite_subset)
qed

lemma supp_sum_upd:
  assumes "finite {a. f a \<noteq> 0}"
  shows "supp_sum (f(x := v)) + f x = supp_sum f + v"
proof -
  let ?A = "insert x {a. f a \<noteq> 0}"
  have A: "finite ?A" using assms by simp
  have "supp_sum (f(x := v)) = sum (f(x := v)) ?A"
    by (rule supp_sum_superset [OF A]) auto
  also have "\<dots> = v + sum (f(x := v)) (?A - {x})"
    using A by (subst sum.remove [of _ x]) auto
  also have "sum (f(x := v)) (?A - {x}) = sum f (?A - {x})"
    by (intro sum.cong) auto
  finally have new: "supp_sum (f(x := v)) = v + sum f (?A - {x})" .
  have "supp_sum f = sum f ?A"
    by (rule supp_sum_superset [OF A]) auto
  also have "\<dots> = f x + sum f (?A - {x})"
    using A by (subst sum.remove [of _ x]) auto
  finally show ?thesis using new by simp
qed

lemma supp_sum_ge: "finite {a. f a \<noteq> 0} \<Longrightarrow> f x \<le> supp_sum f"
  by (cases "f x = 0") (auto simp: supp_sum_def intro: member_le_sum)

lemma supp_sum_ge2:
  assumes "finite {a. f a \<noteq> 0}" and "x \<noteq> y"
  shows "f x + f y \<le> supp_sum f"
proof -
  have "supp_sum (f(x := 0)) + f x = supp_sum f"
    using supp_sum_upd [OF assms(1), of x 0] by simp
  moreover have "(f(x := 0)) y \<le> supp_sum (f(x := 0))"
    using assms by (intro supp_sum_ge) (simp only: finite_supp_upd)
  ultimately show ?thesis using assms(2) by simp
qed

section \<open>Binary search in a slice\<close>

text \<open>
  The loop of the standard library's \<open>binary_search_by_key\<close>. The result is \<open>Inr i\<close> for
  Rust's \<open>Ok(i)\<close> and \<open>Inl i\<close> for \<open>Err(i)\<close>, the index where the key can be inserted.
\<close>

function bsearch_loop :: "('a \<Rightarrow> 'k::linorder) \<Rightarrow> 'a list \<Rightarrow> 'k \<Rightarrow> nat \<Rightarrow> nat \<Rightarrow> nat + nat" where
  "bsearch_loop key xs k left right =
     (if left < right then
        let mid = left + (right - left) div 2 in
        if key (xs ! mid) < k then bsearch_loop key xs k (mid + 1) right
        else if k < key (xs ! mid) then bsearch_loop key xs k left mid
        else Inr mid
      else Inl left)"
  by pat_completeness auto
termination
  by (relation "measure (\<lambda>(key, xs, k, left, right). right - left)") auto

declare bsearch_loop.simps [simp del]

definition binary_search_by_key :: "('a \<Rightarrow> 'k::linorder) \<Rightarrow> 'a list \<Rightarrow> 'k \<Rightarrow> nat + nat" where
  "binary_search_by_key key xs k = bsearch_loop key xs k 0 (length xs)"

abbreviation binary_search :: "'a::linorder list \<Rightarrow> 'a \<Rightarrow> nat + nat" where
  "binary_search \<equiv> binary_search_by_key (\<lambda>x. x)"

lemma bsearch_loop_sound:
  assumes "left \<le> right" and "right \<le> length xs"
    and "\<And>i. i < left \<Longrightarrow> key (xs ! i) < k" and "\<And>i. right \<le> i \<Longrightarrow> i < length xs \<Longrightarrow> k < key (xs ! i)"
    and "sorted (map key xs)"
  shows "case bsearch_loop key xs k left right of
      Inr i \<Rightarrow> i < length xs \<and> key (xs ! i) = k
    | Inl i \<Rightarrow> i \<le> length xs \<and> (\<forall>j < i. key (xs ! j) < k) \<and> (\<forall>j. i \<le> j \<longrightarrow> j < length xs \<longrightarrow> k < key (xs ! j))"
  using assms
proof (induction key xs k left right rule: bsearch_loop.induct)
  case (1 key xs k left right)
  show ?case
  proof (cases "left < right")
    case False
    with "1.prems" show ?thesis by (subst bsearch_loop.simps) auto
  next
    case True
    define mid where "mid = left + (right - left) div 2"
    have mid: "left \<le> mid" "mid < right" "mid < length xs"
      using True "1.prems"(2) by (auto simp: mid_def)
    have mono: "key (xs ! i) \<le> key (xs ! j)" if "i \<le> j" "j < length xs" for i j
      using "1.prems"(5) that by (auto dest!: sorted_nth_mono [where i = i and j = j])
    consider "key (xs ! mid) < k" | "k < key (xs ! mid)" | "key (xs ! mid) = k" by force
    then show ?thesis
    proof cases
      case 1
      have "key (xs ! i) < k" if "i < mid + 1" for i
        using mono [of i mid] mid 1 that by auto
      with "1.IH"(1) [OF True mid_def 1] "1.prems" mid True 1 show ?thesis
        by (subst bsearch_loop.simps) (simp add: Let_def flip: mid_def)
    next
      case 2
      have "k < key (xs ! i)" if "mid \<le> i" "i < length xs" for i
        using mono [of mid i] mid 2 that by auto
      moreover have nl: "\<not> key (xs ! mid) < k" using 2 by simp
      ultimately show ?thesis using "1.IH"(2) [OF True mid_def nl 2] "1.prems" mid True 2
        by (subst bsearch_loop.simps) (simp add: Let_def flip: mid_def)
    next
      case 3
      with mid True show ?thesis
        by (subst bsearch_loop.simps) (simp add: Let_def flip: mid_def)
    qed
  qed
qed

lemma binary_search_by_key_Inr:
  assumes "sorted (map key xs)" and "binary_search_by_key key xs k = Inr i"
  shows "i < length xs" "key (xs ! i) = k"
  using bsearch_loop_sound [of 0 "length xs" xs key k] assms
  by (auto simp: binary_search_by_key_def)

lemma binary_search_by_key_Inl:
  assumes "sorted (map key xs)" and "binary_search_by_key key xs k = Inl i"
  shows "i \<le> length xs" "\<And>j. j < i \<Longrightarrow> key (xs ! j) < k"
    "\<And>j. i \<le> j \<Longrightarrow> j < length xs \<Longrightarrow> k < key (xs ! j)"
  using bsearch_loop_sound [of 0 "length xs" xs key k] assms
  by (auto simp: binary_search_by_key_def)

lemma binary_search_found_iff:
  assumes "sorted (map key xs)"
  shows "(\<exists>i. binary_search_by_key key xs k = Inr i) \<longleftrightarrow> k \<in> key ` set xs"
proof
  assume "\<exists>i. binary_search_by_key key xs k = Inr i"
  then show "k \<in> key ` set xs"
    using binary_search_by_key_Inr [OF assms] by (metis image_eqI nth_mem)
next
  assume "k \<in> key ` set xs"
  then obtain j where j: "j < length xs" "key (xs ! j) = k"
    by (auto simp: in_set_conv_nth)
  show "\<exists>i. binary_search_by_key key xs k = Inr i"
  proof (cases "binary_search_by_key key xs k")
    case (Inl i)
    with j show ?thesis
      using binary_search_by_key_Inl [OF assms Inl] by (metis leI less_irrefl)
  qed auto
qed

text \<open>A key that is not found is inserted where the search ended, which keeps the list sorted.\<close>

lemma binary_search_insert:
  assumes "sorted_wrt (<) xs" and "binary_search xs k = Inl i"
  shows "sorted_wrt (<) (take i xs @ k # drop i xs)" and "set (take i xs @ k # drop i xs) = insert k (set xs)"
    and "k \<notin> set xs"
proof -
  have "sorted xs" using assms(1) by (rule strict_sorted_imp_sorted)
  then have srt: "sorted (map (\<lambda>x. x) xs)" by simp
  note srch = binary_search_by_key_Inl [OF srt assms(2)]
  have below: "x < k" if "x \<in> set (take i xs)" for x
    using that srch(2) by (auto simp: in_set_conv_nth)
  have above: "k < x" if x: "x \<in> set (drop i xs)" for x
  proof -
    from x obtain j where "j < length xs - i" "x = xs ! (i + j)" using srch(1) by (auto simp: in_set_conv_nth)
    then show ?thesis using srch(3) [of "i + j"] by simp
  qed
  have split: "sorted_wrt (<) (take i xs @ drop i xs)" using assms(1) by simp
  then show "sorted_wrt (<) (take i xs @ k # drop i xs)"
    unfolding sorted_wrt_append using below above by (auto dest: below above intro: less_trans)
  have "set xs = set (take i xs) \<union> set (drop i xs)" by (metis append_take_drop_id set_append)
  with below above show "set (take i xs @ k # drop i xs) = insert k (set xs)" and "k \<notin> set xs" by auto
qed

section \<open>Storage operations\<close>

text \<open>
  A storage operation takes the storage and returns a value or an error with the storage
  after it. \<open>transactional\<close> is the storage layer of the attribute of that name:
  an error restores the storage the function started from.
\<close>

type_synonym ('s, 'e, 'a) storage_op = "'s \<Rightarrow> ('e + 'a) \<times> 's"

definition transactional :: "('s, 'e, 'a) storage_op \<Rightarrow> ('s, 'e, 'a) storage_op" where
  "transactional f s = (case f s of (Inl e, _) \<Rightarrow> (Inl e, s) | (Inr x, s') \<Rightarrow> (Inr x, s'))"

lemma transactional_Inl [simp]:
  "transactional f s = (Inl e, t) \<longleftrightarrow> t = s \<and> (\<exists>s'. f s = (Inl e, s'))"
  by (auto simp: transactional_def split: sum.splits prod.splits)

lemma transactional_Inr [simp]:
  "transactional f s = (Inr x, t) \<longleftrightarrow> f s = (Inr x, t)"
  by (auto simp: transactional_def split: sum.splits prod.splits)

lemma fst_transactional [simp]: "fst (transactional f s) = fst (f s)"
  by (auto simp: transactional_def split: sum.splits prod.splits)

definition ok_or :: "'a option \<Rightarrow> 'e \<Rightarrow> 'e + 'a" where
  "ok_or x e = (case x of None \<Rightarrow> Inl e | Some a \<Rightarrow> Inr a)"

lemma ok_or_simps [simp]: "ok_or None e = Inl e" "ok_or (Some a) e = Inr a"
  by (simp_all add: ok_or_def)

lemma ok_or_iff [simp]:
  "ok_or x e = Inr a \<longleftrightarrow> x = Some a" "ok_or x e = Inl e' \<longleftrightarrow> x = None \<and> e' = e"
  by (auto simp: ok_or_def split: option.splits)

definition unwrap_or :: "'a option \<Rightarrow> 'a \<Rightarrow> 'a" where
  "unwrap_or x d = (case x of None \<Rightarrow> d | Some a \<Rightarrow> a)"

lemma unwrap_or_simps [simp]: "unwrap_or None d = d" "unwrap_or (Some a) d = a"
  by (simp_all add: unwrap_or_def)

text \<open>
  \<open>bind_op m k\<close> is Rust's \<open>m?\<close> followed by the rest of the function: an error returns at
  once, with the storage as the failing operation left it.
\<close>

definition ok :: "'a \<Rightarrow> ('s, 'e, 'a) storage_op" where
  "ok x s = (Inr x, s)"

definition fail :: "'e \<Rightarrow> ('s, 'e, 'a) storage_op" where
  "fail e s = (Inl e, s)"

definition pure :: "'e + 'a \<Rightarrow> ('s, 'e, 'a) storage_op" where
  "pure r s = (r, s)"

definition ensure :: "bool \<Rightarrow> 'e \<Rightarrow> ('s, 'e, unit) storage_op" where
  "ensure P e s = (if P then (Inr (), s) else (Inl e, s))"

definition bind_op ::
  "('s, 'e, 'a) storage_op \<Rightarrow> ('a \<Rightarrow> ('s, 'e, 'b) storage_op) \<Rightarrow> ('s, 'e, 'b) storage_op" where
  "bind_op m k s = (case m s of (Inl e, s') \<Rightarrow> (Inl e, s') | (Inr x, s') \<Rightarrow> k x s')"

definition modify_op :: "('s \<Rightarrow> 's) \<Rightarrow> ('s, 'e, unit) storage_op" where
  "modify_op f s = (Inr (), f s)"

named_theorems op_simps \<open>evaluation and inversion of storage operations\<close>

lemma bind_op_Inr [op_simps]:
  "bind_op m k s = (Inr y, t) \<longleftrightarrow> (\<exists>x s'. m s = (Inr x, s') \<and> k x s' = (Inr y, t))"
  by (auto simp: bind_op_def split: prod.splits sum.splits)

lemma bind_op_Inl [op_simps]:
  "bind_op m k s = (Inl e, t) \<longleftrightarrow>
     m s = (Inl e, t) \<or> (\<exists>x s'. m s = (Inr x, s') \<and> k x s' = (Inl e, t))"
  by (auto simp: bind_op_def split: prod.splits sum.splits)

lemma ok_iff [op_simps]: "ok x s = (r, t) \<longleftrightarrow> r = Inr x \<and> t = s"
  by (auto simp: ok_def)

lemma fail_iff [op_simps]: "fail e s = (r, t) \<longleftrightarrow> r = Inl e \<and> t = s"
  by (auto simp: fail_def)

lemma pure_iff [op_simps]: "pure r' s = (r, t) \<longleftrightarrow> r' = r \<and> t = s"
  by (auto simp: pure_def)

lemma ensure_iff [op_simps]:
  "ensure P e s = (Inr u, t) \<longleftrightarrow> P \<and> t = s" "ensure P e s = (Inl e', t) \<longleftrightarrow> \<not> P \<and> e' = e \<and> t = s"
  by (auto simp: ensure_def)

lemma modify_op_iff [op_simps]: "modify_op f s = (r, t) \<longleftrightarrow> r = Inr () \<and> t = f s"
  by (auto simp: modify_op_def)

lemmas op_defs = bind_op_def ok_def fail_def pure_def ensure_def modify_op_def

text \<open>The result of a sequence of operations, without the storage it leaves.\<close>

lemma bind_op_fst:
  "fst (bind_op m k s) = (case fst (m s) of Inl e \<Rightarrow> Inl e | Inr x \<Rightarrow> fst (k x (snd (m s))))"
  by (simp add: bind_op_def split: prod.splits sum.splits)

lemma op_fst_simps:
  "fst (ok x s) = Inr x" "fst (pure r s) = r" "fst (modify_op f s) = Inr ()" "fst (fail e s) = Inl e"
  "fst (ensure P e s) = (if P then Inr () else Inl e)"
  "snd (ok x s) = s" "snd (pure r s) = s" "snd (modify_op f s) = f s" "snd (ensure P e s) = s" "snd (fail e s) = s"
  by (simp_all add: op_defs)

lemmas op_fst = bind_op_fst op_fst_simps

end
