(* ===== verification/Primitives.thy ===== *)
theory Primitives
  imports Prelude
begin

text \<open>
  The types the pallets share: the identifiers and time units of \<^verbatim>\<open>primitives/src/lib.rs\<close>,
  the error enumerations of the modelled pallets, and the parts of the framework's
  \<open>DispatchError\<close>, origins and currency vocabulary their code uses.

  An EVM address is its 20 bytes and an account identifier its 32 bytes, both in the order in
  which the code slices them.
\<close>

section \<open>Numbers, addresses and identifiers\<close>

type_synonym balance = u128
type_synonym block_number = u32
type_synonym era_index = u32
type_synonym evm_address = bytes
type_synonym account_id32 = bytes

definition default_h160 :: evm_address where
  "default_h160 = replicate 20 0"

datatype token_symbol = REEF | RUSD

datatype currency_id = Token token_symbol | DEXShare token_symbol token_symbol | ERC20 evm_address

fun token_symbol_as_u8 :: "token_symbol \<Rightarrow> u8" where
  "token_symbol_as_u8 REEF = 0"
| "token_symbol_as_u8 RUSD = 1"

definition token_symbol_try_from :: "u8 \<Rightarrow> token_symbol option" where
  "token_symbol_try_from v = (if v = 0 then Some REEF else if v = 1 then Some RUSD else None)"

fun is_token_currency_id :: "currency_id \<Rightarrow> bool" where
  "is_token_currency_id (Token _) = True"
| "is_token_currency_id _ = False"

fun is_dex_share_currency_id :: "currency_id \<Rightarrow> bool" where
  "is_dex_share_currency_id (DEXShare _ _) = True"
| "is_dex_share_currency_id _ = False"

fun split_dex_share_currency_id :: "currency_id \<Rightarrow> (currency_id \<times> currency_id) option" where
  "split_dex_share_currency_id (DEXShare t0 t1) = Some (Token t0, Token t1)"
| "split_dex_share_currency_id _ = None"

fun join_dex_share_currency_id :: "currency_id \<Rightarrow> currency_id \<Rightarrow> currency_id option" where
  "join_dex_share_currency_id (Token t0) (Token t1) = Some (DEXShare t0 t1)"
| "join_dex_share_currency_id _ _ = None"

text \<open>
  \<open>TryFrom<[u8; 32]>\<close> and \<open>From<CurrencyId>\<close>: the encoding of a currency in the argument of a
  pre-deployed contract. The slice given to the decoder has 32 bytes by its type.
\<close>

definition currency_id_try_from :: "bytes \<Rightarrow> currency_id option" where
  "currency_id_try_from v =
     (if take 29 v \<noteq> replicate 29 0 then None
      else if v ! 29 = 0 \<and> v ! 31 = 0 then map_option Token (token_symbol_try_from (v ! 30))
      else if v ! 29 = 1 then
        (case token_symbol_try_from (v ! 30) of
           None \<Rightarrow> None
         | Some left \<Rightarrow>
             (case token_symbol_try_from (v ! 31) of
                None \<Rightarrow> None
              | Some right \<Rightarrow> Some (DEXShare left right)))
      else None)"

fun currency_id_into :: "currency_id \<Rightarrow> bytes" where
  "currency_id_into (Token t) = (replicate 32 0)[30 := token_symbol_as_u8 t]"
| "currency_id_into (DEXShare l r) =
     (replicate 32 0)[29 := 1, 30 := token_symbol_as_u8 l, 31 := token_symbol_as_u8 r]"
| "currency_id_into _ = replicate 32 0"

datatype reserve_identifier =
  EvmStorageDeposit | EvmDeveloperDeposit | TransactionPayment | TransactionPaymentDeposit | RI_Count

text \<open>The derived order of the enumeration is the order of its discriminants.\<close>

fun reserve_identifier_as_u32 :: "reserve_identifier \<Rightarrow> u32" where
  "reserve_identifier_as_u32 EvmStorageDeposit = 0"
| "reserve_identifier_as_u32 EvmDeveloperDeposit = 1"
| "reserve_identifier_as_u32 TransactionPayment = 2"
| "reserve_identifier_as_u32 TransactionPaymentDeposit = 3"
| "reserve_identifier_as_u32 RI_Count = 4"

lemma reserve_identifier_inj: "reserve_identifier_as_u32 a = reserve_identifier_as_u32 b \<Longrightarrow> a = b"
  by (cases a; cases b) simp_all

instantiation reserve_identifier :: linorder
begin

definition less_eq_reserve_identifier :: "reserve_identifier \<Rightarrow> reserve_identifier \<Rightarrow> bool" where
  "less_eq_reserve_identifier a b \<longleftrightarrow> reserve_identifier_as_u32 a \<le> reserve_identifier_as_u32 b"

definition less_reserve_identifier :: "reserve_identifier \<Rightarrow> reserve_identifier \<Rightarrow> bool" where
  "less_reserve_identifier a b \<longleftrightarrow> reserve_identifier_as_u32 a < reserve_identifier_as_u32 b"

instance
proof
  fix a b :: reserve_identifier
  show "a \<le> b \<Longrightarrow> b \<le> a \<Longrightarrow> a = b"
    by (auto simp: less_eq_reserve_identifier_def intro: reserve_identifier_inj)
qed (auto simp: less_eq_reserve_identifier_def less_reserve_identifier_def)

end

section \<open>System contracts\<close>

definition SYSTEM_CONTRACT_ADDRESS_PREFIX :: bytes where "SYSTEM_CONTRACT_ADDRESS_PREFIX = replicate 11 0"

definition NETWORK_CONTRACT_START :: u64 where "NETWORK_CONTRACT_START = 0x1000"

section \<open>Time and amounts\<close>

definition SECS_PER_BLOCK :: u64 where "SECS_PER_BLOCK = 10"

definition MINUTES :: block_number where "MINUTES = 60 div ucast SECS_PER_BLOCK"

definition HOURS :: block_number where "HOURS = MINUTES * 60"

definition DAYS :: block_number where "DAYS = HOURS * 24"

definition DOLLARS :: balance where "DOLLARS = 1000000000000000000"

definition REEF_unit :: balance where "REEF_unit = DOLLARS"

lemma DAYS_eq [simp]: "DAYS = 8640"
  by (simp add: DAYS_def HOURS_def MINUTES_def SECS_PER_BLOCK_def)

section \<open>Origins and errors\<close>

datatype 'acc origin = Root | Signed 'acc | NoneOrigin

datatype arithmetic_error = AE_Underflow | AE_Overflow | AE_DivisionByZero

datatype token_error = TE_FundsUnavailable | TE_OnlyProvider | TE_BelowMinimum | TE_Frozen | TE_UnknownAsset

datatype tokens_error =
  TK_BalanceTooLow | TK_AmountIntoBalanceFailed | TK_LiquidityRestrictions | TK_MaxLocksExceeded
| TK_KeepAlive | TK_ExistentialDeposit | TK_DeadAccount | TK_TooManyReserves

datatype currencies_error =
  CU_AmountIntoBalanceFailed | CU_BalanceTooLow | CU_ERC20InvalidOperation | CU_EvmAccountNotFound
| CU_RealOriginNotFound | CU_DepositFailed

datatype evm_accounts_error =
  AccountIdHasMapped | EthAddressHasMapped | BadSignature | InvalidSignature | NonZeroRefCount
| StillHasActiveReserved | NumOverflow | VecInsufficientCapacity

datatype poc_error =
  AlreadyCandidate | NotCandidate | CannotLeave | MaxCandidatesReached | AlreadyCommitted
| CommitmentNotFound | NotCommitted | CannotWithdrawLocked | InsufficientAmount | OverSubscribed
| NoCommitmentsFound

datatype evm_bridge_error =
  ExecutionFail | ExecutionRevert | ExecutionFatal | ExecutionError | InvalidReturnValue

datatype evm_error =
  AddressNotMapped | ContractNotFound | NoPermission | NumOutOfBound | StorageExceedsStorageLimit
| ContractDevelopmentNotEnabled | ContractDevelopmentAlreadyEnabled | ContractAlreadyDeployed
| ContractExceedsMaxCodeSize | OutOfStorage | ChargeFeeFailed | ConflictContractAddress

datatype staking_error =
  NotController | NotStash | AlreadyBonded | AlreadyPaired | EmptyTargets | DuplicateIndex
| InvalidSlashIndex | InsufficientBond | NoMoreChunks | NoUnlockChunk | FundedTarget
| InvalidEraToReward | InvalidNumberOfNominations | NotSortedAndUnique | AlreadyClaimed
| IncorrectHistoryDepth | IncorrectSlashingSpans | BadState | TooManyTargets | BadTarget
| CannotChillOther | TooManyNominators | TooManyValidators | CommissionTooLow | BoundNotMet

datatype module_error =
  Tokens_Error tokens_error
| Currencies_Error currencies_error
| EvmAccounts_Error evm_accounts_error
| Poc_Error poc_error
| EvmBridge_Error evm_bridge_error
| Evm_Error evm_error
| Staking_Error staking_error
| Foreign_Error u8 u8

datatype dispatch_error =
  Other string | CannotLookup | BadOrigin | Module module_error | ConsumerRemaining | NoProviders
| TooManyConsumers | Token_Err token_error | Arithmetic arithmetic_error | Transactional_LimitReached

type_synonym 'a result = "dispatch_error + 'a"

fun ensure_signed :: "'acc origin \<Rightarrow> 'acc result" where
  "ensure_signed (Signed who) = Inr who"
| "ensure_signed _ = Inl BadOrigin"

fun ensure_root :: "'acc origin \<Rightarrow> unit result" where
  "ensure_root Root = Inr ()"
| "ensure_root _ = Inl BadOrigin"

lemma ensure_signed_iff [simp]:
  "ensure_signed o' = Inr who \<longleftrightarrow> o' = Signed who"
  by (cases o') auto

lemma ensure_root_iff [simp]: "ensure_root o' = Inr u \<longleftrightarrow> o' = Root"
  by (cases o') auto

datatype existence_requirement = KeepAlive | AllowDeath

datatype balance_status = Free | Reserved

section \<open>Currency identifiers round trip\<close>

lemma token_symbol_roundtrip [simp]: "token_symbol_try_from (token_symbol_as_u8 t) = Some t"
  by (cases t) (simp_all add: token_symbol_try_from_def)

lemma nth_zeros_upd [simp]:
  "i < 32 \<Longrightarrow> (replicate 32 (0::u8))[j := x] ! i = (if i = j then x else 0)"
  by (auto simp: nth_list_update)

end
