(* ===== verification/Currency_Contract.thy ===== *)
theory Currency_Contract
  imports Primitives
begin

text \<open>
  The currency a pallet is configured with, as the operations the pallets of this repository call
  (\<open>Currency\<close> and \<open>ReservableCurrency\<close> of the framework), and the contract they rely on.

  A withdrawal returns a negative imbalance and a deposit a positive one; both are kept as their
  amount, and the drop of the imbalance is an operation of its own, since the callers drop the
  object as soon as they get it.

  The locale \<open>currency_contract\<close> states what the framework documents of these operations on states
  that satisfy the currency's own invariant: an operation that succeeds keeps the invariant, moves
  exactly the amount asked for, and touches nobody else; a failing deposit changes nothing. The
  adapter of the tokens pallet satisfies it (theory \<open>Tokens_Currency\<close>).
\<close>

record ('acc, 's) currency =
  cur_withdraw :: "'acc \<Rightarrow> balance \<Rightarrow> existence_requirement \<Rightarrow> ('s, dispatch_error, balance) storage_op"
  cur_deposit_into_existing :: "'acc \<Rightarrow> balance \<Rightarrow> ('s, dispatch_error, balance) storage_op"
  cur_drop_negative :: "balance \<Rightarrow> 's \<Rightarrow> 's"
  cur_drop_positive :: "balance \<Rightarrow> 's \<Rightarrow> 's"
  cur_reserve :: "'acc \<Rightarrow> balance \<Rightarrow> ('s, dispatch_error, unit) storage_op"
  cur_unreserve :: "'acc \<Rightarrow> balance \<Rightarrow> 's \<Rightarrow> balance \<times> 's"
  cur_total_issuance :: "'s \<Rightarrow> balance"
  cur_free_balance :: "'s \<Rightarrow> 'acc \<Rightarrow> balance"
  cur_reserved_balance :: "'s \<Rightarrow> 'acc \<Rightarrow> balance"

text \<open>An operation whose imbalance is dropped at once, as in \<open>T::Currency::withdraw(..)?;\<close>.\<close>

definition withdraw_and_drop ::
  "('acc, 's) currency \<Rightarrow> 'acc \<Rightarrow> balance \<Rightarrow> existence_requirement \<Rightarrow> ('s, dispatch_error, unit) storage_op" where
  "withdraw_and_drop cur who amount er =
     bind_op (cur_withdraw cur who amount er) (\<lambda>n. modify_op (cur_drop_negative cur n))"

definition deposit_and_drop ::
  "('acc, 's) currency \<Rightarrow> 'acc \<Rightarrow> balance \<Rightarrow> ('s, dispatch_error, unit) storage_op" where
  "deposit_and_drop cur who amount =
     bind_op (cur_deposit_into_existing cur who amount) (\<lambda>n. modify_op (cur_drop_positive cur n))"

locale currency_contract =
  fixes cur :: "('acc, 's) currency" and cinv :: "'s \<Rightarrow> bool"
  assumes withdraw_law: "cinv s \<Longrightarrow> withdraw_and_drop cur who v er s = (Inr u, t) \<Longrightarrow>
      cinv t \<and> unat (cur_total_issuance cur t) + unat v = unat (cur_total_issuance cur s) \<and>
      (\<forall>a. unat (cur_free_balance cur t a) + (if a = who then unat v else 0) = unat (cur_free_balance cur s a)) \<and>
      cur_reserved_balance cur t = cur_reserved_balance cur s"
    and deposit_law: "cinv s \<Longrightarrow> deposit_and_drop cur who v s = (Inr u, t) \<Longrightarrow>
      cinv t \<and> unat (cur_total_issuance cur t) = unat (cur_total_issuance cur s) + unat v \<and>
      (\<forall>a. unat (cur_free_balance cur t a) = unat (cur_free_balance cur s a) + (if a = who then unat v else 0)) \<and>
      cur_reserved_balance cur t = cur_reserved_balance cur s"
    and deposit_error_law: "cinv s \<Longrightarrow> deposit_and_drop cur who v s = (Inl e, t) \<Longrightarrow> t = s"
    and reserve_law: "cinv s \<Longrightarrow> cur_reserve cur who v s = (Inr u, t) \<Longrightarrow>
      cinv t \<and> cur_total_issuance cur t = cur_total_issuance cur s \<and>
      (\<forall>a. unat (cur_free_balance cur t a) + (if a = who then unat v else 0) = unat (cur_free_balance cur s a)) \<and>
      (\<forall>a. unat (cur_reserved_balance cur t a) = unat (cur_reserved_balance cur s a) + (if a = who then unat v else 0))"
    and unreserve_law: "cinv s \<Longrightarrow> cur_unreserve cur who v s = (r, t) \<Longrightarrow>
      cinv t \<and> cur_total_issuance cur t = cur_total_issuance cur s \<and>
      unat r = unat v - unat (cur_reserved_balance cur s who) \<and>
      (\<forall>a. unat (cur_free_balance cur t a) =
         unat (cur_free_balance cur s a) + (if a = who then unat v - unat r else 0)) \<and>
      (\<forall>a. unat (cur_reserved_balance cur t a) + (if a = who then unat v - unat r else 0) =
         unat (cur_reserved_balance cur s a))"
begin

lemma unreserve_full:
  assumes "cinv s" and "cur_unreserve cur who v s = (r, t)" and "v \<le> cur_reserved_balance cur s who"
  shows "r = 0" and "unat (cur_free_balance cur t who) = unat (cur_free_balance cur s who) + unat v"
    and "unat (cur_reserved_balance cur t who) + unat v = unat (cur_reserved_balance cur s who)"
proof -
  note law = unreserve_law [OF assms(1,2)]
  have "unat r = 0" using law assms(3) by (simp add: word_le_nat_alt)
  then show "r = 0" by (simp add: word_eq_unat)
  with law show "unat (cur_free_balance cur t who) = unat (cur_free_balance cur s who) + unat v"
    and "unat (cur_reserved_balance cur t who) + unat v = unat (cur_reserved_balance cur s who)"
    by (auto dest: spec [of _ who])
qed

lemma reserve_unreserve:
  assumes "cinv s" and "cur_reserve cur who v s = (Inr u, s1)" and "cur_unreserve cur who v s1 = (r, t)"
  shows "r = 0" and "cur_free_balance cur t who = cur_free_balance cur s who"
    and "cur_reserved_balance cur t who = cur_reserved_balance cur s who"
proof -
  note law = reserve_law [OF assms(1,2)]
  then have "v \<le> cur_reserved_balance cur s1 who" by (simp add: word_le_nat_alt)
  note full = unreserve_full [OF conjunct1 [OF law] assms(3) this]
  show "r = 0" by (rule full)
  show "cur_free_balance cur t who = cur_free_balance cur s who"
    "cur_reserved_balance cur t who = cur_reserved_balance cur s who"
    using full law by (auto simp: word_eq_unat dest: spec [of _ who])
qed

end

end
