(* ===== verification/Poc.thy ===== *)
theory Poc
  imports Currency_Contract
begin

text \<open>
  The proof-of-commitment pallet (\<^verbatim>\<open>modules/poc/src/lib.rs\<close>): accounts lock funds for a long period and
  vote with them for the technical council; candidates reserve a deposit; every era the winners are
  elected and rewarded.

  The currency is an argument (theory \<open>Currency_Contract\<close>), as are the fixed-point fractions
  (\<open>Perbill\<close>), the receiver of membership changes, and the order in which the storage iterates over
  the commitments. The block number is an argument of the calls that read it.
\<close>

section \<open>Data and storage\<close>

datatype lock_state = Committed | Unbonding block_number

datatype lock_duration = OneMonth | OneYear | TenYears

record 'acc commitment =
  state :: lock_state
  duration :: lock_duration
  amount :: balance
  candidate :: 'acc

record era =
  era_idx :: era_index
  era_start :: block_number

datatype 'acc poc_event =
  CandidateAdded 'acc
| CandidateRemoved 'acc
| CommittedEv 'acc balance
| FundsAdded 'acc balance
| UnbondingStarted 'acc balance
| BondWithdrawn 'acc balance
| Voted 'acc 'acc balance
| VoterRewarded era_index 'acc balance
| Elected era_index 'acc balance

record ('acc, 's, 'm) poc_state =
  CurrentEra :: era
  VoterRewards :: "era_index \<times> 'acc \<rightharpoonup> balance"
  Commitments :: "'acc \<rightharpoonup> 'acc commitment"
  Members :: "'acc list"
  Candidates :: "'acc \<rightharpoonup> balance"
  CandidatesCount :: u32
  LockedAmount :: balance
  poc_events :: "'acc poc_event list"
  poc_currency :: 's
  poc_collective :: 'm

record ('acc, 'p, 'm) poc_config =
  EraDuration :: block_number
  NominatorAPY :: 'p
  CouncilInflation :: 'p
  CandidacyDeposit :: balance
  MinLockAmount :: balance
  TotalLockedCap :: balance
  MaxCandidates :: u32
  MaxMembers :: u32
  set_members_sorted :: "'acc list \<Rightarrow> 'acc list \<Rightarrow> 'm \<Rightarrow> 'm"
  perbill_from_rational :: "u32 \<Rightarrow> u32 \<Rightarrow> 'p"
  perbill_mul :: "'p \<Rightarrow> balance \<Rightarrow> balance"

type_synonym ('acc, 's, 'm, 'a) poc_op = "(('acc, 's, 'm) poc_state, dispatch_error, 'a) storage_op"

abbreviation poc_fail :: "poc_error \<Rightarrow> dispatch_error" where
  "poc_fail e \<equiv> Module (Poc_Error e)"

definition first_era :: era where
  "first_era = \<lparr>era_idx = 0, era_start = 0\<rparr>"

definition poc_deposit_event ::
  "'acc poc_event \<Rightarrow> ('acc, 's, 'm) poc_state \<Rightarrow> ('acc, 's, 'm) poc_state" where
  "poc_deposit_event e s = s\<lparr>poc_events := poc_events s @ [e]\<rparr>"

definition on_currency :: "('s, dispatch_error, 'a) storage_op \<Rightarrow> ('acc, 's, 'm, 'a) poc_op" where
  "on_currency f s = (case f (poc_currency s) of (r, x) \<Rightarrow> (r, s\<lparr>poc_currency := x\<rparr>))"

section \<open>Votes and rewards\<close>

fun voting_multiplier :: "lock_duration \<Rightarrow> balance" where
  "voting_multiplier OneMonth = 1"
| "voting_multiplier OneYear = 10"
| "voting_multiplier TenYears = 100"

definition voting_weight :: "'acc commitment \<Rightarrow> balance" where
  "voting_weight c =
     (if state c \<noteq> Committed then 0 else amount c * voting_multiplier (duration c))"

definition proportion_of_era_to_year :: "('acc, 'p, 'm) poc_config \<Rightarrow> 'p" where
  "proportion_of_era_to_year cfg = perbill_from_rational cfg (EraDuration cfg) (365 * DAYS)"

definition era_voter_reward :: "('acc, 'p, 'm) poc_config \<Rightarrow> 'acc commitment \<Rightarrow> balance" where
  "era_voter_reward cfg c =
     (if state c \<noteq> Committed then 0
      else case duration c of
        OneMonth \<Rightarrow> 0
      | _ \<Rightarrow> perbill_mul cfg (NominatorAPY cfg) (perbill_mul cfg (proportion_of_era_to_year cfg) (amount c)))"

definition era_council_rewards :: "('acc, 'p, 'm) poc_config \<Rightarrow> ('acc, 's) currency \<Rightarrow> 's \<Rightarrow> balance" where
  "era_council_rewards cfg cur x =
     (let total_supply = cur_total_issuance cur x;
          council_apy = perbill_mul cfg (CouncilInflation cfg) total_supply
      in perbill_mul cfg (proportion_of_era_to_year cfg) council_apy)"

section \<open>Calls\<close>

definition start_candidacy ::
  "('acc, 'p, 'm) poc_config \<Rightarrow> ('acc, 's) currency \<Rightarrow> 'acc origin \<Rightarrow> ('acc, 's, 'm, unit) poc_op" where
  "start_candidacy cfg cur orig =
     bind_op (pure (ensure_signed orig)) (\<lambda>who s.
     bind_op (ensure (Candidates s who = None) (poc_fail AlreadyCandidate)) (\<lambda>_.
     let n_candidates = CandidatesCount s in
     bind_op (ensure (n_candidates < MaxCandidates cfg) (poc_fail MaxCandidatesReached)) (\<lambda>_.
     let deposit = CandidacyDeposit cfg in
     bind_op (on_currency (cur_reserve cur who deposit)) (\<lambda>_.
     bind_op (modify_op (\<lambda>s. s\<lparr>Candidates := (Candidates s)(who \<mapsto> deposit)\<rparr>)) (\<lambda>_.
     bind_op (modify_op (\<lambda>s. s\<lparr>CandidatesCount := saturating_add n_candidates 1\<rparr>)) (\<lambda>_.
     modify_op (poc_deposit_event (CandidateAdded who))))))) s)"

definition stop_candidacy ::
  "('acc::linorder, 's) currency \<Rightarrow> 'acc origin \<Rightarrow> ('acc, 's, 'm, unit) poc_op" where
  "stop_candidacy cur orig =
     bind_op (pure (ensure_signed orig)) (\<lambda>who s.
     bind_op (ensure (Candidates s who \<noteq> None) (poc_fail NotCandidate)) (\<lambda>_.
     bind_op (ensure (isl (binary_search (Members s) who)) (poc_fail CannotLeave)) (\<lambda>_.
     let deposit = unwrap_or (Candidates s who) 0 in
     bind_op (modify_op (\<lambda>s. s\<lparr>poc_currency := snd (cur_unreserve cur who deposit (poc_currency s))\<rparr>)) (\<lambda>_.
     bind_op (modify_op (\<lambda>s. s\<lparr>Candidates := (Candidates s)(who := None)\<rparr>)) (\<lambda>_.
     bind_op (modify_op (\<lambda>s. s\<lparr>CandidatesCount := saturating_sub (CandidatesCount s) 1\<rparr>)) (\<lambda>_.
     modify_op (poc_deposit_event (CandidateRemoved who))))))) s)"

definition commit ::
  "('acc, 'p, 'm) poc_config \<Rightarrow> ('acc, 's) currency \<Rightarrow> 'acc origin \<Rightarrow> balance \<Rightarrow> lock_duration \<Rightarrow> 'acc \<Rightarrow>
     ('acc, 's, 'm, unit) poc_op" where
  "commit cfg cur orig amt dur cand = transactional (
     bind_op (pure (ensure_signed orig)) (\<lambda>who s.
     bind_op (ensure (Commitments s who = None) (poc_fail AlreadyCommitted)) (\<lambda>_.
     bind_op (ensure (MinLockAmount cfg \<le> amt) (poc_fail InsufficientAmount)) (\<lambda>_.
     let locked_total = saturating_add (LockedAmount s) amt in
     bind_op (ensure (locked_total < TotalLockedCap cfg) (poc_fail OverSubscribed)) (\<lambda>_.
     bind_op (on_currency (withdraw_and_drop cur who amt KeepAlive)) (\<lambda>_.
     bind_op (modify_op (\<lambda>s. s\<lparr>LockedAmount := locked_total\<rparr>)) (\<lambda>_.
     bind_op (modify_op (\<lambda>s. s\<lparr>Commitments := (Commitments s)(who \<mapsto>
        \<lparr>state = Committed, duration = dur, amount = amt, candidate = cand\<rparr>)\<rparr>)) (\<lambda>_.
     modify_op (poc_deposit_event (CommittedEv who amt)))))))) s))"

definition add_funds ::
  "('acc, 'p, 'm) poc_config \<Rightarrow> ('acc, 's) currency \<Rightarrow> 'acc origin \<Rightarrow> balance \<Rightarrow> ('acc, 's, 'm, unit) poc_op" where
  "add_funds cfg cur orig amt = transactional (
     bind_op (pure (ensure_signed orig)) (\<lambda>who s.
     bind_op (ensure (Commitments s who \<noteq> None) (poc_fail CommitmentNotFound)) (\<lambda>_.
     bind_op (pure (ok_or (Commitments s who) (poc_fail NoCommitmentsFound))) (\<lambda>commitment.
     bind_op (ensure (0 \<le> amt) (poc_fail InsufficientAmount)) (\<lambda>_.
     let locked_total = saturating_add (LockedAmount s) amt in
     bind_op (ensure (locked_total < TotalLockedCap cfg) (poc_fail OverSubscribed)) (\<lambda>_.
     bind_op (on_currency (withdraw_and_drop cur who amt KeepAlive)) (\<lambda>_.
     bind_op (pure (ok_or (checked_add (amount commitment) amt) (Other ''currency overflow''))) (\<lambda>sum.
     bind_op (modify_op (\<lambda>s. s\<lparr>LockedAmount := locked_total\<rparr>)) (\<lambda>_.
     bind_op (modify_op (\<lambda>s. s\<lparr>Commitments := (Commitments s)(who \<mapsto>
        commitment\<lparr>amount := sum, state := Committed\<rparr>)\<rparr>)) (\<lambda>_.
     modify_op (poc_deposit_event (FundsAdded who amt)))))))))) s))"

definition unbond :: "block_number \<Rightarrow> 'acc origin \<Rightarrow> ('acc, 's, 'm, unit) poc_op" where
  "unbond current_block orig =
     bind_op (pure (ensure_signed orig)) (\<lambda>who s.
     bind_op (ensure (Commitments s who \<noteq> None) (poc_fail CommitmentNotFound)) (\<lambda>_.
     bind_op (pure (ok_or (Commitments s who) (poc_fail NoCommitmentsFound))) (\<lambda>commitment.
     bind_op (ensure (state commitment = Committed) (poc_fail NotCommitted)) (\<lambda>_.
     let commitment = commitment\<lparr>state := Unbonding current_block\<rparr> in
     bind_op (modify_op (\<lambda>s. s\<lparr>Commitments := (Commitments s)(who \<mapsto> commitment)\<rparr>)) (\<lambda>_.
     modify_op (poc_deposit_event (UnbondingStarted who (amount commitment))))))) s)"

fun lock_days :: "lock_duration \<Rightarrow> block_number" where
  "lock_days OneMonth = 30"
| "lock_days OneYear = 365"
| "lock_days TenYears = 3650"

definition lock_period :: "lock_duration \<Rightarrow> block_number" where
  "lock_period d = lock_days d * DAYS"

definition poc_withdraw ::
  "('acc, 's) currency \<Rightarrow> block_number \<Rightarrow> 'acc origin \<Rightarrow> ('acc, 's, 'm, unit) poc_op" where
  "poc_withdraw cur current_block orig = transactional (
     bind_op (pure (ensure_signed orig)) (\<lambda>who s.
     bind_op (ensure (Commitments s who \<noteq> None) (poc_fail CommitmentNotFound)) (\<lambda>_.
     bind_op (pure (ok_or (Commitments s who) (poc_fail NoCommitmentsFound))) (\<lambda>commitment.
     bind_op (ensure (state commitment \<noteq> Committed) (poc_fail AlreadyCommitted)) (\<lambda>_.
     (case state commitment of
        Unbonding start_block \<Rightarrow>
          if start_block + lock_period (duration commitment) \<le> current_block then
            bind_op (on_currency (deposit_and_drop cur who (amount commitment))) (\<lambda>_.
            bind_op (modify_op (\<lambda>s. s\<lparr>Commitments := (Commitments s)(who := None)\<rparr>)) (\<lambda>_.
            bind_op (modify_op (\<lambda>s. s\<lparr>LockedAmount := saturating_sub (LockedAmount s) (amount commitment)\<rparr>)) (\<lambda>_.
            modify_op (poc_deposit_event (BondWithdrawn who (amount commitment))))))
          else fail (poc_fail CannotWithdrawLocked)
      | Committed \<Rightarrow> fail (poc_fail CannotWithdrawLocked))))) s))"

definition vote_candidate ::
  "('acc, 'p, 'm) poc_config \<Rightarrow> ('acc, 's) currency \<Rightarrow> 'acc origin \<Rightarrow> 'acc \<Rightarrow> ('acc, 's, 'm, unit) poc_op" where
  "vote_candidate cfg cur orig cand = transactional (
     bind_op (pure (ensure_signed orig)) (\<lambda>who s.
     bind_op (ensure (Commitments s who \<noteq> None) (poc_fail CommitmentNotFound)) (\<lambda>_.
     bind_op (pure (ok_or (Commitments s who) (poc_fail NoCommitmentsFound))) (\<lambda>commitment.
     bind_op (ensure (state commitment = Committed) (poc_fail NotCommitted)) (\<lambda>_.
     let changed = commitment\<lparr>candidate := cand\<rparr> in
     bind_op (modify_op (\<lambda>s.
        if candidate commitment \<noteq> cand
        then poc_deposit_event (Voted who cand (voting_weight changed)) (s\<lparr>Commitments := (Commitments s)(who \<mapsto> changed)\<rparr>)
        else s)) (\<lambda>_ s.
     let era_reward = era_voter_reward cfg changed;
         era = era_idx (CurrentEra s)
     in
     if 0 < era_reward \<and> VoterRewards s (era, who) = None then
       bind_op (modify_op (\<lambda>s. s\<lparr>VoterRewards := (VoterRewards s)((era, who) \<mapsto> era_reward)\<rparr>)) (\<lambda>_.
       bind_op (on_currency (deposit_and_drop cur who era_reward)) (\<lambda>_.
       modify_op (poc_deposit_event (VoterRewarded era who era_reward)))) s
     else ok () s)))) s))"

section \<open>The election\<close>

text \<open>The \<open>BTreeMap\<close> that counts the votes is its list of entries in the order of the keys.\<close>

fun btree_get :: "'k::linorder \<Rightarrow> ('k \<times> 'v) list \<Rightarrow> 'v option" where
  "btree_get k [] = None"
| "btree_get k ((k', v) # es) = (if k = k' then Some v else btree_get k es)"

fun btree_insert :: "'k::linorder \<Rightarrow> 'v \<Rightarrow> ('k \<times> 'v) list \<Rightarrow> ('k \<times> 'v) list" where
  "btree_insert k v [] = [(k, v)]"
| "btree_insert k v ((k', v') # es) =
     (if k < k' then (k, v) # (k', v') # es
      else if k = k' then (k, v) # es
      else (k', v') # btree_insert k v es)"

definition count_vote ::
  "('acc::linorder \<rightharpoonup> balance) \<Rightarrow> 'acc commitment \<Rightarrow> ('acc \<times> balance) list \<Rightarrow> ('acc \<times> balance) list" where
  "count_vote cands c counter =
     (if cands (candidate c) = None then counter
      else case btree_get (candidate c) counter of
        Some acc_w \<Rightarrow> btree_insert (candidate c) (saturating_add (voting_weight c) acc_w) counter
      | None \<Rightarrow> btree_insert (candidate c) (voting_weight c) counter)"

definition count_votes ::
  "('acc::linorder \<rightharpoonup> balance) \<Rightarrow> 'acc commitment list \<Rightarrow> ('acc \<times> balance) list" where
  "count_votes cands cs = fold (count_vote cands) cs []"

text \<open>\<open>sort_by\<close> is a stable sort, here by descending weight.\<close>

definition sort_by_weight :: "('acc \<times> balance) list \<Rightarrow> ('acc \<times> balance) list" where
  "sort_by_weight es = sort_key (\<lambda>(_, w). - uint w) es"

definition elect :: "u32 \<Rightarrow> ('acc \<times> balance) list \<Rightarrow> ('acc \<times> balance) list" where
  "elect max_members counter = take (unat max_members) (sort_by_weight counter)"

fun pay_winners :: "('acc, 's) currency \<Rightarrow> balance \<Rightarrow> 'acc list \<Rightarrow> 's \<Rightarrow> 's" where
  "pay_winners cur reward [] x = x"
| "pay_winners cur reward (w # ws) x = pay_winners cur reward ws (snd (deposit_and_drop cur w reward x))"

definition poc_on_initialize ::
  "('acc::linorder, 'p, 'm) poc_config \<Rightarrow> ('acc, 's) currency \<Rightarrow> 'acc list \<Rightarrow> block_number \<Rightarrow>
     ('acc, 's, 'm) poc_state \<Rightarrow> ('acc, 's, 'm) poc_state" where
  "poc_on_initialize cfg cur order n s =
     (let current_era = CurrentEra s in
      if era_start current_era + EraDuration cfg \<le> n then
        let new_era_index = saturating_add (era_idx current_era) 1;
            s1 = s\<lparr>CurrentEra := \<lparr>era_idx = new_era_index, era_start = n\<rparr>,
                   VoterRewards := (\<lambda>(e, a). if e = era_idx current_era then None else VoterRewards s (e, a))\<rparr>;
            counter = count_votes (Candidates s1) (List.map_filter (Commitments s1) order);
            elected = elect (MaxMembers cfg) counter;
            s2 = fold (\<lambda>(cand, weight). poc_deposit_event (Elected new_era_index cand weight)) elected s1;
            winners = sort (map fst elected)
        in if winners \<noteq> [] then
             let s3 = s2\<lparr>poc_collective := set_members_sorted cfg winners (Members s2) (poc_collective s2)\<rparr>;
                 s4 = s3\<lparr>Members := winners\<rparr>;
                 rewards = era_council_rewards cfg cur (poc_currency s4);
                 reward = unwrap_or (checked_div rewards (ucast (of_nat (length winners) :: u32))) 0
             in if 0 < reward then s4\<lparr>poc_currency := pay_winners cur reward winners (poc_currency s4)\<rparr> else s4
           else s2
      else s)"

section \<open>The runtime's instance\<close>

definition runtime_poc ::
  "'p \<Rightarrow> 'p \<Rightarrow> ('acc list \<Rightarrow> 'acc list \<Rightarrow> 'm \<Rightarrow> 'm) \<Rightarrow> (u32 \<Rightarrow> u32 \<Rightarrow> 'p) \<Rightarrow> ('p \<Rightarrow> balance \<Rightarrow> balance) \<Rightarrow>
     ('acc, 'p, 'm) poc_config" where
  "runtime_poc apy inflation set_members from_rational mul =
     \<lparr>EraDuration = 7 * DAYS, NominatorAPY = apy, CouncilInflation = inflation,
      CandidacyDeposit = 1000000 * REEF_unit, MinLockAmount = 100000 * REEF_unit,
      TotalLockedCap = 2000000000 * REEF_unit, MaxCandidates = 100, MaxMembers = 9,
      set_members_sorted = set_members, perbill_from_rational = from_rational, perbill_mul = mul\<rparr>"

section \<open>Inversion\<close>

lemma on_currency_Inr [op_simps]:
  "on_currency f s = (Inr a, t) \<longleftrightarrow> (\<exists>x. f (poc_currency s) = (Inr a, x) \<and> t = s\<lparr>poc_currency := x\<rparr>)"
  by (auto simp: on_currency_def split: prod.splits)

lemma start_candidacy_Inr:
  "start_candidacy cfg cur orig s = (Inr u, t) \<longleftrightarrow>
     (\<exists>who x. orig = Signed who \<and> Candidates s who = None \<and> CandidatesCount s < MaxCandidates cfg \<and>
        cur_reserve cur who (CandidacyDeposit cfg) (poc_currency s) = (Inr (), x) \<and>
        t = poc_deposit_event (CandidateAdded who)
              (s\<lparr>poc_currency := x, Candidates := (Candidates s)(who \<mapsto> CandidacyDeposit cfg),
                 CandidatesCount := saturating_add (CandidatesCount s) 1\<rparr>))"
  by (auto simp: start_candidacy_def op_simps Let_def)

lemma stop_candidacy_Inr:
  "stop_candidacy cur orig s = (Inr u, t) \<longleftrightarrow>
     (\<exists>who d j. orig = Signed who \<and> Candidates s who = Some d \<and> binary_search (Members s) who = Inl j \<and>
        t = poc_deposit_event (CandidateRemoved who)
              (s\<lparr>poc_currency := snd (cur_unreserve cur who d (poc_currency s)),
                 Candidates := (Candidates s)(who := None),
                 CandidatesCount := saturating_sub (CandidatesCount s) 1\<rparr>))"
  by (auto simp: stop_candidacy_def op_simps Let_def isl_def)

lemma commit_Inr:
  "commit cfg cur orig amt dur cand s = (Inr u, t) \<longleftrightarrow>
     (\<exists>who x. orig = Signed who \<and> Commitments s who = None \<and> MinLockAmount cfg \<le> amt \<and>
        saturating_add (LockedAmount s) amt < TotalLockedCap cfg \<and>
        withdraw_and_drop cur who amt KeepAlive (poc_currency s) = (Inr (), x) \<and>
        t = poc_deposit_event (CommittedEv who amt)
              (s\<lparr>poc_currency := x, LockedAmount := saturating_add (LockedAmount s) amt,
                 Commitments := (Commitments s)(who \<mapsto>
                   \<lparr>state = Committed, duration = dur, amount = amt, candidate = cand\<rparr>)\<rparr>))"
  by (auto simp: commit_def op_simps Let_def)

lemma add_funds_Inr:
  "add_funds cfg cur orig amt s = (Inr u, t) \<longleftrightarrow>
     (\<exists>who c x sum. orig = Signed who \<and> Commitments s who = Some c \<and>
        saturating_add (LockedAmount s) amt < TotalLockedCap cfg \<and>
        withdraw_and_drop cur who amt KeepAlive (poc_currency s) = (Inr (), x) \<and>
        checked_add (amount c) amt = Some sum \<and>
        t = poc_deposit_event (FundsAdded who amt)
              (s\<lparr>poc_currency := x, LockedAmount := saturating_add (LockedAmount s) amt,
                 Commitments := (Commitments s)(who \<mapsto> c\<lparr>amount := sum, state := Committed\<rparr>)\<rparr>))"
  by (auto simp: add_funds_def op_simps Let_def)

lemma unbond_Inr:
  "unbond now orig s = (Inr u, t) \<longleftrightarrow>
     (\<exists>who c. orig = Signed who \<and> Commitments s who = Some c \<and> state c = Committed \<and>
        t = poc_deposit_event (UnbondingStarted who (amount c))
              (s\<lparr>Commitments := (Commitments s)(who \<mapsto> c\<lparr>state := Unbonding now\<rparr>)\<rparr>))"
  by (auto simp: unbond_def op_simps Let_def)

lemma poc_withdraw_Inr:
  "poc_withdraw cur now orig s = (Inr u, t) \<longleftrightarrow>
     (\<exists>who c start x. orig = Signed who \<and> Commitments s who = Some c \<and> state c = Unbonding start \<and>
        start + lock_period (duration c) \<le> now \<and>
        deposit_and_drop cur who (amount c) (poc_currency s) = (Inr (), x) \<and>
        t = poc_deposit_event (BondWithdrawn who (amount c))
              (s\<lparr>poc_currency := x, Commitments := (Commitments s)(who := None),
                 LockedAmount := saturating_sub (LockedAmount s) (amount c)\<rparr>))"
  by (auto simp: poc_withdraw_def op_simps split: lock_state.split_asm if_split_asm)

lemma vote_candidate_Inr:
  assumes "vote_candidate cfg cur orig cand s = (Inr u, t)"
  obtains who c where "orig = Signed who" "Commitments s who = Some c" "state c = Committed"
    "Commitments t = (Commitments s)(who \<mapsto> c\<lparr>candidate := cand\<rparr>)"
    "LockedAmount t = LockedAmount s" "Candidates t = Candidates s" "CandidatesCount t = CandidatesCount s"
    "Members t = Members s" "CurrentEra t = CurrentEra s" "poc_collective t = poc_collective s"
    "(if 0 < era_voter_reward cfg c \<and> VoterRewards s (era_idx (CurrentEra s), who) = None
      then VoterRewards t = (VoterRewards s)((era_idx (CurrentEra s), who) \<mapsto> era_voter_reward cfg c) \<and>
        deposit_and_drop cur who (era_voter_reward cfg c) (poc_currency s) = (Inr (), poc_currency t)
      else VoterRewards t = VoterRewards s \<and> poc_currency t = poc_currency s)"
proof -
  have reward: "era_voter_reward cfg (c\<lparr>candidate := cand\<rparr>) = era_voter_reward cfg c" for c
    by (simp add: era_voter_reward_def split: lock_duration.split)
  obtain who c where who: "orig = Signed who" "Commitments s who = Some c" "state c = Committed"
    using assms by (auto simp: vote_candidate_def op_simps Let_def)
  define s1 where "s1 = (if candidate c \<noteq> cand
     then poc_deposit_event (Voted who cand (voting_weight (c\<lparr>candidate := cand\<rparr>)))
       (s\<lparr>Commitments := (Commitments s)(who \<mapsto> c\<lparr>candidate := cand\<rparr>)\<rparr>) else s)"
  have s1: "Commitments s1 = (Commitments s)(who \<mapsto> c\<lparr>candidate := cand\<rparr>)"
    "LockedAmount s1 = LockedAmount s" "Candidates s1 = Candidates s" "CandidatesCount s1 = CandidatesCount s"
    "Members s1 = Members s" "CurrentEra s1 = CurrentEra s" "poc_collective s1 = poc_collective s"
    "VoterRewards s1 = VoterRewards s" "poc_currency s1 = poc_currency s"
    using who by (auto simp: s1_def poc_deposit_event_def fun_upd_idem)
  show thesis
  proof (cases "0 < era_voter_reward cfg c \<and> VoterRewards s (era_idx (CurrentEra s), who) = None")
    case True
    with assms who obtain x where
      "deposit_and_drop cur who (era_voter_reward cfg c) (poc_currency s1) = (Inr (), x)"
      "t = poc_deposit_event (VoterRewarded (era_idx (CurrentEra s)) who (era_voter_reward cfg c))
        (s1\<lparr>VoterRewards := (VoterRewards s1)((era_idx (CurrentEra s), who) \<mapsto> era_voter_reward cfg c),
           poc_currency := x\<rparr>)"
      by (auto simp: vote_candidate_def op_simps Let_def reward s1 simp flip: s1_def)
    with True who s1 show thesis by (intro that) (auto simp: poc_deposit_event_def)
  next
    case False
    with assms who have "t = s1"
      by (auto simp: vote_candidate_def op_simps Let_def reward s1 simp flip: s1_def)
    with False who s1 show thesis by (intro that) auto
  qed
qed

end
