(* ===== verification/Poc_Election.thy ===== *)
theory Poc_Election
  imports Poc "HOL-Library.Multiset"
begin

text \<open>
  The election of \<open>on_initialize\<close>: the counter is a sorted map that holds, for every registered
  candidate some commitment names, the saturated sum of the weights; it does not depend on the order
  of iteration; the stable sort by descending weight, together with the order of the map, ranks the
  candidates by a strict total order, and the elected are its top.
\<close>

section \<open>The sorted map\<close>

definition btree_wf :: "('k::linorder \<times> 'v) list \<Rightarrow> bool" where
  "btree_wf es \<longleftrightarrow> sorted_wrt (<) (map fst es)"

lemma btree_get_insert [simp]:
  "btree_wf es \<Longrightarrow> btree_get k (btree_insert k' v es) = (if k = k' then Some v else btree_get k es)"
  by (induction k' v es rule: btree_insert.induct) (auto simp: btree_wf_def)

lemma btree_insert_keys: "set (map fst (btree_insert k v es)) = insert k (set (map fst es))"
  by (induction k v es rule: btree_insert.induct) auto

lemma btree_wf_insert [simp]: "btree_wf es \<Longrightarrow> btree_wf (btree_insert k v es)"
proof (induction k v es rule: btree_insert.induct)
  case (2 k v k' v' es)
  show ?case
    using 2 btree_insert_keys [of k v es] by (auto simp: btree_wf_def)
qed (simp add: btree_wf_def)

lemma btree_get_map_of: "btree_get k es = map_of es k"
  by (induction k es rule: btree_get.induct) auto

lemma btree_wf_eqI:
  assumes wf: "btree_wf es" "btree_wf es'" and get: "\<And>k. btree_get k es = btree_get k es'"
  shows "es = es'"
proof -
  have s: "sorted (map fst xs) \<and> distinct (map fst xs)" if "btree_wf xs" for xs :: "('a \<times> 'b) list"
    using that by (simp add: btree_wf_def strict_sorted_iff)
  have "map_of es = map_of es'" using get by (auto simp: btree_get_map_of)
  then have "set es = set es'" using s [OF wf(1)] s [OF wf(2)] by (simp add: map_of_inject_set)
  then show ?thesis using s [OF wf(1)] s [OF wf(2)] by (intro map_sorted_distinct_set_unique [of fst]) (auto simp: distinct_map)
qed

section \<open>The counter\<close>

text \<open>What a candidate is owed: the saturated sum of the weights of the commitments that name them.\<close>

definition tally :: "'acc commitment list \<Rightarrow> 'acc \<Rightarrow> nat" where
  "tally cs cand = (\<Sum>c\<leftarrow>cs. if candidate c = cand then unat (voting_weight c) else 0)"

definition voted_for :: "('acc \<rightharpoonup> balance) \<Rightarrow> 'acc commitment list \<Rightarrow> 'acc set" where
  "voted_for cands cs = {cand. cands cand \<noteq> None \<and> (\<exists>c\<in>set cs. candidate c = cand)}"

lemma count_votes_snoc: "count_votes cands (cs @ [c]) = count_vote cands c (count_votes cands cs)"
  by (simp add: count_votes_def)

lemma tally_snoc: "tally (cs @ [c]) cand = tally cs cand + (if candidate c = cand then unat (voting_weight c) else 0)"
  by (simp add: tally_def)

lemma count_votes_result:
  "btree_wf (count_votes cands cs) \<and>
   map_option unat (btree_get cand (count_votes cands cs)) =
     (if cand \<in> voted_for cands cs then Some (min (2 ^ 128 - 1) (tally cs cand)) else None)"
proof (induction cs arbitrary: cand rule: rev_induct)
  case Nil
  show ?case by (simp add: count_votes_def btree_wf_def voted_for_def)
next
  case (snoc c cs)
  have wf: "btree_wf (count_votes cands cs)" using snoc by blast
  have u: "unat (voting_weight c) < 2 ^ 128" by (rule unat_u128)
  have none: "tally cs cand = 0" if "cand \<notin> voted_for cands cs" "cands cand \<noteq> None" for cand
    using that by (auto simp: tally_def voted_for_def sum_list_eq_0_iff)
  show ?case
    using snoc [of cand] snoc [of "candidate c"] wf u none [of "candidate c"]
    by (auto simp: count_votes_snoc count_vote_def unat_saturating_add tally_snoc voted_for_def
        split: option.splits if_splits)
qed

lemma btree_wf_count [simp]: "btree_wf (count_votes cands cs)"
  using count_votes_result by blast

lemma count_votes_mem:
  "(cand, w) \<in> set (count_votes cands cs) \<longleftrightarrow>
     cand \<in> voted_for cands cs \<and> unat w = min (2 ^ 128 - 1) (tally cs cand)"
proof -
  have "distinct (map fst (count_votes cands cs))"
    using btree_wf_count [of cands cs] by (simp add: btree_wf_def strict_sorted_iff)
  then have "(cand, w) \<in> set (count_votes cands cs) \<longleftrightarrow> btree_get cand (count_votes cands cs) = Some w"
    by (simp add: btree_get_map_of map_of_eq_Some_iff)
  moreover have "\<dots> \<longleftrightarrow> map_option unat (btree_get cand (count_votes cands cs)) = Some (unat w)"
    by (cases "btree_get cand (count_votes cands cs)") (auto simp: word_eq_unat)
  ultimately show ?thesis by (auto simp: count_votes_result)
qed

lemma count_votes_mset:
  assumes "mset cs = mset cs'"
  shows "count_votes cands cs = count_votes cands cs'"
proof (rule btree_wf_eqI)
  fix k
  have "tally cs k = tally cs' k"
    using arg_cong [OF assms, of "\<lambda>m. \<Sum>c\<in>#m. if candidate c = k then unat (voting_weight c) else 0"]
    by (simp add: tally_def flip: sum_mset_sum_list)
  moreover have "voted_for cands cs = voted_for cands cs'"
    by (simp add: voted_for_def mset_eq_setD [OF assms])
  ultimately have "map_option unat (btree_get k (count_votes cands cs)) =
      map_option unat (btree_get k (count_votes cands cs'))"
    by (simp add: count_votes_result)
  then show "btree_get k (count_votes cands cs) = btree_get k (count_votes cands cs')"
    by (auto simp: map_option_case word_eq_unat split: option.splits)
qed simp_all

section \<open>The winners\<close>

definition ranks_before :: "('acc::linorder \<times> balance) \<Rightarrow> ('acc \<times> balance) \<Rightarrow> bool" where
  "ranks_before x y \<longleftrightarrow> snd y < snd x \<or> snd x = snd y \<and> fst x < fst y"

lemma insort_ranked:
  assumes "sorted_wrt ranks_before es" and "\<forall>y\<in>set es. fst x < fst y"
  shows "sorted_wrt ranks_before (insort_key (\<lambda>(_, w). - uint w) x es)"
  using assms
proof (induction es)
  case (Cons y es)
  show ?case
  proof (cases "uint (snd y) \<le> uint (snd x)")
    case True
    have "ranks_before x z" if "z \<in> set (y # es)" for z
      using that Cons.prems True by (cases "z = y") (auto simp: ranks_before_def word_less_def word_uint_eq_iff)
    with Cons.prems True show ?thesis by (simp add: case_prod_beta)
  next
    case False
    then have "ranks_before y x" by (simp add: ranks_before_def word_less_def)
    with Cons False show ?thesis by (simp add: case_prod_beta set_insort_key)
  qed
qed simp

lemma sort_by_weight_ranked:
  assumes "btree_wf es"
  shows "sorted_wrt ranks_before (sort_by_weight es)"
  using assms unfolding sort_by_weight_def sort_key_def
proof (induction es)
  case (Cons x es)
  then show ?case by (auto simp: btree_wf_def intro!: insort_ranked simp flip: sort_key_def)
qed simp

lemma elect_top:
  assumes "btree_wf es"
  shows "set (elect m es) \<subseteq> set es" and "length (elect m es) = min (unat m) (length es)"
    and "distinct (map fst (elect m es))"
    and "\<lbrakk>x \<in> set (elect m es); y \<in> set es - set (elect m es)\<rbrakk> \<Longrightarrow> ranks_before x y"
proof -
  let ?s = "sort_by_weight es"
  have set: "set ?s = set es" and len: "length ?s = length es"
    by (simp_all add: sort_by_weight_def)
  have "distinct (map fst es)" using assms by (simp add: btree_wf_def strict_sorted_iff)
  then have "distinct (map fst ?s)"
    by (simp add: sort_by_weight_def distinct_map)
  then show "distinct (map fst (elect m es))" by (simp add: elect_def distinct_take flip: take_map)
  show "set (elect m es) \<subseteq> set es" using set by (auto simp: elect_def dest: in_set_takeD)
  show "length (elect m es) = min (unat m) (length es)" by (simp add: elect_def len min.commute)
  assume "x \<in> set (elect m es)" and "y \<in> set es - set (elect m es)"
  then have "x \<in> set (take (unat m) ?s)" "y \<in> set (drop (unat m) ?s)"
    using set by (auto simp: elect_def) (metis Un_iff append_take_drop_id set_append)
  moreover have "sorted_wrt ranks_before (take (unat m) ?s @ drop (unat m) ?s)"
    using sort_by_weight_ranked [OF assms] by simp
  ultimately show "ranks_before x y" unfolding sorted_wrt_append by blast
qed

end
