(* ===== verification/Poc_Invariants.thy ===== *)
theory Poc_Invariants
  imports Poc_Election
begin

text \<open>
  The invariant of the proof-of-commitment pallet and its preservation by every call and by the
  change of era, for any currency that satisfies the contract of \<open>Currency_Contract\<close>.
\<close>

section \<open>The invariant\<close>

text \<open>The amount an account has committed.\<close>

definition locked_of :: "('acc \<rightharpoonup> 'acc commitment) \<Rightarrow> 'acc \<Rightarrow> nat" where
  "locked_of m a = (case m a of None \<Rightarrow> 0 | Some c \<Rightarrow> unat (amount c))"

definition funds_inv :: "('acc, 'p, 'm) poc_config \<Rightarrow> ('acc, 's, 'm) poc_state \<Rightarrow> bool" where
  "funds_inv cfg s \<longleftrightarrow> finite (dom (Commitments s)) \<and>
     unat (LockedAmount s) = supp_sum (locked_of (Commitments s)) \<and>
     (LockedAmount s = 0 \<or> LockedAmount s < TotalLockedCap cfg)"

definition council_inv :: "('acc::linorder, 'p, 'm) poc_config \<Rightarrow> ('acc, 's, 'm) poc_state \<Rightarrow> bool" where
  "council_inv cfg s \<longleftrightarrow> finite (dom (Candidates s)) \<and> unat (CandidatesCount s) = card (dom (Candidates s)) \<and>
     CandidatesCount s \<le> MaxCandidates cfg \<and>
     sorted (Members s) \<and> distinct (Members s) \<and> length (Members s) \<le> unat (MaxMembers cfg) \<and>
     set (Members s) \<subseteq> dom (Candidates s)"

definition rewards_inv :: "('acc, 's, 'm) poc_state \<Rightarrow> bool" where
  "rewards_inv s \<longleftrightarrow> (\<forall>e a. VoterRewards s (e, a) \<noteq> None \<longrightarrow> e = era_idx (CurrentEra s))"

definition deposits_inv :: "('acc, 's) currency \<Rightarrow> ('acc, 's, 'm) poc_state \<Rightarrow> bool" where
  "deposits_inv cur s \<longleftrightarrow> (\<forall>a d. Candidates s a = Some d \<longrightarrow> d \<le> cur_reserved_balance cur (poc_currency s) a)"

definition poc_inv ::
  "('acc::linorder, 'p, 'm) poc_config \<Rightarrow> ('acc, 's) currency \<Rightarrow> ('s \<Rightarrow> bool) \<Rightarrow> ('acc, 's, 'm) poc_state \<Rightarrow> bool" where
  "poc_inv cfg cur cinv s \<longleftrightarrow>
     cinv (poc_currency s) \<and> funds_inv cfg s \<and> council_inv cfg s \<and> rewards_inv s \<and> deposits_inv cur s"

text \<open>The storage before the first block.\<close>

definition empty_poc_state :: "'s \<Rightarrow> 'm \<Rightarrow> ('acc, 's, 'm) poc_state" where
  "empty_poc_state x m =
     \<lparr>CurrentEra = first_era, VoterRewards = (\<lambda>_. None), Commitments = (\<lambda>_. None), Members = [],
      Candidates = (\<lambda>_. None), CandidatesCount = 0, LockedAmount = 0, poc_events = [],
      poc_currency = x, poc_collective = m\<rparr>"

text \<open>
  A step is a successful call, or the hook that runs at the start of a block, with any order of
  iteration that lists every commitment once.
\<close>

inductive poc_step ::
  "('acc::linorder, 'p, 'm) poc_config \<Rightarrow> ('acc, 's) currency \<Rightarrow>
     ('acc, 's, 'm) poc_state \<Rightarrow> ('acc, 's, 'm) poc_state \<Rightarrow> bool"
  for cfg cur where
  step_start: "start_candidacy cfg cur orig s = (Inr u, t) \<Longrightarrow> poc_step cfg cur s t"
| step_stop: "stop_candidacy cur orig s = (Inr u, t) \<Longrightarrow> poc_step cfg cur s t"
| step_commit: "commit cfg cur orig amt dur cand s = (Inr u, t) \<Longrightarrow> poc_step cfg cur s t"
| step_add: "add_funds cfg cur orig amt s = (Inr u, t) \<Longrightarrow> poc_step cfg cur s t"
| step_unbond: "unbond now orig s = (Inr u, t) \<Longrightarrow> poc_step cfg cur s t"
| step_withdraw: "poc_withdraw cur now orig s = (Inr u, t) \<Longrightarrow> poc_step cfg cur s t"
| step_vote: "vote_candidate cfg cur orig cand s = (Inr u, t) \<Longrightarrow> poc_step cfg cur s t"
| step_block: "distinct order \<Longrightarrow> set order = dom (Commitments s) \<Longrightarrow>
    poc_step cfg cur s (poc_on_initialize cfg cur order n s)"

section \<open>Locked funds\<close>

lemma poc_deposit_event_fields [simp]:
  "CurrentEra (poc_deposit_event e s) = CurrentEra s" "VoterRewards (poc_deposit_event e s) = VoterRewards s"
  "Commitments (poc_deposit_event e s) = Commitments s" "Members (poc_deposit_event e s) = Members s"
  "Candidates (poc_deposit_event e s) = Candidates s" "CandidatesCount (poc_deposit_event e s) = CandidatesCount s"
  "LockedAmount (poc_deposit_event e s) = LockedAmount s" "poc_currency (poc_deposit_event e s) = poc_currency s"
  "poc_collective (poc_deposit_event e s) = poc_collective s"
  by (simp_all add: poc_deposit_event_def)

lemma locked_of_upd [simp]: "locked_of (m(a \<mapsto> c)) = (locked_of m)(a := unat (amount c))"
  "locked_of (m(a := None)) = (locked_of m)(a := 0)"
  by (auto simp: locked_of_def)

lemma locked_of_Some [simp]: "m a = Some c \<Longrightarrow> locked_of m a = unat (amount c)"
  by (simp add: locked_of_def)

lemma finite_locked: "finite (dom m) \<Longrightarrow> finite {a. locked_of m a \<noteq> 0}"
  by (rule finite_subset) (auto simp: locked_of_def split: option.splits)

lemma locked_of_same: "m a = Some c \<Longrightarrow> amount c' = amount c \<Longrightarrow> locked_of (m(a \<mapsto> c')) = locked_of m"
  by (auto simp: locked_of_def)

lemma saturating_add_below:
  assumes "saturating_add a b < (cap :: balance)"
  shows "unat (saturating_add a b) = unat a + unat b"
  using assms unat_u128 [of cap] by (auto simp: unat_saturating_add word_less_nat_alt min_def split: if_splits)

lemma funds_inv_set:
  assumes "funds_inv cfg s" and "Commitments t = (Commitments s)(who \<mapsto> c)"
    and "unat (LockedAmount t) + locked_of (Commitments s) who = unat (LockedAmount s) + unat (amount c)"
    and "LockedAmount t = 0 \<or> LockedAmount t < TotalLockedCap cfg"
  shows "funds_inv cfg t"
  using assms supp_sum_upd [OF finite_locked, of "Commitments s" who "unat (amount c)"]
  by (auto simp: funds_inv_def)

lemma funds_inv_same:
  assumes "funds_inv cfg s" and "Commitments s who = Some c" and "Commitments t = (Commitments s)(who \<mapsto> c')"
    and "amount c' = amount c" and "LockedAmount t = LockedAmount s"
  shows "funds_inv cfg t"
  using assms by (auto simp: funds_inv_def locked_of_same simp del: locked_of_upd)

lemma funds_inv_remove:
  assumes "funds_inv cfg s" and "Commitments t = (Commitments s)(who := None)" and "Commitments s who = Some c"
    and "LockedAmount t = saturating_sub (LockedAmount s) (amount c)"
  shows "funds_inv cfg t" and "unat (LockedAmount t) + unat (amount c) = unat (LockedAmount s)"
proof -
  have f: "finite {a. locked_of (Commitments s) a \<noteq> 0}"
    using assms(1) unfolding funds_inv_def by (blast intro: finite_locked)
  have at: "locked_of (Commitments s) who = unat (amount c)" using assms(3) by simp
  note sum = supp_sum_upd [OF f, of who 0] supp_sum_ge [OF f, of who]
  show le: "unat (LockedAmount t) + unat (amount c) = unat (LockedAmount s)"
    using sum assms at by (auto simp: funds_inv_def unat_saturating_sub)
  then show "funds_inv cfg t"
    using sum assms at by (auto simp: funds_inv_def word_less_nat_alt word_eq_unat)
qed

lemma funds_inv_frame:
  assumes "funds_inv cfg s" and "Commitments t = Commitments s" and "LockedAmount t = LockedAmount s"
  shows "funds_inv cfg t"
  using assms by (simp add: funds_inv_def)

lemma locked_of_le: "funds_inv cfg s \<Longrightarrow> Commitments s a = Some c \<Longrightarrow> unat (amount c) \<le> unat (LockedAmount s)"
  using supp_sum_ge [OF finite_locked, of "Commitments s" a] by (auto simp: funds_inv_def)

section \<open>Council\<close>

lemma council_inv_frame:
  assumes "council_inv cfg s" and "Candidates t = Candidates s" and "CandidatesCount t = CandidatesCount s"
    and "Members t = Members s"
  shows "council_inv cfg t"
  using assms by (simp add: council_inv_def)

lemma council_inv_start:
  assumes "council_inv cfg s" and "Candidates s who = None" and "CandidatesCount s < MaxCandidates cfg"
    and "Candidates t = (Candidates s)(who \<mapsto> d)" and "CandidatesCount t = saturating_add (CandidatesCount s) 1"
    and "Members t = Members s"
  shows "council_inv cfg t"
proof -
  have "unat (MaxCandidates cfg) < 2 ^ 32" by (rule unat_u32)
  with assms have "unat (CandidatesCount t) = unat (CandidatesCount s) + 1"
    by (auto simp: unat_saturating_add word_less_nat_alt)
  with assms show ?thesis by (auto simp: council_inv_def word_less_nat_alt word_le_nat_alt domIff)
qed

lemma council_inv_stop:
  assumes "council_inv cfg s" and "Candidates s who = Some d" and "who \<notin> set (Members s)"
    and "Candidates t = (Candidates s)(who := None)" and "CandidatesCount t = saturating_sub (CandidatesCount s) 1"
    and "Members t = Members s"
  shows "council_inv cfg t"
proof -
  have "who \<in> dom (Candidates s)" using assms(2) by blast
  with assms show ?thesis
    by (auto simp: council_inv_def unat_saturating_sub word_le_nat_alt)
qed

section \<open>The change of era\<close>

definition era_ended :: "('acc, 'p, 'm) poc_config \<Rightarrow> block_number \<Rightarrow> ('acc, 's, 'm) poc_state \<Rightarrow> bool" where
  "era_ended cfg n s \<longleftrightarrow> era_start (CurrentEra s) + EraDuration cfg \<le> n"

definition winners_of ::
  "('acc::linorder, 'p, 'm) poc_config \<Rightarrow> 'acc list \<Rightarrow> ('acc, 's, 'm) poc_state \<Rightarrow> 'acc list" where
  "winners_of cfg order s = sort (map fst (elect (MaxMembers cfg)
     (count_votes (Candidates s) (List.map_filter (Commitments s) order))))"

definition council_reward ::
  "('acc::linorder, 'p, 'm) poc_config \<Rightarrow> ('acc, 's) currency \<Rightarrow> 'acc list \<Rightarrow> ('acc, 's, 'm) poc_state \<Rightarrow> balance" where
  "council_reward cfg cur winners s =
     unwrap_or (checked_div (era_council_rewards cfg cur (poc_currency s)) (ucast (of_nat (length winners) :: u32))) 0"

lemma fold_events:
  "fold (\<lambda>(a, w). poc_deposit_event (f a w)) es s = s\<lparr>poc_events := poc_events s @ map (\<lambda>(a, w). f a w) es\<rparr>"
  by (induction es arbitrary: s) (auto simp: poc_deposit_event_def)

lemma on_initialize_idle: "\<not> era_ended cfg n s \<Longrightarrow> poc_on_initialize cfg cur order n s = s"
  by (simp add: poc_on_initialize_def era_ended_def)

lemma on_initialize_fields:
  assumes "era_ended cfg n s" and t: "t = poc_on_initialize cfg cur order n s"
  shows "Commitments t = Commitments s" and "LockedAmount t = LockedAmount s"
    and "Candidates t = Candidates s" and "CandidatesCount t = CandidatesCount s"
    and "CurrentEra t = \<lparr>era_idx = saturating_add (era_idx (CurrentEra s)) 1, era_start = n\<rparr>"
    and "VoterRewards t = (\<lambda>(e, a). if e = era_idx (CurrentEra s) then None else VoterRewards s (e, a))"
    and "Members t = (if winners_of cfg order s = [] then Members s else winners_of cfg order s)"
    and "poc_currency t = (if winners_of cfg order s = [] \<or> council_reward cfg cur (winners_of cfg order s) s = 0
      then poc_currency s
      else pay_winners cur (council_reward cfg cur (winners_of cfg order s) s) (winners_of cfg order s) (poc_currency s))"
  using assms(1) unfolding t
  by (auto simp: poc_on_initialize_def era_ended_def winners_of_def council_reward_def Let_def fold_events
      word_greater_zero_iff)

lemma map_filter_set: "set (List.map_filter m xs) = {c. \<exists>a\<in>set xs. m a = Some c}"
  by (force simp: List.map_filter_def)

lemma winners_of_set:
  assumes "a \<in> set (winners_of cfg order s)"
  shows "a \<in> dom (Candidates s)"
proof -
  from assms obtain w where "(a, w) \<in> set (count_votes (Candidates s) (List.map_filter (Commitments s) order))"
    using elect_top(1) [OF btree_wf_count] by (fastforce simp: winners_of_def)
  then show ?thesis by (auto simp: count_votes_mem voted_for_def)
qed

lemma winners_of_props:
  "sorted (winners_of cfg order s)" "distinct (winners_of cfg order s)"
  "length (winners_of cfg order s) \<le> unat (MaxMembers cfg)"
  by (simp_all add: winners_of_def elect_top(2,3) [OF btree_wf_count])

lemma council_reward_share:
  "length (winners_of cfg order s) * unat (council_reward cfg cur (winners_of cfg order s) s) \<le>
     unat (era_council_rewards cfg cur (poc_currency s))"
proof -
  let ?n = "length (winners_of cfg order s)"
  have "?n < 2 ^ 32"
    using winners_of_props(3) [of cfg order s] unat_u32 [of "MaxMembers cfg"] by simp
  then have "unat (ucast (of_nat ?n :: u32) :: balance) = ?n"
    by (simp add: unsigned_ucast_eq unat_of_nat take_bit_eq_mod)
  then show ?thesis
    by (simp add: council_reward_def checked_div_def unat_div)
qed

lemma council_inv_block:
  assumes "council_inv cfg s"
  shows "council_inv cfg (poc_on_initialize cfg cur order n s)"
proof (cases "era_ended cfg n s")
  case True
  then show ?thesis
    using assms on_initialize_fields [OF True refl, of cur order] winners_of_set [of _ cfg order s] winners_of_props [of cfg order s]
    by (auto simp: council_inv_def)
qed (use assms in \<open>simp add: on_initialize_idle\<close>)

lemma funds_inv_block: "funds_inv cfg s \<Longrightarrow> funds_inv cfg (poc_on_initialize cfg cur order n s)"
  by (cases "era_ended cfg n s") (simp_all add: on_initialize_idle on_initialize_fields [OF _ refl] funds_inv_def)

lemma rewards_inv_block: "rewards_inv s \<Longrightarrow> rewards_inv (poc_on_initialize cfg cur order n s)"
  by (cases "era_ended cfg n s") (auto simp: on_initialize_idle on_initialize_fields [OF _ refl] rewards_inv_def)

lemma rewards_inv_frame:
  "rewards_inv s \<Longrightarrow> VoterRewards t = VoterRewards s \<Longrightarrow> CurrentEra t = CurrentEra s \<Longrightarrow> rewards_inv t"
  by (simp add: rewards_inv_def)

lemma deposits_inv_frame:
  "deposits_inv cur s \<Longrightarrow> Candidates t = Candidates s \<Longrightarrow>
   cur_reserved_balance cur (poc_currency t) = cur_reserved_balance cur (poc_currency s) \<Longrightarrow> deposits_inv cur t"
  by (simp add: deposits_inv_def)

section \<open>Preservation\<close>

lemma poc_invD:
  assumes "poc_inv cfg cur cinv s"
  shows "cinv (poc_currency s)" and "funds_inv cfg s" and "council_inv cfg s" and "rewards_inv s" and "deposits_inv cur s"
  using assms by (simp_all add: poc_inv_def)

lemma not_member:
  assumes "council_inv cfg s" and "binary_search (Members s) who = Inl j"
  shows "who \<notin> set (Members s)"
  using assms binary_search_found_iff [of "\<lambda>x. x" "Members s" who] by (auto simp: council_inv_def)

text \<open>The parts of the state no call but its own touches.\<close>

lemma poc_inv_frames:
  assumes "poc_inv cfg cur cinv s"
  shows "Candidates t = Candidates s \<Longrightarrow> CandidatesCount t = CandidatesCount s \<Longrightarrow> Members t = Members s \<Longrightarrow> council_inv cfg t"
    and "VoterRewards t = VoterRewards s \<Longrightarrow> CurrentEra t = CurrentEra s \<Longrightarrow> rewards_inv t"
    and "Commitments t = Commitments s \<Longrightarrow> LockedAmount t = LockedAmount s \<Longrightarrow> funds_inv cfg t"
    and "Candidates t = Candidates s \<Longrightarrow>
      cur_reserved_balance cur (poc_currency t) = cur_reserved_balance cur (poc_currency s) \<Longrightarrow> deposits_inv cur t"
  using assms by (simp_all add: poc_inv_def council_inv_def rewards_inv_def funds_inv_def deposits_inv_def)

text \<open>The currency of a pallet whose accounts are ordered, as the sorted list of members needs it.\<close>

locale council_currency = currency_contract cur cinv
  for cur :: "('acc::linorder, 's) currency" and cinv :: "'s \<Rightarrow> bool"
begin

lemma pay_winners_law:
  assumes "cinv x"
  shows "cinv (pay_winners cur r ws x) \<and>
    cur_reserved_balance cur (pay_winners cur r ws x) = cur_reserved_balance cur x \<and>
    unat (cur_total_issuance cur x) \<le> unat (cur_total_issuance cur (pay_winners cur r ws x)) \<and>
    unat (cur_total_issuance cur (pay_winners cur r ws x)) \<le> unat (cur_total_issuance cur x) + length ws * unat r"
  using assms
proof (induction ws arbitrary: x)
  case (Cons w ws)
  obtain res y where op: "deposit_and_drop cur w r x = (res, y)" by fastforce
  show ?case
  proof (cases res)
    case (Inl e)
    with op have "y = x" using deposit_error_law [OF Cons.prems] by blast
    with Cons.IH [OF Cons.prems] op show ?thesis by auto
  next
    case (Inr u)
    note law = deposit_law [OF Cons.prems op [unfolded Inr]]
    with Cons.IH [of y] op show ?thesis by auto
  qed
qed simp

lemma start_candidacy_inv:
  assumes "poc_inv cfg cur cinv s" and "start_candidacy cfg cur orig s = (Inr u, t)"
  shows "poc_inv cfg cur cinv t"
proof -
  from assms(2) obtain who x where op: "Candidates s who = None" "CandidatesCount s < MaxCandidates cfg"
    "cur_reserve cur who (CandidacyDeposit cfg) (poc_currency s) = (Inr (), x)"
    and t: "t = poc_deposit_event (CandidateAdded who)
       (s\<lparr>poc_currency := x, Candidates := (Candidates s)(who \<mapsto> CandidacyDeposit cfg),
          CandidatesCount := saturating_add (CandidatesCount s) 1\<rparr>)"
    by (auto simp: start_candidacy_Inr)
  from assms(1) have inv: "cinv (poc_currency s)" "funds_inv cfg s" "council_inv cfg s" "rewards_inv s" "deposits_inv cur s"
    by (simp_all add: poc_inv_def)
  note law = reserve_law [OF inv(1) op(3)]
  have "deposits_inv cur t"
    using inv(5) law by (auto simp: deposits_inv_def t word_le_nat_alt intro: trans_le_add1)
  moreover have "council_inv cfg t" using inv(3) op(1,2) by (rule council_inv_start) (simp_all add: t)
  moreover have "funds_inv cfg t" "rewards_inv t"
    using inv by (simp_all add: t funds_inv_def rewards_inv_def)
  ultimately show ?thesis using law by (simp add: poc_inv_def t)
qed

lemma stop_candidacy_inv:
  assumes inv: "poc_inv cfg cur cinv s" and "stop_candidacy cur orig s = (Inr u, t)"
  shows "poc_inv cfg cur cinv t"
proof -
  from assms(2) obtain who d j where op: "Candidates s who = Some d" "binary_search (Members s) who = Inl j"
    and t: "t = poc_deposit_event (CandidateRemoved who)
       (s\<lparr>poc_currency := snd (cur_unreserve cur who d (poc_currency s)), Candidates := (Candidates s)(who := None),
          CandidatesCount := saturating_sub (CandidatesCount s) 1\<rparr>)"
    by (auto simp: stop_candidacy_Inr)
  note law = unreserve_law [OF poc_invD(1) [OF inv] surjective_pairing]
  have "cur_reserved_balance cur (poc_currency s) a \<le> cur_reserved_balance cur (poc_currency t) a" if "a \<noteq> who" for a
    using law [of who d] that by (auto simp: t word_le_nat_alt dest: spec [of _ a])
  then have "deposits_inv cur t"
    using poc_invD(5) [OF inv] by (auto simp: deposits_inv_def t intro: order_trans)
  moreover have "council_inv cfg t"
    using poc_invD(3) [OF inv] op(1) not_member [OF poc_invD(3) [OF inv] op(2)]
    by (rule council_inv_stop) (simp_all add: t)
  ultimately show ?thesis
    using law [of who d] inv by (simp add: poc_inv_def funds_inv_def rewards_inv_def t)
qed

lemma commit_effect:
  assumes inv: "poc_inv cfg cur cinv s" and "commit cfg cur orig amt dur cand s = (Inr u, t)"
  shows "poc_inv cfg cur cinv t" and "unat (LockedAmount t) = unat (LockedAmount s) + unat amt"
    and "unat (cur_total_issuance cur (poc_currency t)) + unat amt = unat (cur_total_issuance cur (poc_currency s))"
proof -
  from assms(2) obtain who x where op: "Commitments s who = None"
    "saturating_add (LockedAmount s) amt < TotalLockedCap cfg"
    "withdraw_and_drop cur who amt KeepAlive (poc_currency s) = (Inr (), x)"
    and t: "t = poc_deposit_event (CommittedEv who amt)
       (s\<lparr>poc_currency := x, LockedAmount := saturating_add (LockedAmount s) amt,
          Commitments := (Commitments s)(who \<mapsto>
            \<lparr>state = Committed, duration = dur, amount = amt, candidate = cand\<rparr>)\<rparr>)"
    by (auto simp: commit_Inr)
  note law = withdraw_law [OF poc_invD(1) [OF inv] op(3)]
  show locked: "unat (LockedAmount t) = unat (LockedAmount s) + unat amt"
    by (simp add: t saturating_add_below [OF op(2)])
  have "funds_inv cfg t"
    using op locked poc_invD(2) [OF inv]
    by (intro funds_inv_set [of cfg s t who "\<lparr>state = Committed, duration = dur, amount = amt, candidate = cand\<rparr>"])
      (simp_all add: t locked_of_def)
  then show "poc_inv cfg cur cinv t"
    using law poc_inv_frames [OF inv, of t] by (simp add: poc_inv_def t)
  show "unat (cur_total_issuance cur (poc_currency t)) + unat amt = unat (cur_total_issuance cur (poc_currency s))"
    using law by (simp add: t)
qed

lemma add_funds_effect:
  assumes inv: "poc_inv cfg cur cinv s" and "add_funds cfg cur orig amt s = (Inr u, t)"
  shows "poc_inv cfg cur cinv t" and "unat (LockedAmount t) = unat (LockedAmount s) + unat amt"
    and "unat (cur_total_issuance cur (poc_currency t)) + unat amt = unat (cur_total_issuance cur (poc_currency s))"
proof -
  from assms(2) obtain who c x sum where op: "Commitments s who = Some c"
    "saturating_add (LockedAmount s) amt < TotalLockedCap cfg"
    "withdraw_and_drop cur who amt KeepAlive (poc_currency s) = (Inr (), x)" "checked_add (amount c) amt = Some sum"
    and t: "t = poc_deposit_event (FundsAdded who amt)
       (s\<lparr>poc_currency := x, LockedAmount := saturating_add (LockedAmount s) amt,
          Commitments := (Commitments s)(who \<mapsto> c\<lparr>amount := sum, state := Committed\<rparr>)\<rparr>)"
    by (auto simp: add_funds_Inr)
  note law = withdraw_law [OF poc_invD(1) [OF inv] op(3)]
  show locked: "unat (LockedAmount t) = unat (LockedAmount s) + unat amt"
    by (simp add: t saturating_add_below [OF op(2)])
  have "unat sum = unat (amount c) + unat amt" using op(4) by (simp add: checked_add_Some_iff)
  then have "funds_inv cfg t"
    using op locked poc_invD(2) [OF inv]
    by (intro funds_inv_set [of cfg s t who "c\<lparr>amount := sum, state := Committed\<rparr>"]) (simp_all add: t)
  then show "poc_inv cfg cur cinv t"
    using law poc_inv_frames [OF inv, of t] by (simp add: poc_inv_def t)
  show "unat (cur_total_issuance cur (poc_currency t)) + unat amt = unat (cur_total_issuance cur (poc_currency s))"
    using law by (simp add: t)
qed

lemma unbond_effect:
  assumes inv: "poc_inv cfg cur cinv s" and "unbond now orig s = (Inr u, t)"
  shows "poc_inv cfg cur cinv t" and "LockedAmount t = LockedAmount s" and "poc_currency t = poc_currency s"
proof -
  from assms(2) obtain who c where op: "Commitments s who = Some c"
    and t: "t = poc_deposit_event (UnbondingStarted who (amount c))
       (s\<lparr>Commitments := (Commitments s)(who \<mapsto> c\<lparr>state := Unbonding now\<rparr>)\<rparr>)"
    by (auto simp: unbond_Inr)
  then show "LockedAmount t = LockedAmount s" "poc_currency t = poc_currency s" by simp_all
  have "funds_inv cfg t"
    by (rule funds_inv_same [OF poc_invD(2) [OF inv] op, of t "c\<lparr>state := Unbonding now\<rparr>"]) (simp_all add: t)
  then show "poc_inv cfg cur cinv t"
    using inv poc_inv_frames [OF inv, of t] by (simp add: poc_inv_def t)
qed

lemma withdraw_effect:
  assumes inv: "poc_inv cfg cur cinv s" and "poc_withdraw cur now orig s = (Inr u, t)"
  obtains who c where "orig = Signed who" "Commitments s who = Some c"
    "poc_inv cfg cur cinv t" "unat (LockedAmount t) + unat (amount c) = unat (LockedAmount s)"
    "unat (cur_total_issuance cur (poc_currency t)) = unat (cur_total_issuance cur (poc_currency s)) + unat (amount c)"
proof -
  from assms(2) obtain who c x where op: "orig = Signed who" "Commitments s who = Some c"
    "deposit_and_drop cur who (amount c) (poc_currency s) = (Inr (), x)"
    and t: "t = poc_deposit_event (BondWithdrawn who (amount c))
       (s\<lparr>poc_currency := x, Commitments := (Commitments s)(who := None),
          LockedAmount := saturating_sub (LockedAmount s) (amount c)\<rparr>)"
    by (auto simp: poc_withdraw_Inr)
  note law = deposit_law [OF poc_invD(1) [OF inv] op(3)]
  note funds = funds_inv_remove [OF poc_invD(2) [OF inv] _ op(2), of t]
  have "poc_inv cfg cur cinv t"
    using law funds poc_inv_frames [OF inv, of t] by (simp add: poc_inv_def t)
  then show thesis using law funds(2) by (intro that [OF op(1,2)]) (simp_all add: t)
qed

lemma vote_effect:
  assumes inv: "poc_inv cfg cur cinv s" and "vote_candidate cfg cur orig cand s = (Inr u, t)"
  shows "poc_inv cfg cur cinv t" and "LockedAmount t = LockedAmount s"
proof -
  obtain who c where op: "Commitments s who = Some c"
    "Commitments t = (Commitments s)(who \<mapsto> c\<lparr>candidate := cand\<rparr>)"
    "LockedAmount t = LockedAmount s" "Candidates t = Candidates s" "CandidatesCount t = CandidatesCount s"
    "Members t = Members s" "CurrentEra t = CurrentEra s"
    and pay: "(if 0 < era_voter_reward cfg c \<and> VoterRewards s (era_idx (CurrentEra s), who) = None
      then VoterRewards t = (VoterRewards s)((era_idx (CurrentEra s), who) \<mapsto> era_voter_reward cfg c) \<and>
        deposit_and_drop cur who (era_voter_reward cfg c) (poc_currency s) = (Inr (), poc_currency t)
      else VoterRewards t = VoterRewards s \<and> poc_currency t = poc_currency s)"
    using assms(2) by (rule vote_candidate_Inr) blast
  show "LockedAmount t = LockedAmount s" by (rule op)
  have "funds_inv cfg t"
    by (rule funds_inv_same [OF poc_invD(2) [OF inv] op(1,2)]) (simp_all add: op)
  moreover have "rewards_inv t"
    using poc_invD(4) [OF inv] pay op by (auto simp: rewards_inv_def split: if_splits)
  moreover have "cinv (poc_currency t) \<and>
      cur_reserved_balance cur (poc_currency t) = cur_reserved_balance cur (poc_currency s)"
    using pay deposit_law [OF poc_invD(1) [OF inv]] poc_invD(1) [OF inv] by (auto split: if_splits)
  ultimately show "poc_inv cfg cur cinv t"
    using poc_inv_frames [OF inv, of t] op by (simp add: poc_inv_def)
qed

lemma block_effect:
  assumes inv: "poc_inv cfg cur cinv s" and t: "t = poc_on_initialize cfg cur order n s"
  shows "poc_inv cfg cur cinv t" and "LockedAmount t = LockedAmount s"
    and "unat (cur_total_issuance cur (poc_currency s)) \<le> unat (cur_total_issuance cur (poc_currency t))"
    and "unat (cur_total_issuance cur (poc_currency t)) \<le>
      unat (cur_total_issuance cur (poc_currency s)) + unat (era_council_rewards cfg cur (poc_currency s))"
proof -
  let ?x = "poc_currency s" and ?ws = "winners_of cfg order s"
  have x: "cinv ?x" using inv by (simp add: poc_inv_def)
  show locked: "LockedAmount t = LockedAmount s"
    by (cases "era_ended cfg n s") (simp_all add: t on_initialize_idle on_initialize_fields [OF _ refl])
  have cur: "cinv (poc_currency t) \<and> cur_reserved_balance cur (poc_currency t) = cur_reserved_balance cur ?x \<and>
      unat (cur_total_issuance cur ?x) \<le> unat (cur_total_issuance cur (poc_currency t)) \<and>
      unat (cur_total_issuance cur (poc_currency t)) \<le>
        unat (cur_total_issuance cur ?x) + unat (era_council_rewards cfg cur ?x)"
  proof (cases "era_ended cfg n s")
    case True
    show ?thesis
      using x pay_winners_law [OF x, of "council_reward cfg cur ?ws s" ?ws]
        council_reward_share [of cfg order s cur] on_initialize_fields(8) [OF True t]
      by (auto intro: order_trans split: if_splits)
  qed (use x in \<open>simp add: t on_initialize_idle\<close>)
  then show "unat (cur_total_issuance cur ?x) \<le> unat (cur_total_issuance cur (poc_currency t))"
    and "unat (cur_total_issuance cur (poc_currency t)) \<le>
      unat (cur_total_issuance cur ?x) + unat (era_council_rewards cfg cur ?x)" by simp_all
  have "Candidates t = Candidates s"
    by (cases "era_ended cfg n s") (simp_all add: t on_initialize_idle on_initialize_fields [OF _ refl])
  with cur show "poc_inv cfg cur cinv t"
    using poc_invD [OF inv] poc_inv_frames(4) [OF inv, of t]
    by (simp add: poc_inv_def t funds_inv_block council_inv_block rewards_inv_block)
qed

lemma poc_step_inv: "poc_step cfg cur s t \<Longrightarrow> poc_inv cfg cur cinv s \<Longrightarrow> poc_inv cfg cur cinv t"
  by (induction rule: poc_step.induct)
    (blast intro: start_candidacy_inv stop_candidacy_inv commit_effect add_funds_effect unbond_effect vote_effect
      block_effect elim: withdraw_effect)+

lemma poc_steps_inv: "(poc_step cfg cur)\<^sup>*\<^sup>* s t \<Longrightarrow> poc_inv cfg cur cinv s \<Longrightarrow> poc_inv cfg cur cinv t"
  by (induction rule: rtranclp_induct) (auto intro: poc_step_inv)

end

lemma empty_poc_inv: "cinv x \<Longrightarrow> poc_inv cfg cur cinv (empty_poc_state x m)"
  by (simp add: poc_inv_def funds_inv_def council_inv_def rewards_inv_def deposits_inv_def empty_poc_state_def
      supp_sum_def locked_of_def)

end
