(* ===== verification/Tokens_Storage.thy ===== *)
theory Tokens_Storage
  imports Primitives
begin

text \<open>
  The storage of the tokens pallet (\<^verbatim>\<open>orml/tokens/src/lib.rs\<close>) and the primitives every
  operation of the pallet is built from: the guarded mutation of one account with its dust,
  provider and event bookkeeping, the setters of a balance, the update of the locks, and the
  withdrawal and deposit checks.

  The pallet is generic in its configuration. A \<open>tokens_config\<close> carries it: the existential
  deposits, the dust whitelist, the capacity of the lock and reserve vectors, the mutation
  hooks of the currency, and the reference counters of the system pallet, which is not part of
  this repository and acts on an abstract state \<open>'s\<close>. Currency identifiers and accounts are
  type variables.
\<close>

section \<open>Data\<close>

record account_data =
  free :: balance
  reserved :: balance
  frozen :: balance

record balance_lock =
  lock_id :: bytes
  lock_amount :: balance

record 'rid reserve_data =
  reserve_id :: 'rid
  reserve_amount :: balance

definition default_account_data :: account_data where
  "default_account_data = \<lparr>free = 0, reserved = 0, frozen = 0\<rparr>"

definition total :: "account_data \<Rightarrow> balance" where
  "total a = saturating_add (free a) (reserved a)"

datatype ('acc, 'cur) tokens_event =
  Endowed 'cur 'acc balance
| DustLost 'cur 'acc balance
| TransferEv 'cur 'acc 'acc balance
| ReservedEv 'cur 'acc balance
| Unreserved 'cur 'acc balance
| ReserveRepatriated 'cur 'acc 'acc balance balance_status
| BalanceSet 'cur 'acc balance balance
| TotalIssuanceSet 'cur balance
| WithdrawnEv 'cur 'acc balance
| SlashedEv 'cur 'acc balance balance
| DepositedEv 'cur 'acc balance
| LockSet bytes 'cur 'acc balance
| LockRemoved bytes 'cur 'acc
| LockedEv 'cur 'acc balance
| Unlocked 'cur 'acc balance

record ('acc, 'cur, 'rid, 's) tokens_state =
  TotalIssuance :: "'cur \<rightharpoonup> balance"
  Accounts :: "'acc \<times> 'cur \<rightharpoonup> account_data"
  Locks :: "'acc \<times> 'cur \<rightharpoonup> balance_lock list"
  Reserves :: "'acc \<times> 'cur \<rightharpoonup> 'rid reserve_data list"
  tk_events :: "('acc, 'cur) tokens_event list"
  tk_system :: 's

record ('acc, 'cur, 'rid, 's) tokens_config =
  ExistentialDeposits :: "'cur \<Rightarrow> balance"
  DustRemovalWhitelist :: "'acc \<Rightarrow> bool"
  MaxLocks :: u32
  MaxReserves :: u32
  OnDust :: "'acc \<Rightarrow> 'cur \<Rightarrow> balance \<Rightarrow> ('acc, 'cur, 'rid, 's) tokens_state \<Rightarrow> ('acc, 'cur, 'rid, 's) tokens_state"
  OnSlash :: "'cur \<Rightarrow> 'acc \<Rightarrow> balance \<Rightarrow> ('acc, 'cur, 'rid, 's) tokens_state \<Rightarrow> ('acc, 'cur, 'rid, 's) tokens_state"
  PreDeposit :: "'cur \<Rightarrow> 'acc \<Rightarrow> balance \<Rightarrow> (('acc, 'cur, 'rid, 's) tokens_state, dispatch_error, unit) storage_op"
  PostDeposit :: "'cur \<Rightarrow> 'acc \<Rightarrow> balance \<Rightarrow> (('acc, 'cur, 'rid, 's) tokens_state, dispatch_error, unit) storage_op"
  PreTransfer :: "'cur \<Rightarrow> 'acc \<Rightarrow> 'acc \<Rightarrow> balance \<Rightarrow> (('acc, 'cur, 'rid, 's) tokens_state, dispatch_error, unit) storage_op"
  PostTransfer :: "'cur \<Rightarrow> 'acc \<Rightarrow> 'acc \<Rightarrow> balance \<Rightarrow> (('acc, 'cur, 'rid, 's) tokens_state, dispatch_error, unit) storage_op"
  OnNewTokenAccount :: "'acc \<Rightarrow> 'cur \<Rightarrow> ('acc, 'cur, 'rid, 's) tokens_state \<Rightarrow> ('acc, 'cur, 'rid, 's) tokens_state"
  OnKilledTokenAccount :: "'acc \<Rightarrow> 'cur \<Rightarrow> ('acc, 'cur, 'rid, 's) tokens_state \<Rightarrow> ('acc, 'cur, 'rid, 's) tokens_state"
  can_dec_provider :: "'acc \<Rightarrow> 's \<Rightarrow> bool"
  inc_providers :: "'acc \<Rightarrow> 's \<Rightarrow> 's"
  dec_providers :: "'acc \<Rightarrow> 's \<Rightarrow> 's"
  inc_consumers :: "'acc \<Rightarrow> ('s, dispatch_error, unit) storage_op"
  dec_consumers :: "'acc \<Rightarrow> 's \<Rightarrow> 's"

section \<open>Reading the storage\<close>

definition total_issuance :: "('acc, 'cur, 'rid, 's) tokens_state \<Rightarrow> 'cur \<Rightarrow> balance" where
  "total_issuance s c = unwrap_or (TotalIssuance s c) 0"

definition accounts :: "('acc, 'cur, 'rid, 's) tokens_state \<Rightarrow> 'acc \<Rightarrow> 'cur \<Rightarrow> account_data" where
  "accounts s who c = unwrap_or (Accounts s (who, c)) default_account_data"

definition locks :: "('acc, 'cur, 'rid, 's) tokens_state \<Rightarrow> 'acc \<Rightarrow> 'cur \<Rightarrow> balance_lock list" where
  "locks s who c = unwrap_or (Locks s (who, c)) []"

definition reserves :: "('acc, 'cur, 'rid, 's) tokens_state \<Rightarrow> 'acc \<Rightarrow> 'cur \<Rightarrow> 'rid reserve_data list" where
  "reserves s who c = unwrap_or (Reserves s (who, c)) []"

definition free_balance :: "('acc, 'cur, 'rid, 's) tokens_state \<Rightarrow> 'cur \<Rightarrow> 'acc \<Rightarrow> balance" where
  "free_balance s c who = free (accounts s who c)"

definition reserved_balance :: "('acc, 'cur, 'rid, 's) tokens_state \<Rightarrow> 'cur \<Rightarrow> 'acc \<Rightarrow> balance" where
  "reserved_balance s c who = reserved (accounts s who c)"

definition total_balance :: "('acc, 'cur, 'rid, 's) tokens_state \<Rightarrow> 'cur \<Rightarrow> 'acc \<Rightarrow> balance" where
  "total_balance s c who = total (accounts s who c)"

definition deposit_event ::
  "('acc, 'cur) tokens_event \<Rightarrow> ('acc, 'cur, 'rid, 's) tokens_state \<Rightarrow> ('acc, 'cur, 'rid, 's) tokens_state" where
  "deposit_event e s = s\<lparr>tk_events := tk_events s @ [e]\<rparr>"

definition mutate_total_issuance ::
  "'cur \<Rightarrow> (balance \<Rightarrow> balance) \<Rightarrow> ('acc, 'cur, 'rid, 's) tokens_state \<Rightarrow> ('acc, 'cur, 'rid, 's) tokens_state" where
  "mutate_total_issuance c f s =
     s\<lparr>TotalIssuance := (TotalIssuance s)(c \<mapsto> f (total_issuance s c))\<rparr>"

section \<open>Checks\<close>

datatype deposit_consequence = DC_Success | DC_BelowMinimum | DC_Overflow

datatype withdraw_consequence =
  WC_Success | WC_Underflow | WC_BalanceLow | WC_WouldDie | WC_ReducedToZero balance | WC_Frozen

definition deposit_consequence ::
  "('acc, 'cur, 'rid, 's) tokens_config \<Rightarrow> 'cur \<Rightarrow> balance \<Rightarrow> account_data \<Rightarrow>
     ('acc, 'cur, 'rid, 's) tokens_state \<Rightarrow> deposit_consequence" where
  "deposit_consequence cfg c amount account s =
     (if amount = 0 then DC_Success
      else if checked_add (total_issuance s c) amount = None then DC_Overflow
      else case checked_add (total account) amount of
        None \<Rightarrow> DC_Overflow
      | Some new_total \<Rightarrow>
          if new_total < ExistentialDeposits cfg c then DC_BelowMinimum else DC_Success)"

definition withdraw_consequence ::
  "('acc, 'cur, 'rid, 's) tokens_config \<Rightarrow> 'acc \<Rightarrow> 'cur \<Rightarrow> balance \<Rightarrow> account_data \<Rightarrow>
     ('acc, 'cur, 'rid, 's) tokens_state \<Rightarrow> withdraw_consequence" where
  "withdraw_consequence cfg who c amount account s =
     (if amount = 0 then WC_Success
      else if checked_sub (total_issuance s c) amount = None then WC_Underflow
      else case checked_sub (total account) amount of
        None \<Rightarrow> WC_BalanceLow
      | Some new_total \<Rightarrow>
          if new_total < ExistentialDeposits cfg c \<and> \<not> can_dec_provider cfg who (tk_system s)
          then WC_WouldDie
          else
            (case checked_sub (free account) amount of
               None \<Rightarrow> WC_BalanceLow
             | Some new_free \<Rightarrow>
                 if new_free < frozen account then WC_Frozen
                 else if new_total < ExistentialDeposits cfg c then WC_ReducedToZero new_total
                 else WC_Success))"

definition ensure_can_withdraw ::
  "'cur \<Rightarrow> 'acc \<Rightarrow> balance \<Rightarrow> (('acc, 'cur, 'rid, 's) tokens_state, dispatch_error, unit) storage_op" where
  "ensure_can_withdraw c who amount s =
     (if amount = 0 then (Inr (), s)
      else case checked_sub (free_balance s c who) amount of
        None \<Rightarrow> (Inl (Module (Tokens_Error TK_BalanceTooLow)), s)
      | Some new_balance \<Rightarrow>
          if frozen (accounts s who c) \<le> new_balance then (Inr (), s)
          else (Inl (Module (Tokens_Error TK_LiquidityRestrictions)), s))"

section \<open>Mutating an account\<close>

text \<open>
  \<open>settle_account\<close> is the part of \<open>try_mutate_account\<close> that follows a successful closure: the
  entry is written back (or removed when its total is zero and below the existential deposit),
  the provider count and the creation and removal hooks follow the existence of the entry, and
  the endowment and the dust are reported.
\<close>

definition settle_account ::
  "('acc, 'cur, 'rid, 's) tokens_config \<Rightarrow> 'acc \<Rightarrow> 'cur \<Rightarrow> bool \<Rightarrow> account_data \<Rightarrow>
     ('acc, 'cur, 'rid, 's) tokens_state \<Rightarrow> balance option \<times> ('acc, 'cur, 'rid, 's) tokens_state" where
  "settle_account cfg who c existed account s =
     (let maybe_endowed = (if \<not> existed then Some (free account) else None);
          below = total account < ExistentialDeposits cfg c;
          maybe_account = (if below \<and> total account = 0 then None else Some account);
          maybe_dust = (if below \<and> total account \<noteq> 0 \<and> \<not> DustRemovalWhitelist cfg who
                        then Some (total account) else None);
          exists = (maybe_account \<noteq> None);
          s1 = s\<lparr>Accounts := (Accounts s)((who, c) := maybe_account)\<rparr>;
          s2 = (if existed \<and> \<not> exists
                then OnKilledTokenAccount cfg who c (s1\<lparr>tk_system := dec_providers cfg who (tk_system s1)\<rparr>)
                else if \<not> existed \<and> exists
                then OnNewTokenAccount cfg who c (s1\<lparr>tk_system := inc_providers cfg who (tk_system s1)\<rparr>)
                else s1);
          s3 = (case maybe_endowed of
                  None \<Rightarrow> s2
                | Some endowed \<Rightarrow> deposit_event (Endowed c who endowed) s2);
          s4 = (case maybe_dust of
                  None \<Rightarrow> s3
                | Some dust \<Rightarrow> deposit_event (DustLost c who dust) (OnDust cfg who c dust s3))
      in (maybe_dust, s4))"

definition try_mutate_account ::
  "('acc, 'cur, 'rid, 's) tokens_config \<Rightarrow> 'acc \<Rightarrow> 'cur \<Rightarrow>
     (account_data \<Rightarrow> bool \<Rightarrow> (('acc, 'cur, 'rid, 's) tokens_state, 'e, 'r \<times> account_data) storage_op) \<Rightarrow>
     (('acc, 'cur, 'rid, 's) tokens_state, 'e, 'r \<times> balance option) storage_op" where
  "try_mutate_account cfg who c f s =
     (let existed = (Accounts s (who, c) \<noteq> None) in
      case f (accounts s who c) existed s of
        (Inl e, s1) \<Rightarrow> (Inl e, s1)
      | (Inr (result, account), s1) \<Rightarrow>
          (case settle_account cfg who c existed account s1 of
             (maybe_dust, s2) \<Rightarrow> (Inr (result, maybe_dust), s2)))"

definition mutate_account ::
  "('acc, 'cur, 'rid, 's) tokens_config \<Rightarrow> 'acc \<Rightarrow> 'cur \<Rightarrow>
     (account_data \<Rightarrow> bool \<Rightarrow> ('acc, 'cur, 'rid, 's) tokens_state \<Rightarrow>
        ('r \<times> account_data) \<times> ('acc, 'cur, 'rid, 's) tokens_state) \<Rightarrow>
     ('acc, 'cur, 'rid, 's) tokens_state \<Rightarrow> ('r \<times> balance option) \<times> ('acc, 'cur, 'rid, 's) tokens_state" where
  "mutate_account cfg who c f s =
     (let existed = (Accounts s (who, c) \<noteq> None) in
      case f (accounts s who c) existed s of
        ((result, account), s1) \<Rightarrow>
          (case settle_account cfg who c existed account s1 of
             (maybe_dust, s2) \<Rightarrow> ((result, maybe_dust), s2)))"

definition set_free_balance ::
  "('acc, 'cur, 'rid, 's) tokens_config \<Rightarrow> 'cur \<Rightarrow> 'acc \<Rightarrow> balance \<Rightarrow>
     ('acc, 'cur, 'rid, 's) tokens_state \<Rightarrow> ('acc, 'cur, 'rid, 's) tokens_state" where
  "set_free_balance cfg c who amount s =
     snd (mutate_account cfg who c
       (\<lambda>account _ s. (((), account\<lparr>free := amount\<rparr>),
                         deposit_event (BalanceSet c who amount (reserved account)) s)) s)"

definition set_reserved_balance ::
  "('acc, 'cur, 'rid, 's) tokens_config \<Rightarrow> 'cur \<Rightarrow> 'acc \<Rightarrow> balance \<Rightarrow>
     ('acc, 'cur, 'rid, 's) tokens_state \<Rightarrow> ('acc, 'cur, 'rid, 's) tokens_state" where
  "set_reserved_balance cfg c who amount s =
     snd (mutate_account cfg who c
       (\<lambda>account _ s. (((), account\<lparr>reserved := amount\<rparr>),
                         deposit_event (BalanceSet c who (free account) amount) s)) s)"

definition max_lock :: "balance_lock list \<Rightarrow> balance" where
  "max_lock ls = fold (\<lambda>l f. max f (lock_amount l)) ls 0"

definition update_locks ::
  "('acc, 'cur, 'rid, 's) tokens_config \<Rightarrow> 'cur \<Rightarrow> 'acc \<Rightarrow> balance_lock list \<Rightarrow>
     (('acc, 'cur, 'rid, 's) tokens_state, dispatch_error, unit) storage_op" where
  "update_locks cfg c who ls s =
     (let ((fr, _), s1) =
            mutate_account cfg who c
              (\<lambda>account _ s. (((frozen account, max_lock ls), account\<lparr>frozen := max_lock ls\<rparr>), s)) s;
          (prev, after) = fr;
          existed = (Locks s1 (who, c) \<noteq> None);
          report = (\<lambda>s. if prev < after then deposit_event (LockedEv c who (saturating_sub after prev)) s
                         else if after < prev then deposit_event (Unlocked c who (saturating_sub prev after)) s
                         else s)
      in if ls = [] then
           let s2 = s1\<lparr>Locks := (Locks s1)((who, c) := None)\<rparr>;
               s3 = (if existed then s2\<lparr>tk_system := dec_consumers cfg who (tk_system s2)\<rparr> else s2)
           in (Inr (), report s3)
         else if length ls \<le> unat (MaxLocks cfg) then
           let s2 = s1\<lparr>Locks := (Locks s1)((who, c) \<mapsto> ls)\<rparr>;
               s3 = (if \<not> existed then s2\<lparr>tk_system := snd (inc_consumers cfg who (tk_system s2))\<rparr> else s2)
           in (Inr (), report s3)
         else (Inl (Module (Tokens_Error TK_MaxLocksExceeded)), s1))"

end
