(* ===== verification/Tokens.thy ===== *)
theory Tokens
  imports Tokens_Storage
begin

text \<open>
  The operations of the tokens pallet (\<^verbatim>\<open>orml/tokens/src/lib.rs\<close>): the three internal movers of
  free balance (\<open>do_transfer\<close>, \<open>do_withdraw\<close>, \<open>do_deposit\<close>), the multi-currency interface with
  slashing and locks, the reserves, anonymous and named, and the dispatchable calls.

  The \<open>defensive_saturating\<close> arithmetic of the code is saturating arithmetic that also logs when
  it saturates; it is modelled by the saturating operation.
\<close>

type_synonym ('acc, 'cur, 'rid, 's, 'a) tokens_op =
  "(('acc, 'cur, 'rid, 's) tokens_state, dispatch_error, 'a) storage_op"

abbreviation tokens_fail :: "tokens_error \<Rightarrow> dispatch_error" where
  "tokens_fail e \<equiv> Module (Tokens_Error e)"

section \<open>Transfer, withdraw and deposit\<close>

definition would_be_dead ::
  "('acc, 'cur, 'rid, 's) tokens_config \<Rightarrow> 'cur \<Rightarrow> 'acc \<Rightarrow> account_data \<Rightarrow> bool" where
  "would_be_dead cfg c who account =
     (if total account < ExistentialDeposits cfg c then
        (if total account = 0 then True else \<not> DustRemovalWhitelist cfg who)
      else False)"

definition do_transfer ::
  "('acc, 'cur, 'rid, 's) tokens_config \<Rightarrow> 'cur \<Rightarrow> 'acc \<Rightarrow> 'acc \<Rightarrow> balance \<Rightarrow> existence_requirement \<Rightarrow>
     ('acc, 'cur, 'rid, 's, unit) tokens_op" where
  "do_transfer cfg c from to amount existence_requirement =
     (if amount = 0 \<or> from = to then ok ()
      else
        bind_op (PreTransfer cfg c from to amount) (\<lambda>_.
        bind_op
          (try_mutate_account cfg to c (\<lambda>to_account _.
             bind_op
               (try_mutate_account cfg from c (\<lambda>from_account _.
                  bind_op (pure (ok_or (checked_sub (free from_account) amount) (tokens_fail TK_BalanceTooLow)))
                    (\<lambda>from_free.
                  bind_op (pure (ok_or (checked_add (free to_account) amount) (Arithmetic AE_Overflow)))
                    (\<lambda>to_free.
                  let from_account = from_account\<lparr>free := from_free\<rparr>;
                      to_account = to_account\<lparr>free := to_free\<rparr>;
                      ed = ExistentialDeposits cfg c
                  in
                  bind_op (ensure (ed \<le> total to_account \<or> DustRemovalWhitelist cfg to)
                            (tokens_fail TK_ExistentialDeposit)) (\<lambda>_.
                  bind_op (ensure_can_withdraw c from amount) (\<lambda>_ s.
                  let allow_death = (existence_requirement = AllowDeath \<and> can_dec_provider cfg from (tk_system s))
                  in bind_op (ensure (allow_death \<or> \<not> would_be_dead cfg c from from_account)
                               (tokens_fail TK_KeepAlive)) (\<lambda>_. ok (to_account, from_account)) s))))))
               (\<lambda>(to_account, _). ok ((), to_account))))
          (\<lambda>_.
        bind_op (PostTransfer cfg c from to amount) (\<lambda>_.
        modify_op (deposit_event (TransferEv c from to amount))))))"

definition do_withdraw ::
  "('acc, 'cur, 'rid, 's) tokens_config \<Rightarrow> 'cur \<Rightarrow> 'acc \<Rightarrow> balance \<Rightarrow> existence_requirement \<Rightarrow> bool \<Rightarrow>
     ('acc, 'cur, 'rid, 's, unit) tokens_op" where
  "do_withdraw cfg c who amount existence_requirement change_total_issuance =
     (if amount = 0 then ok ()
      else
        bind_op
          (try_mutate_account cfg who c (\<lambda>account _.
             bind_op (ensure_can_withdraw c who amount) (\<lambda>_.
             let previous_total = total account;
                 account = account\<lparr>free := saturating_sub (free account) amount\<rparr>;
                 ed = ExistentialDeposits cfg c;
                 would_kill = (would_be_dead cfg c who account \<and> (ed \<le> previous_total \<or> previous_total \<noteq> 0))
             in
             bind_op (ensure (existence_requirement = AllowDeath \<or> \<not> would_kill) (tokens_fail TK_KeepAlive)) (\<lambda>_.
             bind_op (modify_op (\<lambda>s. if change_total_issuance
                                       then mutate_total_issuance c (\<lambda>v. saturating_sub v amount) s else s)) (\<lambda>_.
             bind_op (modify_op (deposit_event (WithdrawnEv c who amount))) (\<lambda>_.
             ok ((), account)))))))
          (\<lambda>_. ok ()))"

definition do_deposit ::
  "('acc, 'cur, 'rid, 's) tokens_config \<Rightarrow> 'cur \<Rightarrow> 'acc \<Rightarrow> balance \<Rightarrow> bool \<Rightarrow> bool \<Rightarrow>
     ('acc, 'cur, 'rid, 's, balance) tokens_op" where
  "do_deposit cfg c who amount require_existed change_total_issuance =
     (if amount = 0 then ok amount
      else
        bind_op (PreDeposit cfg c who amount) (\<lambda>_.
        bind_op
          (try_mutate_account cfg who c (\<lambda>account existed.
             bind_op
               (if require_existed then ensure existed (tokens_fail TK_DeadAccount)
                else ensure (ExistentialDeposits cfg c \<le> amount \<or> existed \<or> DustRemovalWhitelist cfg who)
                       (tokens_fail TK_ExistentialDeposit)) (\<lambda>_ s.
             bind_op (pure (ok_or (checked_add (total_issuance s c) amount) (Arithmetic AE_Overflow)))
               (\<lambda>new_total_issuance.
             bind_op (modify_op (\<lambda>s. if change_total_issuance
                                       then mutate_total_issuance c (\<lambda>_. new_total_issuance) s else s)) (\<lambda>_.
             ok ((), account\<lparr>free := saturating_add (free account) amount\<rparr>))) s)))
          (\<lambda>_.
        bind_op (PostDeposit cfg c who amount) (\<lambda>_.
        bind_op (modify_op (deposit_event (DepositedEv c who amount))) (\<lambda>_.
        ok amount)))))"

text \<open>The two dust handlers the pallet offers for \<open>OnDust\<close>; both ignore the result.\<close>

definition transfer_dust ::
  "('acc, 'cur, 'rid, 's) tokens_config \<Rightarrow> 'acc \<Rightarrow> 'acc \<Rightarrow> 'cur \<Rightarrow> balance \<Rightarrow>
     ('acc, 'cur, 'rid, 's) tokens_state \<Rightarrow> ('acc, 'cur, 'rid, 's) tokens_state" where
  "transfer_dust cfg treasury who c amount s = snd (do_transfer cfg c who treasury amount AllowDeath s)"

definition burn_dust ::
  "('acc, 'cur, 'rid, 's) tokens_config \<Rightarrow> 'acc \<Rightarrow> 'cur \<Rightarrow> balance \<Rightarrow>
     ('acc, 'cur, 'rid, 's) tokens_state \<Rightarrow> ('acc, 'cur, 'rid, 's) tokens_state" where
  "burn_dust cfg who c amount s = snd (do_withdraw cfg c who amount AllowDeath True s)"

section \<open>The multi-currency interface\<close>

definition transfer ::
  "('acc, 'cur, 'rid, 's) tokens_config \<Rightarrow> 'cur \<Rightarrow> 'acc \<Rightarrow> 'acc \<Rightarrow> balance \<Rightarrow>
     ('acc, 'cur, 'rid, 's, unit) tokens_op" where
  "transfer cfg c from to amount = do_transfer cfg c from to amount AllowDeath"

definition deposit ::
  "('acc, 'cur, 'rid, 's) tokens_config \<Rightarrow> 'cur \<Rightarrow> 'acc \<Rightarrow> balance \<Rightarrow> ('acc, 'cur, 'rid, 's, unit) tokens_op" where
  "deposit cfg c who amount = bind_op (do_deposit cfg c who amount False True) (\<lambda>_. ok ())"

definition withdraw ::
  "('acc, 'cur, 'rid, 's) tokens_config \<Rightarrow> 'cur \<Rightarrow> 'acc \<Rightarrow> balance \<Rightarrow> ('acc, 'cur, 'rid, 's, unit) tokens_op" where
  "withdraw cfg c who amount = do_withdraw cfg c who amount AllowDeath True"

definition can_slash :: "('acc, 'cur, 'rid, 's) tokens_state \<Rightarrow> 'cur \<Rightarrow> 'acc \<Rightarrow> balance \<Rightarrow> bool" where
  "can_slash s c who value = (if value = 0 then True else value \<le> free_balance s c who)"

definition slash ::
  "('acc, 'cur, 'rid, 's) tokens_config \<Rightarrow> 'cur \<Rightarrow> 'acc \<Rightarrow> balance \<Rightarrow>
     ('acc, 'cur, 'rid, 's) tokens_state \<Rightarrow> balance \<times> ('acc, 'cur, 'rid, 's) tokens_state" where
  "slash cfg c who amount s =
     (if amount = 0 then (amount, s)
      else
        let s1 = OnSlash cfg c who amount s;
            account = accounts s1 who c;
            free_slashed_amount = min (free account) amount;
            remaining_slash = saturating_sub amount free_slashed_amount;
            s2 = (if free_slashed_amount \<noteq> 0
                  then set_free_balance cfg c who (saturating_sub (free account) free_slashed_amount) s1 else s1);
            reserved_slashed_amount = min (reserved account) remaining_slash;
            (remaining_slash, s3) =
              (if reserved_slashed_amount \<noteq> 0
               then (saturating_sub remaining_slash reserved_slashed_amount,
                     set_reserved_balance cfg c who (saturating_sub (reserved account) reserved_slashed_amount) s2)
               else (remaining_slash, s2));
            s4 = mutate_total_issuance c (\<lambda>v. saturating_sub v (saturating_sub amount remaining_slash)) s3
        in (remaining_slash, deposit_event (SlashedEv c who free_slashed_amount reserved_slashed_amount) s4))"

text \<open>An \<open>i128\<close> is the word of its two's complement.\<close>

definition i128_min :: "128 word" where "i128_min = push_bit 127 1"

definition i128_max :: "128 word" where "i128_max = i128_min - 1"

definition i128_abs :: "128 word \<Rightarrow> 128 word" where
  "i128_abs a = (if sint a < 0 then - a else a)"

definition update_balance ::
  "('acc, 'cur, 'rid, 's) tokens_config \<Rightarrow> 'cur \<Rightarrow> 'acc \<Rightarrow> 128 word \<Rightarrow> ('acc, 'cur, 'rid, 's, unit) tokens_op" where
  "update_balance cfg c who by_amount =
     (if by_amount = 0 then ok ()
      else
        let by_amount_abs = (if by_amount = i128_min then i128_max else i128_abs by_amount) in
        if sint by_amount_abs < 0 then fail (tokens_fail TK_AmountIntoBalanceFailed)
        else if 0 < sint by_amount then deposit cfg c who by_amount_abs
        else withdraw cfg c who by_amount_abs)"

section \<open>Locks\<close>

fun place_lock ::
  "bytes \<Rightarrow> (balance_lock \<Rightarrow> balance_lock \<Rightarrow> balance_lock) \<Rightarrow> balance_lock option \<Rightarrow> balance_lock list \<Rightarrow>
     balance_lock list \<times> balance_lock option" where
  "place_lock i f new_lock [] = ([], new_lock)"
| "place_lock i f new_lock (l # ls) =
     (if lock_id l = i then
        (case new_lock of
           None \<Rightarrow> place_lock i f None ls
         | Some nl \<Rightarrow> (case place_lock i f None ls of (ls', r) \<Rightarrow> (f l nl # ls', r)))
      else (case place_lock i f new_lock ls of (ls', r) \<Rightarrow> (l # ls', r)))"

definition place_or_push ::
  "bytes \<Rightarrow> (balance_lock \<Rightarrow> balance_lock \<Rightarrow> balance_lock) \<Rightarrow> balance_lock \<Rightarrow> balance_lock list \<Rightarrow> balance_lock list" where
  "place_or_push i f nl ls =
     (case place_lock i f (Some nl) ls of
        (ls', None) \<Rightarrow> ls'
      | (ls', Some lock) \<Rightarrow> ls' @ [lock])"

definition set_lock ::
  "('acc, 'cur, 'rid, 's) tokens_config \<Rightarrow> bytes \<Rightarrow> 'cur \<Rightarrow> 'acc \<Rightarrow> balance \<Rightarrow> ('acc, 'cur, 'rid, 's, unit) tokens_op" where
  "set_lock cfg i c who amount s =
     (if amount = 0 then ok () s
      else
        let ls = place_or_push i (\<lambda>_ nl. nl) \<lparr>lock_id = i, lock_amount = amount\<rparr> (locks s who c)
        in bind_op (update_locks cfg c who ls) (\<lambda>_. modify_op (deposit_event (LockSet i c who amount))) s)"

definition extend_lock ::
  "('acc, 'cur, 'rid, 's) tokens_config \<Rightarrow> bytes \<Rightarrow> 'cur \<Rightarrow> 'acc \<Rightarrow> balance \<Rightarrow> ('acc, 'cur, 'rid, 's, unit) tokens_op" where
  "extend_lock cfg i c who amount s =
     (if amount = 0 then ok () s
      else
        let ls = place_or_push i
                   (\<lambda>l nl. \<lparr>lock_id = lock_id l, lock_amount = max (lock_amount l) (lock_amount nl)\<rparr>)
                   \<lparr>lock_id = i, lock_amount = amount\<rparr> (locks s who c)
        in update_locks cfg c who ls s)"

definition remove_lock ::
  "('acc, 'cur, 'rid, 's) tokens_config \<Rightarrow> bytes \<Rightarrow> 'cur \<Rightarrow> 'acc \<Rightarrow> ('acc, 'cur, 'rid, 's, unit) tokens_op" where
  "remove_lock cfg i c who s =
     bind_op (update_locks cfg c who (filter (\<lambda>l. lock_id l \<noteq> i) (locks s who c)))
       (\<lambda>_. modify_op (deposit_event (LockRemoved i c who))) s"

end
