(* ===== verification/Tokens_Reserves.thy ===== *)
theory Tokens_Reserves
  imports Tokens
begin

text \<open>
  The reserves of the tokens pallet (\<^verbatim>\<open>orml/tokens/src/lib.rs\<close>, \<open>MultiReservableCurrency\<close> and
  \<open>NamedMultiReservableCurrency\<close>): balance moved between the free and the reserved part of an
  account, and the vector of named reserves of an account, kept sorted by identifier and found
  by binary search.
\<close>

section \<open>Anonymous reserves\<close>

definition can_reserve :: "('acc, 'cur, 'rid, 's) tokens_state \<Rightarrow> 'cur \<Rightarrow> 'acc \<Rightarrow> balance \<Rightarrow> bool" where
  "can_reserve s c who value =
     (if value = 0 then True
      else case fst (ensure_can_withdraw c who value s) of Inr _ \<Rightarrow> True | Inl _ \<Rightarrow> False)"

definition slash_reserved ::
  "('acc, 'cur, 'rid, 's) tokens_config \<Rightarrow> 'cur \<Rightarrow> 'acc \<Rightarrow> balance \<Rightarrow>
     ('acc, 'cur, 'rid, 's) tokens_state \<Rightarrow> balance \<times> ('acc, 'cur, 'rid, 's) tokens_state" where
  "slash_reserved cfg c who value s =
     (if value = 0 then (value, s)
      else
        let s1 = OnSlash cfg c who value s;
            rb = reserved_balance s1 c who;
            actual = min rb value;
            s2 = snd (mutate_account cfg who c
                   (\<lambda>account _ s. (((), account\<lparr>reserved := saturating_sub rb actual\<rparr>), s)) s1);
            s3 = mutate_total_issuance c (\<lambda>v. saturating_sub v actual) s2
        in (saturating_sub value actual, deposit_event (SlashedEv c who 0 actual) s3))"

definition reserve ::
  "('acc, 'cur, 'rid, 's) tokens_config \<Rightarrow> 'cur \<Rightarrow> 'acc \<Rightarrow> balance \<Rightarrow> ('acc, 'cur, 'rid, 's, unit) tokens_op" where
  "reserve cfg c who value =
     (if value = 0 then ok ()
      else
        bind_op (ensure_can_withdraw c who value) (\<lambda>_.
        modify_op (\<lambda>s. snd (mutate_account cfg who c
          (\<lambda>account _ s.
             (((), account\<lparr>free := saturating_sub (free account) value,
                           reserved := saturating_add (reserved account) value\<rparr>),
              deposit_event (ReservedEv c who value) s)) s))))"

definition unreserve ::
  "('acc, 'cur, 'rid, 's) tokens_config \<Rightarrow> 'cur \<Rightarrow> 'acc \<Rightarrow> balance \<Rightarrow>
     ('acc, 'cur, 'rid, 's) tokens_state \<Rightarrow> balance \<times> ('acc, 'cur, 'rid, 's) tokens_state" where
  "unreserve cfg c who value s =
     (if value = 0 then (value, s)
      else
        (case mutate_account cfg who c
           (\<lambda>account _ s.
              let actual = min (reserved account) value in
              ((saturating_sub value actual,
                account\<lparr>reserved := saturating_sub (reserved account) actual,
                        free := saturating_add (free account) actual\<rparr>),
               deposit_event (Unreserved c who actual) s)) s
         of ((remaining, _), s1) \<Rightarrow> (remaining, s1)))"

definition repatriate_reserved ::
  "('acc, 'cur, 'rid, 's) tokens_config \<Rightarrow> 'cur \<Rightarrow> 'acc \<Rightarrow> 'acc \<Rightarrow> balance \<Rightarrow> balance_status \<Rightarrow>
     ('acc, 'cur, 'rid, 's, balance) tokens_op" where
  "repatriate_reserved cfg c slashed beneficiary value status s =
     (if value = 0 then (Inr value, s)
      else if slashed = beneficiary then
        (case status of
           Free \<Rightarrow> (case unreserve cfg c slashed value s of (r, s1) \<Rightarrow> (Inr r, s1))
         | Reserved \<Rightarrow> (Inr (saturating_sub value (reserved_balance s c slashed)), s))
      else
        let from_account = accounts s slashed c;
            to_account = accounts s beneficiary c;
            actual = min (reserved from_account) value;
            s1 = (case status of
                    Free \<Rightarrow> set_free_balance cfg c beneficiary (saturating_add (free to_account) actual) s
                  | Reserved \<Rightarrow> set_reserved_balance cfg c beneficiary (saturating_add (reserved to_account) actual) s);
            s2 = set_reserved_balance cfg c slashed (saturating_sub (reserved from_account) actual) s1
        in (Inr (saturating_sub value actual),
            deposit_event (ReserveRepatriated c slashed beneficiary actual status) s2))"

section \<open>Named reserves\<close>

definition put_reserves ::
  "'acc \<Rightarrow> 'cur \<Rightarrow> 'rid reserve_data list option \<Rightarrow>
     ('acc, 'cur, 'rid, 's) tokens_state \<Rightarrow> ('acc, 'cur, 'rid, 's) tokens_state" where
  "put_reserves who c rs s = s\<lparr>Reserves := (Reserves s)((who, c) := rs)\<rparr>"

definition set_reserve_amount :: "nat \<Rightarrow> balance \<Rightarrow> 'rid reserve_data list \<Rightarrow> 'rid reserve_data list" where
  "set_reserve_amount i v rs = rs[i := (rs ! i)\<lparr>reserve_amount := v\<rparr>]"

definition try_insert :: "u32 \<Rightarrow> nat \<Rightarrow> 'a \<Rightarrow> 'a list \<Rightarrow> 'a list option" where
  "try_insert bound i x xs =
     (if length xs < unat bound then Some (take i xs @ x # drop i xs) else None)"

definition remove_at :: "nat \<Rightarrow> 'a list \<Rightarrow> 'a list" where
  "remove_at i xs = take i xs @ drop (Suc i) xs"

definition reserved_balance_named ::
  "('acc, 'cur, 'rid::linorder, 's) tokens_state \<Rightarrow> 'rid \<Rightarrow> 'cur \<Rightarrow> 'acc \<Rightarrow> balance" where
  "reserved_balance_named s i c who =
     (let rs = reserves s who c in
      case binary_search_by_key reserve_id rs i of
        Inr index \<Rightarrow> reserve_amount (rs ! index)
      | Inl _ \<Rightarrow> 0)"

definition reserve_named ::
  "('acc, 'cur, 'rid::linorder, 's) tokens_config \<Rightarrow> 'rid \<Rightarrow> 'cur \<Rightarrow> 'acc \<Rightarrow> balance \<Rightarrow>
     ('acc, 'cur, 'rid, 's, unit) tokens_op" where
  "reserve_named cfg i c who value s =
     (if value = 0 then (Inr (), s)
      else
        let rs = reserves s who c;
            changed =
              (case binary_search_by_key reserve_id rs i of
                 Inr index \<Rightarrow>
                   Some (set_reserve_amount index (saturating_add (reserve_amount (rs ! index)) value) rs)
               | Inl index \<Rightarrow> try_insert (MaxReserves cfg) index \<lparr>reserve_id = i, reserve_amount = value\<rparr> rs)
        in
        bind_op (pure (ok_or changed (tokens_fail TK_TooManyReserves))) (\<lambda>rs.
        bind_op (reserve cfg c who value) (\<lambda>_.
        modify_op (put_reserves who c (Some rs)))) s)"

definition unreserve_named ::
  "('acc, 'cur, 'rid::linorder, 's) tokens_config \<Rightarrow> 'rid \<Rightarrow> 'cur \<Rightarrow> 'acc \<Rightarrow> balance \<Rightarrow>
     ('acc, 'cur, 'rid, 's) tokens_state \<Rightarrow> balance \<times> ('acc, 'cur, 'rid, 's) tokens_state" where
  "unreserve_named cfg i c who value s =
     (if value = 0 then (0, s)
      else
        (case Reserves s (who, c) of
           None \<Rightarrow> (value, put_reserves who c None s)
         | Some rs \<Rightarrow>
             (case binary_search_by_key reserve_id rs i of
                Inl _ \<Rightarrow> (value, put_reserves who c (Some rs) s)
              | Inr index \<Rightarrow>
                  let to_change = min (reserve_amount (rs ! index)) value;
                      (remain, s1) = unreserve cfg c who to_change s;
                      actual = saturating_sub to_change remain;
                      rs' = set_reserve_amount index (saturating_sub (reserve_amount (rs ! index)) actual) rs;
                      rs'' = (if reserve_amount (rs' ! index) = 0
                              then (if length rs' = 1 then None else Some (remove_at index rs'))
                              else Some rs')
                  in (saturating_sub value actual, put_reserves who c rs'' s1))))"

definition slash_reserved_named ::
  "('acc, 'cur, 'rid::linorder, 's) tokens_config \<Rightarrow> 'rid \<Rightarrow> 'cur \<Rightarrow> 'acc \<Rightarrow> balance \<Rightarrow>
     ('acc, 'cur, 'rid, 's) tokens_state \<Rightarrow> balance \<times> ('acc, 'cur, 'rid, 's) tokens_state" where
  "slash_reserved_named cfg i c who value s =
     (if value = 0 then (0, s)
      else
        let rs = reserves s who c in
        (case binary_search_by_key reserve_id rs i of
           Inl _ \<Rightarrow> (value, put_reserves who c (Some rs) s)
         | Inr index \<Rightarrow>
             let to_change = min (reserve_amount (rs ! index)) value;
                 (remain, s1) = slash_reserved cfg c who to_change s;
                 actual = saturating_sub to_change remain;
                 rs' = set_reserve_amount index (saturating_sub (reserve_amount (rs ! index)) actual) rs;
                 s2 = deposit_event (SlashedEv c who 0 actual) s1
             in (saturating_sub value actual, put_reserves who c (Some rs') s2)))"

text \<open>
  The inner mutation of \<open>repatriate_reserved_named\<close>: the beneficiary's vector gains what was
  moved, under the same identifier. The capacity of the vector is checked after the balances
  have been moved, so the error does not undo the move by itself.
\<close>

definition credit_named_reserve ::
  "('acc, 'cur, 'rid::linorder, 's) tokens_config \<Rightarrow> 'rid \<Rightarrow> 'cur \<Rightarrow> 'acc \<Rightarrow> 'acc \<Rightarrow> balance \<Rightarrow> balance_status \<Rightarrow>
     ('acc, 'cur, 'rid, 's, balance) tokens_op" where
  "credit_named_reserve cfg i c slashed beneficiary to_change status s =
     (let rs = reserves s beneficiary c in
      case binary_search_by_key reserve_id rs i of
        Inr index \<Rightarrow>
          bind_op (repatriate_reserved cfg c slashed beneficiary to_change status) (\<lambda>remain.
          let actual = saturating_sub to_change remain;
              rs' = set_reserve_amount index (saturating_add (reserve_amount (rs ! index)) actual) rs
          in bind_op (modify_op (put_reserves beneficiary c (Some rs'))) (\<lambda>_. ok actual)) s
      | Inl index \<Rightarrow>
          bind_op (repatriate_reserved cfg c slashed beneficiary to_change status) (\<lambda>remain.
          let actual = saturating_sub to_change remain in
          bind_op (pure (ok_or (try_insert (MaxReserves cfg) index \<lparr>reserve_id = i, reserve_amount = actual\<rparr> rs)
                          (tokens_fail TK_TooManyReserves))) (\<lambda>rs'.
          bind_op (modify_op (put_reserves beneficiary c (Some rs'))) (\<lambda>_. ok actual))) s)"

definition repatriate_reserved_named ::
  "('acc, 'cur, 'rid::linorder, 's) tokens_config \<Rightarrow> 'rid \<Rightarrow> 'cur \<Rightarrow> 'acc \<Rightarrow> 'acc \<Rightarrow> balance \<Rightarrow> balance_status \<Rightarrow>
     ('acc, 'cur, 'rid, 's, balance) tokens_op" where
  "repatriate_reserved_named cfg i c slashed beneficiary value status s =
     (if value = 0 then (Inr 0, s)
      else if slashed = beneficiary then
        (case status of
           Free \<Rightarrow> (case unreserve_named cfg i c slashed value s of (r, s1) \<Rightarrow> (Inr r, s1))
         | Reserved \<Rightarrow> (Inr (saturating_sub value (reserved_balance_named s i c slashed)), s))
      else
        let rs = reserves s slashed c in
        (case binary_search_by_key reserve_id rs i of
           Inl _ \<Rightarrow> (Inr value, put_reserves slashed c (Some rs) s)
         | Inr index \<Rightarrow>
             let to_change = min (reserve_amount (rs ! index)) value in
             bind_op
               (if status = Reserved then credit_named_reserve cfg i c slashed beneficiary to_change status
                else bind_op (repatriate_reserved cfg c slashed beneficiary to_change status)
                       (\<lambda>remain. ok (saturating_sub to_change remain))) (\<lambda>actual.
             let rs' = set_reserve_amount index (saturating_sub (reserve_amount (rs ! index)) actual) rs in
             bind_op (modify_op (put_reserves slashed c (Some rs'))) (\<lambda>_.
             ok (saturating_sub value actual))) s))"

end
