(* ===== verification/Tokens_Calls.thy ===== *)
theory Tokens_Calls
  imports Tokens_Reserves
begin

text \<open>
  The outer interfaces of the tokens pallet (\<^verbatim>\<open>orml/tokens/src/lib.rs\<close>): the \<open>fungibles\<close> traits,
  the dispatchable calls, the genesis build, and the transfer of all the currencies of an account.

  The account lookup of the runtime and the conversion of a deposit or withdraw consequence into a
  result (\<open>into_result\<close>) belong to the framework; they are arguments of the operations that use
  them.
\<close>

section \<open>Fungibles\<close>

datatype preservation = Expendable | Protect | Preserve

datatype precision = Exact | BestEffort

datatype restriction = FreeRestriction | OnHold

definition reducible_balance ::
  "('acc, 'cur, 'rid, 's) tokens_config \<Rightarrow> ('acc, 'cur, 'rid, 's) tokens_state \<Rightarrow> 'cur \<Rightarrow> 'acc \<Rightarrow> preservation \<Rightarrow> balance" where
  "reducible_balance cfg s c who pr =
     (let a = accounts s who c;
          liquid = saturating_sub (free a) (frozen a)
      in if can_dec_provider cfg who (tk_system s) \<and> pr \<noteq> Protect then liquid
         else
           let must_remain_to_exist =
                 saturating_sub (ExistentialDeposits cfg c) (saturating_sub (total a) liquid)
           in saturating_sub liquid must_remain_to_exist)"

definition can_deposit ::
  "('acc, 'cur, 'rid, 's) tokens_config \<Rightarrow> ('acc, 'cur, 'rid, 's) tokens_state \<Rightarrow> 'cur \<Rightarrow> 'acc \<Rightarrow> balance \<Rightarrow> deposit_consequence" where
  "can_deposit cfg s c who amount = deposit_consequence cfg c amount (accounts s who c) s"

definition can_withdraw ::
  "('acc, 'cur, 'rid, 's) tokens_config \<Rightarrow> ('acc, 'cur, 'rid, 's) tokens_state \<Rightarrow> 'cur \<Rightarrow> 'acc \<Rightarrow> balance \<Rightarrow> withdraw_consequence" where
  "can_withdraw cfg s c who amount = withdraw_consequence cfg who c amount (accounts s who c) s"

definition asset_exists :: "('acc, 'cur, 'rid, 's) tokens_state \<Rightarrow> 'cur \<Rightarrow> bool" where
  "asset_exists s c = (TotalIssuance s c \<noteq> None)"

definition mint_into ::
  "(deposit_consequence \<Rightarrow> unit result) \<Rightarrow> ('acc, 'cur, 'rid, 's) tokens_config \<Rightarrow> 'cur \<Rightarrow> 'acc \<Rightarrow> balance \<Rightarrow>
     ('acc, 'cur, 'rid, 's, balance) tokens_op" where
  "mint_into into_result cfg c who amount s =
     bind_op (pure (into_result (deposit_consequence cfg c amount (accounts s who c) s))) (\<lambda>_.
     do_deposit cfg c who amount False True) s"

definition burn_from ::
  "(withdraw_consequence \<Rightarrow> balance result) \<Rightarrow> ('acc, 'cur, 'rid, 's) tokens_config \<Rightarrow> 'cur \<Rightarrow> 'acc \<Rightarrow> balance \<Rightarrow>
     ('acc, 'cur, 'rid, 's, balance) tokens_op" where
  "burn_from into_result cfg c who amount s =
     bind_op (pure (into_result (withdraw_consequence cfg who c amount (accounts s who c) s))) (\<lambda>extra.
     let actual = saturating_add amount extra in
     bind_op (do_withdraw cfg c who actual AllowDeath True) (\<lambda>_. ok actual)) s"

definition fungibles_transfer ::
  "('acc, 'cur, 'rid, 's) tokens_config \<Rightarrow> 'cur \<Rightarrow> 'acc \<Rightarrow> 'acc \<Rightarrow> balance \<Rightarrow> preservation \<Rightarrow>
     ('acc, 'cur, 'rid, 's, balance) tokens_op" where
  "fungibles_transfer cfg c source dest amount pr =
     bind_op (do_transfer cfg c source dest amount (case pr of Expendable \<Rightarrow> AllowDeath | _ \<Rightarrow> KeepAlive))
       (\<lambda>_. ok amount)"

definition write_balance ::
  "('acc, 'cur, 'rid, 's) tokens_config \<Rightarrow> 'cur \<Rightarrow> 'acc \<Rightarrow> balance \<Rightarrow> ('acc, 'cur, 'rid, 's, balance option) tokens_op" where
  "write_balance cfg c who amount s =
     (let max_reduction = reducible_balance cfg s c who Expendable in
      bind_op
        (try_mutate_account cfg who c (\<lambda>account _.
           let reduction = saturating_sub (free account) amount in
           bind_op (ensure (reduction \<le> max_reduction) (tokens_fail TK_BalanceTooLow)) (\<lambda>_.
           let account = account\<lparr>free := amount\<rparr> in
           bind_op (modify_op (deposit_event (BalanceSet c who (free account) (reserved account)))) (\<lambda>_.
           ok ((), account)))))
        (\<lambda>(_, dust_amount). ok dust_amount) s)"

definition set_total_issuance ::
  "'cur \<Rightarrow> balance \<Rightarrow> ('acc, 'cur, 'rid, 's) tokens_state \<Rightarrow> ('acc, 'cur, 'rid, 's) tokens_state" where
  "set_total_issuance c amount s =
     deposit_event (TotalIssuanceSet c amount) (mutate_total_issuance c (\<lambda>_. amount) s)"

definition decrease_balance ::
  "('acc, 'cur, 'rid, 's) tokens_config \<Rightarrow> 'cur \<Rightarrow> 'acc \<Rightarrow> balance \<Rightarrow> precision \<Rightarrow> preservation \<Rightarrow>
     ('acc, 'cur, 'rid, 's, balance) tokens_op" where
  "decrease_balance cfg c who amount prec pr s =
     (let old_balance = free (accounts s who c);
          fr = reducible_balance cfg s c who pr;
          amount = (if prec = BestEffort then min amount fr else amount)
      in
      bind_op (pure (ok_or (checked_sub old_balance amount) (Token_Err TE_FundsUnavailable))) (\<lambda>new_balance.
      bind_op (write_balance cfg c who new_balance) (\<lambda>_.
      ok (saturating_sub old_balance new_balance))) s)"

definition can_hold ::
  "('acc, 'cur, 'rid, 's) tokens_config \<Rightarrow> ('acc, 'cur, 'rid, 's) tokens_state \<Rightarrow> 'cur \<Rightarrow> 'acc \<Rightarrow> balance \<Rightarrow> bool" where
  "can_hold cfg s c who amount =
     (let a = accounts s who c;
          min_balance = max (ExistentialDeposits cfg c) (frozen a)
      in if checked_add (reserved a) amount = None then False
         else case checked_add min_balance amount of
           None \<Rightarrow> False
         | Some required_free \<Rightarrow> required_free \<le> free a)"

definition hold ::
  "('acc, 'cur, 'rid, 's) tokens_config \<Rightarrow> 'cur \<Rightarrow> 'acc \<Rightarrow> balance \<Rightarrow> ('acc, 'cur, 'rid, 's, unit) tokens_op" where
  "hold cfg c who amount = reserve cfg c who amount"

definition release ::
  "('acc, 'cur, 'rid, 's) tokens_config \<Rightarrow> 'cur \<Rightarrow> 'acc \<Rightarrow> balance \<Rightarrow> precision \<Rightarrow>
     ('acc, 'cur, 'rid, 's, balance) tokens_op" where
  "release cfg c who amount prec =
     (if amount = 0 then ok amount
      else
        bind_op
          (try_mutate_account cfg who c (\<lambda>a _.
             let new_free = saturating_add (free a) (min amount (reserved a));
                 actual = saturating_sub new_free (free a)
             in
             bind_op (ensure (prec = BestEffort \<or> actual = amount) (tokens_fail TK_BalanceTooLow)) (\<lambda>_.
             bind_op (modify_op (deposit_event (Unreserved c who amount))) (\<lambda>_.
             ok (actual, a\<lparr>free := new_free, reserved := saturating_sub (reserved a) actual\<rparr>)))))
          (\<lambda>(released, _). ok released))"

definition transfer_on_hold ::
  "('acc, 'cur, 'rid, 's) tokens_config \<Rightarrow> 'cur \<Rightarrow> 'acc \<Rightarrow> 'acc \<Rightarrow> balance \<Rightarrow> precision \<Rightarrow> restriction \<Rightarrow>
     ('acc, 'cur, 'rid, 's, balance) tokens_op" where
  "transfer_on_hold cfg c source dest amount prec restr s =
     (let status = (if restr = OnHold then Reserved else Free) in
      bind_op (ensure (amount \<le> reserved (accounts s source c) \<or> prec = BestEffort) (tokens_fail TK_BalanceTooLow)) (\<lambda>_.
      bind_op (repatriate_reserved cfg c source dest amount status) (\<lambda>gap.
      ok (saturating_sub amount gap))) s)"

definition set_balance_on_hold ::
  "('acc, 'cur, 'rid, 's) tokens_config \<Rightarrow> 'cur \<Rightarrow> 'acc \<Rightarrow> balance \<Rightarrow> ('acc, 'cur, 'rid, 's, unit) tokens_op" where
  "set_balance_on_hold cfg c who amount =
     bind_op
       (try_mutate_account cfg who c (\<lambda>account _.
          bind_op (pure (ok_or (checked_add (free account) (reserved account)) (Arithmetic AE_Overflow))) (\<lambda>sum.
          bind_op (pure (ok_or (checked_sub sum amount) (Token_Err TE_BelowMinimum))) (\<lambda>new_free.
          let account = account\<lparr>reserved := amount, free := new_free\<rparr> in
          bind_op (modify_op (deposit_event (BalanceSet c who (free account) (reserved account)))) (\<lambda>_.
          ok ((), account))))))
       (\<lambda>_. ok ())"

section \<open>Calls\<close>

definition transfer_call ::
  "('src \<Rightarrow> 'acc result) \<Rightarrow> ('acc, 'cur, 'rid, 's) tokens_config \<Rightarrow> 'acc origin \<Rightarrow> 'src \<Rightarrow> 'cur \<Rightarrow> balance \<Rightarrow>
     ('acc, 'cur, 'rid, 's, unit) tokens_op" where
  "transfer_call lookup cfg orig dest c amount =
     bind_op (pure (ensure_signed orig)) (\<lambda>from.
     bind_op (pure (lookup dest)) (\<lambda>to.
     do_transfer cfg c from to amount AllowDeath))"

definition transfer_all_call ::
  "('src \<Rightarrow> 'acc result) \<Rightarrow> ('acc, 'cur, 'rid, 's) tokens_config \<Rightarrow> 'acc origin \<Rightarrow> 'src \<Rightarrow> 'cur \<Rightarrow> bool \<Rightarrow>
     ('acc, 'cur, 'rid, 's, unit) tokens_op" where
  "transfer_all_call lookup cfg orig dest c keep_alive =
     bind_op (pure (ensure_signed orig)) (\<lambda>from.
     bind_op (pure (lookup dest)) (\<lambda>to s.
     let pr = (if keep_alive then Protect else Expendable);
         amount = reducible_balance cfg s c from pr
     in bind_op (fungibles_transfer cfg c from to amount pr) (\<lambda>_. ok ()) s))"

definition transfer_keep_alive_call ::
  "('src \<Rightarrow> 'acc result) \<Rightarrow> ('acc, 'cur, 'rid, 's) tokens_config \<Rightarrow> 'acc origin \<Rightarrow> 'src \<Rightarrow> 'cur \<Rightarrow> balance \<Rightarrow>
     ('acc, 'cur, 'rid, 's, unit) tokens_op" where
  "transfer_keep_alive_call lookup cfg orig dest c amount =
     bind_op (pure (ensure_signed orig)) (\<lambda>from.
     bind_op (pure (lookup dest)) (\<lambda>to.
     bind_op (do_transfer cfg c from to amount KeepAlive) (\<lambda>_. ok ())))"

definition force_transfer_call ::
  "('src \<Rightarrow> 'acc result) \<Rightarrow> ('acc, 'cur, 'rid, 's) tokens_config \<Rightarrow> 'acc origin \<Rightarrow> 'src \<Rightarrow> 'src \<Rightarrow> 'cur \<Rightarrow> balance \<Rightarrow>
     ('acc, 'cur, 'rid, 's, unit) tokens_op" where
  "force_transfer_call lookup cfg orig source dest c amount =
     bind_op (pure (ensure_root orig)) (\<lambda>_.
     bind_op (pure (lookup source)) (\<lambda>from.
     bind_op (pure (lookup dest)) (\<lambda>to.
     do_transfer cfg c from to amount AllowDeath)))"

definition settle_issuance :: "'cur \<Rightarrow> balance \<Rightarrow> balance \<Rightarrow> ('acc, 'cur, 'rid, 's, unit) tokens_op" where
  "settle_issuance c old_total new_total s =
     (if old_total < new_total then
        bind_op (pure (ok_or (checked_add (total_issuance s c) (saturating_sub new_total old_total))
                        (Arithmetic AE_Overflow))) (\<lambda>t. modify_op (mutate_total_issuance c (\<lambda>_. t))) s
      else if new_total < old_total then
        bind_op (pure (ok_or (checked_sub (total_issuance s c) (saturating_sub old_total new_total))
                        (Arithmetic AE_Underflow))) (\<lambda>t. modify_op (mutate_total_issuance c (\<lambda>_. t))) s
      else ok () s)"

definition set_balance_account ::
  "('acc, 'cur, 'rid, 's) tokens_config \<Rightarrow> 'cur \<Rightarrow> 'acc \<Rightarrow> balance \<Rightarrow> balance \<Rightarrow> ('acc, 'cur, 'rid, 's, unit) tokens_op" where
  "set_balance_account cfg c who new_free new_reserved =
     bind_op
       (try_mutate_account cfg who c (\<lambda>account _.
          bind_op (pure (ok_or (checked_add new_free new_reserved) (Arithmetic AE_Overflow))) (\<lambda>sum.
          let (new_total, new_free, new_reserved) =
                (if sum < ExistentialDeposits cfg c then (0, 0, 0) else (sum, new_free, new_reserved));
              old_total = total account;
              account = account\<lparr>free := new_free, reserved := new_reserved\<rparr>
          in
          bind_op (settle_issuance c old_total new_total) (\<lambda>_.
          bind_op (modify_op (deposit_event (BalanceSet c who new_free new_reserved))) (\<lambda>_.
          ok ((), account))))))
       (\<lambda>_. ok ())"

definition set_balance_call ::
  "('src \<Rightarrow> 'acc result) \<Rightarrow> ('acc, 'cur, 'rid, 's) tokens_config \<Rightarrow> 'acc origin \<Rightarrow> 'src \<Rightarrow> 'cur \<Rightarrow> balance \<Rightarrow> balance \<Rightarrow>
     ('acc, 'cur, 'rid, 's, unit) tokens_op" where
  "set_balance_call lookup cfg orig source c new_free new_reserved =
     bind_op (pure (ensure_root orig)) (\<lambda>_.
     bind_op (pure (lookup source)) (\<lambda>who.
     set_balance_account cfg c who new_free new_reserved))"

section \<open>Genesis and the transfer of every currency\<close>

text \<open>A failed assertion of the genesis build panics: the result is \<open>None\<close>.\<close>

fun genesis_fold ::
  "('acc, 'cur, 'rid, 's) tokens_config \<Rightarrow> ('acc \<times> 'cur \<times> balance) list \<Rightarrow>
     ('acc, 'cur, 'rid, 's) tokens_state \<Rightarrow> ('acc, 'cur, 'rid, 's) tokens_state option" where
  "genesis_fold cfg [] s = Some s"
| "genesis_fold cfg ((who, c, initial_balance) # bs) s =
     (if ExistentialDeposits cfg c \<le> initial_balance then
        let s1 = snd (mutate_account cfg who c (\<lambda>account _ s. (((), account\<lparr>free := initial_balance\<rparr>), s)) s)
        in case checked_add (total_issuance s1 c) initial_balance of
             None \<Rightarrow> None
           | Some t \<Rightarrow> genesis_fold cfg bs (mutate_total_issuance c (\<lambda>_. t) s1)
      else None)"

definition genesis_build ::
  "('acc, 'cur, 'rid, 's) tokens_config \<Rightarrow> ('acc \<times> 'cur \<times> balance) list \<Rightarrow>
     ('acc, 'cur, 'rid, 's) tokens_state \<Rightarrow> ('acc, 'cur, 'rid, 's) tokens_state option" where
  "genesis_build cfg bs s =
     (if distinct (map (\<lambda>(who, c, _). (who, c)) bs) then genesis_fold cfg bs s else None)"

text \<open>
  \<open>iter_prefix\<close> walks over the storage keys of the account in the order of their hashes. The
  order is an argument; the entries are read as the walk reaches them, a removed entry is skipped.
\<close>

fun transfer_all_fold ::
  "('acc, 'cur, 'rid, 's) tokens_config \<Rightarrow> 'acc \<Rightarrow> 'acc \<Rightarrow> 'cur list \<Rightarrow> ('acc, 'cur, 'rid, 's, unit) tokens_op" where
  "transfer_all_fold cfg source dest [] s = (Inr (), s)"
| "transfer_all_fold cfg source dest (c # cs) s =
     (case Accounts s (source, c) of
        None \<Rightarrow> transfer_all_fold cfg source dest cs s
      | Some account_data \<Rightarrow>
          bind_op (do_transfer cfg c source dest (free account_data) AllowDeath)
            (\<lambda>_. transfer_all_fold cfg source dest cs) s)"

definition transfer_all ::
  "('acc, 'cur, 'rid, 's) tokens_config \<Rightarrow> 'cur list \<Rightarrow> 'acc \<Rightarrow> 'acc \<Rightarrow> ('acc, 'cur, 'rid, 's, unit) tokens_op" where
  "transfer_all cfg order source dest = transactional (transfer_all_fold cfg source dest order)"

end
