(* ===== verification/Ledger.thy ===== *)
theory Ledger
  imports Prelude
begin

text \<open>
  The abstract specification of a multi-currency ledger: what every account holds of every
  currency, free and reserved, and what has been issued of the currency, as unbounded natural
  numbers. The tokens pallet refines it (theory \<open>Tokens\<close>): its words never wrap, and each of
  its operations is one of the moves below.

  The \<open>imbalance\<close> of a currency is what has been issued and is held by no account. The ledger
  of a currency is \<open>balanced\<close> when it is zero. Operations that create or burn money without
  touching the issuance leave an imbalance, which the owner of the imbalance object settles.
\<close>

record ('acc, 'cur) ledger =
  held_free :: "'cur \<Rightarrow> 'acc \<Rightarrow> nat"
  held_reserved :: "'cur \<Rightarrow> 'acc \<Rightarrow> nat"
  issued :: "'cur \<Rightarrow> nat"

definition holding :: "('acc, 'cur) ledger \<Rightarrow> 'cur \<Rightarrow> 'acc \<Rightarrow> nat" where
  "holding l c a = held_free l c a + held_reserved l c a"

definition finitely_held :: "('acc, 'cur) ledger \<Rightarrow> 'cur \<Rightarrow> bool" where
  "finitely_held l c \<longleftrightarrow> finite {a. holding l c a \<noteq> 0}"

definition imbalance :: "('acc, 'cur) ledger \<Rightarrow> 'cur \<Rightarrow> int" where
  "imbalance l c = int (issued l c) - int (supp_sum (holding l c))"

definition balanced :: "('acc, 'cur) ledger \<Rightarrow> 'cur \<Rightarrow> bool" where
  "balanced l c \<longleftrightarrow> finitely_held l c \<and> imbalance l c = 0"

definition put_holding :: "'cur \<Rightarrow> 'acc \<Rightarrow> nat \<Rightarrow> nat \<Rightarrow> ('acc, 'cur) ledger \<Rightarrow> ('acc, 'cur) ledger" where
  "put_holding c a f r l =
     l\<lparr>held_free := (held_free l)(c := (held_free l c)(a := f)),
       held_reserved := (held_reserved l)(c := (held_reserved l c)(a := r))\<rparr>"

definition put_issued :: "'cur \<Rightarrow> nat \<Rightarrow> ('acc, 'cur) ledger \<Rightarrow> ('acc, 'cur) ledger" where
  "put_issued c n l = l\<lparr>issued := (issued l)(c := n)\<rparr>"

text \<open>The moves of the specification.\<close>

definition ledger_transfer ::
  "'cur \<Rightarrow> 'acc \<Rightarrow> 'acc \<Rightarrow> nat \<Rightarrow> ('acc, 'cur) ledger \<Rightarrow> ('acc, 'cur) ledger" where
  "ledger_transfer c from to n l =
     put_holding c to (held_free l c to + n) (held_reserved l c to)
       (put_holding c from (held_free l c from - n) (held_reserved l c from) l)"

definition ledger_credit :: "'cur \<Rightarrow> 'acc \<Rightarrow> nat \<Rightarrow> ('acc, 'cur) ledger \<Rightarrow> ('acc, 'cur) ledger" where
  "ledger_credit c a n l = put_holding c a (held_free l c a + n) (held_reserved l c a) l"

definition ledger_debit :: "'cur \<Rightarrow> 'acc \<Rightarrow> nat \<Rightarrow> ('acc, 'cur) ledger \<Rightarrow> ('acc, 'cur) ledger" where
  "ledger_debit c a n l = put_holding c a (held_free l c a - n) (held_reserved l c a) l"

definition ledger_issue :: "'cur \<Rightarrow> nat \<Rightarrow> ('acc, 'cur) ledger \<Rightarrow> ('acc, 'cur) ledger" where
  "ledger_issue c n l = put_issued c (issued l c + n) l"

definition ledger_burn :: "'cur \<Rightarrow> nat \<Rightarrow> ('acc, 'cur) ledger \<Rightarrow> ('acc, 'cur) ledger" where
  "ledger_burn c n l = put_issued c (issued l c - n) l"

definition ledger_reserve :: "'cur \<Rightarrow> 'acc \<Rightarrow> nat \<Rightarrow> ('acc, 'cur) ledger \<Rightarrow> ('acc, 'cur) ledger" where
  "ledger_reserve c a n l = put_holding c a (held_free l c a - n) (held_reserved l c a + n) l"

definition ledger_unreserve :: "'cur \<Rightarrow> 'acc \<Rightarrow> nat \<Rightarrow> ('acc, 'cur) ledger \<Rightarrow> ('acc, 'cur) ledger" where
  "ledger_unreserve c a n l = put_holding c a (held_free l c a + n) (held_reserved l c a - n) l"

definition ledger_slash_reserved :: "'cur \<Rightarrow> 'acc \<Rightarrow> nat \<Rightarrow> ('acc, 'cur) ledger \<Rightarrow> ('acc, 'cur) ledger" where
  "ledger_slash_reserved c a n l = put_holding c a (held_free l c a) (held_reserved l c a - n) l"

text \<open>A slash takes from the free part first, then from the reserved part, and burns what it took.\<close>

definition ledger_slash_funds :: "'cur \<Rightarrow> 'acc \<Rightarrow> nat \<Rightarrow> ('acc, 'cur) ledger \<Rightarrow> ('acc, 'cur) ledger" where
  "ledger_slash_funds c a n l =
     (let f = min (held_free l c a) n; r = min (held_reserved l c a) (n - f)
      in ledger_burn c (f + r) (put_holding c a (held_free l c a - f) (held_reserved l c a - r) l))"

text \<open>A repatriation moves from the reserved part of one account to a part of another.\<close>

definition ledger_repatriate ::
  "'cur \<Rightarrow> 'acc \<Rightarrow> 'acc \<Rightarrow> nat \<Rightarrow> bool \<Rightarrow> ('acc, 'cur) ledger \<Rightarrow> ('acc, 'cur) ledger" where
  "ledger_repatriate c from to n as_free l =
     ledger_slash_reserved c from n
       (if as_free then put_holding c to (held_free l c to + n) (held_reserved l c to) l
        else put_holding c to (held_free l c to) (held_reserved l c to + n) l)"

lemmas ledger_moves =
  ledger_transfer_def ledger_credit_def ledger_debit_def ledger_issue_def ledger_burn_def
  ledger_reserve_def ledger_unreserve_def ledger_slash_reserved_def

section \<open>One entry changes the imbalance by the difference\<close>

lemma put_holding_simps [simp]:
  "held_free (put_holding c a f r l) c' = (if c' = c then (held_free l c)(a := f) else held_free l c')"
  "held_reserved (put_holding c a f r l) c' = (if c' = c then (held_reserved l c)(a := r) else held_reserved l c')"
  "issued (put_holding c a f r l) = issued l"
  by (auto simp: put_holding_def)

lemma put_issued_simps [simp]:
  "held_free (put_issued c n l) = held_free l"
  "held_reserved (put_issued c n l) = held_reserved l"
  "issued (put_issued c n l) = (issued l)(c := n)"
  by (auto simp: put_issued_def)

lemma put_holding_same [simp]: "put_holding c a (held_free l c a) (held_reserved l c a) l = l"
  by (simp add: put_holding_def)

lemma put_issued_same [simp]: "put_issued c (issued l c) l = l"
  by (simp add: put_issued_def)

lemma put_put [simp]:
  "put_holding c a f r (put_holding c a f' r' l) = put_holding c a f r l"
  "put_issued c n (put_issued c n' l) = put_issued c n l"
  by (simp_all add: put_holding_def put_issued_def)

lemma put_issued_put_holding [simp]:
  "put_issued c' n (put_holding c a f r l) = put_holding c a f r (put_issued c' n l)"
  by (simp add: put_holding_def put_issued_def)

lemma holding_put_holding:
  "holding (put_holding c a f r l) c' = (if c' = c then (holding l c)(a := f + r) else holding l c')"
  by (auto simp: holding_def fun_eq_iff)

lemma holding_put_issued [simp]: "holding (put_issued c n l) = holding l"
  by (auto simp: holding_def fun_eq_iff)

lemma finitely_held_put [simp]:
  "finitely_held (put_holding c a f r l) c' \<longleftrightarrow> finitely_held l c'"
  "finitely_held (put_issued c n l) c' \<longleftrightarrow> finitely_held l c'"
proof -
  show "finitely_held (put_holding c a f r l) c' \<longleftrightarrow> finitely_held l c'"
    using finite_supp_upd [of "holding l c" a "f + r"]
    by (simp add: finitely_held_def holding_put_holding del: finite_supp_upd)
qed (simp add: finitely_held_def)

lemma imbalance_put_holding:
  assumes "finitely_held l c"
  shows "imbalance (put_holding c a f r l) c' =
    (if c' = c then imbalance l c + int (holding l c a) - int (f + r) else imbalance l c')"
proof (cases "c' = c")
  case True
  have "supp_sum ((holding l c)(a := f + r)) + holding l c a = supp_sum (holding l c) + (f + r)"
    by (rule supp_sum_upd) (use assms in \<open>simp add: finitely_held_def\<close>)
  then have "int (supp_sum ((holding l c)(a := f + r))) + int (holding l c a) =
      int (supp_sum (holding l c)) + int (f + r)"
    by (metis of_nat_add)
  with True show ?thesis by (simp add: imbalance_def holding_put_holding)
qed (simp add: imbalance_def holding_put_holding)

lemma imbalance_put_issued:
  "imbalance (put_issued c n l) c' =
    (if c' = c then imbalance l c - int (issued l c) + int n else imbalance l c')"
  by (simp add: imbalance_def)

lemmas imbalance_put = imbalance_put_holding imbalance_put_issued

lemma ledger_transfer_imbalance:
  assumes "finitely_held l c" and "from \<noteq> to" and "n \<le> held_free l c from"
  shows "imbalance (ledger_transfer c from to n l) c' = imbalance l c'"
  using assms by (simp add: ledger_transfer_def imbalance_put holding_put_holding)
    (simp add: holding_def)

lemma ledger_credit_imbalance:
  "finitely_held l c \<Longrightarrow>
    imbalance (ledger_credit c a n l) c' = imbalance l c' - (if c' = c then int n else 0)"
  by (simp add: ledger_credit_def imbalance_put) (simp add: holding_def)

lemma ledger_debit_imbalance:
  "finitely_held l c \<Longrightarrow> n \<le> held_free l c a \<Longrightarrow>
    imbalance (ledger_debit c a n l) c' = imbalance l c' + (if c' = c then int n else 0)"
  by (simp add: ledger_debit_def imbalance_put) (simp add: holding_def)

lemma ledger_issue_imbalance:
  "imbalance (ledger_issue c n l) c' = imbalance l c' + (if c' = c then int n else 0)"
  by (simp add: ledger_issue_def imbalance_put)

lemma ledger_burn_imbalance:
  "n \<le> issued l c \<Longrightarrow>
    imbalance (ledger_burn c n l) c' = imbalance l c' - (if c' = c then int n else 0)"
  by (simp add: ledger_burn_def imbalance_put)

lemma ledger_reserve_imbalance:
  "finitely_held l c \<Longrightarrow> n \<le> held_free l c a \<Longrightarrow> imbalance (ledger_reserve c a n l) c' = imbalance l c'"
  by (simp add: ledger_reserve_def imbalance_put) (simp add: holding_def)

lemma ledger_unreserve_imbalance:
  "finitely_held l c \<Longrightarrow> n \<le> held_reserved l c a \<Longrightarrow> imbalance (ledger_unreserve c a n l) c' = imbalance l c'"
  by (simp add: ledger_unreserve_def imbalance_put) (simp add: holding_def)

lemma ledger_slash_reserved_imbalance:
  "finitely_held l c \<Longrightarrow> n \<le> held_reserved l c a \<Longrightarrow>
    imbalance (ledger_slash_reserved c a n l) c' = imbalance l c' + (if c' = c then int n else 0)"
  by (simp add: ledger_slash_reserved_def imbalance_put) (simp add: holding_def)

lemma ledger_slash_imbalance:
  assumes "finitely_held l c" and "holding l c a \<le> issued l c"
  shows "imbalance (ledger_slash_funds c a n l) c' = imbalance l c'"
  using assms unfolding ledger_slash_funds_def Let_def
  by (subst ledger_burn_imbalance) (auto simp: imbalance_put holding_def)

lemma ledger_repatriate_imbalance:
  assumes "finitely_held l c" and "from \<noteq> to" and "n \<le> held_reserved l c from"
  shows "imbalance (ledger_repatriate c from to n as_free l) c' = imbalance l c'"
  using assms by (simp add: ledger_repatriate_def ledger_slash_reserved_imbalance imbalance_put)
    (simp add: holding_def)

lemma finitely_held_moves [simp]:
  "finitely_held (ledger_transfer c from to n l) c' \<longleftrightarrow> finitely_held l c'"
  "finitely_held (ledger_credit c a n l) c' \<longleftrightarrow> finitely_held l c'"
  "finitely_held (ledger_debit c a n l) c' \<longleftrightarrow> finitely_held l c'"
  "finitely_held (ledger_issue c n l) c' \<longleftrightarrow> finitely_held l c'"
  "finitely_held (ledger_burn c n l) c' \<longleftrightarrow> finitely_held l c'"
  "finitely_held (ledger_reserve c a n l) c' \<longleftrightarrow> finitely_held l c'"
  "finitely_held (ledger_unreserve c a n l) c' \<longleftrightarrow> finitely_held l c'"
  "finitely_held (ledger_slash_reserved c a n l) c' \<longleftrightarrow> finitely_held l c'"
  "finitely_held (ledger_slash_funds c a n l) c' \<longleftrightarrow> finitely_held l c'"
  "finitely_held (ledger_repatriate c from to n as_free l) c' \<longleftrightarrow> finitely_held l c'"
  by (simp_all add: ledger_moves ledger_slash_funds_def ledger_repatriate_def Let_def)

lemmas ledger_imbalances =
  ledger_transfer_imbalance ledger_credit_imbalance ledger_debit_imbalance ledger_issue_imbalance
  ledger_burn_imbalance ledger_reserve_imbalance ledger_unreserve_imbalance
  ledger_slash_reserved_imbalance ledger_slash_imbalance ledger_repatriate_imbalance

lemma balanced_holding_le:
  assumes "balanced l c"
  shows "holding l c a \<le> issued l c"
proof -
  have "holding l c a \<le> supp_sum (holding l c)"
    using assms by (intro supp_sum_ge) (simp add: balanced_def finitely_held_def)
  also have "\<dots> = issued l c" using assms by (simp add: balanced_def imbalance_def)
  finally show ?thesis .
qed

lemma balanced_holding2_le:
  assumes "balanced l c" and "a \<noteq> b"
  shows "holding l c a + holding l c b \<le> issued l c"
proof -
  have "holding l c a + holding l c b \<le> supp_sum (holding l c)"
    using assms by (intro supp_sum_ge2) (simp_all add: balanced_def finitely_held_def)
  also have "\<dots> = issued l c" using assms by (simp add: balanced_def imbalance_def)
  finally show ?thesis .
qed

end
