(* ===== verification/Tokens_View.thy ===== *)
theory Tokens_View
  imports Tokens_Storage Ledger
begin

text \<open>
  The abstraction of the tokens storage to a ledger, and what one settled account mutation does
  to it. \<open>unit_hooks\<close> is the configuration the runtime uses for the mutation hooks, the unit
  type, whose handlers do nothing.
\<close>

definition unit_hooks :: "('acc, 'cur, 'rid, 's) tokens_config \<Rightarrow> bool" where
  "unit_hooks cfg \<longleftrightarrow>
     OnDust cfg = (\<lambda>_ _ _ s. s) \<and> OnSlash cfg = (\<lambda>_ _ _ s. s) \<and>
     PreDeposit cfg = (\<lambda>_ _ _. ok ()) \<and> PostDeposit cfg = (\<lambda>_ _ _. ok ()) \<and>
     PreTransfer cfg = (\<lambda>_ _ _ _. ok ()) \<and> PostTransfer cfg = (\<lambda>_ _ _ _. ok ()) \<and>
     OnNewTokenAccount cfg = (\<lambda>_ _ s. s) \<and> OnKilledTokenAccount cfg = (\<lambda>_ _ s. s)"

definition ledger_of :: "('acc, 'cur, 'rid, 's) tokens_state \<Rightarrow> ('acc, 'cur) ledger" where
  "ledger_of s =
     \<lparr>held_free = (\<lambda>c a. unat (free (accounts s a c))),
      held_reserved = (\<lambda>c a. unat (reserved (accounts s a c))),
      issued = (\<lambda>c. unat (total_issuance s c))\<rparr>"

lemma unit_hooks_simps:
  assumes "unit_hooks cfg"
  shows "OnDust cfg a c d s = s" "OnSlash cfg c a d s = s"
    "PreDeposit cfg c a d = ok ()" "PostDeposit cfg c a d = ok ()"
    "PreTransfer cfg c a b d = ok ()" "PostTransfer cfg c a b d = ok ()"
    "OnNewTokenAccount cfg a c s = s" "OnKilledTokenAccount cfg a c s = s"
  using assms by (simp_all add: unit_hooks_def)

lemma total_eq_0_iff: "total a = 0 \<longleftrightarrow> free a = 0 \<and> reserved a = 0"
proof -
  have "total a = 0 \<longleftrightarrow> unat (total a) = 0" by (simp add: word_eq_unat)
  also have "\<dots> \<longleftrightarrow> unat (free a) = 0 \<and> unat (reserved a) = 0"
    by (auto simp: total_def unat_saturating_add min_def)
  finally show ?thesis by (simp add: word_eq_unat)
qed

lemma default_account_data_simps [simp]:
  "free default_account_data = 0" "reserved default_account_data = 0" "frozen default_account_data = 0"
  by (simp_all add: default_account_data_def)

text \<open>What a state change leaves of the storage: the ledger and the three other maps.\<close>

lemma deposit_event_simps [simp]:
  "TotalIssuance (deposit_event e s) = TotalIssuance s" "Accounts (deposit_event e s) = Accounts s"
  "Locks (deposit_event e s) = Locks s" "Reserves (deposit_event e s) = Reserves s"
  "tk_system (deposit_event e s) = tk_system s"
  by (simp_all add: deposit_event_def)

lemma accounts_cong: "Accounts s = Accounts t \<Longrightarrow> accounts s = accounts t"
  by (simp add: accounts_def fun_eq_iff)

lemma total_issuance_cong: "TotalIssuance s = TotalIssuance t \<Longrightarrow> total_issuance s = total_issuance t"
  by (simp add: total_issuance_def fun_eq_iff)

lemma accounts_deposit_event [simp]: "accounts (deposit_event e s) = accounts s"
  by (rule accounts_cong) simp

lemma total_issuance_deposit_event [simp]: "total_issuance (deposit_event e s) = total_issuance s"
  by (rule total_issuance_cong) simp

lemma ledger_of_cong:
  "Accounts s = Accounts t \<Longrightarrow> TotalIssuance s = TotalIssuance t \<Longrightarrow> ledger_of s = ledger_of t"
  by (simp add: ledger_of_def accounts_cong [of s t] total_issuance_cong [of s t])

lemma ledger_of_simps [simp]:
  "held_free (ledger_of s) c a = unat (free (accounts s a c))"
  "held_reserved (ledger_of s) c a = unat (reserved (accounts s a c))"
  "issued (ledger_of s) c = unat (total_issuance s c)"
  by (simp_all add: ledger_of_def)

lemma ledger_of_put_same [simp]:
  "put_holding c who (unat (free (accounts s who c))) (unat (reserved (accounts s who c))) (ledger_of s) = ledger_of s"
  "put_issued c (unat (total_issuance s c)) (ledger_of s) = ledger_of s"
  using put_holding_same [of c who "ledger_of s"] put_issued_same [of c "ledger_of s"] by simp_all

lemma ledger_of_deposit_event [simp]: "ledger_of (deposit_event e s) = ledger_of s"
  by (rule ledger_of_cong) simp_all

lemma ledger_of_system [simp]: "ledger_of (s\<lparr>tk_system := x\<rparr>) = ledger_of s"
  by (rule ledger_of_cong) simp_all

lemma mutate_total_issuance_simps [simp]:
  "Accounts (mutate_total_issuance c f s) = Accounts s" "Locks (mutate_total_issuance c f s) = Locks s"
  "Reserves (mutate_total_issuance c f s) = Reserves s" "tk_system (mutate_total_issuance c f s) = tk_system s"
  "accounts (mutate_total_issuance c f s) = accounts s"
  "total_issuance (mutate_total_issuance c f s) = (total_issuance s)(c := f (total_issuance s c))"
  by (auto simp: mutate_total_issuance_def accounts_def total_issuance_def fun_eq_iff)

lemma ledger_of_mutate_total_issuance [simp]:
  "ledger_of (mutate_total_issuance c f s) = put_issued c (unat (f (total_issuance s c))) (ledger_of s)"
  by (auto simp: ledger_of_def put_issued_def fun_eq_iff)

section \<open>A settled account\<close>

definition kept_entry :: "('acc, 'cur, 'rid, 's) tokens_config \<Rightarrow> 'cur \<Rightarrow> account_data \<Rightarrow> account_data option" where
  "kept_entry cfg c account =
     (if total account < ExistentialDeposits cfg c \<and> total account = 0 then None else Some account)"

lemma settle_account_fields:
  assumes "unit_hooks cfg"
  shows "Accounts (snd (settle_account cfg who c existed account s)) =
      (Accounts s)((who, c) := kept_entry cfg c account)"
    and "TotalIssuance (snd (settle_account cfg who c existed account s)) = TotalIssuance s"
    and "Locks (snd (settle_account cfg who c existed account s)) = Locks s"
    and "Reserves (snd (settle_account cfg who c existed account s)) = Reserves s"
  using assms
  by (simp_all add: settle_account_def Let_def unit_hooks_simps kept_entry_def split: option.split)

lemma kept_entry_balances [simp]:
  "free (unwrap_or (kept_entry cfg c account) default_account_data) = free account"
  "reserved (unwrap_or (kept_entry cfg c account) default_account_data) = reserved account"
  by (auto simp: kept_entry_def total_eq_0_iff)

lemma ledger_of_settle_account:
  assumes "unit_hooks cfg"
  shows "ledger_of (snd (settle_account cfg who c existed account s)) =
    put_holding c who (unat (free account)) (unat (reserved account)) (ledger_of s)"
proof -
  let ?t = "snd (settle_account cfg who c existed account s)"
  have "accounts ?t a c' = (if a = who \<and> c' = c then unwrap_or (kept_entry cfg c account) default_account_data
      else accounts s a c')" for a c'
    using settle_account_fields(1) [OF assms, of who c existed account s] by (simp add: accounts_def)
  moreover have "total_issuance ?t = total_issuance s"
    using settle_account_fields(2) [OF assms] by (rule total_issuance_cong)
  ultimately show ?thesis
    by (auto simp: ledger_of_def put_holding_def fun_eq_iff)
qed

lemma try_mutate_account_InrE:
  assumes "try_mutate_account cfg who c f s = (Inr (r, d), t)" and "unit_hooks cfg"
  obtains account s1 where "f (accounts s who c) (Accounts s (who, c) \<noteq> None) s = (Inr (r, account), s1)"
    and "Accounts t = (Accounts s1)((who, c) := kept_entry cfg c account)"
    and "ledger_of t = put_holding c who (unat (free account)) (unat (reserved account)) (ledger_of s1)"
    and "TotalIssuance t = TotalIssuance s1" and "Locks t = Locks s1" and "Reserves t = Reserves s1"
proof -
  from assms(1) obtain account s1 where
    f: "f (accounts s who c) (Accounts s (who, c) \<noteq> None) s = (Inr (r, account), s1)"
    and t: "settle_account cfg who c (Accounts s (who, c) \<noteq> None) account s1 = (d, t)"
    by (auto simp: try_mutate_account_def Let_def split: prod.splits sum.splits)
  show thesis
    using that [OF f] settle_account_fields [OF assms(2), of who c "Accounts s (who, c) \<noteq> None" account s1]
      ledger_of_settle_account [OF assms(2), of who c "Accounts s (who, c) \<noteq> None" account s1]
    unfolding t snd_conv by blast
qed

lemma try_mutate_account_Inl:
  "try_mutate_account cfg who c f s = (Inl e, t) \<longleftrightarrow>
     f (accounts s who c) (Accounts s (who, c) \<noteq> None) s = (Inl e, t)"
  by (auto simp: try_mutate_account_def Let_def split: prod.splits sum.splits)

lemma try_mutate_account_fst:
  "fst (try_mutate_account cfg who c f s) =
     (case fst (f (accounts s who c) (Accounts s (who, c) \<noteq> None) s) of
        Inl e \<Rightarrow> Inl e
      | Inr (r, account) \<Rightarrow>
          Inr (r, fst (settle_account cfg who c (Accounts s (who, c) \<noteq> None) account
                        (snd (f (accounts s who c) (Accounts s (who, c) \<noteq> None) s)))))"
  by (simp add: try_mutate_account_def Let_def case_prod_beta split: prod.splits sum.splits)

lemma mutate_account_E:
  assumes "mutate_account cfg who c f s = ((r, d), t)" and "unit_hooks cfg"
  obtains account s1 where "f (accounts s who c) (Accounts s (who, c) \<noteq> None) s = ((r, account), s1)"
    and "Accounts t = (Accounts s1)((who, c) := kept_entry cfg c account)"
    and "ledger_of t = put_holding c who (unat (free account)) (unat (reserved account)) (ledger_of s1)"
    and "TotalIssuance t = TotalIssuance s1" and "Locks t = Locks s1" and "Reserves t = Reserves s1"
proof -
  from assms(1) obtain account s1 where
    f: "f (accounts s who c) (Accounts s (who, c) \<noteq> None) s = ((r, account), s1)"
    and t: "settle_account cfg who c (Accounts s (who, c) \<noteq> None) account s1 = (d, t)"
    by (auto simp: mutate_account_def Let_def split: prod.splits)
  show thesis
    using that [OF f] settle_account_fields [OF assms(2), of who c "Accounts s (who, c) \<noteq> None" account s1]
      ledger_of_settle_account [OF assms(2), of who c "Accounts s (who, c) \<noteq> None" account s1]
    unfolding t snd_conv by blast
qed

lemma ledger_of_set_free_balance:
  assumes "unit_hooks cfg"
  shows "ledger_of (set_free_balance cfg c who amount s) =
    put_holding c who (unat amount) (held_reserved (ledger_of s) c who) (ledger_of s)"
  by (simp add: set_free_balance_def mutate_account_def Let_def case_prod_beta
      ledger_of_settle_account [OF assms])

lemma ledger_of_set_reserved_balance:
  assumes "unit_hooks cfg"
  shows "ledger_of (set_reserved_balance cfg c who amount s) =
    put_holding c who (held_free (ledger_of s) c who) (unat amount) (ledger_of s)"
  by (simp add: set_reserved_balance_def mutate_account_def Let_def case_prod_beta
      ledger_of_settle_account [OF assms])

lemma set_free_balance_fields:
  assumes "unit_hooks cfg"
  shows "Accounts (set_free_balance cfg c who amount s) =
      (Accounts s)((who, c) := kept_entry cfg c ((accounts s who c)\<lparr>free := amount\<rparr>))"
    and "TotalIssuance (set_free_balance cfg c who amount s) = TotalIssuance s"
    and "Locks (set_free_balance cfg c who amount s) = Locks s"
    and "Reserves (set_free_balance cfg c who amount s) = Reserves s"
  by (simp_all add: set_free_balance_def mutate_account_def Let_def case_prod_beta
      settle_account_fields [OF assms])

lemma set_reserved_balance_fields:
  assumes "unit_hooks cfg"
  shows "Accounts (set_reserved_balance cfg c who amount s) =
      (Accounts s)((who, c) := kept_entry cfg c ((accounts s who c)\<lparr>reserved := amount\<rparr>))"
    and "TotalIssuance (set_reserved_balance cfg c who amount s) = TotalIssuance s"
    and "Locks (set_reserved_balance cfg c who amount s) = Locks s"
    and "Reserves (set_reserved_balance cfg c who amount s) = Reserves s"
  by (simp_all add: set_reserved_balance_def mutate_account_def Let_def case_prod_beta
      settle_account_fields [OF assms])

end
