(* ===== verification/Tokens_Ledger.thy ===== *)
theory Tokens_Ledger
  imports Tokens_Calls Tokens_View
begin

text \<open>
  The tokens pallet refines the abstract ledger: under the runtime's unit hooks, every operation
  that succeeds is one of the ledger's moves, and touches neither the locks nor the named
  reserves unless it says so. Each lemma below inverts one operation into its guard and its move.
\<close>

definition locks_and_reserves ::
  "('acc, 'cur, 'rid, 's) tokens_state \<Rightarrow>
     ('acc \<times> 'cur \<rightharpoonup> balance_lock list) \<times> ('acc \<times> 'cur \<rightharpoonup> 'rid reserve_data list)" where
  "locks_and_reserves s = (Locks s, Reserves s)"

definition frozen_of :: "('acc, 'cur, 'rid, 's) tokens_state \<Rightarrow> 'acc \<Rightarrow> 'cur \<Rightarrow> balance" where
  "frozen_of s who c = frozen (accounts s who c)"

lemma locks_and_reserves_simps [simp]:
  "locks_and_reserves (deposit_event e s) = locks_and_reserves s"
  "locks_and_reserves (mutate_total_issuance c f s) = locks_and_reserves s"
  by (simp_all add: locks_and_reserves_def)

lemma frozen_of_simps [simp]:
  "frozen_of (deposit_event e s) = frozen_of s"
  "frozen_of (mutate_total_issuance c f s) = frozen_of s"
  by (simp_all add: frozen_of_def fun_eq_iff)

lemma frozen_of_kept:
  assumes "Accounts t = (Accounts s)((who, c) := kept_entry cfg c account)" and "ExistentialDeposits cfg c = 0"
  shows "frozen_of t = (frozen_of s)(who := (frozen_of s who)(c := frozen account))"
  using assms by (auto simp: frozen_of_def accounts_def kept_entry_def fun_eq_iff)

lemma ensure_can_withdraw_Inr [op_simps]:
  "ensure_can_withdraw c who amount s = (Inr u, t) \<longleftrightarrow>
     t = s \<and> (amount = 0 \<or>
       unat amount + unat (frozen (accounts s who c)) \<le> unat (free (accounts s who c)))"
  by (auto simp: ensure_can_withdraw_def free_balance_def rust_arith unat_order split: option.splits)

lemma ensure_can_withdraw_Inl [op_simps]:
  "ensure_can_withdraw c who amount s = (Inl e, t) \<longleftrightarrow>
     t = s \<and> amount \<noteq> 0 \<and>
     (if free (accounts s who c) < amount then e = tokens_fail TK_BalanceTooLow
      else free (accounts s who c) - amount < frozen (accounts s who c) \<and> e = tokens_fail TK_LiquidityRestrictions)"
  by (auto simp: ensure_can_withdraw_def free_balance_def checked_sub_def)

section \<open>The movers of free balance\<close>

lemma do_transfer_effect:
  assumes "do_transfer cfg c from to amount er s = (Inr u, t)" and "unit_hooks cfg"
    and "amount \<noteq> 0" "from \<noteq> to"
  shows "ledger_of t = ledger_transfer c from to (unat amount) (ledger_of s)"
    and "unat amount + unat (frozen_of s from c) \<le> unat (free (accounts s from c))"
    and "unat (free (accounts s to c)) + unat amount < 2 ^ 128"
    and "locks_and_reserves t = locks_and_reserves s"
    and "ExistentialDeposits cfg c = 0 \<Longrightarrow> frozen_of t = frozen_of s"
proof -
  let ?A = "\<lambda>a x. (accounts s a c)\<lparr>free := x\<rparr>"
  from assms obtain s' x y where t: "t = deposit_event (TransferEv c from to amount) s'"
    and acc: "Accounts s' = (Accounts s)((from, c) := kept_entry cfg c (?A from x),
                                          (to, c) := kept_entry cfg c (?A to y))"
    and led: "ledger_of s' = put_holding c to (unat y) (unat (reserved (accounts s to c)))
          (put_holding c from (unat x) (unat (reserved (accounts s from c))) (ledger_of s))"
    and x: "unat amount + unat x = unat (free (accounts s from c))"
    and y: "unat y = unat (free (accounts s to c)) + unat amount"
    and frz: "unat amount + unat (frozen (accounts s from c)) \<le> unat (free (accounts s from c))"
    and lr: "Locks s' = Locks s" "Reserves s' = Reserves s"
    apply (clarsimp simp: do_transfer_def unit_hooks_simps op_simps Let_def)
    apply (erule try_mutate_account_InrE, assumption)
    apply (clarsimp simp: op_simps)
    apply (erule try_mutate_account_InrE, assumption)
    apply (clarsimp simp: op_simps rust_arith)
    done
  show "ledger_of t = ledger_transfer c from to (unat amount) (ledger_of s)"
    using x y assms(4) by (simp add: t led ledger_transfer_def)
      (metis add_diff_cancel_left')
  show "unat (free (accounts s to c)) + unat amount < 2 ^ 128"
    using y unat_u128 [of y] by simp
  show "ExistentialDeposits cfg c = 0 \<Longrightarrow> frozen_of t = frozen_of s"
    using acc by (auto simp: t frozen_of_def accounts_def kept_entry_def fun_eq_iff)
  show "unat amount + unat (frozen_of s from c) \<le> unat (free (accounts s from c))"
    "locks_and_reserves t = locks_and_reserves s"
    using frz by (simp_all add: t locks_and_reserves_def lr frozen_of_def)
qed

lemma do_transfer_result:
  assumes "unit_hooks cfg" and "amount \<noteq> 0" and "from \<noteq> to"
    and fa_def: "fa = accounts s from c" and ta_def: "ta = accounts s to c"
  shows "fst (do_transfer cfg c from to amount er s) =
    (if free fa < amount then Inl (tokens_fail TK_BalanceTooLow)
     else if checked_add (free ta) amount = None then Inl (Arithmetic AE_Overflow)
     else if total (ta\<lparr>free := free ta + amount\<rparr>) < ExistentialDeposits cfg c \<and> \<not> DustRemovalWhitelist cfg to
       then Inl (tokens_fail TK_ExistentialDeposit)
     else if free fa - amount < frozen fa then Inl (tokens_fail TK_LiquidityRestrictions)
     else if (er = KeepAlive \<or> \<not> can_dec_provider cfg from (tk_system s)) \<and>
        would_be_dead cfg c from (fa\<lparr>free := free fa - amount\<rparr>)
       then Inl (tokens_fail TK_KeepAlive)
     else Inr ())"
  using assms(2,3)
  by (simp add: do_transfer_def op_fst try_mutate_account_fst unit_hooks_simps [OF assms(1)] Let_def
      fa_def ta_def checked_add_def checked_sub_def ok_or_def case_prod_beta
      ensure_can_withdraw_def free_balance_def split: sum.splits)
    (cases er; auto simp: not_le not_less)

lemma do_transfer_error_unchanged:
  assumes "do_transfer cfg c from to amount er s = (Inl e, t)" and "unit_hooks cfg"
  shows "t = s"
  using assms
  by (auto simp: do_transfer_def unit_hooks_simps op_simps try_mutate_account_Inl Let_def split: if_splits)

lemma do_withdraw_effect:
  assumes "do_withdraw cfg c who amount er change s = (Inr u, t)" and "unit_hooks cfg" and "amount \<noteq> 0"
  shows "ledger_of t = ledger_debit c who (unat amount)
      (if change then ledger_burn c (unat amount) (ledger_of s) else ledger_of s)"
    and "unat amount + unat (frozen_of s who c) \<le> unat (free (accounts s who c))"
    and "locks_and_reserves t = locks_and_reserves s"
    and "ExistentialDeposits cfg c = 0 \<Longrightarrow> frozen_of t = frozen_of s"
proof -
  let ?A = "(accounts s who c)\<lparr>free := saturating_sub (free (accounts s who c)) amount\<rparr>"
  define s1 where "s1 = (if change then mutate_total_issuance c (\<lambda>v. saturating_sub v amount) s else s)"
  from assms have acc: "Accounts t = (Accounts s)((who, c) := kept_entry cfg c ?A)"
    and led: "ledger_of t = put_holding c who (unat (free ?A)) (unat (reserved ?A)) (ledger_of s1)"
    and frz: "unat amount + unat (frozen (accounts s who c)) \<le> unat (free (accounts s who c))"
    and lr: "Locks t = Locks s" "Reserves t = Reserves s"
    by (auto simp: do_withdraw_def op_simps Let_def s1_def elim!: try_mutate_account_InrE)
  show "ledger_of t = ledger_debit c who (unat amount)
      (if change then ledger_burn c (unat amount) (ledger_of s) else ledger_of s)"
    by (simp add: led s1_def ledger_debit_def ledger_burn_def rust_arith)
  show "ExistentialDeposits cfg c = 0 \<Longrightarrow> frozen_of t = frozen_of s"
    using acc by (auto simp: frozen_of_def accounts_def kept_entry_def fun_eq_iff)
  show "unat amount + unat (frozen_of s who c) \<le> unat (free (accounts s who c))"
    "locks_and_reserves t = locks_and_reserves s"
    using frz by (simp_all add: locks_and_reserves_def lr frozen_of_def)
qed

lemma do_deposit_effect:
  assumes "do_deposit cfg c who amount ex change s = (Inr v, t)" and "unit_hooks cfg" and "amount \<noteq> 0"
  shows "v = amount"
    and "ledger_of t = put_holding c who
        (min (unat (free (accounts s who c)) + unat amount) (2 ^ 128 - 1)) (unat (reserved (accounts s who c)))
        (if change then ledger_issue c (unat amount) (ledger_of s) else ledger_of s)"
    and "unat (total_issuance s c) + unat amount < 2 ^ 128"
    and "locks_and_reserves t = locks_and_reserves s"
    and "ExistentialDeposits cfg c = 0 \<Longrightarrow> frozen_of t = frozen_of s"
proof -
  let ?A = "(accounts s who c)\<lparr>free := saturating_add (free (accounts s who c)) amount\<rparr>"
  from assms obtain n t' where
    acc: "Accounts t' = (Accounts s)((who, c) := kept_entry cfg c ?A)"
    and led: "ledger_of t' = put_holding c who (unat (free ?A)) (unat (reserved ?A))
       (ledger_of (if change then mutate_total_issuance c (\<lambda>_. n) s else s))"
    and n: "unat n = unat (total_issuance s c) + unat amount"
    and lr: "Locks t' = Locks s" "Reserves t' = Reserves s"
    and t: "t = deposit_event (DepositedEv c who amount) t'" and v: "v = amount"
    apply (clarsimp simp: do_deposit_def unit_hooks_simps op_simps)
    apply (erule try_mutate_account_InrE, assumption)
    apply (clarsimp simp: op_simps rust_arith)
    apply (cases ex; cases change; clarsimp simp: op_simps)
    done
  show "ledger_of t = put_holding c who
        (min (unat (free (accounts s who c)) + unat amount) (2 ^ 128 - 1)) (unat (reserved (accounts s who c)))
        (if change then ledger_issue c (unat amount) (ledger_of s) else ledger_of s)"
    by (simp add: t led ledger_issue_def unat_saturating_add n)
  show "unat (total_issuance s c) + unat amount < 2 ^ 128"
    using n unat_u128 [of n] by simp
  show "ExistentialDeposits cfg c = 0 \<Longrightarrow> frozen_of t = frozen_of s"
    using acc by (auto simp: t frozen_of_def accounts_def kept_entry_def fun_eq_iff)
  show "v = amount" "locks_and_reserves t = locks_and_reserves s"
    by (simp_all add: v t locks_and_reserves_def lr)
qed

lemma setter_frames:
  assumes "unit_hooks cfg"
  shows "locks_and_reserves (set_free_balance cfg c who amount s) = locks_and_reserves s"
    "locks_and_reserves (set_reserved_balance cfg c who amount s) = locks_and_reserves s"
    "total_issuance (set_free_balance cfg c who amount s) = total_issuance s"
    "total_issuance (set_reserved_balance cfg c who amount s) = total_issuance s"
    "ExistentialDeposits cfg c = 0 \<Longrightarrow> frozen_of (set_free_balance cfg c who amount s) = frozen_of s"
    "ExistentialDeposits cfg c = 0 \<Longrightarrow> frozen_of (set_reserved_balance cfg c who amount s) = frozen_of s"
proof -
  note fields = set_free_balance_fields [OF assms] set_reserved_balance_fields [OF assms]
  show "locks_and_reserves (set_free_balance cfg c who amount s) = locks_and_reserves s"
    "locks_and_reserves (set_reserved_balance cfg c who amount s) = locks_and_reserves s"
    "total_issuance (set_free_balance cfg c who amount s) = total_issuance s"
    "total_issuance (set_reserved_balance cfg c who amount s) = total_issuance s"
    by (simp_all add: locks_and_reserves_def fields total_issuance_def fun_eq_iff)
  show "ExistentialDeposits cfg c = 0 \<Longrightarrow> frozen_of (set_free_balance cfg c who amount s) = frozen_of s"
    "ExistentialDeposits cfg c = 0 \<Longrightarrow> frozen_of (set_reserved_balance cfg c who amount s) = frozen_of s"
    by (auto simp: frozen_of_def accounts_def kept_entry_def fun_eq_iff fields)
qed

lemma slash_effect:
  assumes sl: "slash cfg c who amount s = (rest, t)" and hooks: "unit_hooks cfg"
  shows "ledger_of t = ledger_slash_funds c who (unat amount) (ledger_of s)"
    and "unat rest = unat amount - (unat (free (accounts s who c)) + unat (reserved (accounts s who c)))"
    and "locks_and_reserves t = locks_and_reserves s"
    and "ExistentialDeposits cfg c = 0 \<Longrightarrow> frozen_of t = frozen_of s"
proof -
  define a where "a = accounts s who c"
  define f where "f = min (free a) amount"
  define r where "r = min (reserved a) (saturating_sub amount f)"
  define s2 where "s2 = (if f \<noteq> 0 then set_free_balance cfg c who (saturating_sub (free a) f) s else s)"
  define s3 where "s3 = (if r \<noteq> 0 then set_reserved_balance cfg c who (saturating_sub (reserved a) r) s2 else s2)"
  define n where "n = saturating_sub (saturating_sub amount f) r"
  have slash: "slash cfg c who amount s = (n, deposit_event (SlashedEv c who f r)
      (mutate_total_issuance c (\<lambda>v. saturating_sub v (saturating_sub amount n)) s3))" if "amount \<noteq> 0"
    using that by (simp add: slash_def Let_def unit_hooks_simps [OF hooks] n_def s3_def s2_def
        flip: a_def f_def r_def)
  have n: "unat n = unat amount - (unat (free a) + unat (reserved a))"
    and fr: "unat amount - unat n = unat f + unat r" "unat f = min (unat (free a)) (unat amount)"
    "unat r = min (unat (reserved a)) (unat amount - unat f)"
    by (auto simp: n_def f_def r_def rust_arith)
  have zero: "rest = 0" "t = s" if "amount = 0" using sl that by (simp_all add: slash_def)
  show "unat rest = unat amount - (unat (free (accounts s who c)) + unat (reserved (accounts s who c)))"
    using sl slash n zero by (cases "amount = 0") (auto simp: a_def)
  have led2: "ledger_of s2 = put_holding c who (unat (free a) - unat f) (unat (reserved a)) (ledger_of s)"
    by (simp add: s2_def a_def rust_arith ledger_of_set_free_balance [OF hooks])
  then have led3: "ledger_of s3 = put_holding c who (unat (free a) - unat f) (unat (reserved a) - unat r) (ledger_of s)"
    by (simp add: s3_def rust_arith ledger_of_set_reserved_balance [OF hooks])
  have ti: "total_issuance s3 = total_issuance s"
    by (simp add: s2_def s3_def setter_frames [OF hooks])
  show "ledger_of t = ledger_slash_funds c who (unat amount) (ledger_of s)"
  proof (cases "amount = 0")
    case True
    then show ?thesis by (simp add: zero ledger_slash_funds_def ledger_burn_def)
  next
    case False
    with slash sl fr show ?thesis
      by (auto simp: ledger_slash_funds_def ledger_burn_def Let_def led3 ti rust_arith a_def)
  qed
  have "locks_and_reserves s3 = locks_and_reserves s"
    by (simp add: s2_def s3_def setter_frames [OF hooks])
  then show "locks_and_reserves t = locks_and_reserves s"
    using sl slash zero by (cases "amount = 0") auto
  have "frozen_of s3 = frozen_of s" if "ExistentialDeposits cfg c = 0"
    using that by (simp add: s2_def s3_def setter_frames [OF hooks])
  then show "ExistentialDeposits cfg c = 0 \<Longrightarrow> frozen_of t = frozen_of s"
    using sl slash zero by (cases "amount = 0") auto
qed

text \<open>One account mutated by a closure that writes events only.\<close>

lemma mutate_account_effect:
  assumes hooks: "unit_hooks cfg"
    and f: "f (accounts s who c) (Accounts s (who, c) \<noteq> None) s = ((r, account), s1)"
    and s1: "ledger_of s1 = ledger_of s" "locks_and_reserves s1 = locks_and_reserves s" "Accounts s1 = Accounts s"
  shows "fst (fst (mutate_account cfg who c f s)) = r"
    and "ledger_of (snd (mutate_account cfg who c f s)) =
      put_holding c who (unat (free account)) (unat (reserved account)) (ledger_of s)"
    and "locks_and_reserves (snd (mutate_account cfg who c f s)) = locks_and_reserves s"
    and "ExistentialDeposits cfg c = 0 \<Longrightarrow>
      frozen_of (snd (mutate_account cfg who c f s)) = (frozen_of s)(who := (frozen_of s who)(c := frozen account))"
proof -
  let ?m = "mutate_account cfg who c f s"
  have m: "?m = ((r, fst (settle_account cfg who c (Accounts s (who, c) \<noteq> None) account s1)),
      snd (settle_account cfg who c (Accounts s (who, c) \<noteq> None) account s1))"
    using f by (simp add: mutate_account_def Let_def case_prod_beta)
  show "fst (fst ?m) = r" by (simp add: m)
  show "ledger_of (snd ?m) = put_holding c who (unat (free account)) (unat (reserved account)) (ledger_of s)"
    by (simp add: m ledger_of_settle_account [OF hooks] s1)
  show "locks_and_reserves (snd ?m) = locks_and_reserves s"
    using s1(2) by (simp add: m locks_and_reserves_def settle_account_fields [OF hooks])
  have "Accounts (snd ?m) = (Accounts s)((who, c) := kept_entry cfg c account)"
    by (simp add: m settle_account_fields [OF hooks] s1)
  then show "ExistentialDeposits cfg c = 0 \<Longrightarrow>
      frozen_of (snd ?m) = (frozen_of s)(who := (frozen_of s who)(c := frozen account))"
    by (rule frozen_of_kept)
qed

lemma frozen_of_same [simp]: "(frozen_of s)(who := (frozen_of s who)(c := frozen (accounts s who c))) = frozen_of s"
  by (auto simp: frozen_of_def fun_eq_iff)

lemma slash_reserved_effect:
  assumes sl: "slash_reserved cfg c who value s = (rest, t)" and hooks: "unit_hooks cfg"
  shows "ledger_of t = ledger_burn c (min (unat (reserved (accounts s who c))) (unat value))
      (ledger_slash_reserved c who (min (unat (reserved (accounts s who c))) (unat value)) (ledger_of s))"
    and "unat rest = unat value - unat (reserved (accounts s who c))"
    and "locks_and_reserves t = locks_and_reserves s"
    and "ExistentialDeposits cfg c = 0 \<Longrightarrow> frozen_of t = frozen_of s"
proof -
  let ?n = "min (reserved (accounts s who c)) value"
  define s2 where "s2 = snd (mutate_account cfg who c
    (\<lambda>account _ s'. (((), account\<lparr>reserved := saturating_sub (reserved (accounts s who c)) ?n\<rparr>), s')) s)"
  note m = mutate_account_effect [OF hooks, where who = who and c = c and s = s and
     f = "\<lambda>account _ s'. (((), account\<lparr>reserved := saturating_sub (reserved (accounts s who c)) ?n\<rparr>), s')",
     OF refl refl refl refl, folded s2_def]
  have t: "t = deposit_event (SlashedEv c who 0 ?n) (mutate_total_issuance c (\<lambda>v. saturating_sub v ?n) s2)"
    if "value \<noteq> 0"
    using that sl by (simp add: slash_reserved_def Let_def unit_hooks_simps [OF hooks] reserved_balance_def s2_def)
  have ti: "total_issuance s2 c = total_issuance s c"
    using arg_cong [where f = "\<lambda>l. issued l c", OF m(2)] by (simp add: word_eq_unat)
  have t0: "t = s" if "value = 0" using that sl by (simp add: slash_reserved_def)
  show "ledger_of t = ledger_burn c (min (unat (reserved (accounts s who c))) (unat value))
      (ledger_slash_reserved c who (min (unat (reserved (accounts s who c))) (unat value)) (ledger_of s))"
    by (cases "value = 0")
      (simp_all add: t t0 m ti ledger_burn_def ledger_slash_reserved_def rust_arith)
  show "unat rest = unat value - unat (reserved (accounts s who c))"
    using sl by (auto simp: slash_reserved_def Let_def unit_hooks_simps [OF hooks] rust_arith reserved_balance_def split: if_splits)
  show "locks_and_reserves t = locks_and_reserves s"
    by (cases "value = 0") (simp_all add: t t0 m)
  show "ExistentialDeposits cfg c = 0 \<Longrightarrow> frozen_of t = frozen_of s"
    by (cases "value = 0") (simp_all add: t t0 m)
qed

lemma reserve_effect:
  assumes "reserve cfg c who value s = (Inr u, t)" and hooks: "unit_hooks cfg" and "value \<noteq> 0"
  shows "ledger_of t = put_holding c who (unat (free (accounts s who c)) - unat value)
      (min (unat (reserved (accounts s who c)) + unat value) (2 ^ 128 - 1)) (ledger_of s)"
    and "unat value + unat (frozen_of s who c) \<le> unat (free (accounts s who c))"
    and "locks_and_reserves t = locks_and_reserves s"
    and "ExistentialDeposits cfg c = 0 \<Longrightarrow> frozen_of t = frozen_of s"
proof -
  let ?f = "\<lambda>account (_ :: bool) s. (((), account\<lparr>free := saturating_sub (free account) value,
      reserved := saturating_add (reserved account) value\<rparr>), deposit_event (ReservedEv c who value) s)"
  note m = mutate_account_effect [OF hooks, where who = who and c = c and s = s and f = ?f, OF refl]
  have t: "t = snd (mutate_account cfg who c ?f s)"
    and "unat value + unat (frozen (accounts s who c)) \<le> unat (free (accounts s who c))"
    using assms by (auto simp: reserve_def op_simps)
  then show "unat value + unat (frozen_of s who c) \<le> unat (free (accounts s who c))"
    by (simp add: frozen_of_def)
  show "ledger_of t = put_holding c who (unat (free (accounts s who c)) - unat value)
      (min (unat (reserved (accounts s who c)) + unat value) (2 ^ 128 - 1)) (ledger_of s)"
    "locks_and_reserves t = locks_and_reserves s"
    "ExistentialDeposits cfg c = 0 \<Longrightarrow> frozen_of t = frozen_of s"
    by (simp_all add: t m rust_arith)
qed

lemma unreserve_effect:
  assumes "unreserve cfg c who value s = (rest, t)" and hooks: "unit_hooks cfg"
  defines "n \<equiv> min (unat (reserved (accounts s who c))) (unat value)"
  shows "ledger_of t = put_holding c who (min (unat (free (accounts s who c)) + n) (2 ^ 128 - 1))
      (unat (reserved (accounts s who c)) - n) (ledger_of s)"
    and "unat rest = unat value - n"
    and "locks_and_reserves t = locks_and_reserves s"
    and "ExistentialDeposits cfg c = 0 \<Longrightarrow> frozen_of t = frozen_of s"
proof -
  let ?f = "\<lambda>account (_ :: bool) s. let actual = min (reserved account) value in
    ((saturating_sub value actual, account\<lparr>reserved := saturating_sub (reserved account) actual,
         free := saturating_add (free account) actual\<rparr>), deposit_event (Unreserved c who actual) s)"
  note m = mutate_account_effect [OF hooks, where who = who and c = c and s = s and f = ?f, unfolded Let_def, OF refl]
  have t: "value \<noteq> 0 \<Longrightarrow> t = snd (mutate_account cfg who c ?f s) \<and> rest = fst (fst (mutate_account cfg who c ?f s))"
    and t0: "value = 0 \<Longrightarrow> t = s \<and> rest = 0"
    using assms(1) by (auto simp: unreserve_def split: prod.splits)
  show "ledger_of t = put_holding c who (min (unat (free (accounts s who c)) + n) (2 ^ 128 - 1))
      (unat (reserved (accounts s who c)) - n) (ledger_of s)"
    using unat_u128 [of "free (accounts s who c)"]
    by (cases "value = 0") (simp_all add: t t0 m rust_arith n_def Let_def min_absorb1)
  show "unat rest = unat value - n" "locks_and_reserves t = locks_and_reserves s"
    "ExistentialDeposits cfg c = 0 \<Longrightarrow> frozen_of t = frozen_of s"
    by (cases "value = 0", simp_all add: t t0 m rust_arith n_def Let_def)+
qed

lemma repatriate_reserved_effect:
  assumes "repatriate_reserved cfg c slashed beneficiary value status s = (Inr rest, t)" and hooks: "unit_hooks cfg"
    and "slashed \<noteq> beneficiary"
  defines "n \<equiv> min (unat (reserved (accounts s slashed c))) (unat value)"
  shows "unat (free (accounts s beneficiary c)) + n < 2 ^ 128 \<Longrightarrow> unat (reserved (accounts s beneficiary c)) + n < 2 ^ 128 \<Longrightarrow>
      ledger_of t = ledger_repatriate c slashed beneficiary n (status = Free) (ledger_of s)"
    and "unat rest = unat value - n"
    and "locks_and_reserves t = locks_and_reserves s"
    and "ExistentialDeposits cfg c = 0 \<Longrightarrow> frozen_of t = frozen_of s"
proof -
  let ?n = "min (reserved (accounts s slashed c)) value"
  define s1 where "s1 = (case status of
                    Free \<Rightarrow> set_free_balance cfg c beneficiary (saturating_add (free (accounts s beneficiary c)) ?n) s
                  | Reserved \<Rightarrow> set_reserved_balance cfg c beneficiary (saturating_add (reserved (accounts s beneficiary c)) ?n) s)"
  have eq: "value \<noteq> 0 \<Longrightarrow> t = deposit_event (ReserveRepatriated c slashed beneficiary ?n status)
      (set_reserved_balance cfg c slashed (saturating_sub (reserved (accounts s slashed c)) ?n) s1)"
    "value = 0 \<Longrightarrow> t = s" "rest = saturating_sub value ?n"
    using assms(1,3) by (auto simp: repatriate_reserved_def Let_def s1_def split: if_splits)
  have led1: "ledger_of s1 = (let l = ledger_of s in
      if status = Free then put_holding c beneficiary (held_free l c beneficiary + n) (held_reserved l c beneficiary) l
      else put_holding c beneficiary (held_free l c beneficiary) (held_reserved l c beneficiary + n) l)"
    if "unat (free (accounts s beneficiary c)) + n < 2 ^ 128" "unat (reserved (accounts s beneficiary c)) + n < 2 ^ 128"
    using that by (cases status)
      (simp_all add: s1_def Let_def ledger_of_set_free_balance [OF hooks] ledger_of_set_reserved_balance [OF hooks]
        rust_arith n_def min_absorb1)
  show "ledger_of t = ledger_repatriate c slashed beneficiary n (status = Free) (ledger_of s)"
    if "unat (free (accounts s beneficiary c)) + n < 2 ^ 128" "unat (reserved (accounts s beneficiary c)) + n < 2 ^ 128"
  proof (cases "value = 0")
    case True
    then show ?thesis by (simp add: eq n_def ledger_repatriate_def ledger_slash_reserved_def)
  next
    case False
    then show ?thesis using assms(3)
      by (simp add: eq led1 [OF that] ledger_of_set_reserved_balance [OF hooks] Let_def
        ledger_repatriate_def ledger_slash_reserved_def rust_arith n_def)
  qed
  show "unat rest = unat value - n" by (simp add: eq rust_arith n_def)
  show "locks_and_reserves t = locks_and_reserves s"
    by (cases "value = 0"; cases status) (simp_all add: eq s1_def setter_frames [OF hooks])
  show "ExistentialDeposits cfg c = 0 \<Longrightarrow> frozen_of t = frozen_of s"
    by (cases "value = 0"; cases status) (simp_all add: eq s1_def setter_frames [OF hooks])
qed

text \<open>A successful closure of \<open>try_mutate_account\<close> that may change the issuance and write events.\<close>

lemma try_mutate_account_effect:
  assumes "try_mutate_account cfg who c f s = (Inr (r, d), t)" and hooks: "unit_hooks cfg"
    and f: "\<And>account s1. f (accounts s who c) (Accounts s (who, c) \<noteq> None) s = (Inr (r, account), s1) \<Longrightarrow>
      Accounts s1 = Accounts s \<and> locks_and_reserves s1 = locks_and_reserves s \<and>
      frozen account = frozen (accounts s who c) \<and> P account (ledger_of s1)"
  obtains account l where "P account l"
    "ledger_of t = put_holding c who (unat (free account)) (unat (reserved account)) l"
    "locks_and_reserves t = locks_and_reserves s"
    "ExistentialDeposits cfg c = 0 \<Longrightarrow> frozen_of t = frozen_of s"
proof -
  from assms(1) hooks obtain account s1 where
    fs: "f (accounts s who c) (Accounts s (who, c) \<noteq> None) s = (Inr (r, account), s1)"
    and acc: "Accounts t = (Accounts s1)((who, c) := kept_entry cfg c account)"
    and led: "ledger_of t = put_holding c who (unat (free account)) (unat (reserved account)) (ledger_of s1)"
    and lr: "Locks t = Locks s1" "Reserves t = Reserves s1"
    by (elim try_mutate_account_InrE)
  note f [OF fs]
  moreover have "ExistentialDeposits cfg c = 0 \<Longrightarrow> frozen_of t = frozen_of s"
    using frozen_of_kept [of t s who c cfg account] acc f [OF fs] by simp
  ultimately show thesis using led lr
    by (intro that [of account "ledger_of s1"]) (auto simp: locks_and_reserves_def)
qed

lemma settle_issuance_Inr:
  assumes "settle_issuance c old new s = (Inr u, t)"
  shows "ledger_of t = put_issued c (unat (total_issuance s c) + unat new - unat old) (ledger_of s)"
    and "Accounts t = Accounts s" and "locks_and_reserves t = locks_and_reserves s"
  using assms
  by (auto simp: settle_issuance_def op_simps rust_arith unat_order split: if_splits
      intro!: arg_cong [where f = "\<lambda>n. put_issued c n (ledger_of s)"])

lemma set_balance_account_effect:
  assumes "set_balance_account cfg c who new_free new_reserved s = (Inr u, t)" and hooks: "unit_hooks cfg"
    and N: "unat (total_issuance s c) = N + unat (free (accounts s who c)) + unat (reserved (accounts s who c))"
  defines "kept \<equiv> unat (ExistentialDeposits cfg c) \<le> unat new_free + unat new_reserved"
  defines "f \<equiv> if kept then unat new_free else 0" and "r \<equiv> if kept then unat new_reserved else 0"
  shows "ledger_of t = put_holding c who f r (put_issued c (N + (f + r)) (ledger_of s))"
    and "locks_and_reserves t = locks_and_reserves s"
    and "ExistentialDeposits cfg c = 0 \<Longrightarrow> frozen_of t = frozen_of s"
proof -
  let ?a = "accounts s who c"
  let ?P = "\<lambda>account l. unat (free account) = f \<and> unat (reserved account) = r \<and>
      l = put_issued c (N + (f + r)) (ledger_of s)"
  have tot: "unat (total ?a) = unat (free ?a) + unat (reserved ?a)"
    using N unat_u128 [of "total_issuance s c"] by (simp add: total_def unat_saturating_add)
  have "ledger_of t = put_holding c who f r (put_issued c (N + (f + r)) (ledger_of s)) \<and>
      locks_and_reserves t = locks_and_reserves s \<and>
      (ExistentialDeposits cfg c = 0 \<longrightarrow> frozen_of t = frozen_of s)"
    using assms(1)
    apply (clarsimp simp: set_balance_account_def op_simps simp del: ledger_of_simps)
    apply (erule try_mutate_account_effect [OF _ hooks, where P = ?P])
     apply (clarsimp simp: op_simps Let_def rust_arith)
     apply (cases kept)
      apply (clarsimp simp: unat_order kept_def op_simps settle_issuance_Inr f_def r_def tot N rust_arith)
     apply (clarsimp simp: unat_order kept_def op_simps settle_issuance_Inr f_def r_def tot N)
    apply simp
    done
  then show "ledger_of t = put_holding c who f r (put_issued c (N + (f + r)) (ledger_of s))"
    "locks_and_reserves t = locks_and_reserves s"
    "ExistentialDeposits cfg c = 0 \<Longrightarrow> frozen_of t = frozen_of s"
    by simp_all
qed

section \<open>Locks\<close>

lemma update_locks_effect:
  assumes "update_locks cfg c who ls s = (Inr u, t)" and hooks: "unit_hooks cfg"
  shows "ledger_of t = ledger_of s"
    and "Locks t = (Locks s)((who, c) := (if ls = [] then None else Some ls))"
    and "Reserves t = Reserves s"
    and "length ls \<le> unat (MaxLocks cfg)"
    and "ExistentialDeposits cfg c = 0 \<Longrightarrow> frozen_of t = (frozen_of s)(who := (frozen_of s who)(c := max_lock ls))"
proof -
  let ?f = "\<lambda>account (_::bool) s. (((frozen account, max_lock ls), account\<lparr>frozen := max_lock ls\<rparr>), s)"
  define m where "m = mutate_account cfg who c ?f s"
  note eff = mutate_account_effect [OF hooks, where who = who and c = c and s = s and f = ?f,
      OF refl refl refl refl, folded m_def]
  have acc: "Accounts t = Accounts (snd m)" "TotalIssuance t = TotalIssuance (snd m)" "Reserves t = Reserves (snd m)"
    and lks: "Locks t = (Locks (snd m))((who, c) := (if ls = [] then None else Some ls))"
      "length ls \<le> unat (MaxLocks cfg)"
    using assms(1) by (auto simp: update_locks_def Let_def case_prod_beta simp flip: m_def split: if_splits)
  show "ledger_of t = ledger_of s"
    using ledger_of_cong [OF acc(1,2)] eff(2) by simp
  have "accounts t = accounts (snd m)" by (rule accounts_cong) (rule acc)
  then show "ExistentialDeposits cfg c = 0 \<Longrightarrow> frozen_of t = (frozen_of s)(who := (frozen_of s who)(c := max_lock ls))"
    using eff(4) by (simp add: frozen_of_def fun_eq_iff)
  show "Locks t = (Locks s)((who, c) := (if ls = [] then None else Some ls))" "Reserves t = Reserves s"
    "length ls \<le> unat (MaxLocks cfg)"
    using eff(3) acc lks by (auto simp: locks_and_reserves_def)
qed

text \<open>
  What the vector of locks of an account promises: the frozen amount is the largest lock, an
  identifier occurs at most once, and the vector is within its capacity.
\<close>

definition locks_wf :: "('acc, 'cur, 'rid, 's) tokens_config \<Rightarrow> ('acc, 'cur, 'rid, 's) tokens_state \<Rightarrow> bool" where
  "locks_wf cfg s \<longleftrightarrow>
     (\<forall>who c. frozen_of s who c = max_lock (locks s who c) \<and> distinct (map lock_id (locks s who c)) \<and>
        length (locks s who c) \<le> unat (MaxLocks cfg))"

lemma locks_wf_frame:
  "locks_wf cfg s \<Longrightarrow> locks_and_reserves t = locks_and_reserves s \<Longrightarrow> frozen_of t = frozen_of s \<Longrightarrow> locks_wf cfg t"
  by (simp add: locks_wf_def locks_and_reserves_def locks_def)

lemma fold_max_ge:
  "(z :: balance) \<le> fold (\<lambda>l f. max f (lock_amount l)) ls z"
  by (induction ls arbitrary: z) (auto intro: order_trans [OF max.cobounded1])

lemma max_lock_ge: "l \<in> set ls \<Longrightarrow> lock_amount l \<le> max_lock ls"
proof -
  have "l \<in> set ls \<Longrightarrow> lock_amount l \<le> fold (\<lambda>l f. max f (lock_amount l)) ls z" for z
    by (induction ls arbitrary: z) (auto intro: order_trans [OF max.cobounded2 fold_max_ge])
  then show "l \<in> set ls \<Longrightarrow> ?thesis" by (simp add: max_lock_def)
qed

lemma update_locks_wf:
  assumes "update_locks cfg c who ls s = (Inr u, t)" and "unit_hooks cfg" and "ExistentialDeposits cfg c = 0"
    and "locks_wf cfg s" and "distinct (map lock_id ls)"
  shows "locks_wf cfg t"
proof -
  note eff = update_locks_effect [OF assms(1,2)]
  have "locks t a k = (if a = who \<and> k = c then ls else locks s a k)" for a k
    by (simp add: locks_def eff(2))
  then show ?thesis
    using assms(4,5) eff(4) eff(5) [OF assms(3)] by (auto simp: locks_wf_def)
qed

lemma place_lock_None: "place_lock i f None ls = (filter (\<lambda>l. lock_id l \<noteq> i) ls, None)"
  by (induction ls) auto

lemma place_lock_Some:
  "distinct (map lock_id ls) \<Longrightarrow> place_lock i f (Some nl) ls =
     (if i \<in> lock_id ` set ls then (map (\<lambda>l. if lock_id l = i then f l nl else l) ls, None) else (ls, Some nl))"
proof (induction ls)
  case (Cons l ls)
  show ?case
  proof (cases "lock_id l = i")
    case True
    with Cons.prems have others: "\<forall>l' \<in> set ls. lock_id l' \<noteq> i" by (auto simp: image_iff)
    then have "map (\<lambda>l. if lock_id l = i then f l nl else l) ls = ls" "filter (\<lambda>l. lock_id l \<noteq> i) ls = ls"
      by (auto simp: map_idI)
    with True show ?thesis by (simp add: place_lock_None)
  next
    case False
    with Cons show ?thesis by auto
  qed
qed simp

lemma place_or_push_eq:
  "distinct (map lock_id ls) \<Longrightarrow> place_or_push i f nl ls =
     (if i \<in> lock_id ` set ls then map (\<lambda>l. if lock_id l = i then f l nl else l) ls else ls @ [nl])"
  by (simp add: place_or_push_def place_lock_Some)

lemma distinct_place_or_push:
  assumes "distinct (map lock_id ls)" and "lock_id nl = i" and "\<And>l. lock_id l = i \<Longrightarrow> lock_id (f l nl) = i"
  shows "distinct (map lock_id (place_or_push i f nl ls))"
proof -
  have same: "map (lock_id \<circ> (\<lambda>l. if lock_id l = i then f l nl else l)) ls = map lock_id ls"
    using assms(3) by simp
  show ?thesis
  proof (cases "i \<in> lock_id ` set ls")
    case True
    show ?thesis
      unfolding place_or_push_eq [OF assms(1)] if_P [OF True] map_map same by (rule assms(1))
  next
    case False
    with assms(1,2) show ?thesis by (auto simp: place_or_push_eq)
  qed
qed

text \<open>The amount locked under an identifier.\<close>

definition locked_under :: "('acc, 'cur, 'rid, 's) tokens_state \<Rightarrow> 'acc \<Rightarrow> 'cur \<Rightarrow> bytes \<Rightarrow> balance option" where
  "locked_under s who c i = map_of (map (\<lambda>l. (lock_id l, lock_amount l)) (locks s who c)) i"

lemma map_of_locks_place_or_push:
  assumes "distinct (map lock_id ls)" and "lock_id nl = i" and "\<And>l. lock_id l = i \<Longrightarrow> lock_id (f l nl) = i"
  shows "map_of (map (\<lambda>l. (lock_id l, lock_amount l)) (place_or_push i f nl ls)) j =
    (if j = i then (case map_of (map (\<lambda>l. (lock_id l, l)) ls) i of
         None \<Rightarrow> Some (lock_amount nl)
       | Some l \<Rightarrow> Some (lock_amount (f l nl)))
     else map_of (map (\<lambda>l. (lock_id l, lock_amount l)) ls) j)"
proof -
  let ?g = "\<lambda>l. if lock_id l = i then f l nl else l"
  have "map_of (map (\<lambda>l. (lock_id l, lock_amount l)) (map ?g ls)) j =
    (if j = i then map_option (\<lambda>l. lock_amount (f l nl)) (map_of (map (\<lambda>l. (lock_id l, l)) ls) i)
     else map_of (map (\<lambda>l. (lock_id l, lock_amount l)) ls) j)"
    using assms(3) by (induction ls) auto
  moreover have "i \<notin> lock_id ` set ls \<Longrightarrow> map_of (map (\<lambda>l. (lock_id l, l)) ls) i = None"
    by (induction ls) auto
  moreover have "i \<notin> lock_id ` set ls \<Longrightarrow> map_of (map (\<lambda>l. (lock_id l, lock_amount l)) ls) i = None"
    by (induction ls) auto
  moreover have "i \<in> lock_id ` set ls \<Longrightarrow> \<exists>l. map_of (map (\<lambda>l. (lock_id l, l)) ls) i = Some l"
    by (induction ls) auto
  ultimately show ?thesis
    using assms(2) unfolding place_or_push_eq [OF assms(1)] by (auto simp: map_add_def split: option.splits)
qed

lemma locks_upd:
  assumes "update_locks cfg c who ls s = (Inr u, t)" and "unit_hooks cfg"
  shows "locks t a k = (if a = who \<and> k = c then ls else locks s a k)"
  using update_locks_effect(2) [OF assms] by (simp add: locks_def)

lemma lock_frames [simp]:
  "locks (deposit_event e s) = locks s" "locks_wf cfg (deposit_event e s) = locks_wf cfg s"
  "locked_under (deposit_event e s) = locked_under s"
  by (simp_all add: locks_def locks_wf_def locked_under_def fun_eq_iff)

lemma map_of_lock_amount:
  "map_of (map (\<lambda>l. (lock_id l, lock_amount l)) ls) i = map_option lock_amount (map_of (map (\<lambda>l. (lock_id l, l)) ls) i)"
  by (induction ls) auto

lemma set_lock_effect:
  assumes "set_lock cfg i c who amount s = (Inr u, t)" and "unit_hooks cfg" and "ExistentialDeposits cfg c = 0"
    and "locks_wf cfg s" and "amount \<noteq> 0"
  shows "locks_wf cfg t" and "ledger_of t = ledger_of s" and "Reserves t = Reserves s"
    and "locked_under t who c = (locked_under s who c)(i \<mapsto> amount)"
proof -
  define ls where "ls = place_or_push i (\<lambda>_ nl. nl) \<lparr>lock_id = i, lock_amount = amount\<rparr> (locks s who c)"
  from assms(1,5) obtain s1 where up: "update_locks cfg c who ls s = (Inr (), s1)"
    and t: "t = deposit_event (LockSet i c who amount) s1"
    by (auto simp: set_lock_def op_simps Let_def ls_def)
  have d: "distinct (map lock_id (locks s who c))" using assms(4) by (simp add: locks_wf_def)
  then have "distinct (map lock_id ls)" unfolding ls_def by (rule distinct_place_or_push) simp_all
  then show "locks_wf cfg t" using update_locks_wf [OF up assms(2-4)] by (simp add: t)
  show "ledger_of t = ledger_of s" "Reserves t = Reserves s"
    using update_locks_effect [OF up assms(2)] by (simp_all add: t)
  show "locked_under t who c = (locked_under s who c)(i \<mapsto> amount)"
    unfolding t lock_frames
    by (auto simp: locked_under_def locks_upd [OF up assms(2)] ls_def map_of_locks_place_or_push [OF d] split: option.split)
qed

lemma extend_lock_effect:
  assumes up: "extend_lock cfg i c who amount s = (Inr u, t)" and "unit_hooks cfg" and "ExistentialDeposits cfg c = 0"
    and "locks_wf cfg s" and "amount \<noteq> 0"
  shows "locks_wf cfg t" and "ledger_of t = ledger_of s" and "Reserves t = Reserves s"
    and "locked_under t who c = (locked_under s who c)(i \<mapsto> max (unwrap_or (locked_under s who c i) 0) amount)"
proof -
  define ls where "ls = place_or_push i
      (\<lambda>l nl. \<lparr>lock_id = lock_id l, lock_amount = max (lock_amount l) (lock_amount nl)\<rparr>)
      \<lparr>lock_id = i, lock_amount = amount\<rparr> (locks s who c)"
  from assms(1,5) have up: "update_locks cfg c who ls s = (Inr (), t)"
    by (simp add: extend_lock_def Let_def ls_def)
  have d: "distinct (map lock_id (locks s who c))" using assms(4) by (simp add: locks_wf_def)
  then have "distinct (map lock_id ls)" unfolding ls_def by (rule distinct_place_or_push) simp_all
  then show "locks_wf cfg t" using update_locks_wf [OF up assms(2-4)] by simp
  show "ledger_of t = ledger_of s" "Reserves t = Reserves s"
    using update_locks_effect [OF up assms(2)] by simp_all
  have "locked_under t who c j = ((locked_under s who c)(i \<mapsto> max (unwrap_or (locked_under s who c i) 0) amount)) j" for j
    by (simp add: locked_under_def locks_upd [OF up assms(2)] ls_def map_of_locks_place_or_push [OF d])
      (auto simp: map_of_lock_amount split: option.split)
  then show "locked_under t who c = (locked_under s who c)(i \<mapsto> max (unwrap_or (locked_under s who c i) 0) amount)"
    by (rule ext)
qed

lemma remove_lock_effect:
  assumes "remove_lock cfg i c who s = (Inr u, t)" and "unit_hooks cfg" and "ExistentialDeposits cfg c = 0"
    and "locks_wf cfg s"
  shows "locks_wf cfg t" and "ledger_of t = ledger_of s" and "Reserves t = Reserves s"
    and "locked_under t who c = (locked_under s who c)(i := None)"
proof -
  define ls where "ls = filter (\<lambda>l. lock_id l \<noteq> i) (locks s who c)"
  from assms(1) obtain s1 where up: "update_locks cfg c who ls s = (Inr (), s1)"
    and t: "t = deposit_event (LockRemoved i c who) s1"
    by (auto simp: remove_lock_def op_simps ls_def)
  have "distinct (map lock_id (locks s who c))" using assms(4) by (simp add: locks_wf_def)
  then have "distinct (map lock_id ls)" unfolding ls_def by (rule distinct_map_filter)
  then show "locks_wf cfg t" using update_locks_wf [OF up assms(2-4)] by (simp add: t)
  show "ledger_of t = ledger_of s" "Reserves t = Reserves s"
    using update_locks_effect [OF up assms(2)] by (simp_all add: t)
  have flt: "map_of (map (\<lambda>l. (lock_id l, lock_amount l)) (filter (\<lambda>l. lock_id l \<noteq> i) ks)) j =
      (if j = i then None else map_of (map (\<lambda>l. (lock_id l, lock_amount l)) ks) j)" for ks j
    by (induction ks) auto
  show "locked_under t who c = (locked_under s who c)(i := None)"
    unfolding t lock_frames by (simp add: locked_under_def locks_upd [OF up assms(2)] ls_def fun_eq_iff flt)
qed

end
