(* ===== verification/Tokens_Named.thy ===== *)
theory Tokens_Named
  imports Tokens_Ledger
begin

text \<open>
  The named reserves of an account are a finite map from identifiers to amounts, stored as a
  vector sorted by identifier. The lemmas of this theory read every operation on the vector
  (binary search, update in place, bounded insertion, removal) as the operation on the map, and
  every named operation of the pallet as an operation on the map and a move of the ledger.
\<close>

section \<open>The sorted vector as a map\<close>

definition reserve_map :: "'rid reserve_data list \<Rightarrow> 'rid \<rightharpoonup> balance" where
  "reserve_map rs = map_of (map (\<lambda>d. (reserve_id d, reserve_amount d)) rs)"

definition sorted_ids :: "'rid::linorder reserve_data list \<Rightarrow> bool" where
  "sorted_ids rs \<longleftrightarrow> sorted_wrt (<) (map reserve_id rs)"

lemma sorted_idsD: "sorted_ids rs \<Longrightarrow> sorted (map reserve_id rs)" "sorted_ids rs \<Longrightarrow> distinct (map reserve_id rs)"
  by (simp_all add: sorted_ids_def strict_sorted_iff)

lemma reserve_map_None: "i \<notin> reserve_id ` set rs \<longleftrightarrow> reserve_map rs i = None"
  by (auto simp: reserve_map_def map_of_eq_None_iff image_image)

lemma reserve_map_split:
  assumes "sorted_ids (xs @ d # ys)"
  shows "reserve_map (xs @ d # ys) = (reserve_map (xs @ ys))(reserve_id d \<mapsto> reserve_amount d)"
    and "reserve_map (xs @ ys) (reserve_id d) = None"
proof -
  have "reserve_id d \<notin> reserve_id ` set xs" "reserve_id d \<notin> reserve_id ` set ys"
    using sorted_idsD(2) [OF assms] by auto
  then show "reserve_map (xs @ ys) (reserve_id d) = None"
    unfolding reserve_map_None [symmetric] by auto
  have "reserve_map xs (reserve_id d) = None"
    using \<open>reserve_id d \<notin> reserve_id ` set xs\<close> by (simp add: reserve_map_None)
  then show "reserve_map (xs @ d # ys) = (reserve_map (xs @ ys))(reserve_id d \<mapsto> reserve_amount d)"
    by (simp add: reserve_map_def fun_eq_iff map_add_def split: option.split)
qed

lemma sorted_ids_change:
  "reserve_id d' = reserve_id d \<Longrightarrow> sorted_ids (xs @ d' # ys) \<longleftrightarrow> sorted_ids (xs @ d # ys)"
  by (simp add: sorted_ids_def)

lemma sorted_ids_remove: "sorted_ids (xs @ d # ys) \<Longrightarrow> sorted_ids (xs @ ys)"
  by (auto simp: sorted_ids_def sorted_wrt_append)

lemma search_Inr:
  assumes "binary_search_by_key reserve_id rs i = Inr index" and "sorted_ids rs"
  obtains xs d ys where "rs = xs @ d # ys" "length xs = index" "reserve_id d = i"
proof -
  from binary_search_by_key_Inr [OF sorted_idsD(1) [OF assms(2)] assms(1)]
  have "index < length rs" "reserve_id (rs ! index) = i" by simp_all
  then show thesis
    by (intro that [of "take index rs" "rs ! index" "drop (Suc index) rs"])
      (simp_all add: id_take_nth_drop [symmetric])
qed

lemma search_Inl:
  assumes "binary_search_by_key reserve_id rs i = Inl index" and "sorted_ids rs"
  shows "reserve_map rs i = None" and "sorted_ids (take index rs @ \<lparr>reserve_id = i, reserve_amount = v\<rparr> # drop index rs)"
proof -
  note f = binary_search_by_key_Inl [OF sorted_idsD(1) [OF assms(2)] assms(1)]
  have "i \<noteq> reserve_id (rs ! j)" if "j < length rs" for j
    using f(2) [of j] f(3) [of j] that by (cases "j < index") auto
  then show "reserve_map rs i = None"
    unfolding reserve_map_None [symmetric] by (metis imageE in_set_conv_nth)
  have "reserve_id x < i" if "x \<in> set (take index rs)" for x
    using f(1,2) that by (auto simp: in_set_conv_nth)
  moreover have "i < reserve_id x" if "x \<in> set (drop index rs)" for x
    using f(1,3) that by (auto simp: in_set_conv_nth)
  moreover have "sorted_wrt (<) (map reserve_id (take index rs @ drop index rs))"
    using assms(2) by (simp add: sorted_ids_def)
  ultimately show "sorted_ids (take index rs @ \<lparr>reserve_id = i, reserve_amount = v\<rparr> # drop index rs)"
    unfolding sorted_ids_def map_append sorted_wrt_append by simp
qed

lemma reserve_map_split_simps:
  assumes "sorted_ids (xs @ d # ys)"
  shows "set_reserve_amount (length xs) v (xs @ d # ys) = xs @ d\<lparr>reserve_amount := v\<rparr> # ys"
    and "remove_at (length xs) (xs @ d # ys) = xs @ ys"
    and "reserve_map (xs @ d\<lparr>reserve_amount := v\<rparr> # ys) = (reserve_map (xs @ d # ys))(reserve_id d \<mapsto> v)"
    and "reserve_map (xs @ ys) = (reserve_map (xs @ d # ys))(reserve_id d := None)"
proof -
  have "sorted_ids (xs @ d\<lparr>reserve_amount := v\<rparr> # ys)"
    using assms sorted_ids_change [of "d\<lparr>reserve_amount := v\<rparr>" d xs ys] by simp
  from reserve_map_split(1) [OF this] reserve_map_split [OF assms]
  show "reserve_map (xs @ d\<lparr>reserve_amount := v\<rparr> # ys) = (reserve_map (xs @ d # ys))(reserve_id d \<mapsto> v)"
    "reserve_map (xs @ ys) = (reserve_map (xs @ d # ys))(reserve_id d := None)"
    by (simp_all add: fun_eq_iff)
qed (simp_all add: set_reserve_amount_def remove_at_def)

lemma search_found:
  assumes "binary_search_by_key reserve_id rs i = Inr index" and "sorted_ids rs"
  shows "reserve_map rs i = Some (reserve_amount (rs ! index))" and "index < length rs"
    and "sorted_ids (set_reserve_amount index v rs)" and "length (set_reserve_amount index v rs) = length rs"
    and "reserve_map (set_reserve_amount index v rs) = (reserve_map rs)(i \<mapsto> v)"
    and "set_reserve_amount index v rs ! index = (rs ! index)\<lparr>reserve_amount := v\<rparr>"
    and "sorted_ids (remove_at index rs)" and "length (remove_at index rs) < length rs"
    and "reserve_map (remove_at index rs) = (reserve_map rs)(i := None)"
proof -
  from assms obtain xs d ys where rs: "rs = xs @ d # ys" "index = length xs" "i = reserve_id d"
    by (metis search_Inr)
  have sorted: "sorted_ids (xs @ d # ys)" using assms(2) by (simp add: rs)
  note simps = reserve_map_split_simps [OF sorted]
  show "reserve_map rs i = Some (reserve_amount (rs ! index))"
    unfolding rs using reserve_map_split(1) [OF sorted] by simp
  show "sorted_ids (set_reserve_amount index v rs)"
    unfolding rs simps using sorted_ids_change [of "d\<lparr>reserve_amount := v\<rparr>" d xs ys] sorted by simp
  show "sorted_ids (remove_at index rs)"
    unfolding rs simps using sorted by (rule sorted_ids_remove)
  show "reserve_map (set_reserve_amount index v rs) = (reserve_map rs)(i \<mapsto> v)"
    "reserve_map (remove_at index rs) = (reserve_map rs)(i := None)"
    unfolding rs simps by (rule simps refl)+
qed (use binary_search_by_key_Inr [OF sorted_idsD(1) [OF assms(2)] assms(1)]
    in \<open>simp_all add: set_reserve_amount_def remove_at_def\<close>)

lemma try_insert_missing:
  assumes "binary_search_by_key reserve_id rs i = Inl index" and "sorted_ids rs"
    and "try_insert m index \<lparr>reserve_id = i, reserve_amount = v\<rparr> rs = Some rs'"
  shows "sorted_ids rs'" and "length rs' \<le> unat m" and "reserve_map rs' = (reserve_map rs)(i \<mapsto> v)"
  using assms(3) search_Inl [OF assms(1,2)] reserve_map_split(1) [OF search_Inl(2) [OF assms(1,2)]]
  by (auto simp: try_insert_def split: if_splits)

section \<open>The named operations\<close>

definition named :: "('acc, 'cur, 'rid, 's) tokens_state \<Rightarrow> 'acc \<Rightarrow> 'cur \<Rightarrow> 'rid \<rightharpoonup> balance" where
  "named s who c = reserve_map (reserves s who c)"

definition reserves_wf :: "('acc, 'cur, 'rid::linorder, 's) tokens_config \<Rightarrow> ('acc, 'cur, 'rid, 's) tokens_state \<Rightarrow> bool" where
  "reserves_wf cfg s \<longleftrightarrow>
     (\<forall>who c. sorted_ids (reserves s who c) \<and> length (reserves s who c) \<le> unat (MaxReserves cfg))"

lemma reserves_cong: "Reserves s = Reserves t \<Longrightarrow> reserves s = reserves t"
  by (simp add: reserves_def fun_eq_iff)

lemma reserves_frame:
  assumes "locks_and_reserves t = locks_and_reserves s"
  shows "reserves t = reserves s" and "named t = named s" and "reserves_wf cfg t = reserves_wf cfg s"
  using reserves_cong [of t s] assms by (auto simp: locks_and_reserves_def named_def reserves_wf_def fun_eq_iff)

lemma reserves_put_reserves:
  "reserves (put_reserves who c rs s) a k = (if a = who \<and> k = c then unwrap_or rs [] else reserves s a k)"
  by (simp add: put_reserves_def reserves_def)

lemma put_reserves_frame [simp]:
  "ledger_of (put_reserves who c rs s) = ledger_of s" "Locks (put_reserves who c rs s) = Locks s"
  "frozen_of (put_reserves who c rs s) = frozen_of s"
proof -
  show "ledger_of (put_reserves who c rs s) = ledger_of s"
    by (rule ledger_of_cong) (simp_all add: put_reserves_def)
qed (simp_all add: put_reserves_def frozen_of_def accounts_def fun_eq_iff)

lemma reserved_balance_named_eq:
  assumes "reserves_wf cfg s"
  shows "reserved_balance_named s i c who = unwrap_or (named s who c i) 0"
proof -
  have sorted: "sorted_ids (reserves s who c)" using assms by (simp add: reserves_wf_def)
  show ?thesis
    by (cases "binary_search_by_key reserve_id (reserves s who c) i")
      (simp_all add: reserved_balance_named_def named_def search_Inl(1) [OF _ sorted] search_found(1) [OF _ sorted])
qed

lemma reserve_named_vector:
  assumes "sorted_ids rs" and "length rs \<le> unat m"
    and "(case binary_search_by_key reserve_id rs i of
           Inr index \<Rightarrow> Some (set_reserve_amount index (saturating_add (reserve_amount (rs ! index)) value) rs)
         | Inl index \<Rightarrow> try_insert m index \<lparr>reserve_id = i, reserve_amount = value\<rparr> rs) = Some rs'"
  shows "sorted_ids rs'" and "length rs' \<le> unat m"
    and "reserve_map rs' = (reserve_map rs)(i \<mapsto> saturating_add (unwrap_or (reserve_map rs i) 0) value)"
  using assms(2,3) search_found [OF _ assms(1)] try_insert_missing [OF _ assms(1)] search_Inl(1) [OF _ assms(1)]
  by (auto split: sum.splits)

lemma reserve_frames:
  assumes "reserve cfg c who value s = (Inr u, t)" and "unit_hooks cfg"
  shows "locks_and_reserves t = locks_and_reserves s"
    and "ExistentialDeposits cfg c = 0 \<Longrightarrow> frozen_of t = frozen_of s"
  using reserve_effect [OF assms] assms(1) by (cases "value = 0", simp_all add: reserve_def op_simps)+

lemma reserves_wf_put:
  assumes "reserves_wf cfg s" and "locks_and_reserves s1 = locks_and_reserves s"
    and "sorted_ids (unwrap_or rs [])" and "length (unwrap_or rs []) \<le> unat (MaxReserves cfg)"
  shows "reserves_wf cfg (put_reserves who c rs s1)"
    and "named (put_reserves who c rs s1) a k = (if a = who \<and> k = c then reserve_map (unwrap_or rs []) else named s a k)"
  using assms reserves_frame [OF assms(2)]
  by (auto simp: reserves_wf_def named_def reserves_put_reserves)

lemma reserve_named_effect:
  assumes "reserve_named cfg i c who value s = (Inr u, t)" and hooks: "unit_hooks cfg" and wf: "reserves_wf cfg s"
    and "value \<noteq> 0"
  shows "reserves_wf cfg t"
    and "named t who c = (named s who c)(i \<mapsto> saturating_add (reserved_balance_named s i c who) value)"
    and "(a, k) \<noteq> (who, c) \<Longrightarrow> named t a k = named s a k"
    and "\<exists>s1. reserve cfg c who value s = (Inr (), s1) \<and> ledger_of t = ledger_of s1 \<and>
      Locks t = Locks s1 \<and> frozen_of t = frozen_of s1"
proof -
  have rs: "sorted_ids (reserves s who c)" "length (reserves s who c) \<le> unat (MaxReserves cfg)"
    using wf by (simp_all add: reserves_wf_def)
  from assms(1,4) obtain rs' s1 where
    rs': "(case binary_search_by_key reserve_id (reserves s who c) i of
           Inr index \<Rightarrow> Some (set_reserve_amount index (saturating_add (reserve_amount (reserves s who c ! index)) value) (reserves s who c))
         | Inl index \<Rightarrow> try_insert (MaxReserves cfg) index \<lparr>reserve_id = i, reserve_amount = value\<rparr> (reserves s who c)) = Some rs'"
    and s1: "reserve cfg c who value s = (Inr (), s1)" and t: "t = put_reserves who c (Some rs') s1"
    by (auto simp: reserve_named_def Let_def op_simps)
  note vec = reserve_named_vector [OF rs rs'] and frame = reserve_frames(1) [OF s1 hooks]
  show "reserves_wf cfg t" "(a, k) \<noteq> (who, c) \<Longrightarrow> named t a k = named s a k"
    "named t who c = (named s who c)(i \<mapsto> saturating_add (reserved_balance_named s i c who) value)"
    using vec reserves_wf_put [OF wf frame, of "Some rs'" who c]
    by (auto simp: t reserved_balance_named_eq [OF wf] named_def)
  show "\<exists>s1. reserve cfg c who value s = (Inr (), s1) \<and> ledger_of t = ledger_of s1 \<and>
      Locks t = Locks s1 \<and> frozen_of t = frozen_of s1"
    using s1 by (auto simp: t)
qed

lemma remove_at_set_reserve_amount [simp]: "remove_at index (set_reserve_amount index v rs) = remove_at index rs"
  by (simp add: remove_at_def set_reserve_amount_def)

lemma shrink_named_vector:
  fixes v :: balance
  assumes "binary_search_by_key reserve_id rs i = Inr index" and "sorted_ids rs" and "length rs \<le> unat m"
    and rs': "rs' = set_reserve_amount index v rs"
    and rs'': "rs'' = (if reserve_amount (rs' ! index) = 0
         then (if length rs' = 1 then None else Some (remove_at index rs')) else Some rs')"
  shows "sorted_ids (unwrap_or rs'' [])" and "length (unwrap_or rs'' []) \<le> unat m"
    and "reserve_map (unwrap_or rs'' []) = (reserve_map rs)(i := (if v = 0 then None else Some v))"
proof -
  note found = search_found [OF assms(1,2)]
  have empty: "remove_at index rs = []" if "length rs = 1"
    using found(8) that by simp
  have "unwrap_or rs'' [] = (if v = 0 then remove_at index rs else rs')"
    by (simp add: rs'' rs' found empty)
  then show "sorted_ids (unwrap_or rs'' [])" "length (unwrap_or rs'' []) \<le> unat m"
    "reserve_map (unwrap_or rs'' []) = (reserve_map rs)(i := (if v = 0 then None else Some v))"
    using found assms(3) by (simp_all add: rs')
qed

lemma put_reserves_same: "Reserves s (who, c) = rs \<Longrightarrow> put_reserves who c rs s = s"
  by (auto simp: put_reserves_def)

lemma unreserve_named_cases:
  assumes "unreserve_named cfg i c who value s = (rest, t)" and wf: "reserves_wf cfg s"
  obtains (same) "t = s" "rest = value" "reserved_balance_named s i c who = 0 \<or> value = 0"
  | (found) rs index where "Reserves s (who, c) = Some rs" "binary_search_by_key reserve_id rs i = Inr index" "value \<noteq> 0"
proof (cases "value = 0")
  case True
  with assms same show thesis by (simp add: unreserve_named_def)
next
  case nz: False
  show thesis
  proof (cases "Reserves s (who, c)")
    case None
    then have "reserved_balance_named s i c who = 0"
      by (simp add: reserved_balance_named_eq [OF wf] named_def reserves_def reserve_map_def)
    with None assms nz same show thesis by (simp add: unreserve_named_def put_reserves_same)
  next
    case (Some rs)
    then have "reserves s who c = rs" by (simp add: reserves_def)
    then have sorted: "sorted_ids rs" using wf by (auto simp: reserves_wf_def)
    show thesis
    proof (cases "binary_search_by_key reserve_id rs i")
      case (Inl index)
      then have "reserved_balance_named s i c who = 0"
        using search_Inl(1) [OF Inl sorted] Some by (simp add: reserved_balance_named_eq [OF wf] named_def reserves_def)
      with Inl assms nz same Some show thesis by (simp add: unreserve_named_def put_reserves_same)
    next
      case (Inr index)
      with nz Some found show thesis by blast
    qed
  qed
qed

lemma unreserve_named_effect:
  assumes un: "unreserve_named cfg i c who value s = (rest, t)" and hooks: "unit_hooks cfg" and wf: "reserves_wf cfg s"
    and to_change: "to_change = min (reserved_balance_named s i c who) value"
    and n: "n = min (unat (reserved (accounts s who c))) (unat to_change)"
  shows "reserves_wf cfg t \<and> Locks t = Locks s \<and>
    unat (reserved_balance_named t i c who) = unat (reserved_balance_named s i c who) - n \<and>
    ((a, k, j) \<noteq> (who, c, i) \<longrightarrow> named t a k j = named s a k j) \<and>
    unat rest = unat value - n \<and>
    ledger_of t = put_holding c who (min (unat (free (accounts s who c)) + n) (2 ^ 128 - 1))
        (unat (reserved (accounts s who c)) - n) (ledger_of s) \<and>
    (ExistentialDeposits cfg c = 0 \<longrightarrow> frozen_of t = frozen_of s)"
  using un wf
proof (cases rule: unreserve_named_cases)
  case same
  then have "n = 0" by (auto simp: n to_change)
  with same show ?thesis using wf unat_u128 [of "free (accounts s who c)"] by (simp add: min_absorb1)
next
  case (found rs index)
  then have rs: "reserves s who c = rs" by (simp add: reserves_def)
  then have sorted: "sorted_ids rs" "length rs \<le> unat (MaxReserves cfg)" using wf by (auto simp: reserves_wf_def)
  define amt where "amt = reserve_amount (rs ! index)"
  have amt: "reserved_balance_named s i c who = amt"
    using search_found(1) [OF found(2) sorted(1)] by (simp add: reserved_balance_named_eq [OF wf] named_def rs amt_def)
  obtain remain s1 where u: "unreserve cfg c who to_change s = (remain, s1)" by (cases "unreserve cfg c who to_change s")
  define actual where "actual = saturating_sub to_change remain"
  define rs' where "rs' = set_reserve_amount index (saturating_sub amt actual) rs"
  define rs'' where "rs'' = (if reserve_amount (rs' ! index) = 0
         then (if length rs' = 1 then None else Some (remove_at index rs')) else Some rs')"
  note eff = unreserve_effect [OF u hooks, folded n]
  have "n \<le> unat to_change" "unat to_change \<le> unat value" by (auto simp: n to_change unat_min)
  then have act: "unat actual = n" "unat actual \<le> unat value"
    using eff(2) by (simp_all add: actual_def unat_saturating_sub)
  note vec = shrink_named_vector [OF found(2) sorted rs'_def rs''_def]
  have t: "t = put_reserves who c rs'' s1" "rest = saturating_sub value actual"
    using un found u
    by (auto simp: unreserve_named_def Let_def actual_def rs''_def rs'_def amt_def
        simp flip: to_change amt [unfolded amt_def])
  note put = reserves_wf_put [OF wf eff(3) vec(1,2), of who c, folded t(1)]
  have "reserved_balance_named t i c who = saturating_sub amt actual"
    by (simp add: reserved_balance_named_eq [OF put(1)] put(2) vec(3))
  then show ?thesis
    using eff act put vec(3) by (auto simp: t amt rust_arith locks_and_reserves_def named_def rs)
qed

text \<open>
  A named operation is the anonymous one on the amount found under the name, followed by writes
  to the vectors only: \<open>same_but_reserves\<close> relates the states after them.
\<close>

definition same_but_reserves ::
  "('acc, 'cur, 'rid, 's) tokens_state \<Rightarrow> ('acc, 'cur, 'rid, 's) tokens_state \<Rightarrow> bool" where
  "same_but_reserves s t \<longleftrightarrow> ledger_of t = ledger_of s \<and> Locks t = Locks s \<and> frozen_of t = frozen_of s"

lemma same_but_reserves_simps [simp]:
  "same_but_reserves s s" "same_but_reserves s (put_reserves who c rs t) = same_but_reserves s t"
  "same_but_reserves s (deposit_event e t) = same_but_reserves s t"
  by (simp_all add: same_but_reserves_def)

lemma reserves_wf_deposit_event [simp]: "reserves_wf cfg (deposit_event e s) = reserves_wf cfg s"
  "named (deposit_event e s) = named s"
  by (rule reserves_frame; simp)+

lemma put_reserves_deposit_event: "put_reserves who c rs (deposit_event e s) = deposit_event e (put_reserves who c rs s)"
  by (simp add: put_reserves_def deposit_event_def)

lemma rewrite_reserves:
  "reserves_wf cfg (put_reserves who c (Some (reserves s who c)) s) = reserves_wf cfg s"
  "named (put_reserves who c (Some (reserves s who c)) s) = named s"
  by (auto simp: reserves_wf_def named_def fun_eq_iff reserves_put_reserves)

lemma slash_reserved_named_effect:
  assumes sl: "slash_reserved_named cfg i c who value s = (rest, t)" and hooks: "unit_hooks cfg" and wf: "reserves_wf cfg s"
  obtains to_change remain s1 where "slash_reserved cfg c who to_change s = (remain, s1)" "same_but_reserves s1 t"
    "reserves_wf cfg t" "to_change = min (reserved_balance_named s i c who) value"
    "unat rest = unat value - (unat to_change - unat remain)"
    "reserved_balance_named t i c who = saturating_sub (reserved_balance_named s i c who) (saturating_sub to_change remain)"
proof -
  define to_change where "to_change = min (reserved_balance_named s i c who) value"
  define rs where "rs = reserves s who c"
  obtain remain s1 where u: "slash_reserved cfg c who to_change s = (remain, s1)"
    by (cases "slash_reserved cfg c who to_change s")
  note eff = slash_reserved_effect [OF u hooks]
  have sorted: "sorted_ids rs" "length rs \<le> unat (MaxReserves cfg)"
    using wf by (auto simp: reserves_wf_def rs_def)
  show thesis
  proof (cases "value = 0 \<or> (\<exists>j. binary_search_by_key reserve_id rs i = Inl j)")
    case True
    then have z: "to_change = 0"
      using search_Inl(1) [OF _ sorted(1)]
      by (auto simp: to_change_def reserved_balance_named_eq [OF wf] named_def rs_def)
    then have s1: "s1 = s" "remain = 0" using u by (simp_all add: slash_reserved_def)
    have "(t = s \<or> t = put_reserves who c (Some (reserves s who c)) s) \<and> rest = value"
      using sl True by (cases "value = 0") (auto simp: slash_reserved_named_def Let_def rs_def)
    then have "reserves_wf cfg t \<and> named t = named s \<and> same_but_reserves s t \<and> rest = value"
      using wf by (auto simp: rewrite_reserves)
    with z u s1 show thesis
      by (intro that [of to_change remain s1]) (auto simp: to_change_def reserved_balance_named_eq [where cfg = cfg] wf)
  next
    case False
    then obtain index where found: "binary_search_by_key reserve_id rs i = Inr index" and nz: "value \<noteq> 0"
      by (metis sum.exhaust_sel)
    have amt: "reserved_balance_named s i c who = reserve_amount (rs ! index)"
      using search_found(1) [OF found sorted(1)] by (simp add: reserved_balance_named_eq [OF wf] named_def rs_def)
    define actual where "actual = saturating_sub to_change remain"
    define rs' where "rs' = set_reserve_amount index (saturating_sub (reserve_amount (rs ! index)) actual) rs"
    have t: "t = deposit_event (SlashedEv c who 0 actual) (put_reserves who c (Some rs') s1)" "rest = saturating_sub value actual"
      using sl nz found u
      by (auto simp: slash_reserved_named_def Let_def actual_def rs'_def put_reserves_deposit_event to_change_def amt simp flip: rs_def)
    note vec = search_found [OF found sorted(1), folded rs'_def]
    have wft: "reserves_wf cfg t" "named t who c = reserve_map rs'"
      using reserves_wf_put [OF wf eff(3), of "Some rs'" who c] vec sorted
      by (simp_all add: t rs'_def)
    have "reserved_balance_named t i c who = saturating_sub (reserved_balance_named s i c who) actual"
      by (simp add: reserved_balance_named_eq [OF wft(1)] wft(2) rs'_def search_found [OF found sorted(1)] amt)
    then show thesis
      using u wft(1) by (intro that [of to_change remain s1]) (simp_all add: t(2) to_change_def actual_def rust_arith, simp_all add: t)
  qed
qed

lemma repatriate_reserved_frames:
  assumes "repatriate_reserved cfg c slashed beneficiary value status s = (Inr rest, t)" and "unit_hooks cfg"
  shows "locks_and_reserves t = locks_and_reserves s"
    and "ExistentialDeposits cfg c = 0 \<Longrightarrow> frozen_of t = frozen_of s"
proof -
  have "locks_and_reserves t = locks_and_reserves s \<and> (ExistentialDeposits cfg c = 0 \<longrightarrow> frozen_of t = frozen_of s)"
  proof (cases "slashed = beneficiary \<and> value \<noteq> 0")
    case True
    with assms(1) show ?thesis
      by (cases status)
        (auto simp: repatriate_reserved_def split: prod.splits dest: unreserve_effect(3,4) [OF _ assms(2)])
  next
    case False
    with assms show ?thesis
      using repatriate_reserved_effect(3,4) [OF assms] by (cases "value = 0") (auto simp: repatriate_reserved_def)
  qed
  then show "locks_and_reserves t = locks_and_reserves s"
    and "ExistentialDeposits cfg c = 0 \<Longrightarrow> frozen_of t = frozen_of s" by simp_all
qed

lemma credit_named_reserve_effect:
  assumes "credit_named_reserve cfg i c slashed beneficiary to_change status s = (Inr actual, t)"
    and wf: "reserves_wf cfg s" and hooks: "unit_hooks cfg"
  obtains remain s1 where "repatriate_reserved cfg c slashed beneficiary to_change status s = (Inr remain, s1)"
    "actual = saturating_sub to_change remain" "same_but_reserves s1 t" "reserves_wf cfg t"
    "named t beneficiary c = (named s beneficiary c)(i \<mapsto> saturating_add (reserved_balance_named s i c beneficiary) actual)"
    "reserves t slashed c = (if slashed = beneficiary then reserves t beneficiary c else reserves s slashed c)"
proof -
  define rs where "rs = reserves s beneficiary c"
  have sorted: "sorted_ids rs" "length rs \<le> unat (MaxReserves cfg)"
    using wf by (auto simp: reserves_wf_def rs_def)
  from assms(1) obtain remain s1 rs' where
    rep: "repatriate_reserved cfg c slashed beneficiary to_change status s = (Inr remain, s1)"
    and act: "actual = saturating_sub to_change remain" and t: "t = put_reserves beneficiary c (Some rs') s1"
    and rs': "(case binary_search_by_key reserve_id rs i of
           Inr index \<Rightarrow> Some (set_reserve_amount index (saturating_add (reserve_amount (rs ! index)) actual) rs)
         | Inl index \<Rightarrow> try_insert (MaxReserves cfg) index \<lparr>reserve_id = i, reserve_amount = actual\<rparr> rs) = Some rs'"
    by (auto simp: credit_named_reserve_def Let_def op_simps split: sum.splits simp flip: rs_def)
  note vec = reserve_named_vector [OF sorted rs'] and frame = repatriate_reserved_frames(1) [OF rep hooks]
  have "reserves_wf cfg t"
    "named t beneficiary c = (named s beneficiary c)(i \<mapsto> saturating_add (reserved_balance_named s i c beneficiary) actual)"
    using reserves_wf_put [OF wf frame, of "Some rs'" beneficiary c] vec
    by (simp_all add: t reserved_balance_named_eq [OF wf] named_def rs_def)
  then show thesis
    using rep act reserves_frame(1) [OF frame]
    by (intro that [of remain s1]) (simp_all add: t reserves_put_reserves)
qed

lemma unreserve_named_same:
  assumes un: "unreserve_named cfg i c who value s = (rest, t)" and wf: "reserves_wf cfg s"
    and u: "unreserve cfg c who (min (reserved_balance_named s i c who) value) s = (r, s1)"
  shows "same_but_reserves s1 t"
  using un wf
proof (cases rule: unreserve_named_cases)
  case same
  then have "min (reserved_balance_named s i c who) value = 0" by auto
  with u same show ?thesis by (simp add: unreserve_def)
next
  case (found rs index)
  then have rs: "reserves s who c = rs" by (simp add: reserves_def)
  then have "sorted_ids rs" using wf by (auto simp: reserves_wf_def)
  then have "reserved_balance_named s i c who = reserve_amount (rs ! index)"
    using search_found(1) [OF found(2)] by (simp add: reserved_balance_named_eq [OF wf] named_def rs)
  then show ?thesis using un u found by (auto simp: unreserve_named_def Let_def)
qed

lemma repatriate_reserved_named_effect:
  assumes rep: "repatriate_reserved_named cfg i c slashed beneficiary value status s = (Inr rest, t)"
    and wf: "reserves_wf cfg s" and hooks: "unit_hooks cfg"
  obtains to_change remain s1 where "repatriate_reserved cfg c slashed beneficiary to_change status s = (Inr remain, s1)"
    "same_but_reserves s1 t" "reserves_wf cfg t"
proof -
  define rs where "rs = reserves s slashed c"
  have sorted: "sorted_ids rs" "length rs \<le> unat (MaxReserves cfg)"
    using wf by (auto simp: reserves_wf_def rs_def)
  consider "value = 0 \<or> slashed = beneficiary \<and> status = Reserved \<or>
      slashed \<noteq> beneficiary \<and> (\<exists>j. binary_search_by_key reserve_id rs i = Inl j)"
  | "value \<noteq> 0" "slashed = beneficiary" "status = Free"
  | index where "value \<noteq> 0" "slashed \<noteq> beneficiary" "binary_search_by_key reserve_id rs i = Inr index"
    by (metis balance_status.exhaust sum.exhaust_sel)
  then show thesis
  proof cases
    case 1
    then have "t = s \<or> t = put_reserves slashed c (Some (reserves s slashed c)) s"
      using rep by (cases "value = 0") (auto simp: repatriate_reserved_named_def Let_def rs_def)
    then show thesis using wf
      by (intro that [of 0 0 s]) (auto simp: repatriate_reserved_def rewrite_reserves)
  next
    case 2
    then have u: "unreserve_named cfg i c slashed value s = (rest, t)"
      using rep by (auto simp: repatriate_reserved_named_def split: prod.splits)
    let ?n = "min (reserved_balance_named s i c slashed) value"
    obtain r s1 where s1: "unreserve cfg c slashed ?n s = (r, s1)" by (cases "unreserve cfg c slashed ?n s")
    note n = unreserve_named_effect [OF u hooks wf refl refl] and a = unreserve_effect [OF s1 hooks]
    have "repatriate_reserved cfg c slashed beneficiary ?n status s = (Inr r, s1)"
      using s1 2 by (auto simp: repatriate_reserved_def unreserve_def)
    moreover have "same_but_reserves s1 t" using u wf s1 by (rule unreserve_named_same)
    ultimately show thesis using n by (intro that [of ?n r s1]) simp_all
  next
    case (3 index)
    define to_change where "to_change = min (reserve_amount (rs ! index)) value"
    from rep 3 obtain actual s2 v where
      mid: "(if status = Reserved then credit_named_reserve cfg i c slashed beneficiary to_change status
                else bind_op (repatriate_reserved cfg c slashed beneficiary to_change status)
                       (\<lambda>remain. ok (saturating_sub to_change remain))) s = (Inr actual, s2)"
      and t: "t = put_reserves slashed c (Some (set_reserve_amount index v rs)) s2"
      by (auto simp: repatriate_reserved_named_def Let_def op_simps to_change_def simp flip: rs_def split: if_splits)
    have "\<exists>remain s1. repatriate_reserved cfg c slashed beneficiary to_change status s = (Inr remain, s1) \<and>
        same_but_reserves s1 s2 \<and> reserves_wf cfg s2"
    proof (cases "status = Reserved")
      case True
      with mid wf hooks show ?thesis by (auto elim!: credit_named_reserve_effect)
    next
      case False
      with mid show ?thesis
        using reserves_frame(3) [OF repatriate_reserved_frames(1) [OF _ hooks]] wf by (fastforce simp: op_simps)
    qed
    then obtain remain s1 where s1: "repatriate_reserved cfg c slashed beneficiary to_change status s = (Inr remain, s1)"
      "same_but_reserves s1 s2" "reserves_wf cfg s2" by blast
    moreover have "reserves_wf cfg t"
      using reserves_wf_put(1) [OF s1(3) refl] search_found [OF 3(3) sorted(1)] sorted(2) by (simp add: t)
    ultimately show thesis by (intro that [of to_change remain s1]) (simp_all add: t)
  qed
qed

end
