(* ===== verification/Tokens_Invariants.thy ===== *)
theory Tokens_Invariants
  imports Tokens_Named
begin

text \<open>
  The invariant of the tokens pallet and its preservation. \<open>tokens_inv\<close> says that every currency
  is balanced (what is issued is what the accounts hold), that the locks of every account are
  consistent with its frozen amount, and that the named reserves are sorted and within capacity.
  Every operation of the pallet keeps it, and so does the genesis build.
\<close>

text \<open>
  The runtime's configuration: the mutation hooks are the unit type, and the existential deposit of
  every token is zero (\<^verbatim>\<open>ExistentialDeposits\<close> in \<^verbatim>\<open>runtime/src/lib.rs\<close>).
\<close>

definition runtime_config :: "('acc, 'cur, 'rid, 's) tokens_config \<Rightarrow> bool" where
  "runtime_config cfg \<longleftrightarrow> unit_hooks cfg \<and> (\<forall>c. ExistentialDeposits cfg c = 0)"

text \<open>The runtime's instance; the reference counters of the system pallet are its arguments.\<close>

definition runtime_tokens ::
  "('acc \<Rightarrow> 's \<Rightarrow> bool) \<Rightarrow> ('acc \<Rightarrow> 's \<Rightarrow> 's) \<Rightarrow> ('acc \<Rightarrow> 's \<Rightarrow> 's) \<Rightarrow>
     ('acc \<Rightarrow> ('s, dispatch_error, unit) storage_op) \<Rightarrow> ('acc \<Rightarrow> 's \<Rightarrow> 's) \<Rightarrow>
     ('acc, currency_id, reserve_identifier, 's) tokens_config" where
  "runtime_tokens can_dec inc_p dec_p inc_c dec_c =
     \<lparr>ExistentialDeposits = (\<lambda>_. 0), DustRemovalWhitelist = (\<lambda>_. False),
      MaxLocks = 50, MaxReserves = reserve_identifier_as_u32 RI_Count,
      OnDust = (\<lambda>_ _ _ s. s), OnSlash = (\<lambda>_ _ _ s. s),
      PreDeposit = (\<lambda>_ _ _. ok ()), PostDeposit = (\<lambda>_ _ _. ok ()),
      PreTransfer = (\<lambda>_ _ _ _. ok ()), PostTransfer = (\<lambda>_ _ _ _. ok ()),
      OnNewTokenAccount = (\<lambda>_ _ s. s), OnKilledTokenAccount = (\<lambda>_ _ s. s),
      can_dec_provider = can_dec, inc_providers = inc_p, dec_providers = dec_p,
      inc_consumers = inc_c, dec_consumers = dec_c\<rparr>"

lemma runtime_tokens_config: "runtime_config (runtime_tokens can_dec inc_p dec_p inc_c dec_c)"
  by (simp add: runtime_config_def unit_hooks_def runtime_tokens_def)

definition all_balanced :: "('acc, 'cur) ledger \<Rightarrow> bool" where
  "all_balanced l \<longleftrightarrow> (\<forall>c. balanced l c)"

definition tokens_inv ::
  "('acc, 'cur, 'rid::linorder, 's) tokens_config \<Rightarrow> ('acc, 'cur, 'rid, 's) tokens_state \<Rightarrow> bool" where
  "tokens_inv cfg s \<longleftrightarrow> all_balanced (ledger_of s) \<and> locks_wf cfg s \<and> reserves_wf cfg s"

section \<open>Balanced ledgers\<close>

lemma all_balancedD:
  assumes "all_balanced (ledger_of s)"
  shows "unat (free (accounts s a c)) + unat (reserved (accounts s a c)) \<le> unat (total_issuance s c)"
    and "a \<noteq> b \<Longrightarrow> unat (free (accounts s a c)) + unat (reserved (accounts s a c)) +
      (unat (free (accounts s b c)) + unat (reserved (accounts s b c))) \<le> unat (total_issuance s c)"
    and "finitely_held (ledger_of s) c"
  using balanced_holding_le [of "ledger_of s" c a] balanced_holding2_le [of "ledger_of s" c a b] assms
  by (auto simp: all_balanced_def holding_def balanced_def)

lemma all_balanced_if_imbalance:
  assumes "all_balanced l" and "\<And>c. finitely_held l' c \<longleftrightarrow> finitely_held l c" and "\<And>c. imbalance l' c = imbalance l c"
  shows "all_balanced l'"
  using assms by (simp add: all_balanced_def balanced_def)

lemma total_exact:
  assumes "all_balanced (ledger_of s)"
  shows "unat (total (accounts s a c)) = unat (free (accounts s a c)) + unat (reserved (accounts s a c))"
  using all_balancedD(1) [OF assms, of a c] unat_u128 [of "total_issuance s c"]
  by (simp add: total_def unat_saturating_add)

text \<open>A part of an account moved to the other part, or from one account to another.\<close>

lemma all_balanced_put_holding:
  assumes "all_balanced l" and "f + r = holding l c a"
  shows "all_balanced (put_holding c a f r l)"
proof (rule all_balanced_if_imbalance [OF assms(1)])
  show "imbalance (put_holding c a f r l) c' = imbalance l c'" for c'
    using assms by (subst imbalance_put_holding) (auto simp: all_balanced_def balanced_def)
qed simp

lemma all_balanced_issue:
  assumes "all_balanced l" and "f + r + m = holding l c a + n" and "m \<le> issued l c + n"
  shows "all_balanced (put_holding c a f r (put_issued c (issued l c + n - m) l))"
proof (rule all_balanced_if_imbalance [OF assms(1)])
  have "finitely_held l c" using assms(1) by (simp add: all_balanced_def balanced_def)
  then show "imbalance (put_holding c a f r (put_issued c (issued l c + n - m) l)) c' = imbalance l c'" for c'
    using assms(2,3) by (subst imbalance_put_holding) (auto simp: imbalance_put_issued)
qed simp

section \<open>Every operation keeps the invariant\<close>

lemma tokens_inv_frame:
  assumes "tokens_inv cfg s" and "all_balanced (ledger_of t)" and "locks_and_reserves t = locks_and_reserves s"
    and "frozen_of t = frozen_of s"
  shows "tokens_inv cfg t"
  using assms locks_wf_frame [of cfg s t] reserves_frame(3) [of t s cfg] by (simp add: tokens_inv_def)

lemma runtime_configD: "runtime_config cfg \<Longrightarrow> unit_hooks cfg" "runtime_config cfg \<Longrightarrow> ExistentialDeposits cfg c = 0"
  by (simp_all add: runtime_config_def)

lemma tokens_invD: "tokens_inv cfg s \<Longrightarrow> all_balanced (ledger_of s)" "tokens_inv cfg s \<Longrightarrow> locks_wf cfg s"
    "tokens_inv cfg s \<Longrightarrow> reserves_wf cfg s"
  by (simp_all add: tokens_inv_def)

lemma all_balanced_holding [simp]: "holding (ledger_of s) c a = unat (free (accounts s a c)) + unat (reserved (accounts s a c))"
  by (simp add: holding_def)

lemma do_transfer_inv:
  assumes op: "do_transfer cfg c from to amount er s = (Inr u, t)" and cfg: "runtime_config cfg" and inv: "tokens_inv cfg s"
  shows "tokens_inv cfg t"
proof (cases "amount = 0 \<or> from = to")
  case True
  with op inv show ?thesis by (auto simp: do_transfer_def ok_def)
next
  case False
  then have ne: "amount \<noteq> 0" "from \<noteq> to" by auto
  note eff = do_transfer_effect [OF op runtime_configD(1) [OF cfg] ne]
  have "all_balanced (ledger_of t)"
  proof (rule all_balanced_if_imbalance [OF tokens_invD(1) [OF inv]])
    show "imbalance (ledger_of t) c' = imbalance (ledger_of s) c'" for c'
      using eff(2) ne all_balancedD(3) [OF tokens_invD(1) [OF inv]]
      unfolding eff(1) by (intro ledger_transfer_imbalance) auto
  qed (simp add: eff(1))
  then show ?thesis
    using tokens_inv_frame [OF inv] eff(4) eff(5) [OF runtime_configD(2) [OF cfg]] by blast
qed

lemma do_deposit_inv:
  assumes op: "do_deposit cfg c who amount ex True s = (Inr v, t)" and cfg: "runtime_config cfg" and inv: "tokens_inv cfg s"
  shows "tokens_inv cfg t"
proof (cases "amount = 0")
  case True
  with op inv show ?thesis by (auto simp: do_deposit_def ok_def)
next
  case False
  note eff = do_deposit_effect [OF op runtime_configD(1) [OF cfg] False]
  have "unat (free (accounts s who c)) + unat amount < 2 ^ 128"
    using eff(3) all_balancedD(1) [OF tokens_invD(1) [OF inv], of who c] by linarith
  then have "ledger_of t = put_holding c who (unat (free (accounts s who c)) + unat amount) (unat (reserved (accounts s who c)))
      (put_issued c (issued (ledger_of s) c + unat amount - 0) (ledger_of s))"
    by (simp add: eff(2) ledger_issue_def)
  then have "all_balanced (ledger_of t)"
    using all_balanced_issue [OF tokens_invD(1) [OF inv], where c = c and a = who and n = "unat amount" and m = 0] by simp
  then show ?thesis
    using tokens_inv_frame [OF inv] eff(4) eff(5) [OF runtime_configD(2) [OF cfg]] by blast
qed

lemma do_withdraw_inv:
  assumes op: "do_withdraw cfg c who amount er True s = (Inr u, t)" and cfg: "runtime_config cfg" and inv: "tokens_inv cfg s"
  shows "tokens_inv cfg t"
proof (cases "amount = 0")
  case True
  with op inv show ?thesis by (auto simp: do_withdraw_def ok_def)
next
  case False
  note eff = do_withdraw_effect [OF op runtime_configD(1) [OF cfg] False]
  have "ledger_of t = put_holding c who (unat (free (accounts s who c)) - unat amount) (unat (reserved (accounts s who c)))
      (put_issued c (issued (ledger_of s) c + 0 - unat amount) (ledger_of s))"
    by (simp add: eff(1) ledger_debit_def ledger_burn_def)
  then have "all_balanced (ledger_of t)"
    using all_balanced_issue [OF tokens_invD(1) [OF inv], where c = c and a = who and n = 0 and m = "unat amount"] eff(2)
      all_balancedD(1) [OF tokens_invD(1) [OF inv], of who c] by simp
  then show ?thesis
    using tokens_inv_frame [OF inv] eff(3) eff(4) [OF runtime_configD(2) [OF cfg]] by blast
qed

lemma slash_inv:
  assumes op: "slash cfg c who amount s = (r, t)" and cfg: "runtime_config cfg" and inv: "tokens_inv cfg s"
  shows "tokens_inv cfg t"
proof -
  note eff = slash_effect [OF op runtime_configD(1) [OF cfg]]
  note bal = all_balancedD [OF tokens_invD(1) [OF inv]]
  have "all_balanced (ledger_of t)"
    using bal(1) [of who c] bal(3)
    by (intro all_balanced_if_imbalance [OF tokens_invD(1) [OF inv]])
      (simp_all add: eff(1) ledger_slash_imbalance)
  then show ?thesis
    using tokens_inv_frame [OF inv] eff(3) eff(4) [OF runtime_configD(2) [OF cfg]] by blast
qed

lemma set_balance_account_inv:
  assumes op: "set_balance_account cfg c who new_free new_reserved s = (Inr u, t)" and cfg: "runtime_config cfg"
    and inv: "tokens_inv cfg s"
  shows "tokens_inv cfg t"
proof -
  let ?h = "unat (free (accounts s who c)) + unat (reserved (accounts s who c))"
  define N where "N = unat (total_issuance s c) - ?h"
  note le = all_balancedD(1) [OF tokens_invD(1) [OF inv], of who c]
  have N: "unat (total_issuance s c) = N + unat (free (accounts s who c)) + unat (reserved (accounts s who c))"
    using le by (simp add: N_def)
  note eff = set_balance_account_effect [OF op runtime_configD(1) [OF cfg] N]
  have "all_balanced (ledger_of t)"
    using all_balanced_issue [OF tokens_invD(1) [OF inv], where c = c and a = who and n = "unat new_free + unat new_reserved"
        and m = "?h" and f = "unat new_free" and r = "unat new_reserved"] le
    by (simp add: eff(1) runtime_configD(2) [OF cfg] N)
  then show ?thesis
    using tokens_inv_frame [OF inv] eff(2) eff(3) [OF runtime_configD(2) [OF cfg]] by blast
qed

lemma reserve_inv:
  assumes op: "reserve cfg c who value s = (Inr u, t)" and cfg: "runtime_config cfg" and inv: "tokens_inv cfg s"
  shows "tokens_inv cfg t"
proof (cases "value = 0")
  case True
  with op inv show ?thesis by (auto simp: reserve_def ok_def)
next
  case False
  note eff = reserve_effect [OF op runtime_configD(1) [OF cfg] False]
  have "all_balanced (ledger_of t)"
    using eff(2) all_balancedD(1) [OF tokens_invD(1) [OF inv], of who c] unat_u128 [of "total_issuance s c"]
    by (subst eff(1), intro all_balanced_put_holding [OF tokens_invD(1) [OF inv]]) simp
  then show ?thesis
    using tokens_inv_frame [OF inv] eff(3) eff(4) [OF runtime_configD(2) [OF cfg]] by blast
qed

lemma unreserve_inv:
  assumes op: "unreserve cfg c who value s = (r, t)" and cfg: "runtime_config cfg" and inv: "tokens_inv cfg s"
  shows "tokens_inv cfg t"
proof -
  note eff = unreserve_effect [OF op runtime_configD(1) [OF cfg]]
  have "all_balanced (ledger_of t)"
    using all_balancedD(1) [OF tokens_invD(1) [OF inv], of who c] unat_u128 [of "total_issuance s c"]
    by (subst eff(1), intro all_balanced_put_holding [OF tokens_invD(1) [OF inv]]) simp
  then show ?thesis
    using tokens_inv_frame [OF inv] eff(3) eff(4) [OF runtime_configD(2) [OF cfg]] by blast
qed

lemma slash_reserved_inv:
  assumes op: "slash_reserved cfg c who value s = (r, t)" and cfg: "runtime_config cfg" and inv: "tokens_inv cfg s"
  shows "tokens_inv cfg t"
proof -
  note eff = slash_reserved_effect [OF op runtime_configD(1) [OF cfg]]
  let ?n = "min (unat (reserved (accounts s who c))) (unat value)"
  have "all_balanced (ledger_of t)"
    using all_balanced_issue [OF tokens_invD(1) [OF inv], where c = c and a = who and n = 0 and m = ?n
        and f = "unat (free (accounts s who c))" and r = "unat (reserved (accounts s who c)) - ?n"]
      all_balancedD(1) [OF tokens_invD(1) [OF inv], of who c]
    by (simp add: eff(1) ledger_burn_def ledger_slash_reserved_def)
  then show ?thesis
    using tokens_inv_frame [OF inv] eff(3) eff(4) [OF runtime_configD(2) [OF cfg]] by blast
qed

lemma repatriate_reserved_inv:
  assumes op: "repatriate_reserved cfg c slashed beneficiary value status s = (Inr v, t)" and cfg: "runtime_config cfg"
    and inv: "tokens_inv cfg s"
  shows "tokens_inv cfg t"
proof (cases "slashed = beneficiary")
  case True
  with op inv cfg show ?thesis
    by (cases status) (auto simp: repatriate_reserved_def split: if_splits prod.splits intro: unreserve_inv)
next
  case False
  let ?n = "min (unat (reserved (accounts s slashed c))) (unat value)"
  note eff = repatriate_reserved_effect [OF op runtime_configD(1) [OF cfg] False]
  note bal = all_balancedD [OF tokens_invD(1) [OF inv]]
  have led: "ledger_of t = ledger_repatriate c slashed beneficiary ?n (status = Free) (ledger_of s)"
    using bal(2) [OF False, of c] unat_u128 [of "total_issuance s c"] by (intro eff(1)) linarith+
  have "all_balanced (ledger_of t)"
    using False bal(3)
    by (intro all_balanced_if_imbalance [OF tokens_invD(1) [OF inv]])
      (simp_all add: led ledger_repatriate_imbalance)
  then show ?thesis
    using tokens_inv_frame [OF inv] eff(3) eff(4) [OF runtime_configD(2) [OF cfg]] by blast
qed

lemma tokens_inv_same_but_reserves:
  assumes "tokens_inv cfg s1" and "same_but_reserves s1 t" and "reserves_wf cfg t"
  shows "tokens_inv cfg t"
  using assms by (simp add: tokens_inv_def same_but_reserves_def locks_wf_def locks_def)

lemma reserve_named_inv:
  assumes op: "reserve_named cfg i c who value s = (Inr u, t)" and cfg: "runtime_config cfg" and inv: "tokens_inv cfg s"
  shows "tokens_inv cfg t"
proof (cases "value = 0")
  case True
  with op inv show ?thesis by (simp add: reserve_named_def)
next
  case False
  note eff = reserve_named_effect [OF op runtime_configD(1) [OF cfg] tokens_invD(3) [OF inv] False]
  from eff(4) obtain s1 where "reserve cfg c who value s = (Inr (), s1)" "same_but_reserves s1 t"
    by (auto simp: same_but_reserves_def)
  with reserve_inv [OF _ cfg inv] eff(1) show ?thesis by (blast intro: tokens_inv_same_but_reserves)
qed

lemma unreserve_named_inv:
  assumes op: "unreserve_named cfg i c who value s = (r, t)" and cfg: "runtime_config cfg" and inv: "tokens_inv cfg s"
  shows "tokens_inv cfg t"
proof -
  obtain r' s1 where u: "unreserve cfg c who (min (reserved_balance_named s i c who) value) s = (r', s1)"
    by (cases "unreserve cfg c who (min (reserved_balance_named s i c who) value) s")
  show ?thesis
    using unreserve_named_effect [OF op runtime_configD(1) [OF cfg] tokens_invD(3) [OF inv] refl refl]
      tokens_inv_same_but_reserves [OF unreserve_inv [OF u cfg inv] unreserve_named_same [OF op tokens_invD(3) [OF inv] u]]
    by blast
qed

lemma slash_reserved_named_inv:
  assumes op: "slash_reserved_named cfg i c who value s = (r, t)" and cfg: "runtime_config cfg" and inv: "tokens_inv cfg s"
  shows "tokens_inv cfg t"
  using op runtime_configD(1) [OF cfg] tokens_invD(3) [OF inv]
  by (rule slash_reserved_named_effect)
    (blast intro: tokens_inv_same_but_reserves slash_reserved_inv [OF _ cfg inv])

lemma repatriate_reserved_named_inv:
  assumes op: "repatriate_reserved_named cfg i c slashed beneficiary value status s = (Inr v, t)"
    and cfg: "runtime_config cfg" and inv: "tokens_inv cfg s"
  shows "tokens_inv cfg t"
  using op tokens_invD(3) [OF inv] runtime_configD(1) [OF cfg]
  by (rule repatriate_reserved_named_effect)
    (blast intro: tokens_inv_same_but_reserves repatriate_reserved_inv [OF _ cfg inv])

lemma tokens_inv_locks:
  assumes "tokens_inv cfg s" and "locks_wf cfg t" and "ledger_of t = ledger_of s" and "Reserves t = Reserves s"
  shows "tokens_inv cfg t"
  using assms reserves_cong [of t s] by (simp add: tokens_inv_def reserves_wf_def)

lemma set_lock_inv:
  assumes op: "set_lock cfg i c who amount s = (Inr u, t)" and cfg: "runtime_config cfg" and inv: "tokens_inv cfg s"
  shows "tokens_inv cfg t"
  using set_lock_effect [OF op runtime_configD [OF cfg] tokens_invD(2) [OF inv]] tokens_inv_locks [OF inv] op inv
  by (cases "amount = 0") (auto simp: set_lock_def ok_def)

lemma extend_lock_inv:
  assumes op: "extend_lock cfg i c who amount s = (Inr u, t)" and cfg: "runtime_config cfg" and inv: "tokens_inv cfg s"
  shows "tokens_inv cfg t"
  using extend_lock_effect [OF op runtime_configD [OF cfg] tokens_invD(2) [OF inv]] tokens_inv_locks [OF inv] op inv
  by (cases "amount = 0") (auto simp: extend_lock_def ok_def)

lemma remove_lock_inv:
  assumes op: "remove_lock cfg i c who s = (Inr u, t)" and cfg: "runtime_config cfg" and inv: "tokens_inv cfg s"
  shows "tokens_inv cfg t"
  using remove_lock_effect [OF op runtime_configD [OF cfg] tokens_invD(2) [OF inv]] tokens_inv_locks [OF inv] by blast

lemmas tokens_ops_inv =
  do_transfer_inv do_deposit_inv do_withdraw_inv slash_inv set_balance_account_inv reserve_inv unreserve_inv
  slash_reserved_inv repatriate_reserved_inv reserve_named_inv unreserve_named_inv slash_reserved_named_inv
  repatriate_reserved_named_inv set_lock_inv extend_lock_inv remove_lock_inv

section \<open>Genesis\<close>

definition empty_tokens_state :: "'s \<Rightarrow> ('acc, 'cur, 'rid, 's) tokens_state" where
  "empty_tokens_state sys =
     \<lparr>TotalIssuance = Map.empty, Accounts = Map.empty, Locks = Map.empty, Reserves = Map.empty,
      tk_events = [], tk_system = sys\<rparr>"

lemma empty_tokens_state_simps [simp]:
  "accounts (empty_tokens_state sys) a c = default_account_data"
  "total_issuance (empty_tokens_state sys) c = 0" "locks (empty_tokens_state sys) a c = []"
  "reserves (empty_tokens_state sys) a c = []"
  by (simp_all add: empty_tokens_state_def accounts_def total_issuance_def locks_def reserves_def)

lemma empty_tokens_inv: "tokens_inv cfg (empty_tokens_state sys)"
  by (simp add: tokens_inv_def all_balanced_def balanced_def finitely_held_def imbalance_def holding_def
      supp_sum_def ledger_of_def locks_wf_def reserves_wf_def frozen_of_def max_lock_def sorted_ids_def)

text \<open>One genesis endowment of an account that holds nothing yet is a deposit.\<close>

lemma genesis_fold_inv:
  assumes "genesis_fold cfg bs s = Some t" and cfg: "runtime_config cfg" and "tokens_inv cfg s"
    and "distinct (map (\<lambda>(who, c, _). (who, c)) bs)"
    and "\<And>who c b. (who, c, b) \<in> set bs \<Longrightarrow> accounts s who c = default_account_data"
  shows "tokens_inv cfg t"
  using assms(1,3-)
proof (induction bs arbitrary: s)
  case (Cons e bs)
  obtain who c b where e: "e = (who, c, b)" by (cases e)
  let ?f = "\<lambda>account (_::bool) s. (((), account\<lparr>free := b\<rparr>), s)"
  define s1 where "s1 = snd (mutate_account cfg who c ?f s)"
  note m = mutate_account_effect [OF runtime_configD(1) [OF cfg], where who = who and c = c and s = s and f = ?f,
      OF refl refl refl refl, folded s1_def]
  from Cons.prems(1) obtain n where n: "unat n = unat (total_issuance s1 c) + unat b"
    and rest: "genesis_fold cfg bs (mutate_total_issuance c (\<lambda>_. n) s1) = Some t"
    by (auto simp: e s1_def Let_def rust_arith split: if_splits option.splits)
  have acc0: "accounts s who c = default_account_data" using Cons.prems(4) by (auto simp: e)
  have ti: "total_issuance s1 c = total_issuance s c"
    using arg_cong [where f = "\<lambda>l. issued l c", OF m(2)] by (simp add: word_eq_unat)
  let ?s2 = "mutate_total_issuance c (\<lambda>_. n) s1"
  have "all_balanced (ledger_of ?s2)"
    using all_balanced_issue [OF tokens_invD(1) [OF Cons.prems(2)], where c = c and a = who and n = "unat b" and m = 0
        and f = "unat b" and r = 0]
    by (simp add: m(2) n ti acc0)
  then have inv: "tokens_inv cfg ?s2"
    using tokens_inv_frame [OF Cons.prems(2)] m(3) m(4) [OF runtime_configD(2) [OF cfg]] by simp
  have "accounts ?s2 a k = default_account_data" if "(a, k, v) \<in> set bs" for a k v
  proof -
    have "(a, k) \<noteq> (who, c)" using that Cons.prems(3) by (force simp: e)
    then have "accounts s1 a k = accounts s a k"
      by (auto simp: s1_def mutate_account_def Let_def case_prod_beta accounts_def
          settle_account_fields [OF runtime_configD(1) [OF cfg]])
    then show ?thesis using Cons.prems(4) that by auto
  qed
  with Cons.IH [OF rest inv] Cons.prems(3) show ?case by auto
qed simp

lemma genesis_build_inv:
  assumes "genesis_build cfg bs (empty_tokens_state sys) = Some t" and "runtime_config cfg"
  shows "tokens_inv cfg t"
  using assms by (auto simp: genesis_build_def split: if_splits intro: genesis_fold_inv [OF _ _ empty_tokens_inv])

end
