(* ===== verification/Tokens_Adapter.thy ===== *)
theory Tokens_Adapter
  imports Tokens_Invariants
begin

text \<open>
  The \<open>CurrencyAdapter\<close> of the tokens pallet (\<^verbatim>\<open>orml/tokens/src/lib.rs\<close>), which presents one of its
  currencies as a single currency, and its imbalances (\<^verbatim>\<open>orml/tokens/src/imbalances.rs\<close>).

  An operation of the adapter that creates or destroys money returns an imbalance and leaves the
  issuance alone; dropping the imbalance settles the issuance. The model returns the imbalance and
  has the drop handlers as operations of their own.
\<close>

section \<open>Imbalances\<close>

datatype positive_imbalance = PositiveImbalance balance

datatype negative_imbalance = NegativeImbalance balance

datatype ('a, 'b) same_or_other = SameNone | Same 'a | OtherImbalance 'b

datatype signed_imbalance = SignedPositive positive_imbalance | SignedNegative negative_imbalance

fun positive_peek :: "positive_imbalance \<Rightarrow> balance" where
  "positive_peek (PositiveImbalance a) = a"

fun negative_peek :: "negative_imbalance \<Rightarrow> balance" where
  "negative_peek (NegativeImbalance a) = a"

fun positive_split :: "positive_imbalance \<Rightarrow> balance \<Rightarrow> positive_imbalance \<times> positive_imbalance" where
  "positive_split (PositiveImbalance a) amount =
     (let first = min a amount; second = saturating_sub a first
      in (PositiveImbalance first, PositiveImbalance second))"

fun negative_split :: "negative_imbalance \<Rightarrow> balance \<Rightarrow> negative_imbalance \<times> negative_imbalance" where
  "negative_split (NegativeImbalance a) amount =
     (let first = min a amount; second = saturating_sub a first
      in (NegativeImbalance first, NegativeImbalance second))"

fun positive_merge :: "positive_imbalance \<Rightarrow> positive_imbalance \<Rightarrow> positive_imbalance" where
  "positive_merge (PositiveImbalance a) (PositiveImbalance b) = PositiveImbalance (saturating_add a b)"

fun negative_merge :: "negative_imbalance \<Rightarrow> negative_imbalance \<Rightarrow> negative_imbalance" where
  "negative_merge (NegativeImbalance a) (NegativeImbalance b) = NegativeImbalance (saturating_add a b)"

fun positive_offset ::
  "positive_imbalance \<Rightarrow> negative_imbalance \<Rightarrow> (positive_imbalance, negative_imbalance) same_or_other" where
  "positive_offset (PositiveImbalance a) (NegativeImbalance b) =
     (if b < a then Same (PositiveImbalance (saturating_sub a b))
      else if a < b then OtherImbalance (NegativeImbalance (saturating_sub b a))
      else SameNone)"

fun negative_offset ::
  "negative_imbalance \<Rightarrow> positive_imbalance \<Rightarrow> (negative_imbalance, positive_imbalance) same_or_other" where
  "negative_offset (NegativeImbalance a) (PositiveImbalance b) =
     (if b < a then Same (NegativeImbalance (saturating_sub a b))
      else if a < b then OtherImbalance (PositiveImbalance (saturating_sub b a))
      else SameNone)"

fun drop_positive ::
  "'cur \<Rightarrow> positive_imbalance \<Rightarrow> ('acc, 'cur, 'rid, 's) tokens_state \<Rightarrow> ('acc, 'cur, 'rid, 's) tokens_state" where
  "drop_positive c (PositiveImbalance a) s = mutate_total_issuance c (\<lambda>v. saturating_add v a) s"

fun drop_negative ::
  "'cur \<Rightarrow> negative_imbalance \<Rightarrow> ('acc, 'cur, 'rid, 's) tokens_state \<Rightarrow> ('acc, 'cur, 'rid, 's) tokens_state" where
  "drop_negative c (NegativeImbalance a) s = mutate_total_issuance c (\<lambda>v. saturating_sub v a) s"

section \<open>The adapter\<close>

definition adapter_burn ::
  "'cur \<Rightarrow> balance \<Rightarrow> ('acc, 'cur, 'rid, 's) tokens_state \<Rightarrow> positive_imbalance \<times> ('acc, 'cur, 'rid, 's) tokens_state" where
  "adapter_burn c amount s =
     (if amount = 0 then (PositiveImbalance 0, s)
      else
        let issued = total_issuance s c;
            (new_issued, amount) = (case checked_sub issued amount of
                                      Some n \<Rightarrow> (n, amount) | None \<Rightarrow> (0, issued));
            s1 = mutate_total_issuance c (\<lambda>_. new_issued) s
        in (PositiveImbalance amount, deposit_event (TotalIssuanceSet c (total_issuance s1 c)) s1))"

definition adapter_issue ::
  "'cur \<Rightarrow> balance \<Rightarrow> ('acc, 'cur, 'rid, 's) tokens_state \<Rightarrow> negative_imbalance \<times> ('acc, 'cur, 'rid, 's) tokens_state" where
  "adapter_issue c amount s =
     (if amount = 0 then (NegativeImbalance 0, s)
      else
        let issued = total_issuance s c;
            (new_issued, amount) = (case checked_add issued amount of
                                      Some n \<Rightarrow> (n, amount)
                                    | None \<Rightarrow> (max_value, saturating_sub max_value issued));
            s1 = mutate_total_issuance c (\<lambda>_. new_issued) s
        in (NegativeImbalance amount, deposit_event (TotalIssuanceSet c (total_issuance s1 c)) s1))"

definition adapter_transfer ::
  "('acc, 'cur, 'rid, 's) tokens_config \<Rightarrow> 'cur \<Rightarrow> 'acc \<Rightarrow> 'acc \<Rightarrow> balance \<Rightarrow> existence_requirement \<Rightarrow>
     ('acc, 'cur, 'rid, 's, unit) tokens_op" where
  "adapter_transfer cfg c source dest value er = do_transfer cfg c source dest value er"

definition adapter_slash ::
  "('acc, 'cur, 'rid, 's) tokens_config \<Rightarrow> 'cur \<Rightarrow> 'acc \<Rightarrow> balance \<Rightarrow>
     ('acc, 'cur, 'rid, 's) tokens_state \<Rightarrow> (negative_imbalance \<times> balance) \<times> ('acc, 'cur, 'rid, 's) tokens_state" where
  "adapter_slash cfg c who value s =
     (if value = 0 then ((NegativeImbalance 0, value), s)
      else
        let account = accounts s who c;
            free_slashed_amount = min (free account) value;
            remaining_slash = saturating_sub value free_slashed_amount;
            s1 = (if free_slashed_amount \<noteq> 0
                  then set_free_balance cfg c who (saturating_sub (free account) free_slashed_amount) s else s)
        in if remaining_slash \<noteq> 0 then
             let reserved_slashed_amount = min (reserved account) remaining_slash;
                 remaining_slash = saturating_sub remaining_slash reserved_slashed_amount;
                 s2 = set_reserved_balance cfg c who (saturating_sub (reserved account) reserved_slashed_amount) s1
             in ((NegativeImbalance (saturating_add free_slashed_amount reserved_slashed_amount), remaining_slash),
                 deposit_event (SlashedEv c who free_slashed_amount reserved_slashed_amount) s2)
           else ((NegativeImbalance value, remaining_slash), deposit_event (SlashedEv c who value 0) s1))"

definition adapter_deposit_into_existing ::
  "('acc, 'cur, 'rid, 's) tokens_config \<Rightarrow> 'cur \<Rightarrow> 'acc \<Rightarrow> balance \<Rightarrow>
     ('acc, 'cur, 'rid, 's, positive_imbalance) tokens_op" where
  "adapter_deposit_into_existing cfg c who value =
     bind_op (do_deposit cfg c who value True False) (\<lambda>_. ok (PositiveImbalance value))"

definition adapter_deposit_creating ::
  "('acc, 'cur, 'rid, 's) tokens_config \<Rightarrow> 'cur \<Rightarrow> 'acc \<Rightarrow> balance \<Rightarrow>
     ('acc, 'cur, 'rid, 's) tokens_state \<Rightarrow> positive_imbalance \<times> ('acc, 'cur, 'rid, 's) tokens_state" where
  "adapter_deposit_creating cfg c who value s =
     (case do_deposit cfg c who value False False s of
        (Inl _, s1) \<Rightarrow> (PositiveImbalance 0, s1)
      | (Inr _, s1) \<Rightarrow> (PositiveImbalance value, s1))"

definition adapter_withdraw ::
  "('acc, 'cur, 'rid, 's) tokens_config \<Rightarrow> 'cur \<Rightarrow> 'acc \<Rightarrow> balance \<Rightarrow> existence_requirement \<Rightarrow>
     ('acc, 'cur, 'rid, 's, negative_imbalance) tokens_op" where
  "adapter_withdraw cfg c who value liveness =
     bind_op (do_withdraw cfg c who value liveness False) (\<lambda>_. ok (NegativeImbalance value))"

definition adapter_make_free_balance_be ::
  "('acc, 'cur, 'rid, 's) tokens_config \<Rightarrow> 'cur \<Rightarrow> 'acc \<Rightarrow> balance \<Rightarrow>
     ('acc, 'cur, 'rid, 's) tokens_state \<Rightarrow> signed_imbalance \<times> ('acc, 'cur, 'rid, 's) tokens_state" where
  "adapter_make_free_balance_be cfg c who value s =
     (case try_mutate_account cfg who c (\<lambda>account existed.
        bind_op (ensure (ExistentialDeposits cfg c \<le> saturating_add value (reserved account) \<or> existed) ()) (\<lambda>_.
        let imb = (if free account \<le> value
                   then SignedPositive (PositiveImbalance (saturating_sub value (free account)))
                   else SignedNegative (NegativeImbalance (saturating_sub (free account) value)));
            account = account\<lparr>free := value\<rparr>
        in bind_op (modify_op (deposit_event (BalanceSet c who value (reserved account)))) (\<lambda>_. ok (imb, account)))) s
      of (Inl _, s1) \<Rightarrow> (SignedPositive (PositiveImbalance 0), s1)
       | (Inr (imb, _), s1) \<Rightarrow> (imb, s1))"

definition adapter_slash_reserved ::
  "('acc, 'cur, 'rid, 's) tokens_config \<Rightarrow> 'cur \<Rightarrow> 'acc \<Rightarrow> balance \<Rightarrow>
     ('acc, 'cur, 'rid, 's) tokens_state \<Rightarrow> (negative_imbalance \<times> balance) \<times> ('acc, 'cur, 'rid, 's) tokens_state" where
  "adapter_slash_reserved cfg c who value s =
     (case slash_reserved cfg c who value s of (actual, s1) \<Rightarrow> ((NegativeImbalance 0, actual), s1))"

definition adapter_slash_reserved_named ::
  "('acc, 'cur, 'rid::linorder, 's) tokens_config \<Rightarrow> 'rid \<Rightarrow> 'cur \<Rightarrow> 'acc \<Rightarrow> balance \<Rightarrow>
     ('acc, 'cur, 'rid, 's) tokens_state \<Rightarrow> (negative_imbalance \<times> balance) \<times> ('acc, 'cur, 'rid, 's) tokens_state" where
  "adapter_slash_reserved_named cfg i c who value s =
     (case slash_reserved_named cfg i c who value s of (actual, s1) \<Rightarrow> ((NegativeImbalance 0, actual), s1))"

text \<open>The three lock operations of the adapter drop the result: an error is ignored.\<close>

definition adapter_set_lock ::
  "('acc, 'cur, 'rid, 's) tokens_config \<Rightarrow> bytes \<Rightarrow> 'cur \<Rightarrow> 'acc \<Rightarrow> balance \<Rightarrow>
     ('acc, 'cur, 'rid, 's) tokens_state \<Rightarrow> ('acc, 'cur, 'rid, 's) tokens_state" where
  "adapter_set_lock cfg i c who amount s = snd (set_lock cfg i c who amount s)"

definition adapter_extend_lock ::
  "('acc, 'cur, 'rid, 's) tokens_config \<Rightarrow> bytes \<Rightarrow> 'cur \<Rightarrow> 'acc \<Rightarrow> balance \<Rightarrow>
     ('acc, 'cur, 'rid, 's) tokens_state \<Rightarrow> ('acc, 'cur, 'rid, 's) tokens_state" where
  "adapter_extend_lock cfg i c who amount s = snd (extend_lock cfg i c who amount s)"

definition adapter_remove_lock ::
  "('acc, 'cur, 'rid, 's) tokens_config \<Rightarrow> bytes \<Rightarrow> 'cur \<Rightarrow> 'acc \<Rightarrow>
     ('acc, 'cur, 'rid, 's) tokens_state \<Rightarrow> ('acc, 'cur, 'rid, 's) tokens_state" where
  "adapter_remove_lock cfg i c who s = snd (remove_lock cfg i c who s)"

section \<open>Imbalances and the ledger\<close>

lemma settle_negative:
  assumes "all_balanced l" and "ledger_of s = put_holding c a f r l" and "f + r + unat v = holding l c a"
  shows "imbalance (ledger_of s) c = int (unat v)" and "all_balanced (ledger_of (drop_negative c (NegativeImbalance v) s))"
proof -
  have fin: "finitely_held l c" "imbalance l c = 0" using assms(1) by (simp_all add: all_balanced_def balanced_def)
  have iss: "unat (total_issuance s c) = issued l c" using arg_cong [where f = "\<lambda>l. issued l c", OF assms(2)] by simp
  have "unat v \<le> issued l c" using balanced_holding_le [of l c a] assms(1,3) by (simp add: all_balanced_def)
  then show "all_balanced (ledger_of (drop_negative c (NegativeImbalance v) s))"
    using all_balanced_issue [OF assms(1), of f r "unat v" c a 0] assms(3)
    by (simp add: assms(2) iss unat_saturating_sub)
  show "imbalance (ledger_of s) c = int (unat v)"
    using imbalance_put_holding [OF fin(1), of a f r c] fin(2) by (simp add: assms(2) assms(3) [symmetric])
qed

lemma settle_positive:
  assumes "all_balanced l" and "ledger_of s = put_holding c a f r l" and "f + r = holding l c a + unat v"
    and "issued l c + unat v < 2 ^ 128"
  shows "imbalance (ledger_of s) c = - int (unat v)" and "all_balanced (ledger_of (drop_positive c (PositiveImbalance v) s))"
proof -
  have fin: "finitely_held l c" "imbalance l c = 0" using assms(1) by (simp_all add: all_balanced_def balanced_def)
  have iss: "unat (total_issuance s c) = issued l c" using arg_cong [where f = "\<lambda>l. issued l c", OF assms(2)] by simp
  show "all_balanced (ledger_of (drop_positive c (PositiveImbalance v) s))"
    using all_balanced_issue [OF assms(1), of f r 0 c a "unat v"] assms(3,4)
    by (simp add: assms(2) iss unat_saturating_add)
  show "imbalance (ledger_of s) c = - int (unat v)"
    using imbalance_put_holding [OF fin(1), of a f r c] fin(2) assms(3) by (simp add: assms(2))
qed

lemma adapter_withdraw_ledger:
  assumes "adapter_withdraw cfg c who v er s = (Inr n, t)" and "unit_hooks cfg"
  shows "n = NegativeImbalance v \<and> ledger_of t = put_holding c who (unat (free (accounts s who c)) - unat v)
      (unat (reserved (accounts s who c))) (ledger_of s) \<and> unat v \<le> unat (free (accounts s who c))"
proof -
  from assms(1) have op: "do_withdraw cfg c who v er False s = (Inr (), t)" and n: "n = NegativeImbalance v"
    by (auto simp: adapter_withdraw_def op_simps)
  show ?thesis
    using do_withdraw_effect [OF op assms(2)] op n
    by (cases "v = 0") (auto simp: ledger_debit_def do_withdraw_def ok_def)
qed

lemma adapter_deposit_ledger:
  assumes "adapter_deposit_into_existing cfg c who v s = (Inr p, t)" and "unit_hooks cfg" and "all_balanced (ledger_of s)"
  shows "p = PositiveImbalance v \<and> ledger_of t = put_holding c who (unat (free (accounts s who c)) + unat v)
      (unat (reserved (accounts s who c))) (ledger_of s) \<and> unat (total_issuance s c) + unat v < 2 ^ 128"
proof -
  from assms(1) obtain w where op: "do_deposit cfg c who v True False s = (Inr w, t)" and p: "p = PositiveImbalance v"
    by (auto simp: adapter_deposit_into_existing_def op_simps)
  show ?thesis
  proof (cases "v = 0")
    case True
    with op p show ?thesis using unat_u128 [of "total_issuance s c"] by (simp add: do_deposit_def ok_def)
  next
    case False
    note eff = do_deposit_effect [OF op assms(2) False]
    then show ?thesis using p all_balancedD(1) [OF assms(3), of who c] by simp
  qed
qed

lemma adapter_slash_ledger:
  assumes "adapter_slash cfg c who v s = ((n, rest), t)" and hooks: "unit_hooks cfg" and bal: "all_balanced (ledger_of s)"
  defines "f \<equiv> min (unat (free (accounts s who c))) (unat v)"
  defines "r \<equiv> min (unat (reserved (accounts s who c))) (unat v - f)"
  shows "unat (negative_peek n) = f + r \<and> unat rest = unat v - (f + r) \<and>
    ledger_of t = put_holding c who (unat (free (accounts s who c)) - f) (unat (reserved (accounts s who c)) - r) (ledger_of s)"
proof -
  let ?a = "accounts s who c"
  note setters = ledger_of_set_free_balance [OF hooks] ledger_of_set_reserved_balance [OF hooks]
  have tot: "unat (free ?a) + unat (reserved ?a) < 2 ^ 128"
    using all_balancedD(1) [OF bal, of who c] unat_u128 [of "total_issuance s c"] by linarith
  show ?thesis
  proof (cases "v \<le> free ?a")
    case True
    then have "min (free ?a) v = v" "f = unat v" "r = 0" by (auto simp: f_def r_def word_le_nat_alt)
    with assms(1) show ?thesis
      by (cases "v = 0") (auto simp: adapter_slash_def setters unat_saturating_sub)
  next
    case False
    then have "min (free ?a) v = free ?a" "f = unat (free ?a)" by (auto simp: f_def word_le_nat_alt)
    moreover have "saturating_sub v (free ?a) \<noteq> 0" "v \<noteq> 0"
      using False by (auto simp: word_eq_unat unat_saturating_sub word_le_nat_alt)
    ultimately show ?thesis
      using assms(1) tot
      by (cases "free ?a = 0") (auto simp: adapter_slash_def Let_def setters rust_arith r_def)
  qed
qed

end
