(* ===== verification/Tokens_Steps.thy ===== *)
theory Tokens_Steps
  imports Tokens_Adapter
begin

text \<open>
  The steps of the tokens pallet: \<open>tokens_step\<close> is one successful operation of its dispatchable calls, of
  its multi-currency, reservation and lock interfaces, of its \<open>fungibles\<close> traits, of the transfer of all
  currencies, or of the adapter.

  An operation of the adapter that leaves an imbalance is a step together with the drop of the
  imbalance, which settles the issuance; \<open>make_free_balance_be\<close>, which checks nothing, is a step when the
  issuance has room for what it creates. Four kinds of operations are not steps, because they are parts of
  an operation that is completed elsewhere or are known to break the invariant: an imbalance kept for later
  (with \<open>burn\<close> and \<open>issue\<close> of the adapter, which only make one); \<open>write_balance\<close>, \<open>decrease_balance\<close> and
  \<open>set_total_issuance\<close> of the trait \<open>Unbalanced\<close>, which write a balance without the issuance or the issuance
  without a balance; operations that return an error (the framework rolls them back); and the lock
  operations of the adapter when the lock vector is full, whose error is dropped.

  Sources of the account lookup are represented by their encoding.
\<close>

fun settle_signed ::
  "'cur \<Rightarrow> signed_imbalance \<Rightarrow> ('acc, 'cur, 'rid, 's) tokens_state \<Rightarrow> ('acc, 'cur, 'rid, 's) tokens_state" where
  "settle_signed c (SignedPositive p) s = drop_positive c p s"
| "settle_signed c (SignedNegative n) s = drop_negative c n s"

fun room_for :: "balance \<Rightarrow> signed_imbalance \<Rightarrow> bool" where
  "room_for issuance (SignedPositive p) \<longleftrightarrow> unat issuance + unat (positive_peek p) < 2 ^ 128"
| "room_for issuance (SignedNegative n) \<longleftrightarrow> True"

inductive tokens_step ::
  "('acc, 'cur, 'rid::linorder, 's) tokens_config \<Rightarrow>
     ('acc, 'cur, 'rid, 's) tokens_state \<Rightarrow> ('acc, 'cur, 'rid, 's) tokens_state \<Rightarrow> bool"
  for cfg where
  \<comment> \<open>the internal movers and the multi-currency interface\<close>
  step_transfer: "do_transfer cfg c from to amount er s = (Inr u, t) \<Longrightarrow> tokens_step cfg s t"
| step_deposit: "do_deposit cfg c who amount require_existed True s = (Inr v, t) \<Longrightarrow> tokens_step cfg s t"
| step_withdraw: "do_withdraw cfg c who amount er True s = (Inr u, t) \<Longrightarrow> tokens_step cfg s t"
| step_slash: "slash cfg c who amount s = (r, t) \<Longrightarrow> tokens_step cfg s t"
| step_update_balance: "update_balance cfg c who by_amount s = (Inr u, t) \<Longrightarrow> tokens_step cfg s t"
  \<comment> \<open>reserves\<close>
| step_reserve: "reserve cfg c who value s = (Inr u, t) \<Longrightarrow> tokens_step cfg s t"
| step_unreserve: "unreserve cfg c who value s = (r, t) \<Longrightarrow> tokens_step cfg s t"
| step_slash_reserved: "slash_reserved cfg c who value s = (r, t) \<Longrightarrow> tokens_step cfg s t"
| step_repatriate: "repatriate_reserved cfg c slashed beneficiary value status s = (Inr v, t) \<Longrightarrow> tokens_step cfg s t"
| step_reserve_named: "reserve_named cfg i c who value s = (Inr u, t) \<Longrightarrow> tokens_step cfg s t"
| step_unreserve_named: "unreserve_named cfg i c who value s = (r, t) \<Longrightarrow> tokens_step cfg s t"
| step_slash_reserved_named: "slash_reserved_named cfg i c who value s = (r, t) \<Longrightarrow> tokens_step cfg s t"
| step_repatriate_named:
    "repatriate_reserved_named cfg i c slashed beneficiary value status s = (Inr v, t) \<Longrightarrow> tokens_step cfg s t"
  \<comment> \<open>locks\<close>
| step_set_lock: "set_lock cfg lid c who amount s = (Inr u, t) \<Longrightarrow> tokens_step cfg s t"
| step_extend_lock: "extend_lock cfg lid c who amount s = (Inr u, t) \<Longrightarrow> tokens_step cfg s t"
| step_remove_lock: "remove_lock cfg lid c who s = (Inr u, t) \<Longrightarrow> tokens_step cfg s t"
  \<comment> \<open>the dispatchable calls\<close>
| step_transfer_call: "transfer_call (lookup :: bytes \<Rightarrow> 'acc result) cfg orig dest c amount s = (Inr u, t) \<Longrightarrow> tokens_step cfg s t"
| step_transfer_all_call:
    "transfer_all_call (lookup :: bytes \<Rightarrow> 'acc result) cfg orig dest c keep_alive s = (Inr u, t) \<Longrightarrow> tokens_step cfg s t"
| step_transfer_keep_alive_call:
    "transfer_keep_alive_call (lookup :: bytes \<Rightarrow> 'acc result) cfg orig dest c amount s = (Inr u, t) \<Longrightarrow> tokens_step cfg s t"
| step_force_transfer_call:
    "force_transfer_call (lookup :: bytes \<Rightarrow> 'acc result) cfg orig source dest c amount s = (Inr u, t) \<Longrightarrow> tokens_step cfg s t"
| step_set_balance_call:
    "set_balance_call (lookup :: bytes \<Rightarrow> 'acc result) cfg orig source c new_free new_reserved s = (Inr u, t) \<Longrightarrow> tokens_step cfg s t"
  \<comment> \<open>the fungibles traits and the transfer of all currencies\<close>
| step_mint_into: "mint_into into_result cfg c who amount s = (Inr v, t) \<Longrightarrow> tokens_step cfg s t"
| step_burn_from: "burn_from into_result' cfg c who amount s = (Inr v, t) \<Longrightarrow> tokens_step cfg s t"
| step_fungibles_transfer: "fungibles_transfer cfg c source' dest' amount pr s = (Inr v, t) \<Longrightarrow> tokens_step cfg s t"
| step_hold: "hold cfg c who amount s = (Inr u, t) \<Longrightarrow> tokens_step cfg s t"
| step_release: "release cfg c who amount prec s = (Inr v, t) \<Longrightarrow> tokens_step cfg s t"
| step_transfer_on_hold: "transfer_on_hold cfg c source' dest' amount prec restr s = (Inr v, t) \<Longrightarrow> tokens_step cfg s t"
| step_set_balance_on_hold: "set_balance_on_hold cfg c who amount s = (Inr u, t) \<Longrightarrow> tokens_step cfg s t"
| step_transfer_all: "transfer_all cfg order source' dest' s = (Inr u, t) \<Longrightarrow> tokens_step cfg s t"
  \<comment> \<open>the adapter, with its imbalances dropped\<close>
| step_adapter_transfer: "adapter_transfer cfg c source' dest' value er s = (Inr u, t) \<Longrightarrow> tokens_step cfg s t"
| step_adapter_withdraw: "adapter_withdraw cfg c who value er s = (Inr n, t) \<Longrightarrow> tokens_step cfg s (drop_negative c n t)"
| step_adapter_deposit: "adapter_deposit_into_existing cfg c who value s = (Inr p, t) \<Longrightarrow> tokens_step cfg s (drop_positive c p t)"
| step_adapter_creating: "adapter_deposit_creating cfg c who value s = (p, t) \<Longrightarrow> tokens_step cfg s (drop_positive c p t)"
| step_adapter_slash: "adapter_slash cfg c who value s = ((n, rest), t) \<Longrightarrow> tokens_step cfg s (drop_negative c n t)"
| step_adapter_make_free:
    "adapter_make_free_balance_be cfg c who value s = (imb, t) \<Longrightarrow> room_for (total_issuance s c) imb \<Longrightarrow>
       tokens_step cfg s (settle_signed c imb t)"
| step_adapter_slash_reserved:
    "adapter_slash_reserved cfg c who value s = ((n, rest), t) \<Longrightarrow> tokens_step cfg s (drop_negative c n t)"
| step_adapter_slash_reserved_named:
    "adapter_slash_reserved_named cfg i c who value s = ((n, rest), t) \<Longrightarrow> tokens_step cfg s (drop_negative c n t)"
| step_adapter_set_lock:
    "fst (set_lock cfg lid c who amount s) = Inr () \<Longrightarrow> tokens_step cfg s (adapter_set_lock cfg lid c who amount s)"
| step_adapter_extend_lock:
    "fst (extend_lock cfg lid c who amount s) = Inr () \<Longrightarrow> tokens_step cfg s (adapter_extend_lock cfg lid c who amount s)"
| step_adapter_remove_lock: "tokens_step cfg s (adapter_remove_lock cfg lid c who s)"

section \<open>The remaining operations keep the invariant\<close>

lemma update_balance_inv:
  assumes "update_balance cfg c who by_amount s = (Inr u, t)" and cfg: "runtime_config cfg" and inv: "tokens_inv cfg s"
  shows "tokens_inv cfg t"
  using assms(1) inv
  by (auto simp: update_balance_def Let_def deposit_def withdraw_def op_simps split: if_splits
    intro: do_deposit_inv [OF _ cfg inv] do_withdraw_inv [OF _ cfg inv])

lemma calls_inv:
  assumes cfg: "runtime_config cfg" and inv: "tokens_inv cfg s"
  shows "transfer_call lookup cfg orig dest c amount s = (Inr u, t) \<Longrightarrow> tokens_inv cfg t"
    and "transfer_all_call lookup cfg orig dest c keep_alive s = (Inr u, t) \<Longrightarrow> tokens_inv cfg t"
    and "transfer_keep_alive_call lookup cfg orig dest c amount s = (Inr u, t) \<Longrightarrow> tokens_inv cfg t"
    and "force_transfer_call lookup cfg orig source dest c amount s = (Inr u, t) \<Longrightarrow> tokens_inv cfg t"
    and "set_balance_call lookup cfg orig source c new_free new_reserved s = (Inr u, t) \<Longrightarrow> tokens_inv cfg t"
  by (auto simp: transfer_call_def transfer_all_call_def transfer_keep_alive_call_def force_transfer_call_def set_balance_call_def
    fungibles_transfer_def Let_def op_simps intro: do_transfer_inv [OF _ cfg inv] set_balance_account_inv [OF _ cfg inv])

lemma fungibles_inv:
  assumes cfg: "runtime_config cfg" and inv: "tokens_inv cfg s"
  shows "mint_into into_result cfg c who amount s = (Inr v, t) \<Longrightarrow> tokens_inv cfg t"
    and "burn_from into_result' cfg c who amount s = (Inr v, t) \<Longrightarrow> tokens_inv cfg t"
    and "fungibles_transfer cfg c source dest amount pr s = (Inr v, t) \<Longrightarrow> tokens_inv cfg t"
    and "hold cfg c who amount s = (Inr u, t) \<Longrightarrow> tokens_inv cfg t"
    and "transfer_on_hold cfg c source dest amount prec restr s = (Inr v, t) \<Longrightarrow> tokens_inv cfg t"
  by (auto simp: mint_into_def burn_from_def fungibles_transfer_def hold_def transfer_on_hold_def Let_def op_simps
    intro: do_deposit_inv [OF _ cfg inv] do_withdraw_inv [OF _ cfg inv] do_transfer_inv [OF _ cfg inv] reserve_inv [OF _ cfg inv]
      repatriate_reserved_inv [OF _ cfg inv])

text \<open>An account written with the same total.\<close>

lemma same_total_inv:
  assumes "try_mutate_account cfg who c f s = (Inr (r, d), t)" and cfg: "runtime_config cfg" and inv: "tokens_inv cfg s"
    and "\<And>account s1. f (accounts s who c) (Accounts s (who, c) \<noteq> None) s = (Inr (r, account), s1) \<Longrightarrow>
      Accounts s1 = Accounts s \<and> locks_and_reserves s1 = locks_and_reserves s \<and> frozen account = frozen (accounts s who c) \<and>
      ledger_of s1 = ledger_of s \<and> unat (free account) + unat (reserved account) =
        unat (free (accounts s who c)) + unat (reserved (accounts s who c))"
  shows "tokens_inv cfg t"
proof -
  let ?P = "\<lambda>account l. l = ledger_of s \<and> unat (free account) + unat (reserved account) =
        unat (free (accounts s who c)) + unat (reserved (accounts s who c))"
  show ?thesis
  proof (rule try_mutate_account_effect [OF assms(1) runtime_configD(1) [OF cfg], where P = ?P])
    fix account s1
    assume "f (accounts s who c) (Accounts s (who, c) \<noteq> None) s = (Inr (r, account), s1)"
    from assms(4) [OF this] show "Accounts s1 = Accounts s \<and> locks_and_reserves s1 = locks_and_reserves s \<and>
        frozen account = frozen (accounts s who c) \<and> ?P account (ledger_of s1)" by simp
  next
    fix account l
    assume P: "?P account l" and led: "ledger_of t = put_holding c who (unat (free account)) (unat (reserved account)) l"
      and frame: "locks_and_reserves t = locks_and_reserves s" "ExistentialDeposits cfg c = 0 \<Longrightarrow> frozen_of t = frozen_of s"
    have "all_balanced (ledger_of t)"
      using P by (simp add: led all_balanced_put_holding [OF tokens_invD(1) [OF inv]])
    then show "tokens_inv cfg t"
      using tokens_inv_frame [OF inv] frame(1) frame(2) [OF runtime_configD(2) [OF cfg]] by blast
  qed
qed

lemma release_inv:
  assumes op: "release cfg c who amount prec s = (Inr v, t)" and cfg: "runtime_config cfg" and inv: "tokens_inv cfg s"
  shows "tokens_inv cfg t"
proof (cases "amount = 0")
  case True
  with op inv show ?thesis by (simp add: release_def ok_def)
next
  case False
  let ?a = "accounts s who c"
  have "unat (free ?a) + unat (reserved ?a) < 2 ^ 128"
    using all_balancedD(1) [OF tokens_invD(1) [OF inv], of who c] unat_u128 [of "total_issuance s c"] by linarith
  then show ?thesis
    using op False
    apply (clarsimp simp: release_def op_simps)
    apply (erule same_total_inv [OF _ cfg inv])
    apply (clarsimp simp: op_simps Let_def rust_arith unat_min)
    done
qed

lemma set_balance_on_hold_inv:
  assumes op: "set_balance_on_hold cfg c who amount s = (Inr u, t)" and cfg: "runtime_config cfg" and inv: "tokens_inv cfg s"
  shows "tokens_inv cfg t"
  using op
  apply (clarsimp simp: set_balance_on_hold_def op_simps)
  apply (erule same_total_inv [OF _ cfg inv])
  apply (clarsimp simp: op_simps Let_def rust_arith)
  done

lemma transfer_all_fold_inv:
  "transfer_all_fold cfg source dest order s = (Inr u, t) \<Longrightarrow> runtime_config cfg \<Longrightarrow> tokens_inv cfg s \<Longrightarrow> tokens_inv cfg t"
proof (induction order arbitrary: s)
  case (Cons c cs)
  then show ?case by (auto simp: op_simps split: option.splits intro: do_transfer_inv)
qed simp

lemma transfer_all_inv:
  "transfer_all cfg order source dest s = (Inr u, t) \<Longrightarrow> runtime_config cfg \<Longrightarrow> tokens_inv cfg s \<Longrightarrow> tokens_inv cfg t"
  using transfer_all_fold_inv by (simp add: transfer_all_def)

section \<open>The adapter\<close>

lemma settled_inv:
  assumes "tokens_inv cfg s" and "all_balanced (ledger_of (mutate_total_issuance c f t))"
    and "locks_and_reserves t = locks_and_reserves s" and "frozen_of t = frozen_of s"
  shows "tokens_inv cfg (mutate_total_issuance c f t)"
  using tokens_inv_frame [OF assms(1,2)] assms(3,4) by simp

lemma adapter_withdraw_inv:
  assumes op: "adapter_withdraw cfg c who v er s = (Inr n, t)" and cfg: "runtime_config cfg" and inv: "tokens_inv cfg s"
  shows "tokens_inv cfg (drop_negative c n t)"
proof -
  note led = adapter_withdraw_ledger [OF op runtime_configD(1) [OF cfg]]
  have w: "do_withdraw cfg c who v er False s = (Inr (), t)" using op by (auto simp: adapter_withdraw_def op_simps)
  have frame: "locks_and_reserves t = locks_and_reserves s \<and> frozen_of t = frozen_of s"
  proof (cases "v = 0")
    case True
    with w show ?thesis by (simp add: do_withdraw_def ok_def)
  next
    case False
    from do_withdraw_effect(3,4) [OF w runtime_configD(1) [OF cfg] this] runtime_configD(2) [OF cfg] show ?thesis by blast
  qed
  have "all_balanced (ledger_of (drop_negative c (NegativeImbalance v) t))"
    using led by (intro settle_negative(2) [OF tokens_invD(1) [OF inv], where a = who]) auto
  then have "tokens_inv cfg (drop_negative c (NegativeImbalance v) t)"
    using frame by (simp del: ledger_of_mutate_total_issuance add: settled_inv [OF inv])
  with led show ?thesis by simp
qed

lemma drop_positive_0:
  assumes "tokens_inv cfg s"
  shows "tokens_inv cfg (drop_positive c (PositiveImbalance 0) s)"
proof -
  have "saturating_add (total_issuance s c) 0 = total_issuance s c"
    using unat_u128 [of "total_issuance s c"] by (simp add: word_eq_unat unat_saturating_add)
  then show ?thesis using tokens_inv_frame [OF assms] tokens_invD(1) [OF assms] by simp
qed

lemma drop_negative_0:
  assumes "tokens_inv cfg s"
  shows "tokens_inv cfg (drop_negative c (NegativeImbalance 0) s)"
proof -
  have "saturating_sub (total_issuance s c) 0 = total_issuance s c"
    by (simp add: word_eq_unat unat_saturating_sub)
  then show ?thesis using tokens_inv_frame [OF assms] tokens_invD(1) [OF assms] by simp
qed

lemma deposited_inv:
  assumes op: "do_deposit cfg c who v ex False s = (Inr w, t)" and cfg: "runtime_config cfg" and inv: "tokens_inv cfg s"
  shows "tokens_inv cfg (drop_positive c (PositiveImbalance v) t)"
proof (cases "v = 0")
  case True
  with op inv show ?thesis by (simp only: True do_deposit_def ok_def simp_thms if_True prod.inject drop_positive_0)
next
  case False
  note eff = do_deposit_effect [OF op runtime_configD(1) [OF cfg] False]
  note le = all_balancedD(1) [OF tokens_invD(1) [OF inv], of who c]
  have "all_balanced (ledger_of (drop_positive c (PositiveImbalance v) t))"
    using eff(2,3) le
    by (intro settle_positive(2) [OF tokens_invD(1) [OF inv], where a = who and f = "unat (free (accounts s who c)) + unat v"]) auto
  then show ?thesis
    using eff(4) eff(5) [OF runtime_configD(2) [OF cfg]]
    by (simp del: ledger_of_mutate_total_issuance add: settled_inv [OF inv])
qed

lemma do_deposit_error:
  assumes "do_deposit cfg c who v ex change s = (Inl e, t)" and "unit_hooks cfg"
  shows "t = s"
  using assms
  by (auto simp: do_deposit_def unit_hooks_simps op_simps try_mutate_account_Inl split: if_splits)

lemma adapter_deposit_inv:
  assumes cfg: "runtime_config cfg" and inv: "tokens_inv cfg s"
  shows "adapter_deposit_into_existing cfg c who v s = (Inr p, t) \<Longrightarrow> tokens_inv cfg (drop_positive c p t)"
    and "adapter_deposit_creating cfg c who v s = (p, t) \<Longrightarrow> tokens_inv cfg (drop_positive c p t)"
proof -
  show "adapter_deposit_into_existing cfg c who v s = (Inr p, t) \<Longrightarrow> tokens_inv cfg (drop_positive c p t)"
    using deposited_inv [OF _ cfg inv] by (auto simp: adapter_deposit_into_existing_def op_simps simp del: drop_positive.simps)
  assume op: "adapter_deposit_creating cfg c who v s = (p, t)"
  show "tokens_inv cfg (drop_positive c p t)"
  proof (cases "fst (do_deposit cfg c who v False False s)")
    case (Inl e)
    then have d: "do_deposit cfg c who v False False s = (Inl e, snd (do_deposit cfg c who v False False s))" by (metis prod.collapse)
    from do_deposit_error [OF d runtime_configD(1) [OF cfg]] op d have "p = PositiveImbalance 0" "t = s"
      by (simp_all add: adapter_deposit_creating_def split: prod.splits)
    then show ?thesis using drop_positive_0 [OF inv] by simp
  next
    case (Inr w)
    then have d: "do_deposit cfg c who v False False s = (Inr w, snd (do_deposit cfg c who v False False s))" by (metis prod.collapse)
    with op have "p = PositiveImbalance v" "t = snd (do_deposit cfg c who v False False s)"
      by (simp_all add: adapter_deposit_creating_def split: prod.splits)
    then show ?thesis using deposited_inv [OF d cfg inv] by simp
  qed
qed

lemma adapter_slash_frame:
  assumes "adapter_slash cfg c who v s = ((n, rest), t)" and "runtime_config cfg"
  shows "locks_and_reserves t = locks_and_reserves s \<and> frozen_of t = frozen_of s"
  using assms(1) setter_frames [OF runtime_configD(1) [OF assms(2)]] runtime_configD(2) [OF assms(2)]
  by (auto simp: adapter_slash_def Let_def split: if_splits)

lemma adapter_slash_inv:
  assumes op: "adapter_slash cfg c who v s = ((n, rest), t)" and cfg: "runtime_config cfg" and inv: "tokens_inv cfg s"
  shows "tokens_inv cfg (drop_negative c n t)"
proof -
  obtain v' where n: "n = NegativeImbalance v'" by (cases n)
  have "all_balanced (ledger_of (drop_negative c (NegativeImbalance v') t))"
    using adapter_slash_ledger [OF op runtime_configD(1) [OF cfg] tokens_invD(1) [OF inv]]
    by (elim conjE, intro settle_negative(2) [OF tokens_invD(1) [OF inv]]) (assumption, simp add: n)
  then show ?thesis using adapter_slash_frame [OF op cfg] n
    by (simp del: ledger_of_mutate_total_issuance add: settled_inv [OF inv])
qed

lemma adapter_slash_reserved_inv:
  assumes cfg: "runtime_config cfg" and inv: "tokens_inv cfg s"
  shows "adapter_slash_reserved cfg c who v s = ((n, rest), t) \<Longrightarrow> tokens_inv cfg (drop_negative c n t)"
    and "adapter_slash_reserved_named cfg i c who v s = ((n, rest), t) \<Longrightarrow> tokens_inv cfg (drop_negative c n t)"
  using drop_negative_0 [OF slash_reserved_inv [OF _ cfg inv]] drop_negative_0 [OF slash_reserved_named_inv [OF _ cfg inv]]
  by (auto simp: adapter_slash_reserved_def adapter_slash_reserved_named_def simp del: drop_negative.simps split: prod.splits)

text \<open>A balance set to any value, with the difference as the imbalance.\<close>

lemma adapter_make_free_inv:
  assumes op: "adapter_make_free_balance_be cfg c who v s = (imb, t)" and room: "room_for (total_issuance s c) imb"
    and cfg: "runtime_config cfg" and inv: "tokens_inv cfg s"
  shows "tokens_inv cfg (settle_signed c imb t)"
proof -
  let ?a = "accounts s who c"
  let ?imb = "if free ?a \<le> v then SignedPositive (PositiveImbalance (saturating_sub v (free ?a)))
      else SignedNegative (NegativeImbalance (saturating_sub (free ?a) v))"
  let ?P = "\<lambda>account l. l = ledger_of s \<and> free account = v \<and> reserved account = reserved ?a"
  have "imb = ?imb \<and> ledger_of t = put_holding c who (unat v) (unat (reserved ?a)) (ledger_of s) \<and>
      locks_and_reserves t = locks_and_reserves s \<and> frozen_of t = frozen_of s"
  proof (cases "try_mutate_account cfg who c (\<lambda>account existed.
        bind_op (ensure (ExistentialDeposits cfg c \<le> saturating_add v (reserved account) \<or> existed) ()) (\<lambda>_.
        let imb = (if free account \<le> v
                   then SignedPositive (PositiveImbalance (saturating_sub v (free account)))
                   else SignedNegative (NegativeImbalance (saturating_sub (free account) v)));
            account = account\<lparr>free := v\<rparr>
        in bind_op (modify_op (deposit_event (BalanceSet c who v (reserved account)))) (\<lambda>_. ok (imb, account)))) s")
    case (Pair x y)
    show ?thesis
    proof (cases x)
      case (Inl e)
      with Pair show ?thesis
        by (simp add: try_mutate_account_Inl op_simps Let_def runtime_configD(2) [OF cfg])
    next
      case (Inr z)
      then obtain i d where z: "x = Inr (i, d)" by (cases z) simp
      have "imb = i" "t = y" using op Pair z by (simp_all add: adapter_make_free_balance_be_def)
      with Pair z show ?thesis
        apply simp
        apply (erule try_mutate_account_effect [OF _ runtime_configD(1) [OF cfg], where P = "\<lambda>account l. ?P account l \<and> i = ?imb"])
         apply (clarsimp simp: op_simps Let_def)
        apply (simp add: runtime_configD(2) [OF cfg])
        done
    qed
  qed
  then have res: "imb = ?imb" "ledger_of t = put_holding c who (unat v) (unat (reserved ?a)) (ledger_of s)"
    and frame: "locks_and_reserves t = locks_and_reserves s" "frozen_of t = frozen_of s" by blast+
  note settled = settled_inv [OF inv _ frame]
  show ?thesis
  proof (cases "free ?a \<le> v")
    case True
    then have imb: "imb = SignedPositive (PositiveImbalance (saturating_sub v (free ?a)))" using res(1) by simp
    have "all_balanced (ledger_of (drop_positive c (PositiveImbalance (saturating_sub v (free ?a))) t))"
      using room True imb
      by (intro settle_positive(2) [OF tokens_invD(1) [OF inv] res(2)]) (simp_all add: unat_saturating_sub word_le_nat_alt)
    then show ?thesis by (simp add: imb settled del: ledger_of_mutate_total_issuance)
  next
    case False
    then have imb: "imb = SignedNegative (NegativeImbalance (saturating_sub (free ?a) v))" using res(1) by simp
    have "all_balanced (ledger_of (drop_negative c (NegativeImbalance (saturating_sub (free ?a) v)) t))"
      using False
      by (intro settle_negative(2) [OF tokens_invD(1) [OF inv] res(2)]) (simp add: unat_saturating_sub word_le_nat_alt)
    then show ?thesis by (simp add: imb settled del: ledger_of_mutate_total_issuance)
  qed
qed

lemma remove_lock_succeeds:
  assumes "locks_wf cfg s"
  shows "fst (remove_lock cfg i c who s) = Inr ()"
proof -
  have "length (filter (\<lambda>l. lock_id l \<noteq> i) (locks s who c)) \<le> unat (MaxLocks cfg)"
    using assms length_filter_le order_trans unfolding locks_wf_def by blast
  then show ?thesis by (simp add: remove_lock_def update_locks_def bind_op_def modify_op_def Let_def case_prod_beta)
qed

lemma adapter_locks_inv:
  assumes cfg: "runtime_config cfg" and inv: "tokens_inv cfg s"
  shows "fst (set_lock cfg i c who v s) = Inr () \<Longrightarrow> tokens_inv cfg (adapter_set_lock cfg i c who v s)"
    and "fst (extend_lock cfg i c who v s) = Inr () \<Longrightarrow> tokens_inv cfg (adapter_extend_lock cfg i c who v s)"
    and "tokens_inv cfg (adapter_remove_lock cfg i c who s)"
proof -
  have pair: "p = (Inr (), snd p)" if "fst p = Inr ()" for p :: "(dispatch_error + unit) \<times> ('a, 'b, 'c, 'd) tokens_state"
    using that by (cases p) simp
  show "fst (set_lock cfg i c who v s) = Inr () \<Longrightarrow> tokens_inv cfg (adapter_set_lock cfg i c who v s)"
    unfolding adapter_set_lock_def by (rule set_lock_inv [OF pair cfg inv])
  show "fst (extend_lock cfg i c who v s) = Inr () \<Longrightarrow> tokens_inv cfg (adapter_extend_lock cfg i c who v s)"
    unfolding adapter_extend_lock_def by (rule extend_lock_inv [OF pair cfg inv])
  show "tokens_inv cfg (adapter_remove_lock cfg i c who s)"
    unfolding adapter_remove_lock_def by (rule remove_lock_inv [OF pair [OF remove_lock_succeeds [OF tokens_invD(2) [OF inv]]] cfg inv])
qed

lemmas tokens_steps_inv = tokens_ops_inv update_balance_inv calls_inv fungibles_inv release_inv set_balance_on_hold_inv transfer_all_inv
  adapter_withdraw_inv adapter_deposit_inv adapter_slash_inv adapter_slash_reserved_inv adapter_make_free_inv adapter_locks_inv

lemma tokens_step_inv: "tokens_step cfg s t \<Longrightarrow> runtime_config cfg \<Longrightarrow> tokens_inv cfg s \<Longrightarrow> tokens_inv cfg t"
  by (induction rule: tokens_step.induct)
    (unfold adapter_transfer_def, (fast intro: tokens_steps_inv elim: tokens_steps_inv)+)

end
