(* ===== verification/Tokens_Properties.thy ===== *)
theory Tokens_Properties
  imports Tokens_Steps
begin

text \<open>
  The properties of the tokens pallet: the invariant over all its reachable states, the refinement
  of the ledger by each mover of balance, the result of a transfer on every branch, the protection
  of locked funds, the locks and the named reserves as maps, the agreement of the predicted and
  the actual outcome of a withdrawal, and the accounting of the adapter's imbalances.

  \<open>demo_config\<close> and \<open>demo_state\<close> are the runtime's configuration over a trivial system state and a
  genesis state with two endowed accounts, at which the properties are instantiated.
\<close>

definition demo_config :: "(nat, currency_id, reserve_identifier, unit) tokens_config" where
  "demo_config = runtime_tokens (\<lambda>_ _. True) (\<lambda>_ s. s) (\<lambda>_ s. s) (\<lambda>_. ok ()) (\<lambda>_ s. s)"

definition demo_state :: "(nat, currency_id, reserve_identifier, unit) tokens_state" where
  "demo_state =
     \<lparr>TotalIssuance = [Token RUSD \<mapsto> 150],
      Accounts = [(1, Token RUSD) \<mapsto> \<lparr>free = 100, reserved = 0, frozen = 0\<rparr>,
                  (2, Token RUSD) \<mapsto> \<lparr>free = 50, reserved = 0, frozen = 0\<rparr>],
      Locks = Map.empty, Reserves = Map.empty,
      tk_events = [Endowed (Token RUSD) 1 100, Endowed (Token RUSD) 2 50],
      tk_system = ()\<rparr>"

lemmas tokens_eval =
  genesis_build_def mutate_account_def try_mutate_account_def settle_account_def accounts_def locks_def reserves_def
  checked_add_def checked_sub_def saturating_add_def saturating_sub_def total_def total_issuance_def
  mutate_total_issuance_def deposit_event_def empty_tokens_state_def default_account_data_def op_defs
  demo_config_def runtime_tokens_def demo_state_def ensure_can_withdraw_def free_balance_def reserved_balance_def
  would_be_dead_def do_transfer_def do_withdraw_def do_deposit_def set_free_balance_def set_reserved_balance_def
  update_locks_def max_lock_def set_lock_def place_or_push_def reserve_def reserve_named_def unreserve_def
  binary_search_by_key_def bsearch_loop.simps try_insert_def put_reserves_def slash_def set_balance_account_def
  settle_issuance_def Let_def

lemma demo_genesis:
  "genesis_build demo_config [(1, Token RUSD, 100), (2, Token RUSD, 50)] (empty_tokens_state ()) = Some demo_state"
  by (simp add: tokens_eval)

lemma demo_config_runtime: "runtime_config demo_config"
  by (simp add: demo_config_def runtime_tokens_config)

lemma demo_inv: "tokens_inv demo_config demo_state"
  using genesis_build_inv [OF demo_genesis demo_config_runtime] .

text \<open>A state with 30 of account 1 locked under an identifier.\<close>

definition demo_lock :: bytes where "demo_lock = [1, 2, 3, 4, 5, 6, 7, 8]"

definition demo_locked :: "(nat, currency_id, reserve_identifier, unit) tokens_state" where
  "demo_locked = snd (set_lock demo_config demo_lock (Token RUSD) 1 30 demo_state)"

lemma demo_set_lock: "set_lock demo_config demo_lock (Token RUSD) 1 30 demo_state = (Inr (), demo_locked)"
  by (simp add: demo_locked_def tokens_eval)

lemma demo_locked_inv: "tokens_inv demo_config demo_locked"
  using set_lock_inv [OF demo_set_lock demo_config_runtime demo_inv] .

text \<open>The state after account 1 sent 30 to account 2.\<close>

definition demo_sent :: "(nat, currency_id, reserve_identifier, unit) tokens_state" where
  "demo_sent = snd (do_transfer demo_config (Token RUSD) 1 2 30 KeepAlive demo_locked)"

lemma demo_transfer: "do_transfer demo_config (Token RUSD) 1 2 30 KeepAlive demo_locked = (Inr (), demo_sent)"
  by (simp add: demo_sent_def demo_locked_def tokens_eval)

lemma demo_hooks: "unit_hooks demo_config"
  using demo_config_runtime by (rule runtime_configD)

section \<open>Invariant\<close>

text \<open>
  (C1) In every state reached from a genesis state of the runtime's tokens pallet by any sequence of
  successful operations of \<open>tokens_step\<close> (the dispatchable calls, the multi-currency, reservation, named
  reservation and lock interfaces, the minting, burning, transferring and holding functions of the
  fungibles traits, the transfer of all currencies, and the operations of the adapter with their
  imbalances dropped): the issuance of every currency is exactly the sum of what the accounts hold, free
  and reserved; the frozen amount of every account is the largest of its locks; lock identifiers are
  distinct and within capacity; named reserves are strictly sorted and within capacity. Not among the
  steps are the functions that are meant to change only one side (\<open>set_total_issuance\<close>, \<open>write_balance\<close>,
  \<open>decrease_balance\<close>), imbalances that are still outstanding, and the lock operations of the adapter on a
  full lock vector, which do break the frozen amount.
\<close>

theorem tokens_reachable_inv:
  assumes "genesis_build cfg bs (empty_tokens_state sys) = Some s0" and "runtime_config cfg"
    and "(tokens_step cfg)\<^sup>*\<^sup>* s0 s"
  shows "all_balanced (ledger_of s) \<and> locks_wf cfg s \<and> reserves_wf cfg s"
proof -
  have "tokens_inv cfg s"
    using assms(3)
  proof (induction rule: rtranclp_induct)
    case base
    show ?case using genesis_build_inv [OF assms(1,2)] .
  next
    case (step s t)
    then show ?case using tokens_step_inv assms(2) by blast
  qed
  then show ?thesis by (simp add: tokens_inv_def)
qed

theorem tokens_reachable_inv_witness:
  "all_balanced (ledger_of demo_locked) \<and> locks_wf demo_config demo_locked \<and> reserves_wf demo_config demo_locked"
  using tokens_reachable_inv [OF demo_genesis demo_config_runtime, of demo_locked]
    step_set_lock [OF demo_set_lock] by (simp add: r_into_rtranclp)

section \<open>Transfers\<close>

text \<open>
  (C5) A successful transfer of a positive amount between two accounts is the transfer of the
  ledger: the amount leaves the sender's free balance and reaches the recipient's, whose word does
  not overflow; nothing else is held or issued differently; locks and named reserves are as before;
  and what the sender keeps covers its frozen amount.
\<close>

theorem transfer_refines_ledger:
  assumes "do_transfer cfg c from to amount er s = (Inr u, t)" and "unit_hooks cfg" and "amount \<noteq> 0" and "from \<noteq> to"
  shows "ledger_of t = ledger_transfer c from to (unat amount) (ledger_of s) \<and>
    unat amount + unat (frozen (accounts s from c)) \<le> unat (free (accounts s from c)) \<and>
    unat (free (accounts s to c)) + unat amount < 2 ^ 128 \<and>
    Locks t = Locks s \<and> Reserves t = Reserves s"
  using do_transfer_effect [OF assms] by (simp add: frozen_of_def locks_and_reserves_def)

theorem transfer_refines_ledger_witness:
  "ledger_of demo_sent = ledger_transfer (Token RUSD) 1 2 30 (ledger_of demo_locked) \<and> Locks demo_sent = Locks demo_locked"
  using transfer_refines_ledger [OF demo_transfer demo_hooks] by simp

text \<open>
  (C12) The result of a transfer of a positive amount between two accounts, on every branch and in the
  order the code checks them: too little free balance, overflow of the recipient's balance, a
  recipient left below the existential deposit, frozen funds, a sender that would be reaped against
  the existence requirement or the system's provider references; otherwise success.
\<close>

theorem transfer_result:
  assumes "unit_hooks cfg" and "amount \<noteq> 0" and "from \<noteq> to"
    and "fa = accounts s from c" and "ta = accounts s to c"
  shows "fst (do_transfer cfg c from to amount er s) =
    (if free fa < amount then Inl (tokens_fail TK_BalanceTooLow)
     else if checked_add (free ta) amount = None then Inl (Arithmetic AE_Overflow)
     else if total (ta\<lparr>free := free ta + amount\<rparr>) < ExistentialDeposits cfg c \<and> \<not> DustRemovalWhitelist cfg to
       then Inl (tokens_fail TK_ExistentialDeposit)
     else if free fa - amount < frozen fa then Inl (tokens_fail TK_LiquidityRestrictions)
     else if (er = KeepAlive \<or> \<not> can_dec_provider cfg from (tk_system s)) \<and>
        would_be_dead cfg c from (fa\<lparr>free := free fa - amount\<rparr>)
       then Inl (tokens_fail TK_KeepAlive)
     else Inr ())"
  by (rule do_transfer_result [OF assms])

theorem transfer_result_witness:
  "fst (do_transfer demo_config (Token RUSD) 1 2 90 AllowDeath demo_locked) = Inl (tokens_fail TK_LiquidityRestrictions)"
  using transfer_result [OF demo_hooks, of 90 1 2 "accounts demo_locked 1 (Token RUSD)" demo_locked "Token RUSD"
      "accounts demo_locked 2 (Token RUSD)" AllowDeath]
  by (simp add: demo_locked_def tokens_eval)

text \<open>
  A transfer that fails leaves the storage as it was, also when the caller does not roll back.
\<close>

theorem transfer_error_unchanged:
  assumes "do_transfer cfg c from to amount er s = (Inl e, t)" and "unit_hooks cfg"
  shows "t = s"
  by (rule do_transfer_error_unchanged [OF assms])

lemma demo_transfer_fails:
  "do_transfer demo_config (Token RUSD) 1 2 90 AllowDeath demo_locked =
     (Inl (tokens_fail TK_LiquidityRestrictions), demo_locked)"
  by (simp add: demo_locked_def tokens_eval)

theorem transfer_error_unchanged_witness:
  "snd (do_transfer demo_config (Token RUSD) 1 2 90 AllowDeath demo_locked) = demo_locked"
  using transfer_error_unchanged [OF demo_transfer_fails demo_hooks] demo_transfer_fails by simp

section \<open>Locks\<close>

text \<open>
  (C13) Locked funds stay: after a successful transfer or withdrawal from an account, its free balance
  still covers every lock on it.
\<close>

theorem locked_funds_stay:
  assumes "tokens_inv cfg s" and "runtime_config cfg" and "l \<in> set (locks s who c)" and "amount \<noteq> 0"
    and "(to \<noteq> who \<and> do_transfer cfg c who to amount er s = (Inr u, t)) \<or> do_withdraw cfg c who amount er change s = (Inr u, t)"
  shows "l \<in> set (locks t who c) \<and> lock_amount l \<le> free_balance t c who"
proof -
  note hooks = runtime_configD(1) [OF assms(2)]
  have "frozen_of s who c = max_lock (locks s who c)"
    using assms(1) by (simp add: tokens_inv_def locks_wf_def)
  then have le: "unat (lock_amount l) \<le> unat (frozen_of s who c)"
    using max_lock_ge [OF assms(3)] by (simp add: word_le_nat_alt)
  have "locks_and_reserves t = locks_and_reserves s \<and>
    unat (free (accounts t who c)) = unat (free (accounts s who c)) - unat amount \<and>
    unat amount + unat (frozen_of s who c) \<le> unat (free (accounts s who c))"
    using assms(5)
  proof
    assume tr: "to \<noteq> who \<and> do_transfer cfg c who to amount er s = (Inr u, t)"
    then have "who \<noteq> to" by auto
    note eff = do_transfer_effect [OF conjunct2 [OF tr] hooks assms(4) this]
    show ?thesis
      using eff(2,4) arg_cong [where f = "\<lambda>l. held_free l c who", OF eff(1)] \<open>who \<noteq> to\<close> by (simp add: ledger_transfer_def)
  next
    assume "do_withdraw cfg c who amount er change s = (Inr u, t)"
    note eff = do_withdraw_effect [OF this hooks assms(4)]
    show ?thesis
      using eff(2,3) arg_cong [where f = "\<lambda>l. held_free l c who", OF eff(1)] by (simp add: ledger_debit_def ledger_burn_def split: if_splits)
  qed
  with le assms(3) show ?thesis
    by (auto simp: free_balance_def word_le_nat_alt locks_and_reserves_def locks_def)
qed

lemma demo_lock_set: "\<lparr>lock_id = demo_lock, lock_amount = 30\<rparr> \<in> set (locks demo_locked 1 (Token RUSD))"
  by (simp add: demo_locked_def tokens_eval)

theorem locked_funds_stay_witness:
  "30 \<le> free_balance demo_sent (Token RUSD) 1"
  using locked_funds_stay [OF demo_locked_inv demo_config_runtime demo_lock_set, of 30 2 KeepAlive "()" demo_sent] demo_transfer
  by simp

text \<open>
  (C14) The locks of an account are a map from identifiers to amounts: setting a lock writes the amount
  under its identifier, extending one writes the larger of the old and the new amount, removing one
  deletes the entry; the other identifiers and every balance are as before.
\<close>

theorem lock_operations:
  assumes "tokens_inv cfg s" and "runtime_config cfg" and "amount \<noteq> 0"
  shows "(\<forall>u t. set_lock cfg i c who amount s = (Inr u, t) \<longrightarrow>
        locked_under t who c = (locked_under s who c)(i \<mapsto> amount) \<and> ledger_of t = ledger_of s) \<and>
    (\<forall>u t. extend_lock cfg i c who amount s = (Inr u, t) \<longrightarrow>
        locked_under t who c = (locked_under s who c)(i \<mapsto> max (unwrap_or (locked_under s who c i) 0) amount) \<and>
        ledger_of t = ledger_of s) \<and>
    (\<forall>u t. remove_lock cfg i c who s = (Inr u, t) \<longrightarrow>
        locked_under t who c = (locked_under s who c)(i := None) \<and> ledger_of t = ledger_of s)"
proof -
  note sl = set_lock_effect [OF _ runtime_configD [OF assms(2)] tokens_invD(2) [OF assms(1)] assms(3)]
    and el = extend_lock_effect [OF _ runtime_configD [OF assms(2)] tokens_invD(2) [OF assms(1)] assms(3)]
    and rl = remove_lock_effect [OF _ runtime_configD [OF assms(2)] tokens_invD(2) [OF assms(1)]]
  show ?thesis
    by (intro conjI allI impI) (erule sl(4) sl(2) el(4) el(2) rl(4) rl(2))+
qed

theorem lock_operations_witness:
  "locked_under demo_locked 1 (Token RUSD) = (locked_under demo_state 1 (Token RUSD))(demo_lock \<mapsto> 30)"
  using lock_operations [OF demo_inv demo_config_runtime, of 30 demo_lock "Token RUSD" 1] demo_set_lock by auto

text \<open>
  (C15) The adapter ignores the error of a lock operation, and the pallet has already frozen the new
  maximum when it finds the vector of locks full: with \<open>MaxLocks\<close> locks of smaller amounts in place,
  setting one more through the adapter stores no lock but freezes its whole amount, which breaks
  the agreement between the frozen amount and the locks.
\<close>

theorem adapter_set_lock_full:
  assumes "tokens_inv cfg s" and "runtime_config cfg" and "length (locks s who c) = unat (MaxLocks cfg)"
    and "i \<notin> lock_id ` set (locks s who c)" and "max_lock (locks s who c) < amount"
  shows "locks (adapter_set_lock cfg i c who amount s) who c = locks s who c \<and>
    frozen (accounts (adapter_set_lock cfg i c who amount s) who c) = amount \<and>
    \<not> locks_wf cfg (adapter_set_lock cfg i c who amount s)"
proof -
  note hooks = runtime_configD(1) [OF assms(2)] and ed = runtime_configD(2) [OF assms(2), of c]
  let ?ls = "locks s who c @ [\<lparr>lock_id = i, lock_amount = amount\<rparr>]"
  let ?f = "\<lambda>account (_::bool) s. (((frozen account, max_lock ?ls), account\<lparr>frozen := max_lock ?ls\<rparr>), s)"
  define t where "t = adapter_set_lock cfg i c who amount s"
  have d: "distinct (map lock_id (locks s who c))" using assms(1) by (simp add: tokens_inv_def locks_wf_def)
  have ls: "place_or_push i (\<lambda>_ nl. nl) \<lparr>lock_id = i, lock_amount = amount\<rparr> (locks s who c) = ?ls"
    using assms(4) by (simp add: place_or_push_eq [OF d])
  have "amount \<noteq> 0" using assms(5) by auto
  then have t: "t = snd (mutate_account cfg who c ?f s)"
    using assms(3) by (simp add: t_def adapter_set_lock_def set_lock_def ls Let_def bind_op_def update_locks_def case_prod_beta)
  note eff = mutate_account_effect [OF hooks, where who = who and c = c and s = s and f = ?f, OF refl refl refl refl, folded t]
  have max: "max_lock ?ls = amount" using assms(5) by (simp add: max_lock_def)
  have "locks t who c = locks s who c" using eff(3) by (simp add: locks_def locks_and_reserves_def)
  moreover have "frozen (accounts t who c) = amount"
    using eff(4) [OF ed] max by (simp add: frozen_of_def fun_eq_iff)
  moreover have "\<not> locks_wf cfg t"
  proof
    assume "locks_wf cfg t"
    then have "frozen_of t who c = max_lock (locks t who c)" by (simp add: locks_wf_def)
    with calculation assms(5) show False by (simp add: frozen_of_def)
  qed
  ultimately show ?thesis by (simp flip: t_def)
qed

text \<open>A configuration with room for one lock, in which account 1 has one.\<close>

definition one_lock_config :: "(nat, currency_id, reserve_identifier, unit) tokens_config" where
  "one_lock_config = demo_config\<lparr>MaxLocks := 1\<rparr>"

lemma one_lock_runtime: "runtime_config one_lock_config"
  using demo_config_runtime by (simp add: one_lock_config_def runtime_config_def unit_hooks_def)

lemma one_lock_inv: "tokens_inv one_lock_config demo_locked"
proof -
  have set: "set_lock one_lock_config demo_lock (Token RUSD) 1 30 demo_state = (Inr (), demo_locked)"
    by (simp add: demo_locked_def one_lock_config_def tokens_eval)
  have "tokens_inv one_lock_config demo_state"
    using genesis_build_inv [of one_lock_config "[(1, Token RUSD, 100), (2, Token RUSD, 50)]" "()" demo_state] one_lock_runtime
    by (simp add: one_lock_config_def tokens_eval)
  then show ?thesis by (rule set_lock_inv [OF set one_lock_runtime])
qed

theorem adapter_set_lock_full_witness:
  "frozen (accounts (adapter_set_lock one_lock_config [9] (Token RUSD) 1 80 demo_locked) 1 (Token RUSD)) = 80"
  using adapter_set_lock_full [OF one_lock_inv one_lock_runtime, of 1 "Token RUSD" "[9]" 80]
  by (simp add: demo_locked_def tokens_eval demo_lock_def one_lock_config_def)

section \<open>Reserves and slashing\<close>

text \<open>
  (C16) Reserving an amount under a name and unreserving it again under the name restores every balance
  and the amount under the name, with nothing left over, when the amount already under the name is
  backed by the reserved balance.
\<close>

theorem named_reserve_roundtrip:
  assumes "tokens_inv cfg s" and "runtime_config cfg" and "value \<noteq> 0"
    and "unat (reserved_balance_named s i c who) \<le> unat (reserved_balance s c who)"
    and "reserve_named cfg i c who value s = (Inr u, s1)" and "unreserve_named cfg i c who value s1 = (rest, t)"
  shows "rest = 0 \<and> ledger_of t = ledger_of s \<and>
    reserved_balance_named t i c who = reserved_balance_named s i c who"
proof -
  note hooks = runtime_configD(1) [OF assms(2)] and wf = tokens_invD(3) [OF assms(1)]
  note r = reserve_named_effect [OF assms(5) hooks wf assms(3)]
  from r(4) obtain s' where s': "reserve cfg c who value s = (Inr (), s')" "ledger_of s1 = ledger_of s'" by auto
  note e = reserve_effect [OF s'(1) hooks assms(3)]
  let ?f = "unat (free (accounts s who c))" and ?r = "unat (reserved (accounts s who c))"
  have fr: "unat value \<le> ?f" "?f + ?r < 2 ^ 128"
    using e(2) all_balancedD(1) [OF tokens_invD(1) [OF assms(1)], of who c] unat_u128 [of "total_issuance s c"] by linarith+
  then have led1: "ledger_of s1 = put_holding c who (?f - unat value) (?r + unat value) (ledger_of s)"
    using e(1) by (simp add: s'(2))
  have acc1: "unat (free (accounts s1 who c)) = ?f - unat value" "unat (reserved (accounts s1 who c)) = ?r + unat value"
    using arg_cong [where f = "\<lambda>l. (held_free l c who, held_reserved l c who)", OF led1] by simp_all
  have named1: "unat (reserved_balance_named s1 i c who) = unat (reserved_balance_named s i c who) + unat value"
    using fr assms(4) by (simp add: reserved_balance_named_eq [OF r(1)] r(2) unat_saturating_add reserved_balance_def)
  define n where "n = min (unat (reserved (accounts s1 who c))) (unat (min (reserved_balance_named s1 i c who) value))"
  have n: "n = unat value" using named1 acc1 by (simp add: n_def unat_min)
  note un = unreserve_named_effect [OF assms(6) hooks r(1) refl n_def]
  have "ledger_of t = ledger_of s"
    using un acc1 fr by (simp add: n led1)
  moreover have "unat rest = 0" using un n by simp
  ultimately show ?thesis using un n named1 by (simp add: word_eq_unat)
qed

text \<open>Account 1 reserves 40 under the storage deposit, and takes it back.\<close>

definition demo_reserved :: "(nat, currency_id, reserve_identifier, unit) tokens_state" where
  "demo_reserved = snd (reserve_named demo_config EvmStorageDeposit (Token RUSD) 1 40 demo_locked)"

lemma demo_reserve_named:
  "reserve_named demo_config EvmStorageDeposit (Token RUSD) 1 40 demo_locked = (Inr (), demo_reserved)"
  by (simp add: demo_reserved_def demo_locked_def tokens_eval)

theorem named_reserve_roundtrip_witness:
  "fst (unreserve_named demo_config EvmStorageDeposit (Token RUSD) 1 40 demo_reserved) = 0"
proof -
  have "reserved_balance_named demo_locked EvmStorageDeposit (Token RUSD) 1 = 0"
    by (simp add: reserved_balance_named_def demo_locked_def tokens_eval)
  then show ?thesis
    using named_reserve_roundtrip [OF demo_locked_inv demo_config_runtime _ _ demo_reserve_named, of
        "fst (unreserve_named demo_config EvmStorageDeposit (Token RUSD) 1 40 demo_reserved)"
        "snd (unreserve_named demo_config EvmStorageDeposit (Token RUSD) 1 40 demo_reserved)"]
    by simp
qed

text \<open>
  A slash takes exactly the smaller of the amount and the account's total, from the free part
  first, burns it from the issuance, and returns what could not be slashed; a slash of the reserved
  part does the same with that part alone. No other account changes.
\<close>

theorem slash_exact:
  assumes "tokens_inv cfg s" and "runtime_config cfg"
    and "slash cfg c who amount s = (rest, t)" and "slash_reserved cfg c who value s = (rest', t')"
  shows "ledger_of t = ledger_slash_funds c who (unat amount) (ledger_of s) \<and>
    unat rest = unat amount - unat (total_balance s c who) \<and>
    unat (total_issuance t c) = unat (total_issuance s c) - min (unat amount) (unat (total_balance s c who)) \<and>
    ledger_of t' = ledger_burn c (min (unat (reserved_balance s c who)) (unat value))
      (ledger_slash_reserved c who (min (unat (reserved_balance s c who)) (unat value)) (ledger_of s)) \<and>
    unat rest' = unat value - unat (reserved_balance s c who)"
proof -
  note hooks = runtime_configD(1) [OF assms(2)]
  note a = slash_effect [OF assms(3) hooks] and b = slash_reserved_effect [OF assms(4) hooks]
  have "min f n + min r (n - min f n) = min n (f + r)" for f r n :: nat by auto
  then have "unat (total_issuance t c) = unat (total_issuance s c) - min (unat amount) (unat (total_balance s c who))"
    using arg_cong [where f = "\<lambda>l. issued l c", OF a(1)]
    by (auto simp: ledger_slash_funds_def ledger_burn_def Let_def total_balance_def total_exact [OF tokens_invD(1) [OF assms(1)]])
  with a(1,2) b(1,2) show ?thesis
    by (simp add: total_balance_def reserved_balance_def total_exact [OF tokens_invD(1) [OF assms(1)]])
qed

theorem slash_exact_witness:
  "unat (fst (slash demo_config (Token RUSD) 1 130 demo_state)) = 30"
  using slash_exact [OF demo_inv demo_config_runtime, of "Token RUSD" 1 130
      "fst (slash demo_config (Token RUSD) 1 130 demo_state)" "snd (slash demo_config (Token RUSD) 1 130 demo_state)"
      0 0 demo_state]
  by (simp add: slash_reserved_def total_balance_def demo_state_def accounts_def total_def saturating_add_def)

text \<open>
  (C17) The root call that sets the balances of an account gives it exactly the free and reserved
  balance asked for and moves the issuance by the difference, so that the currency stays balanced; it
  succeeds only for root and a known account.
\<close>

theorem set_balance_exact:
  assumes "tokens_inv cfg s" and "runtime_config cfg"
    and "set_balance_call lookup cfg orig source c new_free new_reserved s = (Inr u, t)"
  shows "\<exists>who. orig = Root \<and> lookup source = Inr who \<and>
    free_balance t c who = new_free \<and> reserved_balance t c who = new_reserved \<and>
    unat (total_issuance t c) + unat (total_balance s c who) =
      unat (total_issuance s c) + unat new_free + unat new_reserved \<and>
    all_balanced (ledger_of t)"
proof -
  from assms(3) obtain who where who: "orig = Root" "lookup source = Inr who"
    and op: "set_balance_account cfg c who new_free new_reserved s = (Inr (), t)"
    by (auto simp: set_balance_call_def op_simps)
  let ?h = "unat (free (accounts s who c)) + unat (reserved (accounts s who c))"
  define N where "N = unat (total_issuance s c) - ?h"
  have N: "unat (total_issuance s c) = N + unat (free (accounts s who c)) + unat (reserved (accounts s who c))"
    using all_balancedD(1) [OF tokens_invD(1) [OF assms(1)], of who c] by (simp add: N_def)
  note eff = set_balance_account_effect [OF op runtime_configD(1) [OF assms(2)] N]
  have "ledger_of t = put_holding c who (unat new_free) (unat new_reserved)
      (put_issued c (N + (unat new_free + unat new_reserved)) (ledger_of s))"
    using eff(1) by (simp add: runtime_configD(2) [OF assms(2)])
  from arg_cong [where f = "\<lambda>l. (held_free l c who, held_reserved l c who, issued l c)", OF this]
  show ?thesis
    using who tokens_invD(1) [OF set_balance_account_inv [OF op assms(2,1)]] N
    by (auto simp: free_balance_def reserved_balance_def total_balance_def word_eq_unat
        total_exact [OF tokens_invD(1) [OF assms(1)]])
qed

lemma demo_set_balance:
  "set_balance_call (\<lambda>a. Inr a) demo_config Root 2 (Token RUSD) 7 8 demo_state =
     (Inr (), snd (set_balance_call (\<lambda>a. Inr a) demo_config Root 2 (Token RUSD) 7 8 demo_state))"
  by (simp add: set_balance_call_def tokens_eval)

theorem set_balance_exact_witness:
  "free_balance (snd (set_balance_call (\<lambda>a. Inr a) demo_config Root 2 (Token RUSD) 7 8 demo_state)) (Token RUSD) 2 = 7"
  using set_balance_exact [OF demo_inv demo_config_runtime demo_set_balance] by auto

section \<open>Predicted and actual outcomes\<close>

lemma do_withdraw_result:
  "fst (do_withdraw cfg c who amount er change s) =
    (if amount = 0 then Inr ()
     else if free (accounts s who c) < amount then Inl (tokens_fail TK_BalanceTooLow)
     else if free (accounts s who c) - amount < frozen (accounts s who c) then Inl (tokens_fail TK_LiquidityRestrictions)
     else if er = KeepAlive \<and>
        would_be_dead cfg c who ((accounts s who c)\<lparr>free := free (accounts s who c) - amount\<rparr>) \<and>
        (ExistentialDeposits cfg c \<le> total (accounts s who c) \<or> total (accounts s who c) \<noteq> 0)
       then Inl (tokens_fail TK_KeepAlive)
     else Inr ())"
  by (simp add: do_withdraw_def op_fst try_mutate_account_fst Let_def checked_sub_def case_prod_beta
      ensure_can_withdraw_def free_balance_def saturating_sub_def split: sum.splits)
    (cases er; auto simp: not_le not_less)

text \<open>
  \<open>can_withdraw\<close> predicts what a withdrawal that may kill the account does: it succeeds when the
  prediction is success or reduction to zero, and fails with too little balance or with frozen funds
  exactly when that is predicted; the predictions of an underflow of the issuance and of a needed
  provider are stricter than the withdrawal, which ignores them.
\<close>

theorem can_withdraw_predicts:
  "case can_withdraw cfg s c who amount of
     WC_Success \<Rightarrow> fst (do_withdraw cfg c who amount AllowDeath change s) = Inr ()
   | WC_ReducedToZero _ \<Rightarrow> fst (do_withdraw cfg c who amount AllowDeath change s) = Inr ()
   | WC_BalanceLow \<Rightarrow> fst (do_withdraw cfg c who amount AllowDeath change s) = Inl (tokens_fail TK_BalanceTooLow)
   | WC_Frozen \<Rightarrow> fst (do_withdraw cfg c who amount AllowDeath change s) = Inl (tokens_fail TK_LiquidityRestrictions)
   | WC_Underflow \<Rightarrow> unat (total_issuance s c) < unat amount
   | WC_WouldDie \<Rightarrow> unat amount \<le> unat (total (accounts s who c)) \<and> \<not> can_dec_provider cfg who (tk_system s)"
proof -
  let ?a = "accounts s who c"
  have "unat (free ?a) \<le> unat (total ?a)" using unat_u128 [of "free ?a"] by (simp add: total_def unat_saturating_add)
  then show ?thesis
    by (auto simp: can_withdraw_def withdraw_consequence_def do_withdraw_result checked_sub_def unat_order)
qed

text \<open>
  Transferring all of a currency to another account always succeeds in the runtime's
  configuration, whether or not the account is to be kept alive, and leaves the sender with exactly
  the frozen part of its free balance.
\<close>

theorem transfer_all_leaves_frozen:
  assumes "tokens_inv cfg s" and "runtime_config cfg" and "lookup dest = Inr to" and "to \<noteq> from"
    and "transfer_all_call lookup cfg (Signed from) dest c keep_alive s = (r, t)"
  shows "r = Inr () \<and> free_balance t c from = min (free_balance s c from) (frozen (accounts s from c)) \<and>
    unat (free_balance t c to) = unat (free_balance s c to) + (unat (free_balance s c from) - unat (frozen (accounts s from c)))"
proof -
  note hooks = runtime_configD(1) [OF assms(2)] and ed = runtime_configD(2) [OF assms(2)]
  let ?fa = "accounts s from c" and ?ta = "accounts s to c"
  define amount where "amount = saturating_sub (free ?fa) (frozen ?fa)"
  define er where "er = (if keep_alive then KeepAlive else AllowDeath)"
  have red: "reducible_balance cfg s c from pr = amount" for pr
    by (simp add: reducible_balance_def ed amount_def Let_def saturating_sub_def)
  obtain r' t' where tr: "do_transfer cfg c from to amount er s = (r', t')" by (cases "do_transfer cfg c from to amount er s")
  have call: "r = r' \<and> t = t'"
    using assms(3,5) tr
    by (cases keep_alive; cases r')
      (auto simp: transfer_all_call_def bind_op_def pure_def Let_def red fungibles_transfer_def er_def ok_def)
  show ?thesis
  proof (cases "amount = 0")
    case True
    then have "unat (free ?fa) \<le> unat (frozen ?fa)"
      by (metis amount_def diff_is_0_eq unat_saturating_sub unat_0)
    with True tr call show ?thesis
      by (auto simp: do_transfer_def ok_def free_balance_def word_eq_unat unat_min)
  next
    case False
    have amt: "unat amount = unat (free ?fa) - unat (frozen ?fa)" by (simp add: amount_def unat_saturating_sub)
    have "unat amount \<noteq> 0" using False by (metis unat_eq_zero)
    have "unat (free ?ta) + unat amount < 2 ^ 128"
      using all_balancedD(2) [OF tokens_invD(1) [OF assms(1)] assms(4) [symmetric], of c] amt
        unat_u128 [of "total_issuance s c"] by linarith
    moreover have "\<not> free ?fa - amount < frozen ?fa" "\<not> free ?fa < amount"
      using amt \<open>unat amount \<noteq> 0\<close> by (auto simp: word_less_nat_alt unat_sub_if_size)
    ultimately have "r' = Inr ()"
      using do_transfer_result [OF hooks False assms(4) [symmetric] refl refl, where s = s and c = c and er = er] tr
      by (simp add: ed would_be_dead_def checked_add_def)
    moreover from this tr have tr': "do_transfer cfg c from to amount er s = (Inr (), t')" by simp
    note eff = do_transfer_effect [OF tr' hooks False assms(4) [symmetric]]
    from arg_cong [where f = "\<lambda>l. (held_free l c from, held_free l c to)", OF eff(1)] assms(4)
    have "unat (free (accounts t' from c)) = unat (free ?fa) - unat amount"
      "unat (free (accounts t' to c)) = unat (free ?ta) + unat amount"
      by (simp_all add: ledger_transfer_def)
    ultimately show ?thesis
      using call amt \<open>unat amount \<noteq> 0\<close> by (auto simp: free_balance_def word_eq_unat unat_min)
  qed
qed

theorem transfer_all_leaves_frozen_witness:
  "free_balance (snd (transfer_all_call (\<lambda>a. Inr a) demo_config (Signed 1) 2 (Token RUSD) True demo_locked)) (Token RUSD) 1 = 30"
  using transfer_all_leaves_frozen [OF demo_locked_inv demo_config_runtime, of "\<lambda>a. Inr a" 2 2 1 "Token RUSD" True
      "fst (transfer_all_call (\<lambda>a. Inr a) demo_config (Signed 1) 2 (Token RUSD) True demo_locked)"
      "snd (transfer_all_call (\<lambda>a. Inr a) demo_config (Signed 1) 2 (Token RUSD) True demo_locked)"]
  by (simp add: demo_locked_def tokens_eval)

section \<open>Imbalances of the adapter\<close>

text \<open>
  (C18) The imbalance an operation of the adapter returns is exactly the imbalance it leaves in the
  ledger: a withdrawal and a slash leave issued money that no account holds, a deposit leaves held
  money that was not issued. Dropping the returned object makes the currency balanced again.
\<close>

theorem adapter_imbalances_settle:
  assumes "all_balanced (ledger_of s)" and "runtime_config cfg"
  shows "(\<forall>n t. adapter_withdraw cfg c who v er s = (Inr n, t) \<longrightarrow>
        imbalance (ledger_of t) c = int (unat (negative_peek n)) \<and> all_balanced (ledger_of (drop_negative c n t))) \<and>
    (\<forall>p t. adapter_deposit_into_existing cfg c who v s = (Inr p, t) \<longrightarrow>
        imbalance (ledger_of t) c = - int (unat (positive_peek p)) \<and> all_balanced (ledger_of (drop_positive c p t))) \<and>
    (\<forall>n rest t. adapter_slash cfg c who v s = ((n, rest), t) \<longrightarrow>
        imbalance (ledger_of t) c = int (unat (negative_peek n)) \<and> all_balanced (ledger_of (drop_negative c n t)))"
proof (intro conjI allI impI)
  note hooks = runtime_configD(1) [OF assms(2)]
  fix n t assume "adapter_withdraw cfg c who v er s = (Inr n, t)"
  from adapter_withdraw_ledger [OF this hooks]
  show "imbalance (ledger_of t) c = int (unat (negative_peek n))" "all_balanced (ledger_of (drop_negative c n t))"
    using settle_negative [OF assms(1), of t c who _ _ v] by auto
next
  note hooks = runtime_configD(1) [OF assms(2)]
  fix p t assume "adapter_deposit_into_existing cfg c who v s = (Inr p, t)"
  from adapter_deposit_ledger [OF this hooks assms(1)]
  show "imbalance (ledger_of t) c = - int (unat (positive_peek p))" "all_balanced (ledger_of (drop_positive c p t))"
    using settle_positive [OF assms(1), of t c who _ _ v] by auto
next
  note hooks = runtime_configD(1) [OF assms(2)]
  fix n rest t assume "adapter_slash cfg c who v s = ((n, rest), t)"
  from adapter_slash_ledger [OF this hooks assms(1)]
  have "imbalance (ledger_of t) c = int (unat (negative_peek n)) \<and>
      all_balanced (ledger_of (drop_negative c (NegativeImbalance (negative_peek n)) t))"
    using settle_negative [OF assms(1), of t c who _ _ "negative_peek n"] by auto
  then show "imbalance (ledger_of t) c = int (unat (negative_peek n))" "all_balanced (ledger_of (drop_negative c n t))"
    by (cases n, simp)+
qed

lemma demo_adapter_slash:
  "adapter_slash demo_config (Token RUSD) 1 130 demo_state =
     ((NegativeImbalance 100, 30), snd (adapter_slash demo_config (Token RUSD) 1 130 demo_state))"
  by (simp add: adapter_slash_def tokens_eval)

theorem adapter_imbalances_settle_witness:
  "imbalance (ledger_of (snd (adapter_slash demo_config (Token RUSD) 1 130 demo_state))) (Token RUSD) = 100"
  using adapter_imbalances_settle [OF tokens_invD(1) [OF demo_inv] demo_config_runtime, of "Token RUSD" 1 130 AllowDeath,
      THEN conjunct2, THEN conjunct2, rule_format, OF demo_adapter_slash]
  by simp

end
