(* ===== verification/Tokens_Currency.thy ===== *)
theory Tokens_Currency
  imports Currency_Contract Tokens_Adapter
begin

text \<open>
  The adapter of the tokens pallet as the currency of another pallet, and the proof that it
  satisfies the contract of \<open>Currency_Contract\<close> on the states that satisfy the invariant of the
  tokens pallet.
\<close>

definition adapter_currency ::
  "('acc, 'cur, 'rid, 's) tokens_config \<Rightarrow> 'cur \<Rightarrow> ('acc, ('acc, 'cur, 'rid, 's) tokens_state) currency" where
  "adapter_currency cfg c =
     \<lparr>cur_withdraw = (\<lambda>who v er. bind_op (adapter_withdraw cfg c who v er) (\<lambda>n. ok (negative_peek n))),
      cur_deposit_into_existing =
        (\<lambda>who v. bind_op (adapter_deposit_into_existing cfg c who v) (\<lambda>p. ok (positive_peek p))),
      cur_drop_negative = (\<lambda>n. drop_negative c (NegativeImbalance n)),
      cur_drop_positive = (\<lambda>n. drop_positive c (PositiveImbalance n)),
      cur_reserve = reserve cfg c,
      cur_unreserve = unreserve cfg c,
      cur_total_issuance = (\<lambda>s. total_issuance s c),
      cur_free_balance = (\<lambda>s who. free_balance s c who),
      cur_reserved_balance = (\<lambda>s who. reserved_balance s c who)\<rparr>"

lemma adapter_withdraw_drop:
  "withdraw_and_drop (adapter_currency cfg c) who v er s = (Inr u, t) \<longleftrightarrow>
     (\<exists>s1. do_withdraw cfg c who v er False s = (Inr (), s1) \<and> t = drop_negative c (NegativeImbalance v) s1)"
  by (auto simp: withdraw_and_drop_def adapter_currency_def adapter_withdraw_def op_simps)

lemma adapter_deposit_drop:
  "deposit_and_drop (adapter_currency cfg c) who v s = (Inr u, t) \<longleftrightarrow>
     (\<exists>w s1. do_deposit cfg c who v True False s = (Inr w, s1) \<and> t = drop_positive c (PositiveImbalance v) s1)"
  by (auto simp: deposit_and_drop_def adapter_currency_def adapter_deposit_into_existing_def op_simps)

lemma do_withdraw_frames:
  assumes "do_withdraw cfg c who v er change s = (Inr u, t)" and "runtime_config cfg"
  shows "locks_and_reserves t = locks_and_reserves s \<and> frozen_of t = frozen_of s"
  using do_withdraw_effect(3,4) [OF assms(1) runtime_configD(1) [OF assms(2)]] runtime_configD(2) [OF assms(2)] assms(1)
  by (cases "v = 0") (auto simp: do_withdraw_def ok_def)

lemma do_deposit_frames:
  assumes "do_deposit cfg c who v ex change s = (Inr w, t)" and "runtime_config cfg"
  shows "locks_and_reserves t = locks_and_reserves s \<and> frozen_of t = frozen_of s"
  using do_deposit_effect(4,5) [OF assms(1) runtime_configD(1) [OF assms(2)]] runtime_configD(2) [OF assms(2)] assms(1)
  by (cases "v = 0") (auto simp: do_deposit_def ok_def)

lemma adapter_withdraw_law:
  assumes inv: "tokens_inv cfg s" and cfg: "runtime_config cfg"
    and op: "withdraw_and_drop (adapter_currency cfg c) who v er s = (Inr u, t)"
  shows "tokens_inv cfg t" and "ledger_of t = put_holding c who (unat (free (accounts s who c)) - unat v)
      (unat (reserved (accounts s who c))) (put_issued c (unat (total_issuance s c) - unat v) (ledger_of s))"
    and "unat v \<le> unat (free (accounts s who c))"
proof -
  from op obtain s1 where s1: "do_withdraw cfg c who v er False s = (Inr (), s1)"
    and t: "t = drop_negative c (NegativeImbalance v) s1" by (auto simp: adapter_withdraw_drop)
  then have w: "adapter_withdraw cfg c who v er s = (Inr (NegativeImbalance v), s1)"
    by (simp add: adapter_withdraw_def op_simps)
  note led = adapter_withdraw_ledger [OF w runtime_configD(1) [OF cfg]]
  then have "all_balanced (ledger_of t)"
    unfolding t by (intro settle_negative(2) [OF tokens_invD(1) [OF inv]]) auto
  then show "tokens_inv cfg t"
    using do_withdraw_frames [OF s1 cfg] by (intro tokens_inv_frame [OF inv]) (simp_all add: t)
  show "unat v \<le> unat (free (accounts s who c))" using led by simp
  have "total_issuance s1 c = total_issuance s c"
    using arg_cong [where f = "\<lambda>l. issued l c", OF conjunct1 [OF conjunct2 [OF led]]] by (simp add: word_eq_unat)
  then show "ledger_of t = put_holding c who (unat (free (accounts s who c)) - unat v)
      (unat (reserved (accounts s who c))) (put_issued c (unat (total_issuance s c) - unat v) (ledger_of s))"
    using led by (simp add: t unat_saturating_sub)
qed

lemma adapter_deposit_law:
  assumes inv: "tokens_inv cfg s" and cfg: "runtime_config cfg"
    and op: "deposit_and_drop (adapter_currency cfg c) who v s = (Inr u, t)"
  shows "tokens_inv cfg t" and "ledger_of t = put_holding c who (unat (free (accounts s who c)) + unat v)
      (unat (reserved (accounts s who c))) (put_issued c (unat (total_issuance s c) + unat v) (ledger_of s))"
proof -
  from op obtain w s1 where s1: "do_deposit cfg c who v True False s = (Inr w, s1)"
    and t: "t = drop_positive c (PositiveImbalance v) s1" by (auto simp: adapter_deposit_drop)
  then have d: "adapter_deposit_into_existing cfg c who v s = (Inr (PositiveImbalance v), s1)"
    by (simp add: adapter_deposit_into_existing_def op_simps)
  note led = adapter_deposit_ledger [OF d runtime_configD(1) [OF cfg] tokens_invD(1) [OF inv]]
  then have "all_balanced (ledger_of t)"
    unfolding t by (intro settle_positive(2) [OF tokens_invD(1) [OF inv] conjunct1 [OF conjunct2 [OF led]]]) auto
  then show "tokens_inv cfg t"
    using do_deposit_frames [OF s1 cfg] by (intro tokens_inv_frame [OF inv]) (simp_all add: t)
  have "total_issuance s1 c = total_issuance s c"
    using arg_cong [where f = "\<lambda>l. issued l c", OF conjunct1 [OF conjunct2 [OF led]]] by (simp add: word_eq_unat)
  then show "ledger_of t = put_holding c who (unat (free (accounts s who c)) + unat v)
      (unat (reserved (accounts s who c))) (put_issued c (unat (total_issuance s c) + unat v) (ledger_of s))"
    using led by (simp add: t unat_saturating_add)
qed

lemma do_deposit_error_unchanged:
  assumes "do_deposit cfg c who v ex change s = (Inl e, t)" and "unit_hooks cfg"
  shows "t = s"
  using assms
  by (auto simp: do_deposit_def unit_hooks_simps op_simps try_mutate_account_Inl split: if_splits)

text \<open>What one changed entry of the ledger means for the balances the contract speaks of.\<close>

lemma ledger_of_put:
  assumes "ledger_of t = put_holding c who f r (put_issued c n (ledger_of s))"
  shows "unat (total_issuance t c) = n"
    and "unat (free_balance t c a) = (if a = who then f else unat (free_balance s c a))"
    and "unat (reserved_balance t c a) = (if a = who then r else unat (reserved_balance s c a))"
  using arg_cong [where f = "\<lambda>l. (issued l c, held_free l c a, held_reserved l c a)", OF assms]
  by (simp_all add: free_balance_def reserved_balance_def)

lemma ledger_of_put_holding:
  assumes "ledger_of t = put_holding c who f r (ledger_of s)"
  shows "total_issuance t c = total_issuance s c"
    and "unat (free_balance t c a) = (if a = who then f else unat (free_balance s c a))"
    and "unat (reserved_balance t c a) = (if a = who then r else unat (reserved_balance s c a))"
  using arg_cong [where f = "\<lambda>l. (issued l c, held_free l c a, held_reserved l c a)", OF assms]
  by (simp_all add: free_balance_def reserved_balance_def word_eq_unat)

lemma reserve_ledger:
  assumes "reserve cfg c who v s = (Inr u, t)" and "unit_hooks cfg" and "all_balanced (ledger_of s)"
  shows "unat v \<le> unat (free (accounts s who c))" and "ledger_of t = ledger_reserve c who (unat v) (ledger_of s)"
proof -
  have "unat v \<le> unat (free (accounts s who c)) \<and> ledger_of t = ledger_reserve c who (unat v) (ledger_of s)"
  proof (cases "v = 0")
    case True
    with assms(1) show ?thesis by (simp add: reserve_def ok_def ledger_reserve_def)
  next
    case False
    note eff = reserve_effect [OF assms(1,2) False]
    then show ?thesis
      using all_balancedD(1) [OF assms(3), of who c] unat_u128 [of "total_issuance s c"]
      by (simp add: ledger_reserve_def)
  qed
  then show "unat v \<le> unat (free (accounts s who c))" and "ledger_of t = ledger_reserve c who (unat v) (ledger_of s)"
    by simp_all
qed

lemma unreserve_ledger:
  assumes "unreserve cfg c who v s = (r, t)" and "unit_hooks cfg" and "all_balanced (ledger_of s)"
  shows "unat r = unat v - unat (reserved (accounts s who c))"
    and "ledger_of t = ledger_unreserve c who (unat v - unat r) (ledger_of s)"
proof -
  note eff = unreserve_effect [OF assms(1,2)]
  show r: "unat r = unat v - unat (reserved (accounts s who c))" using eff(2) by auto
  then have "min (unat (reserved (accounts s who c))) (unat v) = unat v - unat r" by auto
  then show "ledger_of t = ledger_unreserve c who (unat v - unat r) (ledger_of s)"
    using eff(1) all_balancedD(1) [OF assms(3), of who c] unat_u128 [of "total_issuance s c"] r
    by (simp add: ledger_unreserve_def)
qed

lemma adapter_currency_sel [simp]:
  "cur_total_issuance (adapter_currency cfg c) s = total_issuance s c"
  "cur_free_balance (adapter_currency cfg c) s who = free_balance s c who"
  "cur_reserved_balance (adapter_currency cfg c) s who = reserved_balance s c who"
  "cur_reserve (adapter_currency cfg c) = reserve cfg c"
  "cur_unreserve (adapter_currency cfg c) = unreserve cfg c"
  by (simp_all add: adapter_currency_def)

lemma adapter_currency_contract:
  assumes cfg: "runtime_config cfg"
  shows "currency_contract (adapter_currency cfg c) (tokens_inv cfg)"
proof
  fix s t who v er and u :: unit
  assume "tokens_inv cfg s" "withdraw_and_drop (adapter_currency cfg c) who v er s = (Inr u, t)"
  note law = adapter_withdraw_law [OF this(1) cfg this(2)]
  have "unat (free (accounts s who c)) \<le> unat (total_issuance s c)"
    using all_balancedD(1) [OF tokens_invD(1) [OF \<open>tokens_inv cfg s\<close>], of who c] by simp
  then show "tokens_inv cfg t \<and>
      unat (cur_total_issuance (adapter_currency cfg c) t) + unat v = unat (cur_total_issuance (adapter_currency cfg c) s) \<and>
      (\<forall>a. unat (cur_free_balance (adapter_currency cfg c) t a) + (if a = who then unat v else 0) =
         unat (cur_free_balance (adapter_currency cfg c) s a)) \<and>
      cur_reserved_balance (adapter_currency cfg c) t = cur_reserved_balance (adapter_currency cfg c) s"
    using law ledger_of_put [OF law(2)]
    by (auto simp: fun_eq_iff word_eq_unat free_balance_def reserved_balance_def)
next
  fix s t who v and u :: unit
  assume "tokens_inv cfg s" "deposit_and_drop (adapter_currency cfg c) who v s = (Inr u, t)"
  note law = adapter_deposit_law [OF this(1) cfg this(2)]
  show "tokens_inv cfg t \<and>
      unat (cur_total_issuance (adapter_currency cfg c) t) = unat (cur_total_issuance (adapter_currency cfg c) s) + unat v \<and>
      (\<forall>a. unat (cur_free_balance (adapter_currency cfg c) t a) =
         unat (cur_free_balance (adapter_currency cfg c) s a) + (if a = who then unat v else 0)) \<and>
      cur_reserved_balance (adapter_currency cfg c) t = cur_reserved_balance (adapter_currency cfg c) s"
    using law ledger_of_put [OF law(2)]
    by (auto simp: fun_eq_iff word_eq_unat free_balance_def reserved_balance_def)
next
  fix s t who v and e
  assume "deposit_and_drop (adapter_currency cfg c) who v s = (Inl e, t)"
  then have "do_deposit cfg c who v True False s = (Inl e, t)"
    by (auto simp: deposit_and_drop_def adapter_currency_def adapter_deposit_into_existing_def op_simps)
  then show "t = s" by (rule do_deposit_error_unchanged [OF _ runtime_configD(1) [OF cfg]])
next
  fix s t who v and u :: unit
  assume inv: "tokens_inv cfg s" and "cur_reserve (adapter_currency cfg c) who v s = (Inr u, t)"
  then have op: "reserve cfg c who v s = (Inr (), t)" by simp
  show "tokens_inv cfg t \<and>
      cur_total_issuance (adapter_currency cfg c) t = cur_total_issuance (adapter_currency cfg c) s \<and>
      (\<forall>a. unat (cur_free_balance (adapter_currency cfg c) t a) + (if a = who then unat v else 0) =
         unat (cur_free_balance (adapter_currency cfg c) s a)) \<and>
      (\<forall>a. unat (cur_reserved_balance (adapter_currency cfg c) t a) =
         unat (cur_reserved_balance (adapter_currency cfg c) s a) + (if a = who then unat v else 0))"
    using reserve_ledger(1) [OF op runtime_configD(1) [OF cfg] tokens_invD(1) [OF inv]] reserve_inv [OF op cfg inv]
      ledger_of_put_holding [OF reserve_ledger(2) [OF op runtime_configD(1) [OF cfg] tokens_invD(1) [OF inv], unfolded ledger_reserve_def]]
    by (auto simp: free_balance_def reserved_balance_def)
next
  fix s t who v r
  assume inv: "tokens_inv cfg s" and "cur_unreserve (adapter_currency cfg c) who v s = (r, t)"
  then have op: "unreserve cfg c who v s = (r, t)" by simp
  show "tokens_inv cfg t \<and>
      cur_total_issuance (adapter_currency cfg c) t = cur_total_issuance (adapter_currency cfg c) s \<and>
      unat r = unat v - unat (cur_reserved_balance (adapter_currency cfg c) s who) \<and>
      (\<forall>a. unat (cur_free_balance (adapter_currency cfg c) t a) =
         unat (cur_free_balance (adapter_currency cfg c) s a) + (if a = who then unat v - unat r else 0)) \<and>
      (\<forall>a. unat (cur_reserved_balance (adapter_currency cfg c) t a) + (if a = who then unat v - unat r else 0) =
         unat (cur_reserved_balance (adapter_currency cfg c) s a))"
    using unreserve_ledger(1) [OF op runtime_configD(1) [OF cfg] tokens_invD(1) [OF inv]] unreserve_inv [OF op cfg inv]
      ledger_of_put_holding [OF unreserve_ledger(2) [OF op runtime_configD(1) [OF cfg] tokens_invD(1) [OF inv], unfolded ledger_unreserve_def]]
    by (auto simp: free_balance_def reserved_balance_def)
qed

interpretation adapter: currency_contract "adapter_currency (runtime_tokens can_dec inc_p dec_p inc_c dec_c) c"
  "tokens_inv (runtime_tokens can_dec inc_p dec_p inc_c dec_c)"
  for can_dec :: "'acc \<Rightarrow> 's \<Rightarrow> bool" and inc_p dec_p inc_c dec_c c
  by (rule adapter_currency_contract [OF runtime_tokens_config])

end
