(* ===== verification/Poc_Properties.thy ===== *)
theory Poc_Properties
  imports Poc_Invariants Tokens_Properties Tokens_Currency
begin

text \<open>
  The properties of the proof-of-commitment pallet, for every currency that satisfies the contract
  of \<open>Currency_Contract\<close>: the invariant of its reachable states, the conservation of committed
  funds, the lock period, the reward of a vote, and the election. They are instantiated at the
  runtime's configuration over the adapter of the tokens pallet.
\<close>

interpretation council: council_currency "adapter_currency (runtime_tokens can_dec inc_p dec_p inc_c dec_c) c"
  "tokens_inv (runtime_tokens can_dec inc_p dec_p inc_c dec_c)"
  for can_dec :: "'acc::linorder \<Rightarrow> 's \<Rightarrow> bool" and inc_p dec_p inc_c dec_c c
  by (rule council_currency.intro) (rule adapter_currency_contract [OF runtime_tokens_config])

lemmas council_of = council_currency.intro

section \<open>Votes as sums over the commitments\<close>

definition vote_of :: "('acc \<rightharpoonup> 'acc commitment) \<Rightarrow> 'acc \<Rightarrow> 'acc \<Rightarrow> nat" where
  "vote_of m cand a =
     (case m a of Some c \<Rightarrow> if candidate c = cand then unat (voting_weight c) else 0 | None \<Rightarrow> 0)"

definition votes_for :: "('acc, 's, 'm) poc_state \<Rightarrow> 'acc \<Rightarrow> nat" where
  "votes_for s cand = (\<Sum>a\<in>dom (Commitments s). vote_of (Commitments s) cand a)"

definition running :: "('acc, 's, 'm) poc_state \<Rightarrow> 'acc set" where
  "running s = {cand. Candidates s cand \<noteq> None \<and> (\<exists>a c. Commitments s a = Some c \<and> candidate c = cand)}"

lemma tally_map_filter:
  "tally (List.map_filter m xs) cand = (\<Sum>a\<leftarrow>xs. vote_of m cand a)"
  by (induction xs) (auto simp: tally_def vote_of_def map_filter_simps split: option.splits)

lemma tally_votes:
  assumes "distinct order" and "set order = dom (Commitments s)"
  shows "tally (List.map_filter (Commitments s) order) cand = votes_for s cand"
  using assms by (simp add: tally_map_filter votes_for_def sum_list_distinct_conv_sum_set)

lemma voted_running:
  assumes "set order = dom (Commitments s)"
  shows "voted_for (Candidates s) (List.map_filter (Commitments s) order) = running s"
  using assms by (auto simp: voted_for_def running_def map_filter_set domIff)

lemma voting_weight_bound:
  assumes "100 * unat (amount c) < 2 ^ 128"
  shows "unat (voting_weight c) =
      (if state c = Committed then unat (amount c) * unat (voting_multiplier (duration c)) else 0)"
    and "unat (voting_weight c) \<le> 100 * unat (amount c)"
proof -
  have m: "unat (voting_multiplier d) \<le> 100" for d by (cases d) simp_all
  then have "unat (amount c) * unat (voting_multiplier (duration c)) \<le> 100 * unat (amount c)"
    by (simp add: mult.commute)
  then have lt: "unat (amount c) * unat (voting_multiplier (duration c)) < 2 ^ 128"
    using assms by (rule le_less_trans)
  then show "unat (voting_weight c) =
      (if state c = Committed then unat (amount c) * unat (voting_multiplier (duration c)) else 0)"
    by (simp add: voting_weight_def unat_mult_lem [THEN iffD1])
  then show "unat (voting_weight c) \<le> 100 * unat (amount c)"
    using m [of "duration c"] by (simp add: mult.commute)
qed

lemma votes_for_bound:
  assumes "funds_inv cfg s" and "100 * unat (TotalLockedCap cfg) < 2 ^ 128"
  shows "votes_for s cand \<le> 100 * unat (LockedAmount s)" and "votes_for s cand < 2 ^ 128"
    and "Commitments s a = Some c \<Longrightarrow> 100 * unat (amount c) < 2 ^ 128"
proof -
  have cap: "100 * unat (LockedAmount s) < 2 ^ 128"
    using assms by (auto simp: funds_inv_def word_less_nat_alt)
  then show am: "100 * unat (amount c) < 2 ^ 128" if "Commitments s a = Some c" for a c
    using locked_of_le [OF assms(1) that] by simp
  have fin: "finite (dom (Commitments s))" and sum: "unat (LockedAmount s) = supp_sum (locked_of (Commitments s))"
    using assms(1) by (simp_all add: funds_inv_def)
  have "vote_of (Commitments s) cand a \<le> 100 * locked_of (Commitments s) a" for a
    using voting_weight_bound(2) [OF am] by (auto simp: vote_of_def locked_of_def split: option.splits)
  then have "votes_for s cand \<le> (\<Sum>a\<in>dom (Commitments s). 100 * locked_of (Commitments s) a)"
    unfolding votes_for_def by (intro sum_mono)
  also have "\<dots> = 100 * supp_sum (locked_of (Commitments s))"
    by (subst supp_sum_superset [where A = "dom (Commitments s)"])
      (auto simp: fin sum_distrib_left locked_of_def split: option.splits)
  finally show "votes_for s cand \<le> 100 * unat (LockedAmount s)" using sum by simp
  with cap show "votes_for s cand < 2 ^ 128" by simp
qed

section \<open>A run of the pallet\<close>

text \<open>
  The runtime's configuration with fractions in parts per billion, over the tokens pallet holding
  REEF for two accounts. Account 2 runs as a candidate and account 1 commits half a million REEF for a
  year and votes for account 2.
\<close>

definition demo_poc :: "(nat, nat, unit) poc_config" where
  "demo_poc = runtime_poc (10 ^ 8) (10 ^ 8) (\<lambda>_ _ m. m) (\<lambda>p q. unat p * 10 ^ 9 div unat q)
     (\<lambda>p x. of_nat (unat x * p div 10 ^ 9))"

definition demo_funds :: "(nat, currency_id, reserve_identifier, unit) tokens_state" where
  "demo_funds =
     \<lparr>TotalIssuance = [Token REEF \<mapsto> 5000000 * 10 ^ 18],
      Accounts = [(1, Token REEF) \<mapsto> \<lparr>free = 2000000 * 10 ^ 18, reserved = 0, frozen = 0\<rparr>,
                  (2, Token REEF) \<mapsto> \<lparr>free = 3000000 * 10 ^ 18, reserved = 0, frozen = 0\<rparr>],
      Locks = Map.empty, Reserves = Map.empty,
      tk_events = [Endowed (Token REEF) 1 (2000000 * 10 ^ 18), Endowed (Token REEF) 2 (3000000 * 10 ^ 18)],
      tk_system = ()\<rparr>"

abbreviation demo_cur :: "(nat, (nat, currency_id, reserve_identifier, unit) tokens_state) currency" where
  "demo_cur \<equiv> adapter_currency demo_config (Token REEF)"

abbreviation half_million :: balance where "half_million \<equiv> 500000 * 10 ^ 18"

definition demo_poc0 :: "(nat, (nat, currency_id, reserve_identifier, unit) tokens_state, unit) poc_state" where
  "demo_poc0 = empty_poc_state demo_funds ()"

definition "demo_poc1 = snd (start_candidacy demo_poc demo_cur (Signed 2) demo_poc0)"

definition "demo_poc2 = snd (commit demo_poc demo_cur (Signed 1) half_million OneYear 2 demo_poc1)"

lemmas poc_eval =
  demo_poc_def demo_funds_def runtime_poc_def demo_poc0_def demo_poc1_def demo_poc2_def empty_poc_state_def
  start_candidacy_def commit_def add_funds_def unbond_def poc_withdraw_def vote_candidate_def on_currency_def
  withdraw_and_drop_def deposit_and_drop_def adapter_currency_def adapter_withdraw_def adapter_deposit_into_existing_def
  poc_deposit_event_def first_era_def transactional_def REEF_unit_def DOLLARS_def

lemma demo_funds_genesis:
  "genesis_build demo_config [(1, Token REEF, 2000000 * 10 ^ 18), (2, Token REEF, 3000000 * 10 ^ 18)]
     (empty_tokens_state ()) = Some demo_funds"
  by (simp add: demo_funds_def tokens_eval)

lemma demo_funds_inv: "tokens_inv demo_config demo_funds"
  using genesis_build_inv [OF demo_funds_genesis demo_config_runtime] .

lemma demo_contract: "currency_contract demo_cur (tokens_inv demo_config)"
  by (rule adapter_currency_contract [OF demo_config_runtime])

lemma demo_start: "start_candidacy demo_poc demo_cur (Signed 2) demo_poc0 = (Inr (), demo_poc1)"
  by (simp add: poc_eval tokens_eval can_reserve_def)

lemma demo_commit: "commit demo_poc demo_cur (Signed 1) half_million OneYear 2 demo_poc1 = (Inr (), demo_poc2)"
  by (simp add: poc_eval tokens_eval can_reserve_def)

lemma demo_poc2_fields:
  "Commitments demo_poc2 = [1 \<mapsto> \<lparr>state = Committed, duration = OneYear, amount = half_million, candidate = 2\<rparr>]"
  "LockedAmount demo_poc2 = half_million" "Candidates demo_poc2 = [2 \<mapsto> 1000000 * 10 ^ 18]"
  "CurrentEra demo_poc2 = first_era" "VoterRewards demo_poc2 = (\<lambda>_. None)" "Members demo_poc2 = []"
  by (simp_all add: poc_eval tokens_eval can_reserve_def)

lemma demo_poc1_inv: "poc_inv demo_poc demo_cur (tokens_inv demo_config) demo_poc1"
proof -
  have "poc_inv demo_poc demo_cur (tokens_inv demo_config) demo_poc0"
    unfolding demo_poc0_def by (rule empty_poc_inv) (rule demo_funds_inv)
  then show ?thesis by (rule council_currency.start_candidacy_inv [OF council_of [OF demo_contract] _ demo_start])
qed

lemma demo_poc2_inv: "poc_inv demo_poc demo_cur (tokens_inv demo_config) demo_poc2"
  by (rule council_currency.commit_effect(1) [OF council_of [OF demo_contract] demo_poc1_inv demo_commit])

section \<open>Invariant and conservation\<close>

text \<open>
  (C3) In every state the pallet reaches from its empty storage: the locked total is exactly the sum
  of the commitments, and below the cap unless nothing is locked; the counter of candidates counts
  them and respects its limit; the members are sorted, distinct, within the limit, and all of them
  still registered candidates; the deposit of every candidate is still reserved; and rewards are
  recorded for the current era only.
\<close>

theorem poc_reachable_inv:
  assumes "currency_contract cur cinv" and "cinv x" and "(poc_step cfg cur)\<^sup>*\<^sup>* (empty_poc_state x m) s"
  shows "unat (LockedAmount s) = supp_sum (locked_of (Commitments s)) \<and>
    (LockedAmount s = 0 \<or> LockedAmount s < TotalLockedCap cfg) \<and>
    unat (CandidatesCount s) = card (dom (Candidates s)) \<and> CandidatesCount s \<le> MaxCandidates cfg \<and>
    sorted (Members s) \<and> distinct (Members s) \<and> length (Members s) \<le> unat (MaxMembers cfg) \<and>
    set (Members s) \<subseteq> dom (Candidates s) \<and>
    (\<forall>a d. Candidates s a = Some d \<longrightarrow> d \<le> cur_reserved_balance cur (poc_currency s) a) \<and>
    (\<forall>e a. VoterRewards s (e, a) \<noteq> None \<longrightarrow> e = era_idx (CurrentEra s))"
proof -
  have "poc_inv cfg cur cinv (empty_poc_state x m)" by (rule empty_poc_inv) (rule assms)
  then have "poc_inv cfg cur cinv s"
    by (rule council_currency.poc_steps_inv [OF council_of [OF assms(1)] assms(3)])
  then show ?thesis
    by (simp add: poc_inv_def funds_inv_def council_inv_def deposits_inv_def rewards_inv_def)
qed

theorem poc_reachable_inv_witness:
  "unat (LockedAmount demo_poc2) = supp_sum (locked_of (Commitments demo_poc2)) \<and>
   LockedAmount demo_poc2 = half_million \<and> unat (CandidatesCount demo_poc2) = card (dom (Candidates demo_poc2))"
proof -
  have "(poc_step demo_poc demo_cur)\<^sup>*\<^sup>* (empty_poc_state demo_funds ()) demo_poc2"
    using step_start [OF demo_start] step_commit [OF demo_commit]
    unfolding demo_poc0_def by (blast intro: rtranclp.rtrancl_into_rtrancl)
  from poc_reachable_inv [OF demo_contract demo_funds_inv this]
  have "unat (LockedAmount demo_poc2) = supp_sum (locked_of (Commitments demo_poc2)) \<and>
    unat (CandidatesCount demo_poc2) = card (dom (Candidates demo_poc2))" by simp
  with demo_poc2_fields(2) show ?thesis by simp
qed

text \<open>
  (C19) Committing, adding funds, unbonding and withdrawing neither create nor destroy funds: the
  currency's issuance plus the locked total is the same before and after, as numbers, and the
  operations keep the invariant.
\<close>

theorem commitments_conserve_funds:
  assumes "currency_contract cur cinv" and "poc_inv cfg cur cinv s"
    and "commit cfg cur orig amt dur cand s = (Inr u, t) \<or> add_funds cfg cur orig amt s = (Inr u, t) \<or>
      unbond now orig s = (Inr u, t) \<or> poc_withdraw cur now orig s = (Inr u, t)"
  shows "unat (cur_total_issuance cur (poc_currency t)) + unat (LockedAmount t) =
      unat (cur_total_issuance cur (poc_currency s)) + unat (LockedAmount s) \<and> poc_inv cfg cur cinv t"
proof -
  note C = council_of [OF assms(1)]
  from assms(3) consider "commit cfg cur orig amt dur cand s = (Inr u, t)" | "add_funds cfg cur orig amt s = (Inr u, t)"
    | "unbond now orig s = (Inr u, t)" | "poc_withdraw cur now orig s = (Inr u, t)" by blast
  then show ?thesis
  proof cases
    case 1
    then show ?thesis using council_currency.commit_effect [OF C assms(2)] by fastforce
  next
    case 2
    then show ?thesis using council_currency.add_funds_effect [OF C assms(2)] by fastforce
  next
    case 3
    then show ?thesis using council_currency.unbond_effect [OF C assms(2)] by fastforce
  next
    case 4
    from council_currency.withdraw_effect [OF C assms(2) 4] show ?thesis by fastforce
  qed
qed

theorem commitments_conserve_funds_witness:
  "unat (cur_total_issuance demo_cur (poc_currency demo_poc2)) + unat (LockedAmount demo_poc2) =
   unat (cur_total_issuance demo_cur (poc_currency demo_poc1)) + unat (LockedAmount demo_poc1)"
  using commitments_conserve_funds [OF demo_contract demo_poc1_inv disjI1 [OF demo_commit]] by simp

section \<open>The lock period\<close>

lemma lock_period_exact: "unat (lock_period d) = unat (lock_days d) * unat DAYS"
  by (cases d) (simp_all add: lock_period_def)

text \<open>
  (C20) Funds stay locked: an account whose commitment is not unbonding, or that started unbonding less
  than its whole lock period ago (30, 365 or 3650 days of blocks), cannot withdraw, and the attempt
  changes nothing.
\<close>

theorem early_withdraw_refused:
  assumes "Commitments s who = Some c"
    and "state c = Committed \<or> (\<exists>start. state c = Unbonding start \<and>
      unat start + unat (lock_days (duration c)) * unat DAYS < 2 ^ 32 \<and>
      unat now < unat start + unat (lock_days (duration c)) * unat DAYS)"
  shows "poc_withdraw cur now (Signed who) s =
    (Inl (poc_fail (if state c = Committed then AlreadyCommitted else CannotWithdrawLocked)), s)"
proof (cases "state c")
  case (Unbonding start)
  with assms(2) have "\<not> start + lock_period (duration c) \<le> now"
    by (simp add: word_le_nat_alt unat_add_lem [THEN iffD1] lock_period_exact)
  with Unbonding assms(1) show ?thesis by (simp add: poc_withdraw_def transactional_def op_defs)
qed (use assms in \<open>simp add: poc_withdraw_def transactional_def op_defs\<close>)

definition "demo_unbonding = snd (unbond 100 (Signed 1) demo_poc2)"

theorem early_withdraw_refused_witness:
  "poc_withdraw demo_cur 3000000 (Signed 1) demo_unbonding = (Inl (poc_fail CannotWithdrawLocked), demo_unbonding) \<and>
   poc_withdraw demo_cur 3000000 (Signed 1) demo_poc2 = (Inl (poc_fail AlreadyCommitted), demo_poc2)"
proof
  let ?c = "\<lparr>state = Unbonding 100, duration = OneYear, amount = half_million, candidate = 2\<rparr>"
  have "Commitments demo_unbonding 1 = Some ?c"
    by (simp add: demo_unbonding_def unbond_def demo_poc2_fields op_defs poc_deposit_event_def Let_def)
  from early_withdraw_refused [OF this, of 3000000 demo_cur]
  show "poc_withdraw demo_cur 3000000 (Signed 1) demo_unbonding = (Inl (poc_fail CannotWithdrawLocked), demo_unbonding)"
    by simp
next
  have "Commitments demo_poc2 1 = Some \<lparr>state = Committed, duration = OneYear, amount = half_million, candidate = 2\<rparr>"
    by (simp add: demo_poc2_fields)
  from early_withdraw_refused [OF this, of 3000000 demo_cur]
  show "poc_withdraw demo_cur 3000000 (Signed 1) demo_poc2 = (Inl (poc_fail AlreadyCommitted), demo_poc2)" by simp
qed

text \<open>
  (C21) Committing, unbonding and withdrawing give back exactly what was taken: no commitment, the
  locked total, the issuance and every account's free and reserved balance as before.
\<close>

theorem commit_unbond_withdraw:
  assumes "currency_contract cur cinv" and "poc_inv cfg cur cinv s"
    and "commit cfg cur (Signed who) amt dur cand s = (Inr u1, s1)"
    and "unbond b0 (Signed who) s1 = (Inr u2, s2)"
    and "poc_withdraw cur b1 (Signed who) s2 = (Inr u3, s3)"
  shows "Commitments s3 = Commitments s \<and> LockedAmount s3 = LockedAmount s \<and>
    cur_total_issuance cur (poc_currency s3) = cur_total_issuance cur (poc_currency s) \<and>
    cur_free_balance cur (poc_currency s3) = cur_free_balance cur (poc_currency s) \<and>
    cur_reserved_balance cur (poc_currency s3) = cur_reserved_balance cur (poc_currency s)"
proof -
  note K = currency_contract.withdraw_law [OF assms(1) poc_invD(1) [OF assms(2)]]
  from assms(3) have s1: "Commitments s who = None" "saturating_add (LockedAmount s) amt < TotalLockedCap cfg"
    "withdraw_and_drop cur who amt KeepAlive (poc_currency s) = (Inr (), poc_currency s1)"
    "LockedAmount s1 = saturating_add (LockedAmount s) amt"
    "Commitments s1 = (Commitments s)(who \<mapsto> \<lparr>state = Committed, duration = dur, amount = amt, candidate = cand\<rparr>)"
    by (auto simp: commit_Inr)
  from assms(4) s1(5) have s2: "poc_currency s2 = poc_currency s1" "LockedAmount s2 = LockedAmount s1"
    "Commitments s2 = (Commitments s)(who \<mapsto> \<lparr>state = Unbonding b0, duration = dur, amount = amt, candidate = cand\<rparr>)"
    by (auto simp: unbond_Inr)
  from assms(5) s2 have s3: "deposit_and_drop cur who amt (poc_currency s1) = (Inr (), poc_currency s3)"
    "LockedAmount s3 = saturating_sub (LockedAmount s1) amt" "Commitments s3 = (Commitments s)(who := None)"
    by (auto simp: poc_withdraw_Inr)
  note w = K [OF s1(3)]
  note d = currency_contract.deposit_law [OF assms(1) conjunct1 [OF w] s3(1)]
  have "unat (LockedAmount s3) = unat (LockedAmount s)"
    by (simp add: s3(2) s1(4) unat_saturating_sub saturating_add_below [OF s1(2)])
  moreover have "unat (cur_free_balance cur (poc_currency s3) a) = unat (cur_free_balance cur (poc_currency s) a)" for a
    using w d by (metis (no_types, lifting))
  ultimately show ?thesis
    using w d s1(1) s3(3) by (auto simp: word_eq_unat)
qed

definition "demo_withdrawn = snd (poc_withdraw demo_cur 3153700 (Signed 1) demo_unbonding)"

lemma demo_poc2_free: "Accounts (poc_currency demo_poc2) (1, Token REEF) =
    Some \<lparr>free = 1500000 * 10 ^ 18, reserved = 0, frozen = 0\<rparr>"
  "TotalIssuance (poc_currency demo_poc2) (Token REEF) = Some (4500000 * 10 ^ 18)"
  by (simp_all add: poc_eval tokens_eval can_reserve_def)

lemma demo_unbond: "unbond 100 (Signed 1) demo_poc2 = (Inr (), demo_unbonding)"
  by (simp add: demo_unbonding_def unbond_def demo_poc2_fields op_defs poc_deposit_event_def Let_def)

lemma demo_withdraw: "poc_withdraw demo_cur 3153700 (Signed 1) demo_unbonding = (Inr (), demo_withdrawn)"
  by (simp add: demo_withdrawn_def demo_unbonding_def unbond_def demo_poc2_fields demo_poc2_free [simplified] lock_period_def
      poc_withdraw_def on_currency_def poc_deposit_event_def transactional_def
      deposit_and_drop_def adapter_currency_def adapter_deposit_into_existing_def do_deposit_def
      try_mutate_account_def settle_account_def accounts_def checked_add_def total_issuance_def deposit_event_def
      demo_config_def runtime_tokens_def op_defs Let_def)

theorem commit_unbond_withdraw_witness:
  "Commitments demo_withdrawn = Commitments demo_poc1 \<and>
   cur_free_balance demo_cur (poc_currency demo_withdrawn) = cur_free_balance demo_cur (poc_currency demo_poc1)"
  using commit_unbond_withdraw [OF demo_contract demo_poc1_inv demo_commit demo_unbond demo_withdraw] by simp

section \<open>Rewards\<close>

text \<open>
  (C22) A vote pays the era's reward to the voter only, exactly once per era: the first vote of an era
  raises the issuance by the reward of the commitment (and by nothing if it was already recorded),
  and a second vote of the same account in that era, for whatever candidate, leaves the currency as
  it is.
\<close>

theorem vote_rewarded_once:
  assumes "currency_contract cur cinv" and "poc_inv cfg cur cinv s"
    and "vote_candidate cfg cur (Signed who) cand s = (Inr u, t)"
    and "vote_candidate cfg cur (Signed who) cand' t = (Inr u', t')"
    and "Commitments s who = Some c"
  shows "unat (cur_total_issuance cur (poc_currency t)) = unat (cur_total_issuance cur (poc_currency s)) +
      (if VoterRewards s (era_idx (CurrentEra s), who) = None then unat (era_voter_reward cfg c) else 0) \<and>
    (\<forall>a. a \<noteq> who \<longrightarrow> cur_free_balance cur (poc_currency t) a = cur_free_balance cur (poc_currency s) a) \<and>
    poc_currency t' = poc_currency t"
proof -
  note D = currency_contract.deposit_law [OF assms(1) poc_invD(1) [OF assms(2)]]
  have same: "era_voter_reward cfg (c\<lparr>candidate := x\<rparr>) = era_voter_reward cfg c" for x
    by (simp add: era_voter_reward_def split: lock_duration.split)
  from assms(3,5) have t: "Commitments t who = Some (c\<lparr>candidate := cand\<rparr>)" "CurrentEra t = CurrentEra s"
    "if 0 < era_voter_reward cfg c \<and> VoterRewards s (era_idx (CurrentEra s), who) = None
      then VoterRewards t = (VoterRewards s)((era_idx (CurrentEra s), who) \<mapsto> era_voter_reward cfg c) \<and>
        deposit_and_drop cur who (era_voter_reward cfg c) (poc_currency s) = (Inr (), poc_currency t)
      else VoterRewards t = VoterRewards s \<and> poc_currency t = poc_currency s"
    by (auto elim!: vote_candidate_Inr)
  from assms(4) t(1,2) have "if 0 < era_voter_reward cfg c \<and> VoterRewards t (era_idx (CurrentEra s), who) = None
      then VoterRewards t' = (VoterRewards t)((era_idx (CurrentEra s), who) \<mapsto> era_voter_reward cfg c) \<and>
        deposit_and_drop cur who (era_voter_reward cfg c) (poc_currency t) = (Inr (), poc_currency t')
      else VoterRewards t' = VoterRewards t \<and> poc_currency t' = poc_currency t"
    by (auto elim!: vote_candidate_Inr simp: same)
  then have "poc_currency t' = poc_currency t"
    using t(3) by (auto split: if_splits)
  moreover have "a \<noteq> who \<Longrightarrow> cur_free_balance cur (poc_currency t) a = cur_free_balance cur (poc_currency s) a" for a
    using t(3) D [of who "era_voter_reward cfg c" "()" "poc_currency t"] by (auto simp: word_eq_unat split: if_splits)
  moreover have "unat (cur_total_issuance cur (poc_currency t)) = unat (cur_total_issuance cur (poc_currency s)) +
      (if VoterRewards s (era_idx (CurrentEra s), who) = None then unat (era_voter_reward cfg c) else 0)"
    using t(3) D [of who "era_voter_reward cfg c" "()" "poc_currency t"] by (auto simp: word_less_nat_alt split: if_splits)
  ultimately show ?thesis by blast
qed

definition "demo_voted = snd (vote_candidate demo_poc demo_cur (Signed 1) 3 demo_poc2)"

definition "demo_voted_again = snd (vote_candidate demo_poc demo_cur (Signed 1) 2 demo_voted)"

lemmas vote_eval =
  demo_poc2_fields demo_poc2_free [simplified] vote_candidate_def era_voter_reward_def proportion_of_era_to_year_def
  demo_poc_def runtime_poc_def on_currency_def poc_deposit_event_def transactional_def first_era_def
  deposit_and_drop_def adapter_currency_def adapter_deposit_into_existing_def do_deposit_def
  try_mutate_account_def settle_account_def accounts_def checked_add_def total_issuance_def deposit_event_def
  demo_config_def runtime_tokens_def op_defs Let_def

lemma demo_vote: "vote_candidate demo_poc demo_cur (Signed 1) 3 demo_poc2 = (Inr (), demo_voted)"
  by (simp add: demo_voted_def vote_eval)

lemma demo_vote_again: "vote_candidate demo_poc demo_cur (Signed 1) 2 demo_voted = (Inr (), demo_voted_again)"
  by (simp add: demo_voted_again_def demo_voted_def vote_eval)

theorem vote_rewarded_once_witness:
  "cur_total_issuance demo_cur (poc_currency demo_voted) \<noteq> cur_total_issuance demo_cur (poc_currency demo_poc2) \<and>
   poc_currency demo_voted_again = poc_currency demo_voted"
proof -
  have c: "Commitments demo_poc2 1 = Some \<lparr>state = Committed, duration = OneYear, amount = half_million, candidate = 2\<rparr>"
    by (simp add: demo_poc2_fields)
  note P = vote_rewarded_once [OF demo_contract demo_poc2_inv demo_vote demo_vote_again c]
  have "0 < unat (era_voter_reward demo_poc \<lparr>state = Committed, duration = OneYear, amount = half_million, candidate = 2::nat\<rparr>)"
    by (simp add: era_voter_reward_def proportion_of_era_to_year_def demo_poc_def runtime_poc_def)
  with P show ?thesis by (auto simp: demo_poc2_fields)
qed

text \<open>
  (C23) A new era mints at most the council's share for the era, as computed from the issuance at its
  start, and never touches the locked total, the commitments or the candidates; the hook does nothing
  at all before the era is over.
\<close>

theorem era_change_issuance:
  assumes "currency_contract cur cinv" and "poc_inv cfg cur cinv s" and "t = poc_on_initialize cfg cur order n s"
  shows "unat (cur_total_issuance cur (poc_currency s)) \<le> unat (cur_total_issuance cur (poc_currency t)) \<and>
    unat (cur_total_issuance cur (poc_currency t)) \<le>
      unat (cur_total_issuance cur (poc_currency s)) + unat (era_council_rewards cfg cur (poc_currency s)) \<and>
    LockedAmount t = LockedAmount s \<and> Commitments t = Commitments s \<and> Candidates t = Candidates s \<and>
    (era_start (CurrentEra s) + EraDuration cfg > n \<longrightarrow> t = s)"
proof -
  note E = council_currency.block_effect [OF council_of [OF assms(1)] assms(2,3)]
  have "Commitments t = Commitments s \<and> Candidates t = Candidates s"
    by (cases "era_ended cfg n s") (simp_all add: assms(3) on_initialize_idle on_initialize_fields [OF _ refl])
  moreover have "era_start (CurrentEra s) + EraDuration cfg > n \<longrightarrow> t = s"
    by (simp add: assms(3) on_initialize_idle era_ended_def)
  ultimately show ?thesis using E by blast
qed

definition "demo_elected = poc_on_initialize demo_poc demo_cur [1] 60480 demo_poc2"

theorem era_change_issuance_witness:
  "unat (cur_total_issuance demo_cur (poc_currency demo_elected)) \<le>
     unat (cur_total_issuance demo_cur (poc_currency demo_poc2)) +
     unat (era_council_rewards demo_poc demo_cur (poc_currency demo_poc2)) \<and>
   poc_on_initialize demo_poc demo_cur [1] 60479 demo_poc2 = demo_poc2"
  using era_change_issuance [OF demo_contract demo_poc2_inv demo_elected_def]
    era_change_issuance [OF demo_contract demo_poc2_inv refl, of "[1]" 60479]
  by (simp add: demo_poc2_fields first_era_def demo_poc_def runtime_poc_def)

section \<open>The election\<close>

lemma counter_mem:
  assumes "funds_inv cfg s" and "100 * unat (TotalLockedCap cfg) < 2 ^ 128"
    and "distinct order" and "set order = dom (Commitments s)"
  shows "(cand, w) \<in> set (count_votes (Candidates s) (List.map_filter (Commitments s) order)) \<longleftrightarrow>
    cand \<in> running s \<and> unat w = votes_for s cand"
  using votes_for_bound(2) [OF assms(1,2), of cand]
  by (auto simp: count_votes_mem voted_running [OF assms(4)] tally_votes [OF assms(3,4)])

lemma counter_length:
  assumes "funds_inv cfg s" and "100 * unat (TotalLockedCap cfg) < 2 ^ 128"
    and "distinct order" and "set order = dom (Commitments s)"
  shows "length (count_votes (Candidates s) (List.map_filter (Commitments s) order)) = card (running s)"
proof -
  let ?c = "count_votes (Candidates s) (List.map_filter (Commitments s) order)"
  have "distinct (map fst ?c)" using btree_wf_count [of "Candidates s"] by (simp add: btree_wf_def strict_sorted_iff)
  moreover have "set (map fst ?c) = running s"
  proof (intro set_eqI iffI)
    fix a assume "a \<in> running s"
    then have "(a, of_nat (votes_for s a)) \<in> set ?c"
      using votes_for_bound(2) [OF assms(1,2), of a] by (simp add: counter_mem [OF assms] unat_of_nat)
    then show "a \<in> set (map fst ?c)" by force
  qed (auto simp: counter_mem [OF assms])
  ultimately show ?thesis by (metis distinct_card length_map)
qed

lemma winners_top:
  assumes "funds_inv cfg s" and "100 * unat (TotalLockedCap cfg) < 2 ^ 128"
    and "distinct order" and "set order = dom (Commitments s)"
  shows "length (winners_of cfg order s) = min (unat (MaxMembers cfg)) (card (running s))"
    and "set (winners_of cfg order s) \<subseteq> running s"
    and "\<lbrakk>w \<in> set (winners_of cfg order s); l \<in> running s - set (winners_of cfg order s)\<rbrakk> \<Longrightarrow>
      votes_for s l < votes_for s w \<or> votes_for s l = votes_for s w \<and> w < l"
proof -
  let ?c = "count_votes (Candidates s) (List.map_filter (Commitments s) order)"
  let ?e = "elect (MaxMembers cfg) ?c"
  note mem = counter_mem [OF assms] and top = elect_top [OF btree_wf_count]
  have set: "set (winners_of cfg order s) = fst ` set ?e" by (simp add: winners_of_def)
  show "length (winners_of cfg order s) = min (unat (MaxMembers cfg)) (card (running s))"
    by (simp add: winners_of_def top(2) counter_length [OF assms])
  show "set (winners_of cfg order s) \<subseteq> running s"
    using top(1) [of "MaxMembers cfg" "Candidates s"] mem unfolding set by fastforce
  assume "w \<in> set (winners_of cfg order s)" and l: "l \<in> running s - set (winners_of cfg order s)"
  then obtain x where x: "(w, x) \<in> set ?e" by (auto simp: set)
  obtain y where y: "(l, y) \<in> set ?c - set ?e"
    using l votes_for_bound(2) [OF assms(1,2), of l] mem [of l "of_nat (votes_for s l)"]
    by (force simp: set unat_of_nat)
  have "unat x = votes_for s w" "unat y = votes_for s l"
    using x y top(1) [of "MaxMembers cfg" "Candidates s"] mem by blast+
  with top(4) [OF x y] show "votes_for s l < votes_for s w \<or> votes_for s l = votes_for s w \<and> w < l"
    by (auto simp: ranks_before_def word_less_nat_alt word_eq_unat)
qed

lemma votes_for_exact:
  assumes "funds_inv cfg s" and "100 * unat (TotalLockedCap cfg) < 2 ^ 128"
  shows "votes_for s cand = (\<Sum>a | \<exists>c. Commitments s a = Some c \<and> candidate c = cand \<and> state c = Committed.
      unat (amount (the (Commitments s a))) * unat (voting_multiplier (duration (the (Commitments s a)))))"
  unfolding votes_for_def
proof (rule sum.mono_neutral_cong_right)
  show "finite (dom (Commitments s))" using assms(1) by (simp add: funds_inv_def)
qed (auto simp: vote_of_def voting_weight_bound(1) [OF votes_for_bound(3) [OF assms]] split: option.splits)

text \<open>
  (C10) When an era is over, the new members are the candidates with the most votes. With the locked
  total capped as in the runtime no weight wraps and no sum saturates, so a candidate's votes are the
  exact sum of amount times multiplier over the committed (not unbonding) commitments that name them.
  As many are elected as there are registered candidates somebody voted for, up to the limit; every
  elected one beats every other, ties going to the smaller account; and they are stored sorted.
\<close>

theorem election_elects_top:
  assumes "funds_inv cfg s" and "100 * unat (TotalLockedCap cfg) < 2 ^ 128"
    and "distinct order" and "set order = dom (Commitments s)"
    and "era_start (CurrentEra s) + EraDuration cfg \<le> n" and "MaxMembers cfg \<noteq> 0" and "running s \<noteq> {}"
    and "t = poc_on_initialize cfg cur order n s"
  shows "sorted (Members t) \<and> distinct (Members t) \<and> set (Members t) \<subseteq> running s \<and>
    length (Members t) = min (unat (MaxMembers cfg)) (card (running s)) \<and>
    (\<forall>w\<in>set (Members t). \<forall>l\<in>running s - set (Members t).
       votes_for s l < votes_for s w \<or> votes_for s l = votes_for s w \<and> w < l) \<and>
    (\<forall>cand. votes_for s cand = (\<Sum>a | \<exists>c. Commitments s a = Some c \<and> candidate c = cand \<and> state c = Committed.
       unat (amount (the (Commitments s a))) * unat (voting_multiplier (duration (the (Commitments s a))))))"
proof -
  have ended: "era_ended cfg n s" using assms(5) by (simp add: era_ended_def)
  note W = winners_top [OF assms(1-4)]
  have "finite (running s)"
    by (rule finite_subset [of _ "(\<lambda>a. candidate (the (Commitments s a))) ` dom (Commitments s)"])
      (use assms(1) in \<open>force simp: running_def funds_inv_def\<close>)+
  then have "winners_of cfg order s \<noteq> []"
    using W(1) assms(6,7) by (auto simp: word_eq_unat card_gt_0_iff simp flip: length_0_conv)
  then have "Members t = winners_of cfg order s" by (simp add: on_initialize_fields [OF ended assms(8)])
  then show ?thesis using W winners_of_props(1,2) votes_for_exact [OF assms(1,2)] by metis
qed

theorem election_elects_top_witness:
  "Members demo_elected = [2]"
proof -
  have run: "running demo_poc2 = {2}" by (auto simp: running_def demo_poc2_fields)
  have "sorted (Members demo_elected) \<and> distinct (Members demo_elected) \<and> set (Members demo_elected) \<subseteq> running demo_poc2 \<and>
    length (Members demo_elected) = min (unat (MaxMembers demo_poc)) (card (running demo_poc2))"
    using election_elects_top [OF poc_invD(2) [OF demo_poc2_inv] _ _ _ _ _ _ demo_elected_def]
    by (simp add: run demo_poc2_fields first_era_def demo_poc_def runtime_poc_def REEF_unit_def DOLLARS_def)
  then show ?thesis
    by (cases "Members demo_elected") (auto simp: run demo_poc_def runtime_poc_def)
qed

text \<open>
  (C24) The outcome does not depend on the order in which the storage iterates over the commitments:
  two orders that list the same accounts give the same state, events and rewards included.
\<close>

theorem election_order_independent:
  assumes "distinct order" and "distinct order'" and "set order = set order'"
  shows "poc_on_initialize cfg cur order n s = poc_on_initialize cfg cur order' n s"
proof -
  have "mset order = mset order'" using assms by (simp add: set_eq_iff_mset_eq_distinct)
  then have "mset (List.map_filter m order) = mset (List.map_filter m order')" for m :: "'a \<rightharpoonup> 'a commitment"
    by (simp add: List.map_filter_def mset_filter)
  then have "count_votes cands (List.map_filter m order) = count_votes cands (List.map_filter m order')"
    for cands and m :: "'a \<rightharpoonup> 'a commitment" by (rule count_votes_mset)
  then show ?thesis by (simp only: poc_on_initialize_def)
qed

theorem election_order_independent_witness:
  "poc_on_initialize demo_poc demo_cur [1, 2] 60480 demo_poc2 = poc_on_initialize demo_poc demo_cur [2, 1] 60480 demo_poc2"
  by (rule election_order_independent) auto

end
