(* ===== verification/Evm_Accounts.thy ===== *)
theory Evm_Accounts
  imports Primitives
begin

text \<open>
  The EVM accounts pallet (\<^verbatim>\<open>modules/evm-accounts/src/lib.rs\<close>): a two-way mapping between the
  32-byte accounts of the chain and 20-byte EVM addresses, the claims that extend it, and the
  Ethereum message a claim is signed with.

  Hashes, signature recovery, the accounts of the system, the transfer of all balances and the claim
  hook of the runtime are arguments, collected in \<open>evm_accounts_config\<close>. The storage they work on is
  the field \<open>ea_world\<close>.

  Lengths are \<open>usize\<close> values of the 32-bit target the runtime is compiled for.
\<close>

type_synonym usize = u32

definition isize_max :: usize where
  "isize_max = 2 ^ 31 - 1"

definition ascii :: "string \<Rightarrow> bytes" where
  "ascii s = map of_char s"

definition len :: "'a list \<Rightarrow> usize" where
  "len xs = of_nat (length xs)"

record 's evm_accounts_config =
  blake2_256 :: "bytes \<Rightarrow> bytes"
  keccak_256 :: "bytes \<Rightarrow> bytes"
  secp256k1_ecdsa_recover :: "bytes \<Rightarrow> bytes \<Rightarrow> unit + bytes"
  account_exists :: "account_id32 \<Rightarrow> 's \<Rightarrow> bool"
  TransferAll :: "account_id32 \<Rightarrow> account_id32 \<Rightarrow> ('s, dispatch_error, unit) storage_op"
  OnClaim :: "account_id32 \<Rightarrow> ('s, dispatch_error, unit) storage_op"

datatype evm_accounts_event = ClaimAccount account_id32 evm_address

record 's evm_accounts_state =
  EvmAccounts :: "evm_address \<rightharpoonup> account_id32"
  EvmAddresses :: "account_id32 \<rightharpoonup> evm_address"
  ea_events :: "evm_accounts_event list"
  ea_world :: 's

type_synonym ('s, 'a) evm_accounts_op = "('s evm_accounts_state, dispatch_error, 'a) storage_op"

abbreviation ea_fail :: "evm_accounts_error \<Rightarrow> dispatch_error" where
  "ea_fail e \<equiv> Module (EvmAccounts_Error e)"

definition ea_deposit_event :: "evm_accounts_event \<Rightarrow> 's evm_accounts_state \<Rightarrow> 's evm_accounts_state" where
  "ea_deposit_event e s = s\<lparr>ea_events := ea_events s @ [e]\<rparr>"

definition on_world :: "('s, dispatch_error, 'a) storage_op \<Rightarrow> ('s, 'a) evm_accounts_op" where
  "on_world f s = (case f (ea_world s) of (r, x) \<Rightarrow> (r, s\<lparr>ea_world := x\<rparr>))"

section \<open>The signed message\<close>

definition push_nibble :: "u8 \<Rightarrow> bytes \<Rightarrow> bytes result" where
  "push_nibble nibble r =
     (case ok_or (if nibble < 10 then checked_add 48 nibble
                  else Option.bind (checked_sub 97 10) (\<lambda>sum. checked_add sum nibble))
            (ea_fail NumOverflow) of
        Inl e \<Rightarrow> Inl e
      | Inr v \<Rightarrow> Inr (r @ [v]))"

fun hex_loop :: "bytes \<Rightarrow> bytes \<Rightarrow> bytes result" where
  "hex_loop [] r = Inr r"
| "hex_loop (b # bs) r =
     (case push_nibble (b div 16) r of
        Inl e \<Rightarrow> Inl e
      | Inr r1 \<Rightarrow>
          (case push_nibble (b mod 16) r1 of
             Inl e \<Rightarrow> Inl e
           | Inr r2 \<Rightarrow> hex_loop bs r2))"

definition convert_to_ascii_hex :: "bytes \<Rightarrow> bytes result" where
  "convert_to_ascii_hex bs =
     (case checked_mul (len bs) 2 of
        None \<Rightarrow> Inl (ea_fail NumOverflow)
      | Some l \<Rightarrow> if l < isize_max then hex_loop bs [] else Inl (ea_fail VecInsufficientCapacity))"

function digits_rev :: "usize \<Rightarrow> bytes" where
  "digits_rev l = (if 0 < l then (48 + ucast (l mod 10)) # digits_rev (l div 10) else [])"
  by pat_completeness auto

termination digits_rev
  by (relation "measure unat") (simp_all add: word_less_nat_alt unat_div)

declare digits_rev.simps [simp del]

definition ethereum_signable_message :: "bytes \<Rightarrow> bytes \<Rightarrow> bytes result" where
  "ethereum_signable_message what extra =
     (let prefix = ascii ''reef evm:'' in
      case Option.bind (checked_add (len prefix) (len what)) (\<lambda>sum. checked_add sum (len extra)) of
        None \<Rightarrow> Inl (ea_fail NumOverflow)
      | Some l \<Rightarrow>
          Inr (0x19 # ascii ''Ethereum Signed Message:'' @ [10] @ rev (digits_rev l) @ prefix @ what @ extra))"

definition eth_recover :: "'s evm_accounts_config \<Rightarrow> bytes \<Rightarrow> bytes \<Rightarrow> bytes \<Rightarrow> evm_address result" where
  "eth_recover cfg sig what extra =
     (case ethereum_signable_message what extra of
        Inl e \<Rightarrow> Inl e
      | Inr m \<Rightarrow>
          (case secp256k1_ecdsa_recover cfg sig (keccak_256 cfg m) of
             Inl _ \<Rightarrow> Inl (ea_fail BadSignature)
           | Inr pubkey \<Rightarrow> Inr (drop 12 (keccak_256 cfg pubkey))))"

text \<open>The signing side, over the operations of the elliptic-curve library it calls.\<close>

record 'k secp256k1 =
  public_key_serialize :: "'k \<Rightarrow> bytes"
  sign_parsed :: "bytes \<Rightarrow> 'k \<Rightarrow> bytes \<times> u8"

definition eth_address :: "'s evm_accounts_config \<Rightarrow> 'k secp256k1 \<Rightarrow> 'k \<Rightarrow> evm_address" where
  "eth_address cfg ec secret = drop 12 (keccak_256 cfg (drop 1 (take 65 (public_key_serialize ec secret))))"

definition eth_sign :: "'s evm_accounts_config \<Rightarrow> 'k secp256k1 \<Rightarrow> 'k \<Rightarrow> bytes \<Rightarrow> bytes \<Rightarrow> bytes result" where
  "eth_sign cfg ec secret what extra =
     (case convert_to_ascii_hex what of
        Inl e \<Rightarrow> Inl e
      | Inr h \<Rightarrow>
          (case ethereum_signable_message h extra of
             Inl e \<Rightarrow> Inl e
           | Inr m \<Rightarrow>
               (case sign_parsed ec (keccak_256 cfg m) secret of (sig, recovery_id) \<Rightarrow> Inr (sig @ [recovery_id]))))"

section \<open>The mapping\<close>

definition evm_prefix :: bytes where
  "evm_prefix = ascii ''evm:''"

definition account_to_default_evm_address :: "'s evm_accounts_config \<Rightarrow> account_id32 \<Rightarrow> evm_address" where
  "account_to_default_evm_address cfg account = take 20 (blake2_256 cfg (evm_prefix @ account))"

definition padded_account :: "evm_address \<Rightarrow> account_id32" where
  "padded_account address = evm_prefix @ address @ replicate 8 0"

definition get_account_id :: "'s evm_accounts_state \<Rightarrow> evm_address \<Rightarrow> account_id32" where
  "get_account_id s address =
     (case EvmAccounts s address of Some acc \<Rightarrow> acc | None \<Rightarrow> padded_account address)"

definition get_evm_address :: "'s evm_accounts_state \<Rightarrow> account_id32 \<Rightarrow> evm_address option" where
  "get_evm_address s account =
     (case EvmAddresses s account of
        Some a \<Rightarrow> Some a
      | None \<Rightarrow> if take 4 account = evm_prefix then Some (take 20 (drop 4 account)) else None)"

definition get_or_create_evm_address ::
  "'s evm_accounts_config \<Rightarrow> account_id32 \<Rightarrow> 's evm_accounts_state \<Rightarrow> evm_address \<times> 's evm_accounts_state" where
  "get_or_create_evm_address cfg account s =
     (case get_evm_address s account of
        Some a \<Rightarrow> (a, s)
      | None \<Rightarrow>
          let addr = account_to_default_evm_address cfg account in
          (addr, s\<lparr>EvmAccounts := (EvmAccounts s)(addr \<mapsto> account),
                   EvmAddresses := (EvmAddresses s)(account \<mapsto> addr)\<rparr>))"

definition is_linked :: "'s evm_accounts_config \<Rightarrow> 's evm_accounts_state \<Rightarrow> account_id32 \<Rightarrow> evm_address \<Rightarrow> bool" where
  "is_linked cfg s account evm \<longleftrightarrow>
     get_evm_address s account = Some evm \<or> account_to_default_evm_address cfg account = evm"

definition on_killed_account :: "'s evm_accounts_config \<Rightarrow> account_id32 \<Rightarrow> 's evm_accounts_state \<Rightarrow> 's evm_accounts_state" where
  "on_killed_account cfg who s =
     (let s1 = s\<lparr>EvmAccounts := (EvmAccounts s)(account_to_default_evm_address cfg who := None)\<rparr> in
      case EvmAddresses s1 who of
        Some evm_addr \<Rightarrow>
          s1\<lparr>EvmAccounts := (EvmAccounts s1)(evm_addr := None), EvmAddresses := (EvmAddresses s1)(who := None)\<rparr>
      | None \<Rightarrow> s1)"

datatype multi_address =
  MA_Id account_id32 | MA_Index u32 | MA_Raw bytes | MA_Address32 bytes | MA_Address20 bytes

fun evm_lookup :: "'s evm_accounts_state \<Rightarrow> multi_address \<Rightarrow> account_id32 option" where
  "evm_lookup s (MA_Address20 i) = Some (get_account_id s i)"
| "evm_lookup s _ = None"

definition evm_unlookup :: "account_id32 \<Rightarrow> multi_address" where
  "evm_unlookup a = MA_Id a"

section \<open>Calls\<close>

text \<open>The balance of the padded account moves to the claimer, if the account exists.\<close>

definition merge_padded_account ::
  "'s evm_accounts_config \<Rightarrow> account_id32 \<Rightarrow> account_id32 \<Rightarrow> ('s, unit) evm_accounts_op" where
  "merge_padded_account cfg account_id who s =
     (if account_exists cfg account_id (ea_world s) then on_world (TransferAll cfg account_id who) s else ok () s)"

definition claim_account ::
  "'s evm_accounts_config \<Rightarrow> account_id32 origin \<Rightarrow> evm_address \<Rightarrow> bytes \<Rightarrow> ('s, unit) evm_accounts_op" where
  "claim_account cfg orig eth_addr eth_signature = transactional (
     bind_op (pure (ensure_signed orig)) (\<lambda>who s.
     bind_op (ensure (EvmAddresses s who = None) (ea_fail AccountIdHasMapped)) (\<lambda>_.
     bind_op (ensure (EvmAccounts s eth_addr = None) (ea_fail EthAddressHasMapped)) (\<lambda>_.
     bind_op (pure (convert_to_ascii_hex who)) (\<lambda>what.
     bind_op (pure (eth_recover cfg eth_signature what [])) (\<lambda>address.
     bind_op (ensure (eth_addr = address) (ea_fail InvalidSignature)) (\<lambda>_ s.
     let account_id = get_account_id s eth_addr in
     bind_op (merge_padded_account cfg account_id who) (\<lambda>_.
     bind_op (modify_op (\<lambda>s. s\<lparr>EvmAccounts := (EvmAccounts s)(eth_addr \<mapsto> who)\<rparr>)) (\<lambda>_.
     bind_op (modify_op (\<lambda>s. s\<lparr>EvmAddresses := (EvmAddresses s)(who \<mapsto> eth_addr)\<rparr>)) (\<lambda>_.
     bind_op (on_world (OnClaim cfg who)) (\<lambda>_.
     modify_op (ea_deposit_event (ClaimAccount who eth_addr)))))) s))))) s))"

definition claim_default_account ::
  "'s evm_accounts_config \<Rightarrow> account_id32 origin \<Rightarrow> ('s, unit) evm_accounts_op" where
  "claim_default_account cfg orig =
     bind_op (pure (ensure_signed orig)) (\<lambda>who s.
     bind_op (ensure (EvmAddresses s who = None) (ea_fail AccountIdHasMapped)) (\<lambda>_ s.
     case get_or_create_evm_address cfg who s of
       (eth_addr, s1) \<Rightarrow>
         bind_op (on_world (OnClaim cfg who)) (\<lambda>_.
         modify_op (ea_deposit_event (ClaimAccount who eth_addr))) s1) s)"

section \<open>Inversion\<close>

lemma on_world_Inr [op_simps]:
  "on_world f s = (Inr a, t) \<longleftrightarrow> (\<exists>x. f (ea_world s) = (Inr a, x) \<and> t = s\<lparr>ea_world := x\<rparr>)"
  by (auto simp: on_world_def split: prod.splits)

definition merged_world :: "'s evm_accounts_config \<Rightarrow> account_id32 \<Rightarrow> account_id32 \<Rightarrow> 's \<Rightarrow> 's \<Rightarrow> bool" where
  "merged_world cfg a who w x \<longleftrightarrow>
     (if account_exists cfg a w then TransferAll cfg a who w = (Inr (), x) else x = w)"

lemma merge_padded_account_Inr [op_simps]:
  "merge_padded_account cfg a who s = (Inr u, t) \<longleftrightarrow>
     (\<exists>x. merged_world cfg a who (ea_world s) x \<and> t = s\<lparr>ea_world := x\<rparr>)"
  by (auto simp: merge_padded_account_def merged_world_def op_simps)

lemma get_account_id_simps [simp]:
  "EvmAccounts s e = None \<Longrightarrow> get_account_id s e = padded_account e"
  "EvmAccounts s e = Some a \<Longrightarrow> get_account_id s e = a"
  by (simp_all add: get_account_id_def)

lemma claim_account_Inr:
  assumes "claim_account cfg orig e sig s = (Inr u, t)"
  obtains who what where "orig = Signed who" "EvmAddresses s who = None" "EvmAccounts s e = None"
    "convert_to_ascii_hex who = Inr what" "eth_recover cfg sig what [] = Inr e"
    "EvmAccounts t = (EvmAccounts s)(e \<mapsto> who)" "EvmAddresses t = (EvmAddresses s)(who \<mapsto> e)"
    "ea_events t = ea_events s @ [ClaimAccount who e]"
    "\<exists>x. merged_world cfg (padded_account e) who (ea_world s) x \<and> OnClaim cfg who x = (Inr (), ea_world t)"
proof -
  from assms obtain who what x y where
    *: "orig = Signed who" "EvmAddresses s who = None" "EvmAccounts s e = None"
    "convert_to_ascii_hex who = Inr what" "eth_recover cfg sig what [] = Inr e"
    "merged_world cfg (padded_account e) who (ea_world s) x"
    "OnClaim cfg who x = (Inr (), y)"
    and t: "t = s\<lparr>EvmAccounts := (EvmAccounts s)(e \<mapsto> who), EvmAddresses := (EvmAddresses s)(who \<mapsto> e), ea_world := y,
      ea_events := ea_events s @ [ClaimAccount who e]\<rparr>"
    by (auto simp: claim_account_def op_simps Let_def ea_deposit_event_def)
  show thesis by (rule that [OF *(1-5)]) (use *(6,7) t in auto)
qed

lemma claim_default_account_Inr:
  assumes "claim_default_account cfg orig s = (Inr u, t)"
  obtains who e s1 where "orig = Signed who" "EvmAddresses s who = None"
    "get_or_create_evm_address cfg who s = (e, s1)"
    "EvmAccounts t = EvmAccounts s1" "EvmAddresses t = EvmAddresses s1"
    "ea_events t = ea_events s1 @ [ClaimAccount who e]" "OnClaim cfg who (ea_world s1) = (Inr (), ea_world t)"
proof -
  from assms obtain who x where *: "orig = Signed who" "EvmAddresses s who = None"
    "OnClaim cfg who (ea_world (snd (get_or_create_evm_address cfg who s))) = (Inr (), x)"
    and t: "t = (snd (get_or_create_evm_address cfg who s))\<lparr>ea_world := x,
      ea_events := ea_events (snd (get_or_create_evm_address cfg who s)) @
        [ClaimAccount who (fst (get_or_create_evm_address cfg who s))]\<rparr>"
    by (auto simp: claim_default_account_def op_simps ea_deposit_event_def case_prod_beta)
  show thesis by (rule that [OF *(1,2) surjective_pairing]) (use *(3) t in simp_all)
qed

end
