(* ===== verification/Evm_Accounts_Properties.thy ===== *)
theory Evm_Accounts_Properties
  imports Evm_Accounts
begin

text \<open>
  The properties of the EVM accounts pallet: the text a claim signs determines the account, a
  signature by the owner of an address is accepted, the two maps stay inverse to each other, and the
  translations between accounts and addresses undo each other.
\<close>

section \<open>Hexadecimal digits\<close>

definition hex_digit :: "u8 \<Rightarrow> u8" where
  "hex_digit n = (if n < 10 then 48 + n else 87 + n)"

definition hex_pair :: "u8 \<Rightarrow> bytes" where
  "hex_pair b = [hex_digit (b div 16), hex_digit (b mod 16)]"

lemma push_nibble_ok: "n < 16 \<Longrightarrow> push_nibble n r = Inr (r @ [hex_digit n])"
  by (auto simp: push_nibble_def hex_digit_def checked_add_def checked_sub_def word_less_nat_alt word_le_nat_alt)

lemma nibbles: "b div 16 < (16 :: u8)" "b mod 16 < (16 :: u8)"
  using unsigned_less [where 'a = nat and w = b] by (simp_all add: word_less_nat_alt unat_div unat_mod)

lemma hex_loop_ok: "hex_loop bs r = Inr (r @ concat (map hex_pair bs))"
  by (induction bs arbitrary: r) (simp_all add: push_nibble_ok nibbles hex_pair_def)

lemma hex_digit_inj: "m < 16 \<Longrightarrow> n < 16 \<Longrightarrow> hex_digit m = hex_digit n \<Longrightarrow> m = n"
  by (auto simp: hex_digit_def word_eq_unat word_less_nat_alt unat_word_ariths split: if_splits)

lemma hex_pair_inj: "hex_pair a = hex_pair b \<longleftrightarrow> a = b"
proof
  assume "hex_pair a = hex_pair b"
  then have "a div 16 = b div 16" "a mod 16 = b mod 16"
    using hex_digit_inj nibbles by (auto simp: hex_pair_def)
  then show "a = b" by (metis word_mod_div_equality)
qed simp

lemma hex_inj: "concat (map hex_pair as) = concat (map hex_pair bs) \<Longrightarrow> as = bs"
proof (induction as arbitrary: bs)
  case Nil
  then show ?case by (cases bs) (auto simp: hex_pair_def)
next
  case (Cons a as)
  then obtain b bs' where "bs = b # bs'" by (cases bs) (auto simp: hex_pair_def)
  with Cons show ?case using hex_pair_inj [of a b] by (auto simp: hex_pair_def)
qed

lemma convert_to_ascii_hex_ok:
  "length bs < 2 ^ 30 - 1 \<Longrightarrow> convert_to_ascii_hex bs = Inr (concat (map hex_pair bs))"
  by (auto simp: convert_to_ascii_hex_def checked_mul_def len_def hex_loop_ok isize_max_def word_less_nat_alt
      unat_of_nat unat_word_ariths take_bit_eq_mod)

lemma convert_to_ascii_hex_Inr: "convert_to_ascii_hex bs = Inr h \<Longrightarrow> h = concat (map hex_pair bs)"
  by (auto simp: convert_to_ascii_hex_def hex_loop_ok split: option.splits if_splits)

section \<open>The signed message\<close>

definition is_digit :: "u8 \<Rightarrow> bool" where
  "is_digit b \<longleftrightarrow> 48 \<le> b \<and> b \<le> 57"

lemma digits_rev_digits: "b \<in> set (digits_rev l) \<Longrightarrow> is_digit b"
proof (induction l rule: digits_rev.induct)
  case (1 l)
  have "take_bit 8 (unat l mod 10) = unat l mod 10" by (simp add: take_bit_nat_eq_self_iff)
  then have "is_digit (48 + ucast (l mod 10))"
    by (simp add: is_digit_def word_le_nat_alt unat_word_ariths unsigned_ucast_eq)
  with 1 show ?case by (subst (asm) (2) digits_rev.simps) (auto split: if_splits)
qed

lemma signable_message_inj:
  assumes "ethereum_signable_message what [] = Inr m" and "ethereum_signable_message what' [] = Inr m"
  shows "what = what'"
proof -
  from assms obtain l l' where
    "rev (digits_rev l) @ ascii ''reef evm:'' @ what = rev (digits_rev l') @ ascii ''reef evm:'' @ what'"
    by (auto simp: ethereum_signable_message_def Let_def split: option.splits dest: sym)
  then have "dropWhile is_digit (rev (digits_rev l) @ ascii ''reef evm:'' @ what) =
      dropWhile is_digit (rev (digits_rev l') @ ascii ''reef evm:'' @ what')" by simp
  moreover have "dropWhile is_digit (rev (digits_rev l) @ ascii ''reef evm:'' @ w) = ascii ''reef evm:'' @ w" for l w
    using digits_rev_digits by (subst dropWhile_append2) (auto simp: ascii_def is_digit_def)
  ultimately show ?thesis by simp
qed

text \<open>
  (C26) The text a claimer signs determines the account: whenever the encoding and the message
  construction succeed on two accounts and give the same bytes, the accounts are equal. The length
  and the prefix in front of the account cannot be confused with it.
\<close>

theorem signed_message_injective:
  assumes "convert_to_ascii_hex a = Inr ha" and "convert_to_ascii_hex b = Inr hb"
    and "ethereum_signable_message ha [] = Inr m" and "ethereum_signable_message hb [] = Inr m"
  shows "a = b"
  using assms signable_message_inj convert_to_ascii_hex_Inr hex_inj by metis

theorem signed_message_injective_witness:
  "ethereum_signable_message (ascii ''ab05'') [] =
     Inr (0x19 # ascii ''Ethereum Signed Message:'' @ [10] @ ascii ''13reef evm:ab05'') \<and>
   ethereum_signable_message (ascii ''ab06'') [] \<noteq> ethereum_signable_message (ascii ''ab05'') []"
proof
  have h: "convert_to_ascii_hex [171, 5] = Inr (ascii ''ab05'')" "convert_to_ascii_hex [171, 6] = Inr (ascii ''ab06'')"
    by (simp_all add: convert_to_ascii_hex_ok hex_pair_def hex_digit_def ascii_def)
  show m: "ethereum_signable_message (ascii ''ab05'') [] =
     Inr (0x19 # ascii ''Ethereum Signed Message:'' @ [10] @ ascii ''13reef evm:ab05'')"
    by (simp add: ethereum_signable_message_def checked_add_def len_def ascii_def digits_rev.simps Let_def)
  show "ethereum_signable_message (ascii ''ab06'') [] \<noteq> ethereum_signable_message (ascii ''ab05'') []"
    using signed_message_injective [OF h m] unfolding m by fastforce
qed

section \<open>Claims\<close>

text \<open>
  A concrete instance: a world of existing accounts with transfers and hooks that succeed, hashes that
  keep bytes of their argument, and an elliptic-curve library whose signature reveals the key.
\<close>

definition demo_evm :: "account_id32 list evm_accounts_config" where
  "demo_evm = \<lparr>blake2_256 = drop 4, keccak_256 = (\<lambda>x. replicate 12 0 @ take 20 x),
     secp256k1_ecdsa_recover = (\<lambda>sig _. Inr (take 64 sig)),
     account_exists = (\<lambda>a w. a \<in> set w), TransferAll = (\<lambda>a _. modify_op (removeAll a)), OnClaim = (\<lambda>_. ok ())\<rparr>"

definition demo_ec :: "bytes secp256k1" where
  "demo_ec = \<lparr>public_key_serialize = (\<lambda>k. 4 # k), sign_parsed = (\<lambda>_ k. (k, 0))\<rparr>"

definition demo_key :: bytes where "demo_key = replicate 64 7"

definition demo_who :: account_id32 where "demo_who = replicate 32 1"

definition demo_other :: account_id32 where "demo_other = replicate 32 2"

definition demo_evm_state :: "account_id32 list evm_accounts_state" where
  "demo_evm_state = \<lparr>EvmAccounts = Map.empty, EvmAddresses = Map.empty, ea_events = [], ea_world = []\<rparr>"

definition demo_signature :: bytes where "demo_signature = replicate 64 7 @ [0]"

lemma demo_sign: "eth_sign demo_evm demo_ec demo_key demo_who [] = Inr demo_signature"
  by (simp add: eth_sign_def convert_to_ascii_hex_ok demo_who_def ethereum_signable_message_def checked_add_def len_def
      ascii_def hex_pair_def hex_digit_def demo_ec_def demo_key_def demo_signature_def Let_def word_le_nat_alt unat_word_ariths
      unat_of_nat take_bit_eq_mod length_concat sum_list_replicate)

text \<open>The library's law: recovery undoes signing.\<close>

definition recovers :: "'s evm_accounts_config \<Rightarrow> 'k secp256k1 \<Rightarrow> 'k \<Rightarrow> bool" where
  "recovers cfg ec secret \<longleftrightarrow> (\<forall>m. secp256k1_ecdsa_recover cfg
     (fst (sign_parsed ec m secret) @ [snd (sign_parsed ec m secret)]) m =
       Inr (drop 1 (take 65 (public_key_serialize ec secret))))"

lemma eth_recover_sign:
  assumes "recovers cfg ec secret" and "eth_sign cfg ec secret who extra = Inr sig" and "convert_to_ascii_hex who = Inr h"
  shows "eth_recover cfg sig h extra = Inr (eth_address cfg ec secret)"
  using assms
  by (auto simp: eth_sign_def eth_recover_def eth_address_def recovers_def case_prod_beta split: sum.splits)

text \<open>
  (C25) The owner of an address can claim it: if an account and an address are both unmapped, the
  address belongs to a key, and the account's text is signed with that key, then the claim succeeds,
  maps the two to each other, moves the balances of the address' padded account exactly when that
  account exists, and announces the claim, provided the transfer and the claim hook succeed.
\<close>

theorem claim_with_own_key:
  assumes "recovers cfg ec secret" and "eth_sign cfg ec secret who [] = Inr sig" and "e = eth_address cfg ec secret"
    and "EvmAddresses s who = None" and "EvmAccounts s e = None"
    and "merged_world cfg (padded_account e) who (ea_world s) w" and "OnClaim cfg who w = (Inr (), w')"
  shows "claim_account cfg (Signed who) e sig s =
    (Inr (), s\<lparr>EvmAccounts := (EvmAccounts s)(e \<mapsto> who), EvmAddresses := (EvmAddresses s)(who \<mapsto> e),
       ea_events := ea_events s @ [ClaimAccount who e], ea_world := w'\<rparr>)"
proof -
  obtain h where h: "convert_to_ascii_hex who = Inr h"
    using assms(2) by (auto simp: eth_sign_def split: sum.splits)
  note rec = eth_recover_sign [OF assms(1,2) h, folded assms(3)]
  have "merge_padded_account cfg (padded_account e) who s = (Inr (), s\<lparr>ea_world := w\<rparr>)"
    using assms(6) by (auto simp: merge_padded_account_def merged_world_def on_world_def ok_def split: if_splits)
  then show ?thesis
    using h rec assms(4,5,7)
    by (simp add: claim_account_def transactional_def op_defs Let_def on_world_def ea_deposit_event_def)
qed

theorem claim_with_own_key_witness:
  "claim_account demo_evm (Signed demo_who) (replicate 20 7) demo_signature
     (demo_evm_state\<lparr>ea_world := [padded_account (replicate 20 7), demo_who]\<rparr>) =
   (Inr (), \<lparr>EvmAccounts = [replicate 20 7 \<mapsto> demo_who], EvmAddresses = [demo_who \<mapsto> replicate 20 7],
      ea_events = [ClaimAccount demo_who (replicate 20 7)], ea_world = [demo_who]\<rparr>)"
proof -
  have "padded_account (replicate 20 7) \<noteq> demo_who"
    by (auto simp: padded_account_def demo_who_def evm_prefix_def ascii_def dest: arg_cong [where f = hd])
  then show ?thesis
    using claim_with_own_key [where cfg = demo_evm and ec = demo_ec and secret = demo_key and who = demo_who and sig = demo_signature
        and e = "replicate 20 7" and s = "demo_evm_state\<lparr>ea_world := [padded_account (replicate 20 7), demo_who]\<rparr>"
        and w = "[demo_who]" and w' = "[demo_who]", OF _ demo_sign]
    by (simp add: recovers_def demo_evm_def demo_ec_def demo_key_def eth_address_def demo_evm_state_def merged_world_def
        ok_def modify_op_def)
qed

section \<open>The mapping is one-to-one\<close>

text \<open>
  A step is a claim, the creation of a default address or the death of an account, for accounts of a
  set \<open>A\<close> on whose default addresses the hash does not collide, and whose claimed addresses are not
  the default address of another.
\<close>

inductive evm_accounts_step ::
  "'s evm_accounts_config \<Rightarrow> account_id32 set \<Rightarrow> 's evm_accounts_state \<Rightarrow> 's evm_accounts_state \<Rightarrow> bool"
  for cfg A where
  step_claim: "who \<in> A \<Longrightarrow> e \<notin> account_to_default_evm_address cfg ` (A - {who}) \<Longrightarrow>
    claim_account cfg (Signed who) e sig s = (Inr u, t) \<Longrightarrow> evm_accounts_step cfg A s t"
| step_claim_default: "who \<in> A \<Longrightarrow> claim_default_account cfg (Signed who) s = (Inr u, t) \<Longrightarrow>
    evm_accounts_step cfg A s t"
| step_get_or_create: "who \<in> A \<Longrightarrow> get_or_create_evm_address cfg who s = (e, t) \<Longrightarrow> evm_accounts_step cfg A s t"
| step_killed: "who \<in> A \<Longrightarrow> evm_accounts_step cfg A s (on_killed_account cfg who s)"

definition two_way :: "'s evm_accounts_state \<Rightarrow> bool" where
  "two_way s \<longleftrightarrow> (\<forall>a e. EvmAddresses s a = Some e \<longleftrightarrow> EvmAccounts s e = Some a)"

definition defaults_own :: "'s evm_accounts_config \<Rightarrow> account_id32 set \<Rightarrow> 's evm_accounts_state \<Rightarrow> bool" where
  "defaults_own cfg A s \<longleftrightarrow>
     (\<forall>a\<in>A. \<forall>b. EvmAccounts s (account_to_default_evm_address cfg a) = Some b \<longrightarrow> b = a)"

lemma two_way_insert:
  assumes "two_way s" and "EvmAddresses s who = None" and "EvmAccounts s e = None"
    and "EvmAccounts t = (EvmAccounts s)(e \<mapsto> who)" and "EvmAddresses t = (EvmAddresses s)(who \<mapsto> e)"
  shows "two_way t"
  unfolding two_way_def
proof (intro allI)
  fix a f
  note inv = assms(1) [unfolded two_way_def, rule_format]
  show "EvmAddresses t a = Some f \<longleftrightarrow> EvmAccounts t f = Some a"
    using inv [of a f] inv [of who f] inv [of a e] assms(2-5) by auto
qed

lemma defaults_own_insert:
  assumes "defaults_own cfg A s" and "who \<in> A" and "e \<notin> account_to_default_evm_address cfg ` (A - {who})"
    and "EvmAccounts t = (EvmAccounts s)(e \<mapsto> who)"
  shows "defaults_own cfg A t"
  using assms by (auto simp: defaults_own_def)

lemma get_or_create_two_way:
  assumes "two_way s" and "defaults_own cfg A s" and "inj_on (account_to_default_evm_address cfg) A" and "who \<in> A"
    and "get_or_create_evm_address cfg who s = (e, t)"
  shows "two_way t \<and> defaults_own cfg A t"
proof (cases "get_evm_address s who")
  case None
  let ?d = "account_to_default_evm_address cfg who"
  have t: "EvmAccounts t = (EvmAccounts s)(?d \<mapsto> who)" "EvmAddresses t = (EvmAddresses s)(who \<mapsto> ?d)"
    using assms(5) None by (auto simp: get_or_create_evm_address_def Let_def)
  have who: "EvmAddresses s who = None" using None by (auto simp: get_evm_address_def split: option.splits)
  have "EvmAccounts s ?d = None"
  proof (rule ccontr)
    assume "EvmAccounts s ?d \<noteq> None"
    then obtain b where b: "EvmAccounts s ?d = Some b" by blast
    with assms(2,4) have "b = who" by (auto simp: defaults_own_def)
    with b assms(1) [unfolded two_way_def, rule_format, of who ?d] who show False by simp
  qed
  moreover have "?d \<notin> account_to_default_evm_address cfg ` (A - {who})"
    using assms(3,4) by (auto simp: inj_on_def)
  ultimately show ?thesis
    using two_way_insert [OF assms(1) who] defaults_own_insert [OF assms(2,4)] t by blast
qed (use assms in \<open>auto simp: get_or_create_evm_address_def\<close>)

lemma killed_two_way:
  assumes "two_way s" and "defaults_own cfg A s" and "who \<in> A"
  shows "two_way (on_killed_account cfg who s) \<and> defaults_own cfg A (on_killed_account cfg who s)"
proof -
  let ?d = "account_to_default_evm_address cfg who" and ?t = "on_killed_account cfg who s"
  note inv = assms(1) [unfolded two_way_def, rule_format]
  have d: "EvmAccounts s ?d = None \<or> EvmAccounts s ?d = Some who"
    using assms(2,3) by (cases "EvmAccounts s ?d") (auto simp: defaults_own_def)
  have addr: "EvmAddresses ?t = (EvmAddresses s)(who := None)"
    by (auto simp: on_killed_account_def Let_def split: option.splits)
  have acc: "EvmAccounts ?t e = (if EvmAccounts s e = Some who then None else EvmAccounts s e)" for e
    using d inv [of who e] inv [of who ?d]
    by (auto simp: on_killed_account_def Let_def split: option.splits)
  have "two_way ?t" unfolding two_way_def addr acc using inv by simp
  moreover have "defaults_own cfg A ?t" using assms(2) unfolding defaults_own_def acc by auto
  ultimately show ?thesis by blast
qed

text \<open>
  (C9) The two maps stay inverse to each other: in every state reached from the empty maps by claims,
  default addresses and deaths of accounts (without hash collisions among the accounts involved), an
  account has an address exactly if that address has the account. So no address serves two accounts
  and no account two addresses, and a death leaves no entry behind on either side.
\<close>

theorem evm_mapping_bijective:
  assumes "EvmAccounts s0 = Map.empty" and "EvmAddresses s0 = Map.empty"
    and "inj_on (account_to_default_evm_address cfg) A" and "(evm_accounts_step cfg A)\<^sup>*\<^sup>* s0 s"
  shows "EvmAddresses s a = Some e \<longleftrightarrow> EvmAccounts s e = Some a"
proof -
  from assms(4) have "two_way s \<and> defaults_own cfg A s"
  proof (induction rule: rtranclp_induct)
    case base
    show ?case using assms(1,2) by (simp add: two_way_def defaults_own_def)
  next
    case (step s t)
    from step(2) step(3) show ?case
    proof (induction rule: evm_accounts_step.induct)
      case (step_claim who e sig s u t)
      from step_claim(3) show ?case
        by (rule claim_account_Inr) (use step_claim two_way_insert defaults_own_insert in blast)
    next
      case (step_claim_default who s u t)
      then obtain e s1 where c: "get_or_create_evm_address cfg who s = (e, s1)"
        "EvmAccounts t = EvmAccounts s1" "EvmAddresses t = EvmAddresses s1" by (auto elim: claim_default_account_Inr)
      have "two_way s1 \<and> defaults_own cfg A s1"
        using get_or_create_two_way [OF _ _ assms(3) step_claim_default(1) c(1)] step_claim_default by blast
      then show ?case by (simp add: two_way_def defaults_own_def c)
    next
      case (step_get_or_create who s e t)
      then show ?case using get_or_create_two_way assms(3) by blast
    next
      case (step_killed who s)
      then show ?case using killed_two_way by blast
    qed
  qed
  then show ?thesis by (simp add: two_way_def)
qed

definition "demo_linked = snd (get_or_create_evm_address demo_evm demo_who demo_evm_state)"

definition "demo_linked2 = snd (get_or_create_evm_address demo_evm demo_other demo_linked)"

lemma demo_defaults:
  "account_to_default_evm_address demo_evm demo_who = replicate 20 1"
  "account_to_default_evm_address demo_evm demo_other = replicate 20 2"
  by (simp_all add: account_to_default_evm_address_def demo_evm_def evm_prefix_def ascii_def demo_who_def demo_other_def)

theorem evm_mapping_bijective_witness:
  "EvmAddresses demo_linked2 demo_who = Some (replicate 20 1) \<and> EvmAccounts demo_linked2 (replicate 20 1) = Some demo_who \<and>
   EvmAccounts demo_linked2 (replicate 20 2) \<noteq> Some demo_who"
proof -
  have four: "replicate 4 x = [x, x, x, x]" for x :: u8 by (simp add: numeral_eq_Suc)
  have ne: "replicate 20 (1 :: u8) \<noteq> replicate 20 2" "demo_who \<noteq> demo_other"
    "get_evm_address demo_evm_state demo_who = None"
    by (simp_all add: demo_who_def demo_other_def get_evm_address_def demo_evm_state_def evm_prefix_def ascii_def
        four replicate_eq_replicate)
  have inj: "inj_on (account_to_default_evm_address demo_evm) {demo_who, demo_other}"
    using ne by (simp add: demo_defaults)
  have "(evm_accounts_step demo_evm {demo_who, demo_other})\<^sup>*\<^sup>* demo_evm_state demo_linked2"
  proof (rule rtranclp_trans [OF r_into_rtranclp r_into_rtranclp])
    show "evm_accounts_step demo_evm {demo_who, demo_other} demo_evm_state demo_linked"
      unfolding demo_linked_def by (rule step_get_or_create [of demo_who, OF _ surjective_pairing]) simp
    show "evm_accounts_step demo_evm {demo_who, demo_other} demo_linked demo_linked2"
      unfolding demo_linked2_def by (rule step_get_or_create [of demo_other, OF _ surjective_pairing]) simp
  qed
  note P = evm_mapping_bijective [OF _ _ inj this]
  have "EvmAddresses demo_linked2 demo_who = Some (replicate 20 1)"
    using ne demo_defaults(1)
    by (auto simp: demo_linked2_def demo_linked_def get_or_create_evm_address_def Let_def split: option.splits)
  then show ?thesis
    using P [of demo_who "replicate 20 1"] P [of demo_who "replicate 20 2"] ne by (simp add: demo_evm_state_def)
qed

text \<open>
  From an address to its account and back: for maps that are inverse to each other, the address
  of the account of an address is that address again, whether it is mapped or stands for its padded
  account (unless that padded account has itself claimed another address); and a mapped account is
  the account of its address.
\<close>

theorem address_roundtrip:
  assumes "\<forall>a e. EvmAddresses s a = Some e \<longleftrightarrow> EvmAccounts s e = Some a" and "length e = 20"
    and "EvmAccounts s e \<noteq> None \<or> EvmAddresses s (padded_account e) = None"
  shows "get_evm_address s (get_account_id s e) = Some e \<and>
    (\<forall>a. EvmAddresses s a = Some e \<longrightarrow> get_account_id s e = a)"
proof (cases "EvmAccounts s e")
  case None
  with assms show ?thesis
    by (auto simp: get_evm_address_def padded_account_def evm_prefix_def ascii_def)
next
  case (Some a)
  then have "EvmAddresses s a = Some e" using assms(1) by blast
  then have "get_evm_address s a = Some e" by (simp add: get_evm_address_def)
  with Some assms(1) show ?thesis by auto
qed

theorem address_roundtrip_witness:
  "get_evm_address demo_evm_state (get_account_id demo_evm_state (replicate 20 9)) = Some (replicate 20 9)"
  using address_roundtrip [of demo_evm_state "replicate 20 9"] by (simp add: demo_evm_state_def)

end
