(* ===== verification/Evm_Types.thy ===== *)
theory Evm_Types
  imports Currency_Contract
begin

text \<open>
  What the pallets around the EVM share: big-endian numbers in byte strings, the outcomes of an
  execution as the interpreter's interface lists them, and the traits of \<^verbatim>\<open>modules/support/src/lib.rs\<close>
  and \<^verbatim>\<open>primitives/src/evm.rs\<close>.
\<close>

section \<open>Big-endian numbers\<close>

definition be_nat :: "bytes \<Rightarrow> nat" where
  "be_nat bs = foldl (\<lambda>acc b. acc * 256 + unat b) 0 bs"

fun be_bytes :: "nat \<Rightarrow> nat \<Rightarrow> bytes" where
  "be_bytes 0 k = []"
| "be_bytes (Suc n) k = be_bytes n (k div 256) @ [of_nat (k mod 256)]"

lemma length_be_bytes [simp]: "length (be_bytes n k) = n"
  by (induction n arbitrary: k) simp_all

lemma be_nat_append1: "be_nat (bs @ [b]) = be_nat bs * 256 + unat b"
  by (simp add: be_nat_def)

lemma be_nat_be_bytes: "be_nat (be_bytes n k) = k mod 256 ^ n"
proof (induction n arbitrary: k)
  case (Suc n)
  have "unat (of_nat (k mod 256) :: u8) = k mod 256"
    by (simp add: unat_of_nat take_bit_eq_mod)
  with Suc show ?case by (simp add: be_nat_append1 mod_mult2_eq)
qed (simp add: be_nat_def)

lemma be_nat_bound: "be_nat bs < 256 ^ length bs"
proof (induction bs rule: rev_induct)
  case (snoc b bs)
  have "unat b < 256" using unsigned_less [where 'a = nat and w = b] by simp
  with snoc show ?case by (simp add: be_nat_append1)
qed (simp add: be_nat_def)

lemma be_nat_zeros [simp]: "be_nat (replicate n 0 @ bs) = be_nat bs"
  by (induction n) (simp_all add: be_nat_def)

lemma be_nat_inj: "length xs = length ys \<Longrightarrow> be_nat xs = be_nat ys \<longleftrightarrow> xs = ys"
proof (induction xs arbitrary: ys rule: rev_induct)
  case (snoc x xs)
  then obtain y ys' where ys: "ys = ys' @ [y]" by (cases ys rule: rev_cases) auto
  have lt: "unat x < 256" "unat y < 256"
    using unsigned_less [where 'a = nat and w = x] unsigned_less [where 'a = nat and w = y] by simp_all
  have "a * 256 + b = c * 256 + d \<longleftrightarrow> a = c \<and> b = d" if "b < 256" "d < 256" for a b c d :: nat
  proof
    assume "a * 256 + b = c * 256 + d"
    then have "(a * 256 + b) div 256 = (c * 256 + d) div 256 \<and> (a * 256 + b) mod 256 = (c * 256 + d) mod 256"
      by (simp only:)
    with that show "a = c \<and> b = d" by simp
  qed simp
  from this [OF lt] have "be_nat xs * 256 + unat x = be_nat ys' * 256 + unat y \<longleftrightarrow> be_nat xs = be_nat ys' \<and> unat x = unat y" .
  with snoc ys show ?case by (simp add: be_nat_append1 word_eq_unat)
qed simp

text \<open>\<open>saturated_into\<close> between unsigned widths, on the number read from the bytes.\<close>

definition saturated_into :: "nat \<Rightarrow> 'a::len word" where
  "saturated_into k = of_nat (min k (2 ^ LENGTH('a) - 1))"

lemma unat_saturated_into: "unat (saturated_into k :: 'a::len word) = min k (2 ^ LENGTH('a) - 1)"
  by (simp add: saturated_into_def unat_of_nat min_less_iff_disj take_bit_eq_mod)

section \<open>Execution\<close>

datatype exit_succeed = Stopped | Returned | Suicided

datatype exit_error =
  StackUnderflow | StackOverflow | InvalidJump | InvalidRange | DesignatedInvalid | CallTooDeep | CreateCollision
| CreateContractLimit | OutOfOffset | OutOfGas | OutOfFund | PCUnderflow | CreateEmpty | OtherExit string

datatype exit_fatal = NotSupported | UnhandledInterrupt | CallErrorAsFatal exit_error | OtherFatal string

datatype exit_reason = Succeed exit_succeed | Error exit_error | Revert | Fatal exit_fatal

datatype execution_mode = Execute | View | EstimateGas

record invoke_context =
  contract :: evm_address
  sender :: evm_address
  ctx_origin :: evm_address

record call_info =
  exit_reason_of :: exit_reason
  call_output :: bytes
  used_gas :: u256
  used_storage :: i32

record create_info =
  create_exit_reason :: exit_reason
  create_address :: evm_address
  create_output :: bytes
  create_used_gas :: u256
  create_used_storage :: i32

text \<open>The trait \<open>EVM\<close>: execution of a contract, and the account that pays for storage.\<close>

record ('acc, 's) evm_trait =
  execute :: "invoke_context \<Rightarrow> bytes \<Rightarrow> balance \<Rightarrow> u64 \<Rightarrow> u32 \<Rightarrow> execution_mode \<Rightarrow> ('s, dispatch_error, call_info) storage_op"
  evm_get_origin :: "'s \<Rightarrow> 'acc option"
  evm_set_origin :: "'acc \<Rightarrow> 's \<Rightarrow> 's"

text \<open>The trait \<open>EVMBridge\<close>, whose reading functions leave the storage alone.\<close>

record ('acc, 's) evm_bridge =
  bridge_total_supply :: "invoke_context \<Rightarrow> 's \<Rightarrow> balance result"
  bridge_balance_of :: "invoke_context \<Rightarrow> evm_address \<Rightarrow> 's \<Rightarrow> balance result"
  bridge_transfer :: "invoke_context \<Rightarrow> evm_address \<Rightarrow> balance \<Rightarrow> ('s, dispatch_error, unit) storage_op"
  bridge_get_origin :: "'s \<Rightarrow> 'acc option"

text \<open>The trait \<open>AddressMapping\<close>.\<close>

record ('acc, 's) address_mapping =
  am_account_id :: "'s \<Rightarrow> evm_address \<Rightarrow> 'acc"
  am_evm_address :: "'s \<Rightarrow> 'acc \<Rightarrow> evm_address option"
  am_or_create :: "'acc \<Rightarrow> 's \<Rightarrow> evm_address \<times> 's"
  am_default :: "'acc \<Rightarrow> evm_address"
  am_is_linked :: "'s \<Rightarrow> 'acc \<Rightarrow> evm_address \<Rightarrow> bool"

text \<open>What the transaction tells the EVM about its surroundings.\<close>

record vicinity =
  v_gas_price :: u256
  v_origin :: evm_address
  v_block_base_fee_per_gas :: "u256 option"

section \<open>The configuration of the EVM pallet\<close>

text \<open>
  The constants and the other pallets the EVM is configured with. The operations of the other pallets
  work on the whole storage \<open>'s\<close>, the EVM's own included: a currency operation that lets an account die
  makes the framework call \<open>on_killed_account\<close> of the EVM pallet.
\<close>

record evm_constants =
  NewContractExtraBytes :: u32
  StorageDepositPerByte :: balance
  MaxCodeSize :: u32
  ChainId :: u64
  NetworkContractSource :: evm_address
  DeveloperDeposit :: balance
  DeploymentFee :: balance
  ethereum_compatibility :: bool

record ('acc, 's) evm_config =
  constants :: evm_constants
  ev_mapping :: "('acc, 's) address_mapping"
  ev_currency :: "('acc, 's) currency"
  ev_minimum_balance :: balance
  ev_deposit_creating :: "'acc \<Rightarrow> balance \<Rightarrow> 's \<Rightarrow> 's"
  ev_transfer :: "'acc \<Rightarrow> 'acc \<Rightarrow> balance \<Rightarrow> existence_requirement \<Rightarrow> ('s, dispatch_error, unit) storage_op"
  ev_repatriate_reserved :: "'acc \<Rightarrow> 'acc \<Rightarrow> balance \<Rightarrow> balance_status \<Rightarrow> ('s, dispatch_error, balance) storage_op"
  ev_transfer_all :: "'acc \<Rightarrow> 'acc \<Rightarrow> ('s, dispatch_error, unit) storage_op"
  NetworkContractOrigin :: "'acc origin \<Rightarrow> bool"
  FreeDeploymentOrigin :: "'acc origin \<Rightarrow> bool"
  GasToWeight :: "u64 \<Rightarrow> u64"
  unreserve_and_charge_fee :: "'acc \<Rightarrow> u64 \<Rightarrow> ('s, dispatch_error, balance \<times> balance) storage_op"
  refund_fee :: "'acc \<Rightarrow> u64 \<Rightarrow> balance \<Rightarrow> ('s, dispatch_error, unit) storage_op"
  keccak256 :: "bytes \<Rightarrow> bytes"

end
