(* ===== verification/Evm_Bridge.thy ===== *)
theory Evm_Bridge
  imports Evm_Types
begin

text \<open>
  The EVM bridge (\<^verbatim>\<open>modules/evm-bridge/src/lib.rs\<close>): calls of an ERC20 contract's functions, with the
  arguments encoded and the results decoded by the rules of the contract ABI. The execution is an
  argument.

  The code reads some results in ways that panic: a number from more than 32 bytes, and a slice past
  the end. An operation therefore ends in a value, in an error, or in a panic.
\<close>

datatype fault = Panicked | Failed dispatch_error

type_synonym ('s, 'a) bridge_op = "('s, fault, 'a) storage_op"

abbreviation bridge_fail :: "evm_bridge_error \<Rightarrow> fault" where
  "bridge_fail e \<equiv> Failed (Module (EvmBridge_Error e))"

definition faulting :: "('s, dispatch_error, 'a) storage_op \<Rightarrow> ('s, 'a) bridge_op" where
  "faulting f s = (case f s of (Inl e, t) \<Rightarrow> (Inl (Failed e), t) | (Inr a, t) \<Rightarrow> (Inr a, t))"

fun handle_exit_reason :: "exit_reason \<Rightarrow> fault + unit" where
  "handle_exit_reason (Succeed Returned) = Inr ()"
| "handle_exit_reason (Succeed Stopped) = Inr ()"
| "handle_exit_reason (Succeed _) = Inl (bridge_fail ExecutionFail)"
| "handle_exit_reason Revert = Inl (bridge_fail ExecutionRevert)"
| "handle_exit_reason (Fatal _) = Inl (bridge_fail ExecutionFatal)"
| "handle_exit_reason (Error _) = Inl (bridge_fail ExecutionError)"

section \<open>Decoding\<close>

text \<open>\<open>U256::from(&[u8])\<close> accepts at most 32 bytes.\<close>

definition u256_from_slice :: "bytes \<Rightarrow> fault + nat" where
  "u256_from_slice bs = (if length bs \<le> 32 then Inr (be_nat bs) else Inl Panicked)"

definition usize_max :: nat where
  "usize_max = 2 ^ 32 - 1"

definition usize_checked_add :: "nat \<Rightarrow> nat \<Rightarrow> nat option" where
  "usize_checked_add a b = (if a + b \<le> usize_max then Some (a + b) else None)"

text \<open>\<open>&v[a..b]\<close>\<close>

definition slice :: "bytes \<Rightarrow> nat \<Rightarrow> nat \<Rightarrow> fault + bytes" where
  "slice v a b = (if a \<le> b \<and> b \<le> length v then Inr (take (b - a) (drop a v)) else Inl Panicked)"

definition decode_string :: "bytes \<Rightarrow> fault + bytes" where
  "decode_string out =
     (if \<not> (64 \<le> length out \<and> length out mod 32 = 0) then Inl (bridge_fail InvalidReturnValue)
      else
        let offset = be_nat (take 32 out) in
        if \<not> offset \<le> usize_max then Inl (bridge_fail InvalidReturnValue)
        else case usize_checked_add offset 32 of
          None \<Rightarrow> Inl (bridge_fail InvalidReturnValue)
        | Some start \<Rightarrow>
            (case slice out offset start of
               Inl e \<Rightarrow> Inl e
             | Inr len_bytes \<Rightarrow>
                 let len = be_nat len_bytes in
                 if \<not> len \<le> usize_max then Inl (bridge_fail InvalidReturnValue)
                 else case usize_checked_add start len of
                   None \<Rightarrow> Inl (bridge_fail InvalidReturnValue)
                 | Some stop \<Rightarrow>
                     if \<not> stop \<le> length out then Inl (bridge_fail InvalidReturnValue)
                     else slice out start stop))"

section \<open>The ERC20 functions\<close>

definition context_call ::
  "('acc, 's) evm_trait \<Rightarrow> invoke_context \<Rightarrow> bytes \<Rightarrow> u32 \<Rightarrow> execution_mode \<Rightarrow> ('s, bytes) bridge_op" where
  "context_call evm ctx input storage_limit mode =
     bind_op (faulting (execute evm ctx input 0 2100000 storage_limit mode)) (\<lambda>info.
     bind_op (pure (handle_exit_reason (exit_reason_of info))) (\<lambda>_.
     ok (call_output info)))"

definition h256_of_h160 :: "evm_address \<Rightarrow> bytes" where
  "h256_of_h160 a = replicate 12 0 @ a"

definition bridge_evm_name :: "('acc, 's) evm_trait \<Rightarrow> invoke_context \<Rightarrow> ('s, bytes) bridge_op" where
  "bridge_evm_name evm ctx =
     bind_op (context_call evm ctx [0x06, 0xfd, 0xde, 0x03] 0 View) (\<lambda>out. pure (decode_string out))"

definition bridge_symbol :: "('acc, 's) evm_trait \<Rightarrow> invoke_context \<Rightarrow> ('s, bytes) bridge_op" where
  "bridge_symbol evm ctx =
     bind_op (context_call evm ctx [0x95, 0xd8, 0x9b, 0x41] 0 View) (\<lambda>out. pure (decode_string out))"

definition bridge_decimals :: "('acc, 's) evm_trait \<Rightarrow> invoke_context \<Rightarrow> ('s, u8) bridge_op" where
  "bridge_decimals evm ctx =
     bind_op (context_call evm ctx [0x31, 0x3c, 0xe5, 0x67] 0 View) (\<lambda>out.
     bind_op (ensure (length out = 32) (bridge_fail InvalidReturnValue)) (\<lambda>_.
     bind_op (pure (u256_from_slice out)) (\<lambda>v. ok (saturated_into v))))"

definition erc20_total_supply :: "('acc, 's) evm_trait \<Rightarrow> invoke_context \<Rightarrow> ('s, balance) bridge_op" where
  "erc20_total_supply evm ctx =
     bind_op (context_call evm ctx [0x18, 0x16, 0x0d, 0xdd] 0 View) (\<lambda>out.
     bind_op (pure (u256_from_slice out)) (\<lambda>v. ok (saturated_into v)))"

definition balance_of_input :: "evm_address \<Rightarrow> bytes" where
  "balance_of_input address = [0x70, 0xa0, 0x82, 0x31] @ h256_of_h160 address"

definition erc20_balance_of :: "('acc, 's) evm_trait \<Rightarrow> invoke_context \<Rightarrow> evm_address \<Rightarrow> ('s, balance) bridge_op" where
  "erc20_balance_of evm ctx address =
     bind_op (context_call evm ctx (balance_of_input address) 0 View) (\<lambda>out.
     bind_op (pure (u256_from_slice out)) (\<lambda>v. ok (saturated_into v)))"

definition transfer_input :: "evm_address \<Rightarrow> balance \<Rightarrow> bytes" where
  "transfer_input to value = [0xa9, 0x05, 0x9c, 0xbb] @ h256_of_h160 to @ be_bytes 32 (unat value)"

definition erc20_transfer ::
  "('acc, 's) evm_trait \<Rightarrow> invoke_context \<Rightarrow> evm_address \<Rightarrow> balance \<Rightarrow> ('s, unit) bridge_op" where
  "erc20_transfer evm ctx to value =
     (let storage_limit = if ctx_origin ctx = default_h160 then 0 else 1000 in
      bind_op (context_call evm ctx (transfer_input to value) storage_limit Execute) (\<lambda>out.
      ensure (out \<noteq> [] \<and> out = be_bytes 32 1) (bridge_fail InvalidReturnValue)))"

text \<open>
  The bridge as the other pallets see it, over an executor. A reading call leaves the storage alone. A panic
  ends the execution of the runtime, so no caller sees one; it is given an error of its own here.
\<close>

definition unfault :: "fault + 'a \<Rightarrow> 'a result" where
  "unfault r = (case r of Inl Panicked \<Rightarrow> Inl (Other ''panicked'') | Inl (Failed e) \<Rightarrow> Inl e | Inr x \<Rightarrow> Inr x)"

definition bridge_of :: "('acc, 's) evm_trait \<Rightarrow> ('acc, 's) evm_bridge" where
  "bridge_of evm =
     \<lparr>bridge_total_supply = (\<lambda>ctx s. unfault (fst (erc20_total_supply evm ctx s))),
      bridge_balance_of = (\<lambda>ctx a s. unfault (fst (erc20_balance_of evm ctx a s))),
      bridge_transfer = (\<lambda>ctx to v s. case erc20_transfer evm ctx to v s of (r, t) \<Rightarrow> (unfault r, t)),
      bridge_get_origin = evm_get_origin evm\<rparr>"

section \<open>Results\<close>

lemma faulting_Inr [op_simps]: "faulting f s = (Inr a, t) \<longleftrightarrow> f s = (Inr a, t)"
  by (auto simp: faulting_def split: prod.splits sum.splits)

lemma handle_exit_reason_Inr [simp]:
  "handle_exit_reason r = Inr u \<longleftrightarrow> r = Succeed Returned \<or> r = Succeed Stopped"
  by (cases r rule: handle_exit_reason.cases) auto

lemma handle_exit_reason_no_panic [simp]: "handle_exit_reason r \<noteq> Inl Panicked"
  by (cases r rule: handle_exit_reason.cases) auto

lemma context_call_Inr [op_simps]:
  "context_call evm ctx input lim mode s = (Inr out, t) \<longleftrightarrow>
     (\<exists>info. execute evm ctx input 0 2100000 lim mode s = (Inr info, t) \<and> out = call_output info \<and>
        (exit_reason_of info = Succeed Returned \<or> exit_reason_of info = Succeed Stopped))"
  by (auto simp: context_call_def op_simps)

lemma context_call_no_panic [simp]: "fst (context_call evm ctx input lim mode s) \<noteq> Inl Panicked"
  by (auto simp: context_call_def bind_op_def faulting_def pure_def ok_def split: prod.splits sum.splits)

lemma context_call_panic [simp]: "context_call evm ctx input lim mode s \<noteq> (Inl Panicked, t)"
  using context_call_no_panic by (metis fst_conv)

end
