(* ===== verification/Evm_Bridge_Properties.thy ===== *)
theory Evm_Bridge_Properties
  imports Evm_Bridge
begin

text \<open>
  The properties of the EVM bridge: strings survive their ABI encoding, the outputs on which decoding
  panics, and the call a transfer makes.
\<close>

section \<open>Strings\<close>

text \<open>The ABI encoding of a returned string: the offset 32, the length, the bytes and zero padding.\<close>

definition abi_string :: "bytes \<Rightarrow> bytes" where
  "abi_string s = be_bytes 32 32 @ be_bytes 32 (length s) @ s @ replicate ((32 - length s mod 32) mod 32) 0"

lemma abi_string_length: "length (abi_string s) mod 32 = 0" "64 + length s \<le> length (abi_string s)"
proof -
  define k where "k = length s"
  have len: "length (abi_string s) = 64 + (k + (32 - k mod 32) mod 32)" by (simp add: abi_string_def k_def)
  show "64 + length s \<le> length (abi_string s)" unfolding len by (simp add: k_def)
  obtain q r where k: "k = 32 * q + r" "r < 32"
    by (metis mod_less_divisor mult_div_mod_eq zero_less_numeral)
  then show "length (abi_string s) mod 32 = 0" unfolding len by (cases "r = 0") simp_all
qed

text \<open>
  (C29) A string survives: decoding the ABI encoding of any string that fits the address space gives
  the string back.
\<close>

theorem decode_string_roundtrip:
  assumes "64 + length s \<le> usize_max"
  shows "decode_string (abi_string s) = Inr s"
proof -
  have off: "be_nat (take 32 (abi_string s)) = 32"
    by (simp add: abi_string_def be_nat_be_bytes)
  have lenb: "take 32 (drop 32 (abi_string s)) = be_bytes 32 (length s)"
    by (simp add: abi_string_def)
  have "length s < 256 ^ 32" using assms by (simp add: usize_max_def)
  then have len: "be_nat (be_bytes 32 (length s)) = length s"
    by (simp add: be_nat_be_bytes)
  have body: "take (length s) (drop 64 (abi_string s)) = s"
    by (simp add: abi_string_def)
  show ?thesis
    using assms abi_string_length [of s] off lenb len body
    by (simp add: decode_string_def usize_checked_add_def slice_def usize_max_def Let_def)
qed

theorem decode_string_roundtrip_witness: "decode_string (abi_string [82, 69, 69, 70]) = Inr [82, 69, 69, 70]"
  by (rule decode_string_roundtrip) (simp add: usize_max_def)

section \<open>Panics\<close>

definition answered :: "call_info \<Rightarrow> bool" where
  "answered info \<longleftrightarrow> exit_reason_of info = Succeed Returned \<or> exit_reason_of info = Succeed Stopped"

text \<open>An output that passes the length check of \<open>decode_string\<close> but whose offset points past the last full word.\<close>

definition offset_past_end :: "bytes \<Rightarrow> bool" where
  "offset_past_end out \<longleftrightarrow>
     64 \<le> length out \<and> length out mod 32 = 0 \<and> be_nat (take 32 out) + 32 \<le> usize_max \<and> length out < be_nat (take 32 out) + 32"

lemma decode_string_panics: "decode_string out = Inl Panicked \<longleftrightarrow> offset_past_end out"
  by (auto simp: decode_string_def usize_checked_add_def slice_def Let_def offset_past_end_def)

lemma decode_string_part:
  "case decode_string out of
     Inl e \<Rightarrow> e = Panicked \<or> e = bridge_fail InvalidReturnValue
   | Inr s \<Rightarrow> \<exists>pre post. out = pre @ s @ post"
proof -
  have part: "\<exists>pre post. out = pre @ take n (drop k out) @ post" for n k
    by (metis append_take_drop_id)
  then show ?thesis by (simp add: decode_string_def slice_def Let_def split: option.split)
qed

text \<open>A reading call panics exactly if the contract answers and the decoder panics on the answer.\<close>

lemma read_panics:
  assumes "\<And>out s. fst (k out s) = Inl Panicked \<longleftrightarrow> P out"
  shows "fst (bind_op (context_call evm ctx input lim mode) k s) = Inl Panicked \<longleftrightarrow>
    (\<exists>info t. execute evm ctx input 0 2100000 lim mode s = (Inr info, t) \<and> answered info \<and> P (call_output info))"
proof (cases "execute evm ctx input 0 2100000 lim mode s")
  case (Pair r t)
  show ?thesis
  proof (cases r)
    case (Inl e)
    with Pair show ?thesis by (simp add: context_call_def bind_op_def faulting_def)
  next
    case (Inr info)
    with Pair assms show ?thesis
      by (auto simp: context_call_def bind_op_def faulting_def pure_def ok_def answered_def split: sum.splits)
  qed
qed

text \<open>
  (C30) When reading a contract panics. The balance of an address and the total supply: exactly if the
  contract answers (the execution returns or stops) with more than 32 bytes. The name and the symbol: exactly
  if it answers with an output that passes the length check of the decoder but whose offset, while
  it and its end are representable, points past the last full word. The decimals: never. And a decoded
  string is a part of the output, whatever the output; every other output gives the error \<open>InvalidReturnValue\<close>.
\<close>

theorem bridge_panics:
  "(fst (erc20_balance_of evm ctx a s) = Inl Panicked \<longleftrightarrow>
      (\<exists>info t. execute evm ctx (balance_of_input a) 0 2100000 0 View s = (Inr info, t) \<and> answered info \<and> 32 < length (call_output info))) \<and>
   (fst (erc20_total_supply evm ctx s) = Inl Panicked \<longleftrightarrow>
      (\<exists>info t. execute evm ctx [0x18, 0x16, 0x0d, 0xdd] 0 2100000 0 View s = (Inr info, t) \<and> answered info \<and>
         32 < length (call_output info))) \<and>
   (fst (bridge_evm_name evm ctx s) = Inl Panicked \<longleftrightarrow>
      (\<exists>info t. execute evm ctx [0x06, 0xfd, 0xde, 0x03] 0 2100000 0 View s = (Inr info, t) \<and> answered info \<and>
         offset_past_end (call_output info))) \<and>
   (fst (bridge_symbol evm ctx s) = Inl Panicked \<longleftrightarrow>
      (\<exists>info t. execute evm ctx [0x95, 0xd8, 0x9b, 0x41] 0 2100000 0 View s = (Inr info, t) \<and> answered info \<and>
         offset_past_end (call_output info))) \<and>
   fst (bridge_decimals evm ctx s) \<noteq> Inl Panicked \<and>
   (case decode_string out of
      Inl e \<Rightarrow> e = Panicked \<or> e = bridge_fail InvalidReturnValue
    | Inr str \<Rightarrow> \<exists>pre post. out = pre @ str @ post)"
proof (intro conjI)
  note number = read_panics [where P = "\<lambda>out. 32 < length out" and k = "\<lambda>out. bind_op (pure (u256_from_slice out)) (\<lambda>v. ok (saturated_into v))"]
  show "fst (erc20_balance_of evm ctx a s) = Inl Panicked \<longleftrightarrow>
      (\<exists>info t. execute evm ctx (balance_of_input a) 0 2100000 0 View s = (Inr info, t) \<and> answered info \<and> 32 < length (call_output info))"
    unfolding erc20_balance_of_def by (rule number) (simp add: bind_op_def pure_def ok_def u256_from_slice_def)
  show "fst (erc20_total_supply evm ctx s) = Inl Panicked \<longleftrightarrow>
      (\<exists>info t. execute evm ctx [0x18, 0x16, 0x0d, 0xdd] 0 2100000 0 View s = (Inr info, t) \<and> answered info \<and> 32 < length (call_output info))"
    unfolding erc20_total_supply_def by (rule number) (simp add: bind_op_def pure_def ok_def u256_from_slice_def)
  note string = read_panics [where P = offset_past_end and k = "\<lambda>out. pure (decode_string out)"]
  show "fst (bridge_evm_name evm ctx s) = Inl Panicked \<longleftrightarrow>
      (\<exists>info t. execute evm ctx [0x06, 0xfd, 0xde, 0x03] 0 2100000 0 View s = (Inr info, t) \<and> answered info \<and> offset_past_end (call_output info))"
    unfolding bridge_evm_name_def by (rule string) (simp add: pure_def decode_string_panics)
  show "fst (bridge_symbol evm ctx s) = Inl Panicked \<longleftrightarrow>
      (\<exists>info t. execute evm ctx [0x95, 0xd8, 0x9b, 0x41] 0 2100000 0 View s = (Inr info, t) \<and> answered info \<and> offset_past_end (call_output info))"
    unfolding bridge_symbol_def by (rule string) (simp add: pure_def decode_string_panics)
  have "fst (bridge_decimals evm ctx s) = Inl Panicked \<longleftrightarrow>
      (\<exists>info t. execute evm ctx [0x31, 0x3c, 0xe5, 0x67] 0 2100000 0 View s = (Inr info, t) \<and> answered info \<and> False)"
    unfolding bridge_decimals_def by (rule read_panics) (simp add: bind_op_def ensure_def pure_def ok_def fail_def u256_from_slice_def)
  then show "fst (bridge_decimals evm ctx s) \<noteq> Inl Panicked" by simp
qed (rule decode_string_part)

text \<open>A contract that answers every call with the same three words, the first of which is 96.\<close>

definition demo_words :: "(nat, unit) evm_trait" where
  "demo_words = \<lparr>execute = (\<lambda>_ _ _ _ _ _ s. (Inr \<lparr>exit_reason_of = Succeed Returned, call_output = be_bytes 32 96 @ replicate 64 0,
     used_gas = 0, used_storage = 0\<rparr>, s)), evm_get_origin = (\<lambda>_. None), evm_set_origin = (\<lambda>_ s. s)\<rparr>"

theorem bridge_panics_witness:
  "fst (erc20_balance_of demo_words \<lparr>contract = [], sender = [], ctx_origin = []\<rparr> [] ()) = Inl Panicked \<and>
   fst (bridge_symbol demo_words \<lparr>contract = [], sender = [], ctx_origin = []\<rparr> ()) = Inl Panicked"
  using bridge_panics [of demo_words "\<lparr>contract = [], sender = [], ctx_origin = []\<rparr>" "[]" "()" "[]"]
  by (simp add: demo_words_def answered_def offset_past_end_def be_nat_be_bytes usize_max_def)

section \<open>Transfers\<close>

text \<open>
  (C28) A transfer through the bridge calls the contract once, in executing mode, with the selector of
  \<open>transfer(address,uint256)\<close> followed by two words from which the recipient and the amount can be read
  back; it succeeds exactly if the execution returns or stops with the word 1, keeps the storage of that
  execution, and never panics.
\<close>

theorem erc20_transfer_call:
  assumes "length to = 20"
  shows "(erc20_transfer evm ctx to v s = (Inr u, t) \<longleftrightarrow>
      (\<exists>info. execute evm ctx (transfer_input to v) 0 2100000
           (if ctx_origin ctx = default_h160 then 0 else 1000) Execute s = (Inr info, t) \<and>
         (exit_reason_of info = Succeed Returned \<or> exit_reason_of info = Succeed Stopped) \<and>
         length (call_output info) = 32 \<and> be_nat (call_output info) = 1)) \<and>
    length (transfer_input to v) = 68 \<and> take 4 (transfer_input to v) = [0xa9, 0x05, 0x9c, 0xbb] \<and>
    take 20 (drop 16 (transfer_input to v)) = to \<and> be_nat (drop 36 (transfer_input to v)) = unat v \<and>
    fst (erc20_transfer evm ctx to v s) \<noteq> Inl Panicked"
proof (intro conjI)
  have one: "out \<noteq> [] \<and> out = be_bytes 32 1 \<longleftrightarrow> length out = 32 \<and> be_nat out = 1" for out
    using be_nat_inj [of out "be_bytes 32 1"] by (auto simp: be_nat_be_bytes)
  show "erc20_transfer evm ctx to v s = (Inr u, t) \<longleftrightarrow>
      (\<exists>info. execute evm ctx (transfer_input to v) 0 2100000
           (if ctx_origin ctx = default_h160 then 0 else 1000) Execute s = (Inr info, t) \<and>
         (exit_reason_of info = Succeed Returned \<or> exit_reason_of info = Succeed Stopped) \<and>
         length (call_output info) = 32 \<and> be_nat (call_output info) = 1)"
    unfolding erc20_transfer_def Let_def one by (auto simp: op_simps)
  show "be_nat (drop 36 (transfer_input to v)) = unat v"
    using assms unat_u128 [of v] by (simp add: transfer_input_def h256_of_h160_def be_nat_be_bytes)
  show "fst (erc20_transfer evm ctx to v s) \<noteq> Inl Panicked"
    by (auto simp: erc20_transfer_def Let_def bind_op_def ensure_def split: prod.split sum.split)
qed (use assms in \<open>simp_all add: transfer_input_def h256_of_h160_def\<close>)

definition demo_erc20 :: "(nat, bytes list) evm_trait" where
  "demo_erc20 = \<lparr>execute = (\<lambda>_ input _ _ _ _ s. (Inr \<lparr>exit_reason_of = Succeed Returned, call_output = be_bytes 32 1,
     used_gas = 0, used_storage = 0\<rparr>, s @ [input])), evm_get_origin = (\<lambda>_. None), evm_set_origin = (\<lambda>_ s. s)\<rparr>"

theorem erc20_transfer_call_witness:
  "erc20_transfer demo_erc20 \<lparr>contract = replicate 20 3, sender = replicate 20 4, ctx_origin = replicate 20 4\<rparr>
     (replicate 20 5) 7 [] = (Inr (), [transfer_input (replicate 20 5) 7])"
  using erc20_transfer_call [of "replicate 20 5" demo_erc20
      "\<lparr>contract = replicate 20 3, sender = replicate 20 4, ctx_origin = replicate 20 4\<rparr>" 7 "[]" "()"]
  by (simp add: demo_erc20_def be_nat_be_bytes)

end
