(* ===== verification/Currencies.thy ===== *)
theory Currencies
  imports Evm_Types Tokens_Calls
begin

text \<open>
  The currencies pallet (\<^verbatim>\<open>modules/currencies/src/lib.rs\<close>): one interface to the native currency, the
  tokens pallet and ERC20 contracts, chosen by the currency identifier.

  \<open>basic_currency\<close> collects the operations of the traits \<open>BasicCurrency\<close>, \<open>BasicCurrencyExtended\<close>,
  \<open>BasicLockableCurrency\<close> and \<open>BasicReservableCurrency\<close> of \<^verbatim>\<open>orml/traits/src/currency.rs\<close>; a
  multi-currency gives one for every identifier. The configuration of the pallet is, as in the code,
  a native currency, a multi-currency, an address mapping and a bridge to the EVM, all over one
  storage. The bridge to the \<open>Currency\<close> traits of the framework and the tokens pallet as the
  multi-currency are at the end.
\<close>

record ('acc, 's) basic_currency =
  bc_minimum_balance :: balance
  bc_total_issuance :: "'s \<Rightarrow> balance"
  bc_total_balance :: "'s \<Rightarrow> 'acc \<Rightarrow> balance"
  bc_free_balance :: "'s \<Rightarrow> 'acc \<Rightarrow> balance"
  bc_ensure_can_withdraw :: "'s \<Rightarrow> 'acc \<Rightarrow> balance \<Rightarrow> unit result"
  bc_transfer :: "'acc \<Rightarrow> 'acc \<Rightarrow> balance \<Rightarrow> ('s, dispatch_error, unit) storage_op"
  bc_deposit :: "'acc \<Rightarrow> balance \<Rightarrow> ('s, dispatch_error, unit) storage_op"
  bc_withdraw :: "'acc \<Rightarrow> balance \<Rightarrow> ('s, dispatch_error, unit) storage_op"
  bc_can_slash :: "'s \<Rightarrow> 'acc \<Rightarrow> balance \<Rightarrow> bool"
  bc_slash :: "'acc \<Rightarrow> balance \<Rightarrow> 's \<Rightarrow> balance \<times> 's"
  bc_update_balance :: "'acc \<Rightarrow> 128 word \<Rightarrow> ('s, dispatch_error, unit) storage_op"
  bc_set_lock :: "bytes \<Rightarrow> 'acc \<Rightarrow> balance \<Rightarrow> ('s, dispatch_error, unit) storage_op"
  bc_extend_lock :: "bytes \<Rightarrow> 'acc \<Rightarrow> balance \<Rightarrow> ('s, dispatch_error, unit) storage_op"
  bc_remove_lock :: "bytes \<Rightarrow> 'acc \<Rightarrow> ('s, dispatch_error, unit) storage_op"
  bc_can_reserve :: "'s \<Rightarrow> 'acc \<Rightarrow> balance \<Rightarrow> bool"
  bc_slash_reserved :: "'acc \<Rightarrow> balance \<Rightarrow> 's \<Rightarrow> balance \<times> 's"
  bc_reserved_balance :: "'s \<Rightarrow> 'acc \<Rightarrow> balance"
  bc_reserve :: "'acc \<Rightarrow> balance \<Rightarrow> ('s, dispatch_error, unit) storage_op"
  bc_unreserve :: "'acc \<Rightarrow> balance \<Rightarrow> 's \<Rightarrow> balance \<times> 's"
  bc_repatriate_reserved :: "'acc \<Rightarrow> 'acc \<Rightarrow> balance \<Rightarrow> balance_status \<Rightarrow> ('s, dispatch_error, balance) storage_op"

datatype 'acc currencies_event =
  CU_Transferred currency_id 'acc 'acc balance
| CU_BalanceUpdated currency_id 'acc "128 word"
| CU_Deposited currency_id 'acc balance
| CU_Withdrawn currency_id 'acc balance

record ('acc, 's) currencies_config =
  MultiCurrency :: "currency_id \<Rightarrow> ('acc, 's) basic_currency"
  MultiCurrency_transfer_all :: "'acc \<Rightarrow> 'acc \<Rightarrow> ('s, dispatch_error, unit) storage_op"
  NativeCurrency :: "('acc, 's) basic_currency"
  AddressMapping :: "('acc, 's) address_mapping"
  EVMBridge :: "('acc, 's) evm_bridge"
  cu_deposit_event :: "'acc currencies_event \<Rightarrow> 's \<Rightarrow> 's"
  cu_blake2_256 :: "bytes \<Rightarrow> bytes"

abbreviation cu_fail :: "currencies_error \<Rightarrow> dispatch_error" where
  "cu_fail e \<equiv> Module (Currencies_Error e)"

text \<open>The context of a reading call: nobody's.\<close>

definition view_context :: "evm_address \<Rightarrow> invoke_context" where
  "view_context c = \<lparr>contract = c, sender = default_h160, ctx_origin = default_h160\<rparr>"

definition ok_or_default :: "balance result \<Rightarrow> balance" where
  "ok_or_default r = (case r of Inl _ \<Rightarrow> 0 | Inr b \<Rightarrow> b)"

definition reserve_address :: "('acc, 's) currencies_config \<Rightarrow> evm_address \<Rightarrow> evm_address" where
  "reserve_address cfg address = take 20 (cu_blake2_256 cfg (map of_char ''erc20:'' @ address))"

definition erc20_balance ::
  "('acc, 's) currencies_config \<Rightarrow> evm_address \<Rightarrow> evm_address \<Rightarrow> 's \<Rightarrow> balance" where
  "erc20_balance cfg c address s = ok_or_default (bridge_balance_of (EVMBridge cfg) (view_context c) address s)"

section \<open>MultiCurrency\<close>

fun cu_minimum_balance :: "('acc, 's) currencies_config \<Rightarrow> currency_id \<Rightarrow> balance" where
  "cu_minimum_balance cfg (ERC20 _) = 0"
| "cu_minimum_balance cfg (Token REEF) = bc_minimum_balance (NativeCurrency cfg)"
| "cu_minimum_balance cfg c = bc_minimum_balance (MultiCurrency cfg c)"

fun cu_total_issuance :: "('acc, 's) currencies_config \<Rightarrow> currency_id \<Rightarrow> 's \<Rightarrow> balance" where
  "cu_total_issuance cfg (ERC20 k) s = ok_or_default (bridge_total_supply (EVMBridge cfg) (view_context k) s)"
| "cu_total_issuance cfg (Token REEF) s = bc_total_issuance (NativeCurrency cfg) s"
| "cu_total_issuance cfg c s = bc_total_issuance (MultiCurrency cfg c) s"

fun cu_total_balance :: "('acc, 's) currencies_config \<Rightarrow> currency_id \<Rightarrow> 's \<Rightarrow> 'acc \<Rightarrow> balance" where
  "cu_total_balance cfg (ERC20 k) s who =
     (case am_evm_address (AddressMapping cfg) s who of
        Some address \<Rightarrow> erc20_balance cfg k address s
      | None \<Rightarrow> 0)"
| "cu_total_balance cfg (Token REEF) s who = bc_total_balance (NativeCurrency cfg) s who"
| "cu_total_balance cfg c s who = bc_total_balance (MultiCurrency cfg c) s who"

fun cu_free_balance :: "('acc, 's) currencies_config \<Rightarrow> currency_id \<Rightarrow> 's \<Rightarrow> 'acc \<Rightarrow> balance" where
  "cu_free_balance cfg (ERC20 k) s who =
     (case am_evm_address (AddressMapping cfg) s who of
        Some address \<Rightarrow> erc20_balance cfg k address s
      | None \<Rightarrow> 0)"
| "cu_free_balance cfg (Token REEF) s who = bc_free_balance (NativeCurrency cfg) s who"
| "cu_free_balance cfg c s who = bc_free_balance (MultiCurrency cfg c) s who"

fun cu_ensure_can_withdraw ::
  "('acc, 's) currencies_config \<Rightarrow> currency_id \<Rightarrow> 's \<Rightarrow> 'acc \<Rightarrow> balance \<Rightarrow> unit result" where
  "cu_ensure_can_withdraw cfg (ERC20 k) s who amount =
     (case am_evm_address (AddressMapping cfg) s who of
        None \<Rightarrow> Inl (cu_fail CU_EvmAccountNotFound)
      | Some address \<Rightarrow>
          if amount \<le> erc20_balance cfg k address s then Inr () else Inl (cu_fail CU_BalanceTooLow))"
| "cu_ensure_can_withdraw cfg (Token REEF) s who amount = bc_ensure_can_withdraw (NativeCurrency cfg) s who amount"
| "cu_ensure_can_withdraw cfg c s who amount = bc_ensure_can_withdraw (MultiCurrency cfg c) s who amount"

text \<open>The transfer of an ERC20 token: addresses are created for the payer of storage and the recipient.\<close>

definition cu_erc20_transfer ::
  "('acc, 's) currencies_config \<Rightarrow> evm_address \<Rightarrow> 'acc \<Rightarrow> 'acc \<Rightarrow> balance \<Rightarrow> ('s, dispatch_error, unit) storage_op" where
  "cu_erc20_transfer cfg k from to amount s =
     bind_op (pure (ok_or (am_evm_address (AddressMapping cfg) s from) (cu_fail CU_EvmAccountNotFound))) (\<lambda>snder.
     bind_op (pure (ok_or (bridge_get_origin (EVMBridge cfg) s) (cu_fail CU_RealOriginNotFound))) (\<lambda>orig s.
     let (origin_address, s1) = am_or_create (AddressMapping cfg) orig s;
         (address, s2) = am_or_create (AddressMapping cfg) to s1
     in bridge_transfer (EVMBridge cfg) \<lparr>contract = k, sender = snder, ctx_origin = origin_address\<rparr> address amount s2)) s"

fun cu_move ::
  "('acc, 's) currencies_config \<Rightarrow> currency_id \<Rightarrow> 'acc \<Rightarrow> 'acc \<Rightarrow> balance \<Rightarrow> ('s, dispatch_error, unit) storage_op" where
  "cu_move cfg (ERC20 k) from to amount = cu_erc20_transfer cfg k from to amount"
| "cu_move cfg (Token REEF) from to amount = bc_transfer (NativeCurrency cfg) from to amount"
| "cu_move cfg c from to amount = bc_transfer (MultiCurrency cfg c) from to amount"

definition cu_transfer ::
  "('acc, 's) currencies_config \<Rightarrow> currency_id \<Rightarrow> 'acc \<Rightarrow> 'acc \<Rightarrow> balance \<Rightarrow> ('s, dispatch_error, unit) storage_op" where
  "cu_transfer cfg c from to amount =
     (if amount = 0 \<or> from = to then ok ()
      else bind_op (cu_move cfg c from to amount) (\<lambda>_.
        modify_op (cu_deposit_event cfg (CU_Transferred c from to amount))))"

fun cu_credit :: "('acc, 's) currencies_config \<Rightarrow> currency_id \<Rightarrow> 'acc \<Rightarrow> balance \<Rightarrow> ('s, dispatch_error, unit) storage_op" where
  "cu_credit cfg (ERC20 k) who amount = fail (cu_fail CU_ERC20InvalidOperation)"
| "cu_credit cfg (Token REEF) who amount = bc_deposit (NativeCurrency cfg) who amount"
| "cu_credit cfg c who amount = bc_deposit (MultiCurrency cfg c) who amount"

definition cu_deposit :: "('acc, 's) currencies_config \<Rightarrow> currency_id \<Rightarrow> 'acc \<Rightarrow> balance \<Rightarrow> ('s, dispatch_error, unit) storage_op" where
  "cu_deposit cfg c who amount =
     (if amount = 0 then ok ()
      else bind_op (cu_credit cfg c who amount) (\<lambda>_. modify_op (cu_deposit_event cfg (CU_Deposited c who amount))))"

fun cu_debit :: "('acc, 's) currencies_config \<Rightarrow> currency_id \<Rightarrow> 'acc \<Rightarrow> balance \<Rightarrow> ('s, dispatch_error, unit) storage_op" where
  "cu_debit cfg (ERC20 k) who amount = fail (cu_fail CU_ERC20InvalidOperation)"
| "cu_debit cfg (Token REEF) who amount = bc_withdraw (NativeCurrency cfg) who amount"
| "cu_debit cfg c who amount = bc_withdraw (MultiCurrency cfg c) who amount"

definition cu_withdraw :: "('acc, 's) currencies_config \<Rightarrow> currency_id \<Rightarrow> 'acc \<Rightarrow> balance \<Rightarrow> ('s, dispatch_error, unit) storage_op" where
  "cu_withdraw cfg c who amount =
     (if amount = 0 then ok ()
      else bind_op (cu_debit cfg c who amount) (\<lambda>_. modify_op (cu_deposit_event cfg (CU_Withdrawn c who amount))))"

fun cu_can_slash :: "('acc, 's) currencies_config \<Rightarrow> currency_id \<Rightarrow> 's \<Rightarrow> 'acc \<Rightarrow> balance \<Rightarrow> bool" where
  "cu_can_slash cfg (ERC20 k) s who amount = False"
| "cu_can_slash cfg (Token REEF) s who amount = bc_can_slash (NativeCurrency cfg) s who amount"
| "cu_can_slash cfg c s who amount = bc_can_slash (MultiCurrency cfg c) s who amount"

fun cu_slash :: "('acc, 's) currencies_config \<Rightarrow> currency_id \<Rightarrow> 'acc \<Rightarrow> balance \<Rightarrow> 's \<Rightarrow> balance \<times> 's" where
  "cu_slash cfg (ERC20 k) who amount s = (0, s)"
| "cu_slash cfg (Token REEF) who amount s = bc_slash (NativeCurrency cfg) who amount s"
| "cu_slash cfg c who amount s = bc_slash (MultiCurrency cfg c) who amount s"

fun cu_update :: "('acc, 's) currencies_config \<Rightarrow> currency_id \<Rightarrow> 'acc \<Rightarrow> 128 word \<Rightarrow> ('s, dispatch_error, unit) storage_op" where
  "cu_update cfg (ERC20 k) who by_amount = fail (cu_fail CU_ERC20InvalidOperation)"
| "cu_update cfg (Token REEF) who by_amount = bc_update_balance (NativeCurrency cfg) who by_amount"
| "cu_update cfg c who by_amount = bc_update_balance (MultiCurrency cfg c) who by_amount"

definition cu_update_balance ::
  "('acc, 's) currencies_config \<Rightarrow> currency_id \<Rightarrow> 'acc \<Rightarrow> 128 word \<Rightarrow> ('s, dispatch_error, unit) storage_op" where
  "cu_update_balance cfg c who by_amount =
     bind_op (cu_update cfg c who by_amount) (\<lambda>_. modify_op (cu_deposit_event cfg (CU_BalanceUpdated c who by_amount)))"

section \<open>MultiLockableCurrency\<close>

fun cu_set_lock ::
  "('acc, 's) currencies_config \<Rightarrow> bytes \<Rightarrow> currency_id \<Rightarrow> 'acc \<Rightarrow> balance \<Rightarrow> ('s, dispatch_error, unit) storage_op" where
  "cu_set_lock cfg lid (ERC20 k) who amount = fail (cu_fail CU_ERC20InvalidOperation)"
| "cu_set_lock cfg lid (Token REEF) who amount = bc_set_lock (NativeCurrency cfg) lid who amount"
| "cu_set_lock cfg lid c who amount = bc_set_lock (MultiCurrency cfg c) lid who amount"

fun cu_extend_lock ::
  "('acc, 's) currencies_config \<Rightarrow> bytes \<Rightarrow> currency_id \<Rightarrow> 'acc \<Rightarrow> balance \<Rightarrow> ('s, dispatch_error, unit) storage_op" where
  "cu_extend_lock cfg lid (ERC20 k) who amount = fail (cu_fail CU_ERC20InvalidOperation)"
| "cu_extend_lock cfg lid (Token REEF) who amount = bc_extend_lock (NativeCurrency cfg) lid who amount"
| "cu_extend_lock cfg lid c who amount = bc_extend_lock (MultiCurrency cfg c) lid who amount"

fun cu_remove_lock :: "('acc, 's) currencies_config \<Rightarrow> bytes \<Rightarrow> currency_id \<Rightarrow> 'acc \<Rightarrow> ('s, dispatch_error, unit) storage_op" where
  "cu_remove_lock cfg lid (ERC20 k) who = fail (cu_fail CU_ERC20InvalidOperation)"
| "cu_remove_lock cfg lid (Token REEF) who = bc_remove_lock (NativeCurrency cfg) lid who"
| "cu_remove_lock cfg lid c who = bc_remove_lock (MultiCurrency cfg c) lid who"

section \<open>MultiReservableCurrency\<close>

fun cu_can_reserve :: "('acc, 's) currencies_config \<Rightarrow> currency_id \<Rightarrow> 's \<Rightarrow> 'acc \<Rightarrow> balance \<Rightarrow> bool" where
  "cu_can_reserve cfg (ERC20 k) s who v \<longleftrightarrow> (case cu_ensure_can_withdraw cfg (ERC20 k) s who v of Inl _ \<Rightarrow> False | Inr _ \<Rightarrow> True)"
| "cu_can_reserve cfg (Token REEF) s who v \<longleftrightarrow> bc_can_reserve (NativeCurrency cfg) s who v"
| "cu_can_reserve cfg c s who v \<longleftrightarrow> bc_can_reserve (MultiCurrency cfg c) s who v"

fun cu_slash_reserved :: "('acc, 's) currencies_config \<Rightarrow> currency_id \<Rightarrow> 'acc \<Rightarrow> balance \<Rightarrow> 's \<Rightarrow> balance \<times> 's" where
  "cu_slash_reserved cfg (ERC20 k) who v s =
     (case am_evm_address (AddressMapping cfg) s who of
        Some address \<Rightarrow>
          (let account_balance = erc20_balance cfg k address s in
           (if v < account_balance then v else account_balance, s))
      | None \<Rightarrow> (v, s))"
| "cu_slash_reserved cfg (Token REEF) who v s = bc_slash_reserved (NativeCurrency cfg) who v s"
| "cu_slash_reserved cfg c who v s = bc_slash_reserved (MultiCurrency cfg c) who v s"

fun cu_reserved_balance :: "('acc, 's) currencies_config \<Rightarrow> currency_id \<Rightarrow> 's \<Rightarrow> 'acc \<Rightarrow> balance" where
  "cu_reserved_balance cfg (ERC20 k) s who =
     (case am_evm_address (AddressMapping cfg) s who of
        Some address \<Rightarrow> erc20_balance cfg k (reserve_address cfg address) s
      | None \<Rightarrow> 0)"
| "cu_reserved_balance cfg (Token REEF) s who = bc_reserved_balance (NativeCurrency cfg) s who"
| "cu_reserved_balance cfg c s who = bc_reserved_balance (MultiCurrency cfg c) s who"

fun cu_reserve :: "('acc, 's) currencies_config \<Rightarrow> currency_id \<Rightarrow> 'acc \<Rightarrow> balance \<Rightarrow> ('s, dispatch_error, unit) storage_op" where
  "cu_reserve cfg (ERC20 k) who v s =
     (if v = 0 then ok () s
      else case am_evm_address (AddressMapping cfg) s who of
        None \<Rightarrow> fail (cu_fail CU_EvmAccountNotFound) s
      | Some address \<Rightarrow>
          bridge_transfer (EVMBridge cfg) \<lparr>contract = k, sender = address, ctx_origin = address\<rparr>
            (reserve_address cfg address) v s)"
| "cu_reserve cfg (Token REEF) who v s = bc_reserve (NativeCurrency cfg) who v s"
| "cu_reserve cfg c who v s = bc_reserve (MultiCurrency cfg c) who v s"

fun cu_unreserve :: "('acc, 's) currencies_config \<Rightarrow> currency_id \<Rightarrow> 'acc \<Rightarrow> balance \<Rightarrow> 's \<Rightarrow> balance \<times> 's" where
  "cu_unreserve cfg (ERC20 k) who v s =
     (if v = 0 then (v, s)
      else case am_evm_address (AddressMapping cfg) s who of
        None \<Rightarrow> (v, s)
      | Some address \<Rightarrow>
          let snder = reserve_address cfg address;
              actual = min (erc20_balance cfg k snder s) v
          in case bridge_transfer (EVMBridge cfg) \<lparr>contract = k, sender = snder, ctx_origin = address\<rparr> address actual s of
               (Inr _, t) \<Rightarrow> (v - actual, t)
             | (Inl _, t) \<Rightarrow> (v, t))"
| "cu_unreserve cfg (Token REEF) who v s = bc_unreserve (NativeCurrency cfg) who v s"
| "cu_unreserve cfg c who v s = bc_unreserve (MultiCurrency cfg c) who v s"

text \<open>The repatriation of a reserved ERC20 amount to another account.\<close>

definition cu_erc20_repatriate ::
  "('acc, 's) currencies_config \<Rightarrow> evm_address \<Rightarrow> 'acc \<Rightarrow> 'acc \<Rightarrow> balance \<Rightarrow> balance_status \<Rightarrow>
     ('s, dispatch_error, balance) storage_op" where
  "cu_erc20_repatriate cfg k slashed beneficiary v status s =
     bind_op (pure (ok_or (am_evm_address (AddressMapping cfg) s slashed) (cu_fail CU_EvmAccountNotFound))) (\<lambda>slashed_address s.
     let (beneficiary_address, s1) = am_or_create (AddressMapping cfg) beneficiary s;
         slashed_reserve_address = reserve_address cfg slashed_address;
         beneficiary_reserve_address = reserve_address cfg beneficiary_address;
         actual = min (erc20_balance cfg k slashed_reserve_address s1) v;
         ctx = \<lparr>contract = k, sender = slashed_reserve_address, ctx_origin = slashed_address\<rparr>
     in bind_op (case status of
            Free \<Rightarrow> bridge_transfer (EVMBridge cfg) ctx beneficiary_address actual
          | Reserved \<Rightarrow> bridge_transfer (EVMBridge cfg) ctx beneficiary_reserve_address actual)
          (\<lambda>_. ok (v - actual)) s1) s"

fun cu_repatriate_reserved ::
  "('acc, 's) currencies_config \<Rightarrow> currency_id \<Rightarrow> 'acc \<Rightarrow> 'acc \<Rightarrow> balance \<Rightarrow> balance_status \<Rightarrow>
     ('s, dispatch_error, balance) storage_op" where
  "cu_repatriate_reserved cfg (ERC20 k) slashed beneficiary v status s =
     (if v = 0 then ok v s
      else if slashed = beneficiary then
        (case status of
           Free \<Rightarrow> (case cu_unreserve cfg (ERC20 k) slashed v s of (r, t) \<Rightarrow> (Inr r, t))
         | Reserved \<Rightarrow> ok (saturating_sub v (cu_reserved_balance cfg (ERC20 k) s slashed)) s)
      else cu_erc20_repatriate cfg k slashed beneficiary v status s)"
| "cu_repatriate_reserved cfg (Token REEF) slashed beneficiary v status s =
     bc_repatriate_reserved (NativeCurrency cfg) slashed beneficiary v status s"
| "cu_repatriate_reserved cfg c slashed beneficiary v status s =
     bc_repatriate_reserved (MultiCurrency cfg c) slashed beneficiary v status s"

text \<open>\<open>Currency<T, GetCurrencyId>\<close>: the pallet at one identifier.\<close>

definition currency_at :: "('acc, 's) currencies_config \<Rightarrow> currency_id \<Rightarrow> ('acc, 's) basic_currency" where
  "currency_at cfg c =
     \<lparr>bc_minimum_balance = cu_minimum_balance cfg c, bc_total_issuance = cu_total_issuance cfg c,
      bc_total_balance = cu_total_balance cfg c, bc_free_balance = cu_free_balance cfg c,
      bc_ensure_can_withdraw = cu_ensure_can_withdraw cfg c, bc_transfer = cu_transfer cfg c,
      bc_deposit = cu_deposit cfg c, bc_withdraw = cu_withdraw cfg c, bc_can_slash = cu_can_slash cfg c,
      bc_slash = cu_slash cfg c, bc_update_balance = cu_update_balance cfg c,
      bc_set_lock = (\<lambda>lid. cu_set_lock cfg lid c), bc_extend_lock = (\<lambda>lid. cu_extend_lock cfg lid c),
      bc_remove_lock = (\<lambda>lid. cu_remove_lock cfg lid c), bc_can_reserve = cu_can_reserve cfg c,
      bc_slash_reserved = cu_slash_reserved cfg c, bc_reserved_balance = cu_reserved_balance cfg c,
      bc_reserve = cu_reserve cfg c, bc_unreserve = cu_unreserve cfg c,
      bc_repatriate_reserved = cu_repatriate_reserved cfg c\<rparr>"

section \<open>Calls, TransferAll and dust\<close>

definition cu_transfer_call ::
  "('src \<Rightarrow> 'acc result) \<Rightarrow> ('acc, 's) currencies_config \<Rightarrow> 'acc origin \<Rightarrow> 'src \<Rightarrow> currency_id \<Rightarrow> balance \<Rightarrow>
     ('s, dispatch_error, unit) storage_op" where
  "cu_transfer_call lookup cfg orig dest c amount =
     bind_op (pure (ensure_signed orig)) (\<lambda>from.
     bind_op (pure (lookup dest)) (\<lambda>to.
     cu_transfer cfg c from to amount))"

definition cu_transfer_native_call ::
  "('src \<Rightarrow> 'acc result) \<Rightarrow> ('acc, 's) currencies_config \<Rightarrow> 'acc origin \<Rightarrow> 'src \<Rightarrow> balance \<Rightarrow>
     ('s, dispatch_error, unit) storage_op" where
  "cu_transfer_native_call lookup cfg orig dest amount =
     bind_op (pure (ensure_signed orig)) (\<lambda>from.
     bind_op (pure (lookup dest)) (\<lambda>to.
     bind_op (bc_transfer (NativeCurrency cfg) from to amount) (\<lambda>_.
     modify_op (cu_deposit_event cfg (CU_Transferred (Token REEF) from to amount)))))"

definition cu_update_balance_call ::
  "('src \<Rightarrow> 'acc result) \<Rightarrow> ('acc, 's) currencies_config \<Rightarrow> 'acc origin \<Rightarrow> 'src \<Rightarrow> currency_id \<Rightarrow> 128 word \<Rightarrow>
     ('s, dispatch_error, unit) storage_op" where
  "cu_update_balance_call lookup cfg orig who c amount =
     bind_op (pure (ensure_root orig)) (\<lambda>_.
     bind_op (pure (lookup who)) (\<lambda>dest.
     cu_update_balance cfg c dest amount))"

definition cu_transfer_all ::
  "('acc, 's) currencies_config \<Rightarrow> 'acc \<Rightarrow> 'acc \<Rightarrow> ('s, dispatch_error, unit) storage_op" where
  "cu_transfer_all cfg source dest = transactional (
     bind_op (MultiCurrency_transfer_all cfg source dest) (\<lambda>_ s.
     bc_transfer (NativeCurrency cfg) source dest (bc_free_balance (NativeCurrency cfg) s source) s))"

fun cu_on_dust :: "('acc, 's) currencies_config \<Rightarrow> 'acc \<Rightarrow> 'acc \<Rightarrow> currency_id \<Rightarrow> balance \<Rightarrow> 's \<Rightarrow> 's" where
  "cu_on_dust cfg dust_account who (ERC20 k) amount s = s"
| "cu_on_dust cfg dust_account who (Token REEF) amount s = snd (bc_transfer (NativeCurrency cfg) who dust_account amount s)"
| "cu_on_dust cfg dust_account who c amount s = snd (bc_transfer (MultiCurrency cfg c) who dust_account amount s)"

section \<open>BasicCurrencyAdapter\<close>

text \<open>
  The framework's \<open>Currency\<close>, \<open>LockableCurrency\<close> and \<open>ReservableCurrency\<close>, implemented by a pallet
  outside the repository. Imbalances are their amounts; dropping one is an operation.
\<close>

record ('acc, 's) pallet_currency =
  pc_minimum_balance :: balance
  pc_total_issuance :: "'s \<Rightarrow> balance"
  pc_total_balance :: "'s \<Rightarrow> 'acc \<Rightarrow> balance"
  pc_free_balance :: "'s \<Rightarrow> 'acc \<Rightarrow> balance"
  pc_ensure_can_withdraw :: "'s \<Rightarrow> 'acc \<Rightarrow> balance \<Rightarrow> balance \<Rightarrow> unit result"
  pc_transfer :: "'acc \<Rightarrow> 'acc \<Rightarrow> balance \<Rightarrow> existence_requirement \<Rightarrow> ('s, dispatch_error, unit) storage_op"
  pc_deposit_creating :: "'acc \<Rightarrow> balance \<Rightarrow> 's \<Rightarrow> balance \<times> 's"
  pc_withdraw :: "'acc \<Rightarrow> balance \<Rightarrow> existence_requirement \<Rightarrow> ('s, dispatch_error, balance) storage_op"
  pc_drop_positive :: "balance \<Rightarrow> 's \<Rightarrow> 's"
  pc_drop_negative :: "balance \<Rightarrow> 's \<Rightarrow> 's"
  pc_can_slash :: "'s \<Rightarrow> 'acc \<Rightarrow> balance \<Rightarrow> bool"
  pc_slash :: "'acc \<Rightarrow> balance \<Rightarrow> 's \<Rightarrow> (balance \<times> balance) \<times> 's"
  pc_set_lock :: "bytes \<Rightarrow> 'acc \<Rightarrow> balance \<Rightarrow> 's \<Rightarrow> 's"
  pc_extend_lock :: "bytes \<Rightarrow> 'acc \<Rightarrow> balance \<Rightarrow> 's \<Rightarrow> 's"
  pc_remove_lock :: "bytes \<Rightarrow> 'acc \<Rightarrow> 's \<Rightarrow> 's"
  pc_can_reserve :: "'s \<Rightarrow> 'acc \<Rightarrow> balance \<Rightarrow> bool"
  pc_slash_reserved :: "'acc \<Rightarrow> balance \<Rightarrow> 's \<Rightarrow> (balance \<times> balance) \<times> 's"
  pc_reserved_balance :: "'s \<Rightarrow> 'acc \<Rightarrow> balance"
  pc_reserve :: "'acc \<Rightarrow> balance \<Rightarrow> ('s, dispatch_error, unit) storage_op"
  pc_unreserve :: "'acc \<Rightarrow> balance \<Rightarrow> 's \<Rightarrow> balance \<times> 's"
  pc_repatriate_reserved :: "'acc \<Rightarrow> 'acc \<Rightarrow> balance \<Rightarrow> balance_status \<Rightarrow> ('s, dispatch_error, balance) storage_op"

definition ba_ensure_can_withdraw :: "('acc, 's) pallet_currency \<Rightarrow> 's \<Rightarrow> 'acc \<Rightarrow> balance \<Rightarrow> unit result" where
  "ba_ensure_can_withdraw pc s who amount =
     (case checked_sub (pc_free_balance pc s who) amount of
        None \<Rightarrow> Inl (cu_fail CU_BalanceTooLow)
      | Some new_balance \<Rightarrow> pc_ensure_can_withdraw pc s who amount new_balance)"

definition ba_deposit :: "('acc, 's) pallet_currency \<Rightarrow> 'acc \<Rightarrow> balance \<Rightarrow> ('s, dispatch_error, unit) storage_op" where
  "ba_deposit pc who amount s =
     (if amount \<noteq> 0 then
        (case pc_deposit_creating pc who amount s of
           (actual_deposit, s1) \<Rightarrow>
             (if actual_deposit = amount then Inr () else Inl (cu_fail CU_DepositFailed), pc_drop_positive pc actual_deposit s1))
      else (Inr (), s))"

definition ba_withdraw :: "('acc, 's) pallet_currency \<Rightarrow> 'acc \<Rightarrow> balance \<Rightarrow> ('s, dispatch_error, unit) storage_op" where
  "ba_withdraw pc who amount =
     bind_op (pc_withdraw pc who amount AllowDeath) (\<lambda>n. modify_op (pc_drop_negative pc n))"

definition ba_slash :: "('acc, 's) pallet_currency \<Rightarrow> 'acc \<Rightarrow> balance \<Rightarrow> 's \<Rightarrow> balance \<times> 's" where
  "ba_slash pc who amount s = (case pc_slash pc who amount s of ((n, gap), t) \<Rightarrow> (gap, pc_drop_negative pc n t))"

definition ba_update_balance :: "('acc, 's) pallet_currency \<Rightarrow> 'acc \<Rightarrow> 128 word \<Rightarrow> ('s, dispatch_error, unit) storage_op" where
  "ba_update_balance pc who by_amount =
     (let by_balance = i128_abs by_amount in
      if sint by_balance < 0 then fail (cu_fail CU_AmountIntoBalanceFailed)
      else if 0 < sint by_amount then ba_deposit pc who by_balance
      else ba_withdraw pc who by_balance)"

definition ba_slash_reserved :: "('acc, 's) pallet_currency \<Rightarrow> 'acc \<Rightarrow> balance \<Rightarrow> 's \<Rightarrow> balance \<times> 's" where
  "ba_slash_reserved pc who v s =
     (case pc_slash_reserved pc who v s of ((n, gap), t) \<Rightarrow> (gap, pc_drop_negative pc n t))"

definition basic_currency_adapter :: "('acc, 's) pallet_currency \<Rightarrow> ('acc, 's) basic_currency" where
  "basic_currency_adapter pc =
     \<lparr>bc_minimum_balance = pc_minimum_balance pc, bc_total_issuance = pc_total_issuance pc,
      bc_total_balance = pc_total_balance pc, bc_free_balance = pc_free_balance pc,
      bc_ensure_can_withdraw = ba_ensure_can_withdraw pc,
      bc_transfer = (\<lambda>from to amount. pc_transfer pc from to amount AllowDeath),
      bc_deposit = ba_deposit pc, bc_withdraw = ba_withdraw pc, bc_can_slash = pc_can_slash pc,
      bc_slash = ba_slash pc, bc_update_balance = ba_update_balance pc,
      bc_set_lock = (\<lambda>lid who amount. modify_op (pc_set_lock pc lid who amount)),
      bc_extend_lock = (\<lambda>lid who amount. modify_op (pc_extend_lock pc lid who amount)),
      bc_remove_lock = (\<lambda>lid who. modify_op (pc_remove_lock pc lid who)),
      bc_can_reserve = pc_can_reserve pc, bc_slash_reserved = ba_slash_reserved pc,
      bc_reserved_balance = pc_reserved_balance pc, bc_reserve = pc_reserve pc, bc_unreserve = pc_unreserve pc,
      bc_repatriate_reserved = pc_repatriate_reserved pc\<rparr>"

end
