(* ===== verification/Currencies_Properties.thy ===== *)
theory Currencies_Properties
  imports Currencies Evm_Bridge
begin

text \<open>
  The ERC20 side of the currencies pallet, composed with the EVM bridge: the reserves of an account are
  the balance of an address derived from its own, and moving them is a transfer of the contract. The
  contract and the EVM are outside; what is relied on is the ERC20 standard, stated of the executor
  (\<open>erc20_standard\<close>) in terms of call data, exit reasons and output bytes.
\<close>

section \<open>The ERC20 standard\<close>








section \<open>Reserving and releasing\<close>




section \<open>A concrete contract\<close>











section \<open>Slashing\<close>

text \<open>
  The slashes of an ERC20 currency take nothing but answer as if they had: \<open>slash\<close> answers that
  nothing is left to slash, whatever the amount, and \<open>slash_reserved\<close> answers less than the amount as
  soon as the account's balance is below it, while both leave the storage as it was.
\<close>

lemma erc20_slash_takes_nothing:
  assumes "am_evm_address (AddressMapping cfg) s who = Some a" and "erc20_balance cfg k a s < v"
  shows "cu_slash cfg (ERC20 k) who v s = (0, s) \<and>
    snd (cu_slash_reserved cfg (ERC20 k) who v s) = s \<and> fst (cu_slash_reserved cfg (ERC20 k) who v s) < v"
  using assms by (auto simp: Let_def)

end
