(* ===== verification/Account_Merge.thy ===== *)
theory Account_Merge
  imports Evm_Accounts Currencies Tokens_Properties
begin

text \<open>
  Claiming an EVM address across three pallets: the EVM accounts pallet asks the currencies pallet to
  transfer everything from the padded account to the claimer, and the currencies pallet asks the
  tokens pallet and the native currency. Here the tokens pallet is the modelled one; the native
  currency is an argument. Both are fields of one storage.
\<close>

record ('rid, 'x, 'n) chain_world =
  tokens_of :: "(account_id32, currency_id, 'rid, 'x) tokens_state"
  native_of :: 'n

definition on_tokens ::
  "('t, 'e, 'a) storage_op \<Rightarrow> ('s \<Rightarrow> 't) \<Rightarrow> (('t \<Rightarrow> 't) \<Rightarrow> 's \<Rightarrow> 's) \<Rightarrow> ('s, 'e, 'a) storage_op" where
  "on_tokens f get upd s = (case f (get s) of (r, x) \<Rightarrow> (r, upd (\<lambda>_. x) s))"

lemma on_tokens_Inr [op_simps]:
  "on_tokens f get upd s = (Inr a, t) \<longleftrightarrow> (\<exists>x. f (get s) = (Inr a, x) \<and> t = upd (\<lambda>_. x) s)"
  by (auto simp: on_tokens_def split: prod.splits)

section \<open>Sweeping an account\<close>

lemma transfer_all_fold_sweeps:
  assumes "transfer_all_fold cfg source dest cs s = (Inr u, t)" and "unit_hooks cfg" and "source \<noteq> dest" and "distinct cs"
  shows "held_free (ledger_of t) c a =
      (if c \<in> set cs \<and> a = source then 0
       else if c \<in> set cs \<and> a = dest then held_free (ledger_of s) c dest + held_free (ledger_of s) c source
       else held_free (ledger_of s) c a) \<and>
    held_reserved (ledger_of t) = held_reserved (ledger_of s) \<and> issued (ledger_of t) = issued (ledger_of s)"
  using assms
proof (induction cs arbitrary: s c a)
  case (Cons d cs)
  show ?case
  proof (cases "Accounts s (source, d)")
    case None
    then have "held_free (ledger_of s) d source = 0"
      by (simp add: accounts_def default_account_data_def)
    with None Cons.prems Cons.IH [of s c a] show ?thesis by auto
  next
    case (Some acc)
    with Cons.prems(1) obtain s1 where s1: "do_transfer cfg d source dest (free acc) AllowDeath s = (Inr (), s1)"
      and rest: "transfer_all_fold cfg source dest cs s1 = (Inr u, t)" by (auto simp: op_simps)
    have acc: "held_free (ledger_of s) d source = unat (free acc)" using Some by (simp add: accounts_def)
    have led: "held_free (ledger_of s1) c a =
        (if c = d \<and> a = source then 0
         else if c = d \<and> a = dest then held_free (ledger_of s) d dest + held_free (ledger_of s) d source
         else held_free (ledger_of s) c a) \<and>
      held_reserved (ledger_of s1) = held_reserved (ledger_of s) \<and> issued (ledger_of s1) = issued (ledger_of s)" for c a
    proof (cases "free acc = 0")
      case True
      then have "s1 = s" using s1 by (auto simp: do_transfer_def op_simps)
      with True acc show ?thesis by auto
    next
      case False
      note E = do_transfer_effect(1) [OF s1 assms(2) False assms(3)]
      show ?thesis
        unfolding E using acc assms(3) by (auto simp: ledger_transfer_def put_holding_def fun_eq_iff)
    qed
    from Cons.IH [OF rest assms(2,3), of c a] Cons.prems(4) led [of c a] led [of c dest] led [of c source] assms(3)
    show ?thesis by auto
  qed
qed simp

section \<open>The claim\<close>

lemma cu_transfer_all_tokens:
  assumes "cu_transfer_all cfg source dest w = (Inr u, w')"
    and "MultiCurrency_transfer_all cfg = (\<lambda>src dst. on_tokens (transfer_all tcfg order src dst) tokens_of tokens_of_update)"
    and "\<And>a b v x r x'. bc_transfer (NativeCurrency cfg) a b v x = (r, x') \<Longrightarrow> tokens_of x' = tokens_of x"
  shows "transfer_all_fold tcfg source dest order (tokens_of w) = (Inr (), tokens_of w')"
  using assms by (auto simp: cu_transfer_all_def transfer_all_def op_simps)

text \<open>
  (C27) A claim leaves nothing behind: when an address is claimed whose padded account exists, and the
  walk over that account's tokens lists each of its currencies once, then after the claim the padded
  account has no free balance of any token, the claimer has its own plus all of it, no other account
  and no reserved balance or issuance has changed, and the claimer is the account of the address. The
  native currency and the claim hook are assumed not to touch the tokens.
\<close>

theorem claim_merges_tokens:
  assumes "claim_account ecfg (Signed who) e sig s = (Inr u, t)" and "account_exists ecfg (padded_account e) (ea_world s)"
    and "padded_account e \<noteq> who" and "TransferAll ecfg = cu_transfer_all ccfg"
    and "MultiCurrency_transfer_all ccfg = (\<lambda>src dst. on_tokens (transfer_all tcfg order src dst) tokens_of tokens_of_update)"
    and "unit_hooks tcfg" and "distinct order"
    and "\<forall>c. Accounts (tokens_of (ea_world s)) (padded_account e, c) \<noteq> None \<longrightarrow> c \<in> set order"
    and "\<And>a b v x r x'. bc_transfer (NativeCurrency ccfg) a b v x = (r, x') \<Longrightarrow> tokens_of x' = tokens_of x"
    and "\<And>a x r x'. OnClaim ecfg a x = (r, x') \<Longrightarrow> tokens_of x' = tokens_of x"
  shows "get_account_id t e = who \<and>
    (\<forall>c. unat (free_balance (tokens_of (ea_world t)) c (padded_account e)) = 0 \<and>
       unat (free_balance (tokens_of (ea_world t)) c who) =
         unat (free_balance (tokens_of (ea_world s)) c who) + unat (free_balance (tokens_of (ea_world s)) c (padded_account e)) \<and>
       (\<forall>a. a \<noteq> who \<and> a \<noteq> padded_account e \<longrightarrow>
         free_balance (tokens_of (ea_world t)) c a = free_balance (tokens_of (ea_world s)) c a) \<and>
       (\<forall>a. reserved_balance (tokens_of (ea_world t)) c a = reserved_balance (tokens_of (ea_world s)) c a) \<and>
       total_issuance (tokens_of (ea_world t)) c = total_issuance (tokens_of (ea_world s)) c)"
proof -
  let ?p = "padded_account e"
  from assms(1) obtain x where x: "merged_world ecfg ?p who (ea_world s) x" "OnClaim ecfg who x = (Inr (), ea_world t)"
    and acc: "EvmAccounts t = (EvmAccounts s)(e \<mapsto> who)"
    by (auto elim!: claim_account_Inr)
  have xfer: "cu_transfer_all ccfg ?p who (ea_world s) = (Inr (), x)"
    using x(1) assms(2,4) by (simp add: merged_world_def)
  have fold: "transfer_all_fold tcfg ?p who order (tokens_of (ea_world s)) = (Inr (), tokens_of x)"
    by (rule cu_transfer_all_tokens [OF xfer assms(5)]) (rule assms(9))
  note S = transfer_all_fold_sweeps [OF fold assms(6,3,7)]
  have tok: "tokens_of (ea_world t) = tokens_of x" using assms(10) [OF x(2)] .
  have out: "held_free (ledger_of (tokens_of (ea_world s))) c ?p = 0" if "c \<notin> set order" for c
    using assms(8) that
    by (cases "Accounts (tokens_of (ea_world s)) (?p, c)") (auto simp: accounts_def default_account_data_def)
  have res: "held_reserved (ledger_of (tokens_of x)) = held_reserved (ledger_of (tokens_of (ea_world s)))"
    "issued (ledger_of (tokens_of x)) = issued (ledger_of (tokens_of (ea_world s)))"
    using S by blast+
  show ?thesis
  proof (intro conjI allI impI)
    show "get_account_id t e = who" using acc by simp
    fix c
    show "unat (free_balance (tokens_of (ea_world t)) c ?p) = 0"
      using S [of c ?p] out [of c] by (auto simp: tok free_balance_def)
    show "unat (free_balance (tokens_of (ea_world t)) c who) =
        unat (free_balance (tokens_of (ea_world s)) c who) + unat (free_balance (tokens_of (ea_world s)) c ?p)"
      using S [of c who] out [of c] assms(3) by (auto simp: tok free_balance_def)
    fix a
    show "reserved_balance (tokens_of (ea_world t)) c a = reserved_balance (tokens_of (ea_world s)) c a"
      using fun_cong [OF fun_cong [OF res(1)], of c a] by (simp add: tok reserved_balance_def word_eq_unat)
    assume "a \<noteq> who \<and> a \<noteq> ?p"
    then show "free_balance (tokens_of (ea_world t)) c a = free_balance (tokens_of (ea_world s)) c a"
      using S [of c a] by (simp add: tok free_balance_def word_eq_unat)
  next
    fix c
    show "total_issuance (tokens_of (ea_world t)) c = total_issuance (tokens_of (ea_world s)) c"
      using fun_cong [OF res(2), of c] by (simp add: tok word_eq_unat)
  qed
qed

text \<open>An instance: the padded account of an address holds 40 of a token, its claimer 5.\<close>

definition claim_config :: "(account_id32, currency_id, reserve_identifier, unit) tokens_config" where
  "claim_config = runtime_tokens (\<lambda>_ _. True) (\<lambda>_ s. s) (\<lambda>_ s. s) (\<lambda>_. ok ()) (\<lambda>_ s. s)"

definition claim_native :: "(account_id32, (reserve_identifier, unit, unit) chain_world) pallet_currency" where
  "claim_native =
     \<lparr>pc_minimum_balance = 0, pc_total_issuance = (\<lambda>_. 0), pc_total_balance = (\<lambda>_ _. 0), pc_free_balance = (\<lambda>_ _. 0),
      pc_ensure_can_withdraw = (\<lambda>_ _ _ _. Inr ()), pc_transfer = (\<lambda>_ _ _ _. ok ()), pc_deposit_creating = (\<lambda>_ v s. (v, s)),
      pc_withdraw = (\<lambda>_ v _. ok v), pc_drop_positive = (\<lambda>_ s. s), pc_drop_negative = (\<lambda>_ s. s),
      pc_can_slash = (\<lambda>_ _ _. True), pc_slash = (\<lambda>_ v s. ((0, v), s)), pc_set_lock = (\<lambda>_ _ _ s. s),
      pc_extend_lock = (\<lambda>_ _ _ s. s), pc_remove_lock = (\<lambda>_ _ s. s), pc_can_reserve = (\<lambda>_ _ _. True),
      pc_slash_reserved = (\<lambda>_ v s. ((0, v), s)), pc_reserved_balance = (\<lambda>_ _. 0), pc_reserve = (\<lambda>_ _. ok ()),
      pc_unreserve = (\<lambda>_ v s. (v, s)), pc_repatriate_reserved = (\<lambda>_ _ v _. ok v)\<rparr>"

definition claim_currencies :: "(account_id32, (reserve_identifier, unit, unit) chain_world) currencies_config" where
  "claim_currencies =
     \<lparr>MultiCurrency = (\<lambda>_. basic_currency_adapter claim_native),
      MultiCurrency_transfer_all =
        (\<lambda>src dst. on_tokens (transfer_all claim_config [Token RUSD] src dst) tokens_of tokens_of_update),
      NativeCurrency = basic_currency_adapter claim_native,
      AddressMapping = \<lparr>am_account_id = (\<lambda>_ _. []), am_evm_address = (\<lambda>_ _. None), am_or_create = (\<lambda>_ w. ([], w)),
        am_default = (\<lambda>_. []), am_is_linked = (\<lambda>_ _ _. False)\<rparr>,
      EVMBridge = \<lparr>bridge_total_supply = (\<lambda>_ _. Inr 0), bridge_balance_of = (\<lambda>_ _ _. Inr 0),
        bridge_transfer = (\<lambda>_ _ _. ok ()), bridge_get_origin = (\<lambda>_. None)\<rparr>,
      cu_deposit_event = (\<lambda>_ w. w), cu_blake2_256 = (\<lambda>x. x)\<rparr>"

definition claim_evm :: "(reserve_identifier, unit, unit) chain_world evm_accounts_config" where
  "claim_evm = \<lparr>blake2_256 = drop 4, keccak_256 = (\<lambda>x. replicate 12 0 @ take 20 x),
     secp256k1_ecdsa_recover = (\<lambda>sig _. Inr (take 64 sig)),
     account_exists = (\<lambda>a w. Accounts (tokens_of w) (a, Token RUSD) \<noteq> None),
     TransferAll = cu_transfer_all claim_currencies, OnClaim = (\<lambda>_. ok ())\<rparr>"

definition claim_address :: evm_address where "claim_address = replicate 20 7"

definition claimer :: account_id32 where "claimer = [1]"

definition claim_state :: "(reserve_identifier, unit, unit) chain_world evm_accounts_state" where
  "claim_state = \<lparr>EvmAccounts = Map.empty, EvmAddresses = Map.empty, ea_events = [],
     ea_world = \<lparr>tokens_of = \<lparr>TotalIssuance = [Token RUSD \<mapsto> 45],
       Accounts = [(padded_account claim_address, Token RUSD) \<mapsto> \<lparr>free = 40, reserved = 0, frozen = 0\<rparr>,
                   (claimer, Token RUSD) \<mapsto> \<lparr>free = 5, reserved = 0, frozen = 0\<rparr>],
       Locks = Map.empty, Reserves = Map.empty, tk_events = [], tk_system = ()\<rparr>, native_of = ()\<rparr>\<rparr>"

definition "claim_result = claim_account claim_evm (Signed claimer) claim_address (replicate 64 7) claim_state"

lemma claimer_apart [simp]: "padded_account claim_address \<noteq> claimer"
  by (simp add: padded_account_def claimer_def evm_prefix_def ascii_def)

lemma claim_parts:
  "account_exists claim_evm a w \<longleftrightarrow> Accounts (tokens_of w) (a, Token RUSD) \<noteq> None"
  "TransferAll claim_evm = cu_transfer_all claim_currencies" "OnClaim claim_evm a = ok ()"
  "MultiCurrency_transfer_all claim_currencies a b =
     on_tokens (transfer_all claim_config [Token RUSD] a b) tokens_of tokens_of_update"
  "bc_transfer (NativeCurrency claim_currencies) a b v = ok ()"
  by (simp_all add: claim_evm_def claim_currencies_def basic_currency_adapter_def claim_native_def)

lemma claim_merge: "fst (merge_padded_account claim_evm (padded_account claim_address) claimer claim_state) = Inr ()"
  using claimer_apart claimer_apart [symmetric]
  by (simp add: merge_padded_account_def claim_parts claim_state_def on_world_def cu_transfer_all_def on_tokens_def
      transfer_all_def op_defs claim_config_def runtime_tokens_def do_transfer_def try_mutate_account_def
      settle_account_def accounts_def default_account_data_def checked_sub_def checked_add_def
      ensure_can_withdraw_def would_be_dead_def total_def deposit_event_def free_balance_def total_issuance_def
      transactional_def Let_def)

lemma claim_succeeds: "fst claim_result = Inr ()"
proof -
  have hex: "convert_to_ascii_hex claimer = Inr [48, 49]"
    by (simp add: claimer_def convert_to_ascii_hex_def checked_mul_def len_def isize_max_def push_nibble_def
        checked_add_def)
  have rec: "eth_recover claim_evm (replicate 64 7) [48, 49] [] = Inr claim_address"
    by (simp add: eth_recover_def ethereum_signable_message_def checked_add_def len_def ascii_def claim_evm_def
        claim_address_def Let_def)
  obtain x where "merge_padded_account claim_evm (padded_account claim_address) claimer claim_state = (Inr (), x)"
    using claim_merge by (metis prod.collapse)
  moreover have "EvmAccounts claim_state = Map.empty" "EvmAddresses claim_state = Map.empty"
    by (simp_all add: claim_state_def)
  ultimately show ?thesis
    by (simp add: claim_result_def claim_account_def hex rec op_defs Let_def on_world_def claim_parts transactional_def)
qed

theorem claim_merges_tokens_witness:
  "unat (free_balance (tokens_of (ea_world (snd claim_result))) (Token RUSD) claimer) = 45"
proof -
  have op: "claim_account claim_evm (Signed claimer) claim_address (replicate 64 7) claim_state = (Inr (), snd claim_result)"
    using claim_succeeds by (metis claim_result_def prod.collapse)
  have "unat (free_balance (tokens_of (ea_world (snd claim_result))) (Token RUSD) claimer) =
      unat (free_balance (tokens_of (ea_world claim_state)) (Token RUSD) claimer) +
      unat (free_balance (tokens_of (ea_world claim_state)) (Token RUSD) (padded_account claim_address))"
  proof (rule claim_merges_tokens [OF op _ claimer_apart, of claim_currencies claim_config "[Token RUSD]",
        THEN conjunct2, rule_format, of "Token RUSD", THEN conjunct2, THEN conjunct1])
    show "unit_hooks claim_config" unfolding claim_config_def by (rule runtime_configD(1) [OF runtime_tokens_config])
  qed (auto simp: claim_evm_def claim_state_def claim_currencies_def basic_currency_adapter_def claim_native_def ok_def split: if_splits)
  then show ?thesis
    using claimer_apart [symmetric]
    by (simp add: claim_state_def free_balance_def accounts_def)
qed

end
