(* ===== verification/Evm.thy ===== *)
theory Evm
  imports Evm_Types
begin

text \<open>
  The storage of the EVM pallet and its operations that do not execute code, \<^verbatim>\<open>modules/evm/src/lib.rs\<close>:
  contracts and their code with its reference counts, maintainers and deployment, developer deposits,
  the removal of contracts and accounts, and genesis. The storage of all other pallets is
  \<open>evm_world\<close>; the operations of other pallets come with the configuration.
\<close>

section \<open>Storage\<close>

record contract_info =
  code_hash_of :: bytes
  maintainer :: evm_address
  deployed :: bool

record evm_account_info =
  nonce :: u32
  contract_info_of :: "contract_info option"
  developer_deposit :: "balance option"

definition new_account_info :: "u32 \<Rightarrow> contract_info option \<Rightarrow> evm_account_info" where
  "new_account_info n ci = \<lparr>nonce = n, contract_info_of = ci, developer_deposit = None\<rparr>"

record code_info =
  code_size :: u32
  ref_count :: u32

datatype 'acc evm_event =
  EV_Log evm_address "bytes list" bytes
| EV_Created evm_address evm_address u64 i32
| EV_CreatedFailed evm_address evm_address exit_reason bytes u64 i32
| EV_Executed evm_address evm_address u64 i32
| EV_ExecutedFailed evm_address evm_address exit_reason bytes u64 i32
| EV_BalanceDeposit 'acc evm_address u256
| EV_BalanceWithdraw 'acc evm_address u256
| EV_AddStorageQuota evm_address u32
| EV_RemoveStorageQuota evm_address u32
| EV_TransferredMaintainer evm_address evm_address
| EV_CanceledTransferMaintainer evm_address evm_address
| EV_ConfirmedTransferMaintainer evm_address evm_address
| EV_RejectedTransferMaintainer evm_address evm_address
| EV_ContractDevelopmentEnabled 'acc
| EV_ContractDevelopmentDisabled 'acc
| EV_ContractDeployed evm_address
| EV_ContractSetCode evm_address
| EV_ContractSelfdestructed evm_address evm_address

record ('acc, 'w) evm_state =
  evm_accounts :: "evm_address \<rightharpoonup> evm_account_info"
  AccountStorages :: "evm_address \<times> bytes \<rightharpoonup> bytes"
  Codes :: "bytes \<rightharpoonup> bytes"
  CodeInfos :: "bytes \<rightharpoonup> code_info"
  NetworkContractIndex :: u64
  ExtrinsicOrigin :: "'acc option"
  QueuedEvents :: "'acc evm_event list"
  evm_events :: "'acc evm_event list"
  evm_world :: 'w

type_synonym ('acc, 'w) evm_cfg = "('acc, ('acc, 'w) evm_state) evm_config"
type_synonym ('acc, 'w, 'a) evm_op = "(('acc, 'w) evm_state, dispatch_error, 'a) storage_op"

abbreviation evm_fail :: "evm_error \<Rightarrow> dispatch_error" where
  "evm_fail e \<equiv> Module (Evm_Error e)"

definition evm_deposit_event :: "'acc evm_event \<Rightarrow> ('acc, 'w) evm_state \<Rightarrow> ('acc, 'w) evm_state" where
  "evm_deposit_event e s = s\<lparr>evm_events := evm_events s @ [e]\<rparr>"

definition queue_event :: "'acc evm_event \<Rightarrow> ('acc, 'w) evm_state \<Rightarrow> ('acc, 'w) evm_state" where
  "queue_event e s = s\<lparr>QueuedEvents := QueuedEvents s @ [e]\<rparr>"

definition process_queued_events :: "('acc, 'w) evm_state \<Rightarrow> ('acc, 'w) evm_state" where
  "process_queued_events s = s\<lparr>evm_events := evm_events s @ QueuedEvents s, QueuedEvents := []\<rparr>"

definition default_h256 :: bytes where
  "default_h256 = replicate 32 0"

definition account_storages :: "('acc, 'w) evm_state \<Rightarrow> evm_address \<Rightarrow> bytes \<Rightarrow> bytes" where
  "account_storages s a k = unwrap_or (AccountStorages s (a, k)) default_h256"

definition remove_prefix :: "evm_address \<Rightarrow> ('acc, 'w) evm_state \<Rightarrow> ('acc, 'w) evm_state" where
  "remove_prefix a s = s\<lparr>AccountStorages := (\<lambda>k. if fst k = a then None else AccountStorages s k)\<rparr>"

definition the_contract :: "('acc, 'w) evm_state \<Rightarrow> evm_address \<Rightarrow> contract_info option" where
  "the_contract s a = (case evm_accounts s a of None \<Rightarrow> None | Some i \<Rightarrow> contract_info_of i)"

section \<open>Code and its reference counts\<close>

definition code_hash :: "('acc, 'w) evm_cfg \<Rightarrow> bytes \<Rightarrow> bytes" where
  "code_hash cfg code = keccak256 cfg code"

definition ref_code :: "bytes \<Rightarrow> bytes \<Rightarrow> ('acc, 'w) evm_state \<Rightarrow> ('acc, 'w) evm_state" where
  "ref_code h code s =
     (case CodeInfos s h of
        Some i \<Rightarrow> s\<lparr>CodeInfos := (CodeInfos s)(h \<mapsto> i\<lparr>ref_count := saturating_add (ref_count i) 1\<rparr>)\<rparr>
      | None \<Rightarrow>
          s\<lparr>CodeInfos := (CodeInfos s)(h \<mapsto> \<lparr>code_size = of_nat (length code), ref_count = 1\<rparr>),
            Codes := (Codes s)(h \<mapsto> code)\<rparr>)"

definition unref_code :: "bytes \<Rightarrow> ('acc, 'w) evm_state \<Rightarrow> ('acc, 'w) evm_state" where
  "unref_code h s =
     (case CodeInfos s h of
        None \<Rightarrow> s
      | Some i \<Rightarrow>
          let n = saturating_sub (ref_count i) 1
          in if n = 0 then s\<lparr>CodeInfos := (CodeInfos s)(h := None), Codes := (Codes s)(h := None)\<rparr>
             else s\<lparr>CodeInfos := (CodeInfos s)(h \<mapsto> i\<lparr>ref_count := n\<rparr>)\<rparr>)"

definition code_hash_at_address :: "('acc, 'w) evm_cfg \<Rightarrow> ('acc, 'w) evm_state \<Rightarrow> evm_address \<Rightarrow> bytes" where
  "code_hash_at_address cfg s a = (case the_contract s a of Some ci \<Rightarrow> code_hash_of ci | None \<Rightarrow> code_hash cfg [])"

definition code_at_address :: "('acc, 'w) evm_cfg \<Rightarrow> ('acc, 'w) evm_state \<Rightarrow> evm_address \<Rightarrow> bytes" where
  "code_at_address cfg s a = unwrap_or (Codes s (code_hash_at_address cfg s a)) []"

text \<open>\<open>remove_account\<close> returns the size of the code and never fails.\<close>

definition remove_account :: "evm_address \<Rightarrow> ('acc, 'w) evm_state \<Rightarrow> u32 \<times> ('acc, 'w) evm_state" where
  "remove_account a s =
     (let (size, s1) = (case the_contract s a of
            Some ci \<Rightarrow>
              ((case CodeInfos s (code_hash_of ci) of Some i \<Rightarrow> code_size i | None \<Rightarrow> 0), unref_code (code_hash_of ci) s)
          | None \<Rightarrow> (0, s))
      in (size, remove_prefix a (s1\<lparr>evm_accounts := (evm_accounts s1)(a := None)\<rparr>)))"

definition account_basic :: "('acc, 'w) evm_cfg \<Rightarrow> ('acc, 'w) evm_state \<Rightarrow> evm_address \<Rightarrow> nat \<times> nat" where
  "account_basic cfg s a =
     ((case evm_accounts s a of None \<Rightarrow> 0 | Some i \<Rightarrow> unat (nonce i)),
      unat (cur_free_balance (ev_currency cfg) s (am_account_id (ev_mapping cfg) s a)))"

text \<open>
  \<open>on_contract_initialization\<close> fails on code longer than the limit before it changes anything. The
  length is cast to 32 bits.
\<close>

definition on_contract_initialization ::
  "('acc, 'w) evm_cfg \<Rightarrow> evm_address \<Rightarrow> evm_address \<Rightarrow> bytes \<Rightarrow> u64 \<Rightarrow> i32 \<Rightarrow>
     (('acc, 'w) evm_state, exit_error, unit) storage_op" where
  "on_contract_initialization cfg a maint code gas_used storage_used s =
     (let h = code_hash cfg code;
          ci = \<lparr>code_hash_of = h, maintainer = maint, deployed = ethereum_compatibility (constants cfg)\<rparr>
      in if MaxCodeSize (constants cfg) < of_nat (length code) then (Inl OutOfGas, s)
         else let s1 = ref_code h code s;
                  info = (case evm_accounts s1 a of
                      Some i \<Rightarrow> i\<lparr>contract_info_of := Some ci\<rparr>
                    | None \<Rightarrow> new_account_info 0 (Some ci))
              in (Inr (), queue_event (EV_Created maint a gas_used storage_used)
                            (s1\<lparr>evm_accounts := (evm_accounts s1)(a \<mapsto> info)\<rparr>)))"

section \<open>Maintenance of contracts\<close>

definition set_contract :: "evm_address \<Rightarrow> contract_info \<Rightarrow> ('acc, 'w) evm_state \<Rightarrow> ('acc, 'w) evm_state" where
  "set_contract a ci s =
     (case evm_accounts s a of
        None \<Rightarrow> s
      | Some i \<Rightarrow> s\<lparr>evm_accounts := (evm_accounts s)(a \<mapsto> i\<lparr>contract_info_of := Some ci\<rparr>)\<rparr>)"

definition do_transfer_maintainer ::
  "('acc, 'w) evm_cfg \<Rightarrow> 'acc \<Rightarrow> evm_address \<Rightarrow> evm_address \<Rightarrow> ('acc, 'w, unit) evm_op" where
  "do_transfer_maintainer cfg who a new_maintainer s =
     (case the_contract s a of
        None \<Rightarrow> (Inl (evm_fail ContractNotFound), s)
      | Some ci \<Rightarrow>
          case am_evm_address (ev_mapping cfg) s who of
            None \<Rightarrow> (Inl (evm_fail AddressNotMapped), s)
          | Some addr \<Rightarrow>
              if maintainer ci \<noteq> addr then (Inl (evm_fail NoPermission), s)
              else (Inr (), set_contract a (ci\<lparr>maintainer := new_maintainer\<rparr>) s))"

definition mark_deployed :: "evm_address \<Rightarrow> evm_address option \<Rightarrow> ('acc, 'w, unit) evm_op" where
  "mark_deployed a maint s =
     (case the_contract s a of
        None \<Rightarrow> (Inl (evm_fail ContractNotFound), s)
      | Some ci \<Rightarrow>
          if (case maint of Some m \<Rightarrow> maintainer ci \<noteq> m | None \<Rightarrow> False) then (Inl (evm_fail NoPermission), s)
          else if deployed ci then (Inl (evm_fail ContractAlreadyDeployed), s)
          else (Inr (), set_contract a (ci\<lparr>deployed := True\<rparr>) s))"

text \<open>
  \<open>do_set_code\<close> checks the caller, counts a reference to the new code and stores it if it is new. As in
  the source, the contract's own entry is left as it is.
\<close>

datatype 'acc root_or_signed = LeftRoot | RightSigned 'acc

fun ensure_root_or_signed :: "'acc origin \<Rightarrow> 'acc root_or_signed result" where
  "ensure_root_or_signed Root = Inr LeftRoot"
| "ensure_root_or_signed (Signed who) = Inr (RightSigned who)"
| "ensure_root_or_signed NoneOrigin = Inl BadOrigin"

definition may_set_code ::
  "('acc, 'w) evm_cfg \<Rightarrow> 'acc root_or_signed \<Rightarrow> contract_info \<Rightarrow> ('acc, 'w) evm_state \<Rightarrow> unit result" where
  "may_set_code cfg who ci s =
     (case who of
        LeftRoot \<Rightarrow> Inr ()
      | RightSigned signer \<Rightarrow>
          case am_evm_address (ev_mapping cfg) s signer of
            None \<Rightarrow> Inl (evm_fail AddressNotMapped)
          | Some addr \<Rightarrow>
              if maintainer ci \<noteq> addr then Inl (evm_fail NoPermission)
              else if deployed ci then Inl (evm_fail ContractAlreadyDeployed)
              else Inr ())"

definition do_set_code ::
  "('acc, 'w) evm_cfg \<Rightarrow> 'acc root_or_signed \<Rightarrow> evm_address \<Rightarrow> bytes \<Rightarrow> ('acc, 'w, unit) evm_op" where
  "do_set_code cfg who a code s =
     (case the_contract s a of
        None \<Rightarrow> (Inl (evm_fail ContractNotFound), s)
      | Some ci \<Rightarrow>
          case may_set_code cfg who ci s of
            Inl e \<Rightarrow> (Inl e, s)
          | Inr _ \<Rightarrow>
              let h = code_hash cfg code
              in if h = code_hash_of ci then (Inr (), s)
                 else if \<not> of_nat (length code) \<le> MaxCodeSize (constants cfg)
                 then (Inl (evm_fail ContractExceedsMaxCodeSize), s)
                 else (Inr (), ref_code h code s))"

section \<open>Removal\<close>

text \<open>
  \<open>remove_contract\<close> works on a copy of the account's entry, which \<open>try_mutate_exists\<close> writes back at the
  end: the operations of the currency in between see, and may change, the entry in the storage.
\<close>

definition remove_contract :: "('acc, 'w) evm_cfg \<Rightarrow> evm_address \<Rightarrow> evm_address \<Rightarrow> ('acc, 'w, unit) evm_op" where
  "remove_contract cfg caller a = transactional (\<lambda>s.
     case evm_accounts s a of
       None \<Rightarrow> (Inl (evm_fail ContractNotFound), s)
     | Some i \<Rightarrow>
         case contract_info_of i of
           None \<Rightarrow> (Inl (evm_fail ContractNotFound), s)
         | Some ci \<Rightarrow>
             let s1 = unref_code (code_hash_of ci) (remove_prefix a s);
                 contract_account = am_account_id (ev_mapping cfg) s1 a;
                 s2 = snd (cur_unreserve (ev_currency cfg) contract_account
                        (cur_reserved_balance (ev_currency cfg) s1 contract_account) s1);
                 who = am_account_id (ev_mapping cfg) s2 caller
             in case ev_transfer_all cfg contract_account who s2 of
                  (Inl e, s3) \<Rightarrow> (Inl e, s3)
                | (Inr _, s3) \<Rightarrow>
                    (Inr (), s3\<lparr>evm_accounts := (evm_accounts s3)(a \<mapsto> i\<lparr>contract_info_of := None\<rparr>)\<rparr>))"

definition do_selfdestruct :: "('acc, 'w) evm_cfg \<Rightarrow> evm_address \<Rightarrow> evm_address \<Rightarrow> ('acc, 'w, unit) evm_op" where
  "do_selfdestruct cfg caller a s =
     (case the_contract s a of
        None \<Rightarrow> (Inl (evm_fail ContractNotFound), s)
      | Some ci \<Rightarrow>
          if maintainer ci \<noteq> caller then (Inl (evm_fail NoPermission), s)
          else if deployed ci then (Inl (evm_fail ContractAlreadyDeployed), s)
          else remove_contract cfg caller a s)"

text \<open>\<open>CallKillAccount::on_killed_account\<close>, called by the framework when an account dies.\<close>

definition evm_on_killed_account :: "('acc, 'w) evm_cfg \<Rightarrow> 'acc \<Rightarrow> ('acc, 'w) evm_state \<Rightarrow> ('acc, 'w) evm_state" where
  "evm_on_killed_account cfg who s =
     (let s1 = (case am_evm_address (ev_mapping cfg) s who of Some a \<Rightarrow> snd (remove_account a s) | None \<Rightarrow> s)
      in snd (remove_account (am_default (ev_mapping cfg) who) s1))"

section \<open>Calls\<close>

definition transfer_maintainer_call ::
  "('acc, 'w) evm_cfg \<Rightarrow> 'acc origin \<Rightarrow> evm_address \<Rightarrow> evm_address \<Rightarrow> ('acc, 'w, unit) evm_op" where
  "transfer_maintainer_call cfg orig a new_maintainer = transactional (
     bind_op (pure (ensure_signed orig)) (\<lambda>who.
     bind_op (do_transfer_maintainer cfg who a new_maintainer) (\<lambda>_.
     modify_op (evm_deposit_event (EV_TransferredMaintainer a new_maintainer)))))"

definition deploy_call :: "('acc, 'w) evm_cfg \<Rightarrow> 'acc origin \<Rightarrow> evm_address \<Rightarrow> ('acc, 'w, unit) evm_op" where
  "deploy_call cfg orig a = transactional (
     bind_op (pure (ensure_signed orig)) (\<lambda>who s.
     bind_op (pure (ok_or (am_evm_address (ev_mapping cfg) s who) (evm_fail AddressNotMapped))) (\<lambda>address.
     bind_op (withdraw_and_drop (ev_currency cfg) who (DeploymentFee (constants cfg)) AllowDeath) (\<lambda>_.
     bind_op (mark_deployed a (Some address)) (\<lambda>_.
     modify_op (evm_deposit_event (EV_ContractDeployed a))))) s))"

definition deploy_free_call :: "('acc, 'w) evm_cfg \<Rightarrow> 'acc origin \<Rightarrow> evm_address \<Rightarrow> ('acc, 'w, unit) evm_op" where
  "deploy_free_call cfg orig a = transactional (
     bind_op (ensure (FreeDeploymentOrigin cfg orig) BadOrigin) (\<lambda>_.
     bind_op (mark_deployed a None) (\<lambda>_.
     modify_op (evm_deposit_event (EV_ContractDeployed a)))))"

definition enable_development :: "balance \<Rightarrow> evm_address \<Rightarrow> ('acc, 'w, unit) evm_op" where
  "enable_development deposit a s =
     (case evm_accounts s a of
        Some i \<Rightarrow>
          if developer_deposit i \<noteq> None then (Inl (evm_fail ContractDevelopmentAlreadyEnabled), s)
          else (Inr (), s\<lparr>evm_accounts := (evm_accounts s)(a \<mapsto> i\<lparr>developer_deposit := Some deposit\<rparr>)\<rparr>)
      | None \<Rightarrow>
          (Inr (), s\<lparr>evm_accounts := (evm_accounts s)(a \<mapsto> (new_account_info 0 None)\<lparr>developer_deposit := Some deposit\<rparr>)\<rparr>))"

definition enable_contract_development_call :: "('acc, 'w) evm_cfg \<Rightarrow> 'acc origin \<Rightarrow> ('acc, 'w, unit) evm_op" where
  "enable_contract_development_call cfg orig = transactional (
     bind_op (pure (ensure_signed orig)) (\<lambda>who s.
     case am_or_create (ev_mapping cfg) who s of (address, s1) \<Rightarrow>
     bind_op (cur_reserve (ev_currency cfg) who (DeveloperDeposit (constants cfg))) (\<lambda>_.
     bind_op (enable_development (DeveloperDeposit (constants cfg)) address) (\<lambda>_.
     modify_op (evm_deposit_event (EV_ContractDevelopmentEnabled who)))) s1))"

definition disable_development :: "evm_address \<Rightarrow> ('acc, 'w, balance) evm_op" where
  "disable_development a s =
     (case evm_accounts s a of
        None \<Rightarrow> (Inl (evm_fail ContractDevelopmentNotEnabled), s)
      | Some i \<Rightarrow>
          case developer_deposit i of
            None \<Rightarrow> (Inl (evm_fail ContractDevelopmentNotEnabled), s)
          | Some d \<Rightarrow> (Inr d, s\<lparr>evm_accounts := (evm_accounts s)(a \<mapsto> i\<lparr>developer_deposit := None\<rparr>)\<rparr>))"

definition disable_contract_development_call :: "('acc, 'w) evm_cfg \<Rightarrow> 'acc origin \<Rightarrow> ('acc, 'w, unit) evm_op" where
  "disable_contract_development_call cfg orig = transactional (
     bind_op (pure (ensure_signed orig)) (\<lambda>who s.
     bind_op (pure (ok_or (am_evm_address (ev_mapping cfg) s who) (evm_fail AddressNotMapped))) (\<lambda>address.
     bind_op (disable_development address) (\<lambda>deposit.
     bind_op (modify_op (\<lambda>s. snd (cur_unreserve (ev_currency cfg) who deposit s))) (\<lambda>_.
     modify_op (evm_deposit_event (EV_ContractDevelopmentDisabled who))))) s))"

definition set_code_call :: "('acc, 'w) evm_cfg \<Rightarrow> 'acc origin \<Rightarrow> evm_address \<Rightarrow> bytes \<Rightarrow> ('acc, 'w, unit) evm_op" where
  "set_code_call cfg orig a code = transactional (
     bind_op (pure (ensure_root_or_signed orig)) (\<lambda>who.
     bind_op (do_set_code cfg who a code) (\<lambda>_.
     modify_op (evm_deposit_event (EV_ContractSetCode a)))))"

definition selfdestruct_call :: "('acc, 'w) evm_cfg \<Rightarrow> 'acc origin \<Rightarrow> evm_address \<Rightarrow> ('acc, 'w, unit) evm_op" where
  "selfdestruct_call cfg orig a = transactional (
     bind_op (pure (ensure_signed orig)) (\<lambda>who s.
     bind_op (pure (ok_or (am_evm_address (ev_mapping cfg) s who) (evm_fail AddressNotMapped))) (\<lambda>caller.
     bind_op (do_selfdestruct cfg caller a) (\<lambda>_.
     modify_op (evm_deposit_event (EV_ContractSelfdestructed caller a)))) s))"

section \<open>State rent queries, the origin of an extrinsic, genesis\<close>

definition query_maintainer :: "('acc, 'w) evm_state \<Rightarrow> evm_address \<Rightarrow> evm_address result" where
  "query_maintainer s a =
     (case the_contract s a of None \<Rightarrow> Inl (evm_fail ContractNotFound) | Some ci \<Rightarrow> Inr (maintainer ci))"

definition set_origin :: "'acc \<Rightarrow> ('acc, 'w) evm_state \<Rightarrow> ('acc, 'w) evm_state" where
  "set_origin who s = s\<lparr>ExtrinsicOrigin := Some who\<rparr>"

definition post_dispatch :: "('acc, 'w) evm_state \<Rightarrow> ('acc, 'w) evm_state" where
  "post_dispatch s = s\<lparr>ExtrinsicOrigin := None\<rparr>"

record genesis_account =
  g_nonce :: u32
  g_balance :: balance
  g_storage :: "(bytes \<times> bytes) list"
  g_code :: bytes

definition genesis_account_build ::
  "('acc, 'w) evm_cfg \<Rightarrow> evm_address \<times> genesis_account \<Rightarrow> ('acc, 'w, unit) evm_op" where
  "genesis_account_build cfg x s =
     (case x of (a, g) \<Rightarrow>
        let account_id = am_account_id (ev_mapping cfg) s a;
            s1 = s\<lparr>evm_accounts := (evm_accounts s)(a \<mapsto> new_account_info (g_nonce g) None)\<rparr>;
            s2 = ev_deposit_creating cfg account_id (g_balance g) s1
        in if g_code g = [] then (Inr (), s2)
           else case on_contract_initialization cfg a (replicate 20 0) (g_code g) 0 0 s2 of
             (Inl e, s3) \<Rightarrow> (Inl (Other ''Genesis contract shouldn't fail''), s3)
           | (Inr _, s3) \<Rightarrow>
               bind_op (if ethereum_compatibility (constants cfg) then ok () else mark_deployed a None) (\<lambda>_.
                 modify_op (\<lambda>s. s\<lparr>AccountStorages := (AccountStorages s) ++ map_of (map (\<lambda>(k, v). ((a, k), v)) (rev (g_storage g)))\<rparr>)) s3)"

fun evm_genesis_build ::
  "('acc, 'w) evm_cfg \<Rightarrow> (evm_address \<times> genesis_account) list \<Rightarrow> ('acc, 'w, unit) evm_op" where
  "evm_genesis_build cfg [] = modify_op (\<lambda>s. s\<lparr>NetworkContractIndex := NETWORK_CONTRACT_START\<rparr>)"
| "evm_genesis_build cfg (x # xs) = bind_op (genesis_account_build cfg x) (\<lambda>_. evm_genesis_build cfg xs)"

end
