(* ===== verification/Storage_Meter.thy ===== *)
theory Storage_Meter
  imports Evm_Types
begin

text \<open>
  The storage meter of the EVM, \<^verbatim>\<open>modules/evm/src/runner/storage_meter.rs\<close>, and the handler at its
  bottom, \<open>StorageMeterHandlerImpl\<close> of \<^verbatim>\<open>modules/evm/src/runner/handler.rs\<close>.

  Every frame of an execution has a meter, whose handler is the meter of the calling frame; the
  outermost one is handled by the deposits of the currency. A meter's handler is a mutable reference,
  so the meters below a meter are a list (a \<open>meter_chain\<close>, the caller first) that is passed along
  together with the storage. An error does not undo what was written into a meter: meters live in
  memory, outside the storage transactions.
\<close>

section \<open>The trait \<open>StorageMeterHandler\<close> and the meter\<close>

record 's meter_handler =
  reserve_storage :: "u32 \<Rightarrow> ('s, dispatch_error, unit) storage_op"
  unreserve_storage :: "u32 \<Rightarrow> u32 \<Rightarrow> u32 \<Rightarrow> ('s, dispatch_error, unit) storage_op"
  charge_storage :: "evm_address \<Rightarrow> u32 \<Rightarrow> u32 \<Rightarrow> ('s, dispatch_error, unit) storage_op"
  out_of_storage_error :: dispatch_error

record storage_meter =
  meter_contract :: evm_address
  meter_limit :: u32
  total_used :: u32
  self_used :: u32
  total_refunded :: u32
  self_refunded :: u32
  meter_result :: "unit result"

type_synonym 's meter_chain = "storage_meter list \<times> 's"

definition handle :: "(storage_meter, dispatch_error, 'a) storage_op \<Rightarrow> (storage_meter, dispatch_error, 'a) storage_op" where
  "handle f m = (case meter_result m of Inl e \<Rightarrow> (Inl e, m) | Inr _ \<Rightarrow> f m)"

definition available_storage :: "storage_meter \<Rightarrow> u32" where
  "available_storage m =
     (if meter_result m = Inr () then saturating_sub (saturating_add (meter_limit m) (total_refunded m)) (total_used m) else 0)"

definition meter_used_storage :: "storage_meter \<Rightarrow> i32" where
  "meter_used_storage m =
     (if total_refunded m < total_used m then total_used m - total_refunded m else - (total_refunded m - total_used m))"

definition meter_charge :: "u32 \<Rightarrow> (storage_meter, dispatch_error, unit) storage_op" where
  "meter_charge n = handle (modify_op (\<lambda>m.
     m\<lparr>total_used := saturating_add (total_used m) n, self_used := saturating_add (self_used m) n\<rparr>))"

definition meter_uncharge :: "u32 \<Rightarrow> (storage_meter, dispatch_error, unit) storage_op" where
  "meter_uncharge n = handle (modify_op (\<lambda>m.
     m\<lparr>total_used := saturating_sub (total_used m) n, self_used := saturating_sub (self_used m) n\<rparr>))"

definition meter_refund :: "u32 \<Rightarrow> (storage_meter, dispatch_error, unit) storage_op" where
  "meter_refund n = handle (modify_op (\<lambda>m.
     m\<lparr>total_refunded := saturating_add (total_refunded m) n, self_refunded := saturating_add (self_refunded m) n\<rparr>))"

section \<open>Meters as handlers\<close>

fun chain_reserve_storage :: "'s meter_handler \<Rightarrow> u32 \<Rightarrow> ('s meter_chain, dispatch_error, unit) storage_op" where
  "chain_reserve_storage h n ([], s) = (case reserve_storage h n s of (r, t) \<Rightarrow> (r, ([], t)))"
| "chain_reserve_storage h n (m # ms, s) = (Inr (), (m # ms, s))"

fun chain_unreserve_storage ::
  "'s meter_handler \<Rightarrow> u32 \<Rightarrow> u32 \<Rightarrow> u32 \<Rightarrow> ('s meter_chain, dispatch_error, unit) storage_op" where
  "chain_unreserve_storage h n used refunded ([], s) = (case unreserve_storage h n used refunded s of (r, t) \<Rightarrow> (r, ([], t)))"
| "chain_unreserve_storage h n used refunded (m # ms, s) = (Inr (), (m # ms, s))"

fun chain_charge_storage ::
  "'s meter_handler \<Rightarrow> evm_address \<Rightarrow> u32 \<Rightarrow> u32 \<Rightarrow> ('s meter_chain, dispatch_error, unit) storage_op" where
  "chain_charge_storage h a used refunded ([], s) = (case charge_storage h a used refunded s of (r, t) \<Rightarrow> (r, ([], t)))"
| "chain_charge_storage h a used refunded (m # ms, s) =
     (case meter_result m of
        Inl e \<Rightarrow> (Inl e, (m # ms, s))
      | Inr _ \<Rightarrow>
          (let m' = m\<lparr>total_refunded := saturating_add (total_refunded m) refunded,
                      total_used := saturating_add (total_used m) used\<rparr>
           in case chain_charge_storage h a used refunded (ms, s) of (r, (ms', t)) \<Rightarrow> (r, (m' # ms', t))))"

definition meter_new :: "'s meter_handler \<Rightarrow> evm_address \<Rightarrow> u32 \<Rightarrow> ('s meter_chain, dispatch_error, storage_meter) storage_op" where
  "meter_new h a n =
     bind_op (chain_reserve_storage h n) (\<lambda>_.
     ok \<lparr>meter_contract = a, meter_limit = n, total_used = 0, self_used = 0, total_refunded = 0, self_refunded = 0,
         meter_result = Inr ()\<rparr>)"

definition child_meter ::
  "'s meter_handler \<Rightarrow> storage_meter \<Rightarrow> evm_address \<Rightarrow> storage_meter list \<Rightarrow> 's \<Rightarrow> storage_meter result \<times> 's meter_chain" where
  "child_meter h m a ms s =
     (case meter_result m of
        Inl e \<Rightarrow> (Inl e, (m # ms, s))
      | Inr _ \<Rightarrow> meter_new h a (available_storage m) (m # ms, s))"

text \<open>
  \<open>finish\<close> consumes the meter. The error it raises is the one of the meter itself, whatever the handler
  below it answers to \<open>out_of_storage_error\<close>.
\<close>

definition new_limit :: "storage_meter \<Rightarrow> u32" where
  "new_limit m =
     saturating_sub (saturating_sub
       (saturating_add (saturating_add (meter_limit m) (self_used m)) (total_refunded m)) (total_used m)) (self_refunded m)"

definition finish :: "'s meter_handler \<Rightarrow> storage_meter \<Rightarrow> ('s meter_chain, dispatch_error, unit) storage_op" where
  "finish h m =
     (case meter_result m of
        Inl e \<Rightarrow> fail e
      | Inr _ \<Rightarrow>
          if meter_limit m < saturating_sub (total_used m) (total_refunded m) then fail (Other ''OutOfStorage'')
          else bind_op (chain_charge_storage h (meter_contract m) (self_used m) (self_refunded m)) (\<lambda>_.
            chain_unreserve_storage h (new_limit m) (self_used m) (self_refunded m)))"

section \<open>\<open>StorageMeterHandlerImpl\<close>\<close>

definition byte_deposit :: "('acc, 's) evm_config \<Rightarrow> u32 \<Rightarrow> balance" where
  "byte_deposit cfg n = saturating_mul (StorageDepositPerByte (constants cfg)) (ucast n)"

definition impl_reserve_storage ::
  "('acc, 's) evm_config \<Rightarrow> evm_address \<Rightarrow> u32 \<Rightarrow> ('s, dispatch_error, unit) storage_op" where
  "impl_reserve_storage cfg orig n s =
     (if n = 0 then ok () s
      else let user = am_account_id (ev_mapping cfg) s orig
           in cur_reserve (ev_currency cfg) user (byte_deposit cfg n) s)"

definition impl_unreserve_storage ::
  "('acc, 's) evm_config \<Rightarrow> evm_address \<Rightarrow> u32 \<Rightarrow> u32 \<Rightarrow> u32 \<Rightarrow> ('s, dispatch_error, unit) storage_op" where
  "impl_unreserve_storage cfg orig n used refunded s =
     (let total = saturating_add n refunded;
          unused = saturating_sub total used
      in if unused = 0 then ok () s
         else let user = am_account_id (ev_mapping cfg) s orig
              in ok () (snd (cur_unreserve (ev_currency cfg) user (byte_deposit cfg unused) s)))"

definition impl_charge_storage ::
  "('acc, 's) evm_config \<Rightarrow> evm_address \<Rightarrow> evm_address \<Rightarrow> u32 \<Rightarrow> u32 \<Rightarrow> ('s, dispatch_error, unit) storage_op" where
  "impl_charge_storage cfg orig a used refunded s =
     (if used = refunded then ok () s
      else let user = am_account_id (ev_mapping cfg) s orig;
               contract_acc = am_account_id (ev_mapping cfg) s a
           in if refunded < used then
                (let amount = byte_deposit cfg (used - refunded);
                     s1 = snd (cur_unreserve (ev_currency cfg) user amount s);
                     transfer_amount = saturating_add amount (ev_minimum_balance cfg)
                 in bind_op (ev_transfer cfg user contract_acc transfer_amount AllowDeath) (\<lambda>_.
                    cur_reserve (ev_currency cfg) contract_acc amount) s1)
              else
                (let amount = byte_deposit cfg (refunded - used)
                 in bind_op (ev_repatriate_reserved cfg contract_acc user amount Reserved) (\<lambda>_. ok ()) s))"

definition storage_meter_handler_impl :: "('acc, 's) evm_config \<Rightarrow> evm_address \<Rightarrow> 's meter_handler" where
  "storage_meter_handler_impl cfg orig =
     \<lparr>reserve_storage = impl_reserve_storage cfg orig, unreserve_storage = impl_unreserve_storage cfg orig,
      charge_storage = impl_charge_storage cfg orig, out_of_storage_error = Module (Evm_Error OutOfStorage)\<rparr>"

end
