(* ===== verification/Evm_Handler.thy ===== *)
theory Evm_Handler
  imports Evm Storage_Meter
begin

text \<open>
  The handler through which the interpreter reads and changes the chain,
  \<^verbatim>\<open>modules/evm/src/runner/handler.rs\<close>.

  The interpreter and the gasometer are crates of their own and are parameters (\<open>evm_engine\<close>). The
  interpreter is what it does with its handler: a program (\<open>evm_program\<close>) ends, or makes one request
  to the handler and goes on with the answer. A program may go on forever, so it is a codatatype, and
  running it takes fuel: \<open>run\<close> counts the requests along a path through an execution, nested frames
  included, and answers \<open>None\<close> when the fuel is used up.
\<close>

section \<open>The interpreter and the gasometer\<close>

text \<open>Of the interpreter's configuration, what the handler reads; the rest only the interpreter sees.\<close>

record evm_runtime_config =
  call_l64_after_gas :: bool
  call_stipend :: u64
  estimate :: bool

definition EVM_CONFIG :: evm_runtime_config where
  "EVM_CONFIG = \<lparr>call_l64_after_gas = True, call_stipend = 2300, estimate = False\<rparr>"

record evm_context =
  c_address :: evm_address
  c_caller :: evm_address
  apparent_value :: u256

record evm_transfer =
  t_source :: evm_address
  t_target :: evm_address
  t_value :: u256

datatype create_scheme = Create2 evm_address bytes bytes | Legacy evm_address | Fixed evm_address

datatype handler_request =
  R_balance evm_address | R_code_size evm_address | R_code_hash evm_address | R_code evm_address
| R_storage evm_address bytes | R_original_storage evm_address bytes
| R_gas_left | R_gas_price | R_origin | R_block_hash u256 | R_block_number | R_block_coinbase | R_block_timestamp
| R_block_difficulty | R_block_gas_limit | R_chain_id | R_exists evm_address | R_deleted evm_address
| R_set_storage evm_address bytes bytes
| R_log evm_address "bytes list" bytes
| R_mark_delete evm_address evm_address
| R_create evm_address create_scheme u256 bytes "u64 option"
| R_call evm_address "evm_transfer option" bytes "u64 option" bool evm_context
| R_pre_validate evm_context u8 "u256 list"

datatype handler_answer =
  A_U256 u256 | A_Bytes bytes | A_Bool bool
| A_Result "exit_error + unit" | A_Create exit_reason "evm_address option" bytes | A_Call exit_reason bytes

codatatype evm_program = Exit exit_reason bytes | Request handler_request "handler_answer \<Rightarrow> evm_program"

record 'g handler =
  h_vicinity :: vicinity
  h_config :: evm_runtime_config
  gasometer :: 'g
  storage_meter_of :: storage_meter
  ancestors :: "storage_meter list"
  is_static :: bool

record 'g gasometer_ops =
  gas_new :: "u64 \<Rightarrow> evm_runtime_config \<Rightarrow> 'g"
  gas_of :: "'g \<Rightarrow> u64"
  total_used_gas :: "'g \<Rightarrow> u64"
  refunded_gas :: "'g \<Rightarrow> i64"
  record_cost :: "u64 \<Rightarrow> ('g, exit_error, unit) storage_op"
  record_stipend :: "u64 \<Rightarrow> ('g, exit_error, unit) storage_op"
  record_refund :: "i64 \<Rightarrow> ('g, exit_error, unit) storage_op"
  record_deposit :: "nat \<Rightarrow> ('g, exit_error, unit) storage_op"
  record_call_transaction :: "bytes \<Rightarrow> ('g, exit_error, unit) storage_op"
  gas_fail :: "'g \<Rightarrow> 'g"
  static_opcode_cost :: "u8 \<Rightarrow> u64 option"

text \<open>
  \<open>record_dynamic_opcode\<close> is \<open>dynamic_opcode_cost\<close> followed by \<open>record_dynamic_cost\<close>; the former reads the
  chain through the handler. \<open>sub_layers\<close> is the number of storage layers the framework still allows
  inside the transaction of a call.
\<close>

record ('g, 's) evm_engine =
  gas :: "'g gasometer_ops"
  record_dynamic_opcode :: "evm_address \<Rightarrow> u8 \<Rightarrow> u256 list \<Rightarrow> 'g handler \<Rightarrow> 's \<Rightarrow> ('g, exit_error, unit) storage_op"
  runtime_new :: "bytes \<Rightarrow> bytes \<Rightarrow> evm_context \<Rightarrow> evm_runtime_config \<Rightarrow> evm_program"
  precompiles :: "evm_address \<Rightarrow> bytes \<Rightarrow> u64 option \<Rightarrow> evm_context \<Rightarrow> 's \<Rightarrow>
    (exit_error + exit_succeed \<times> bytes \<times> u64) option \<times> 's"
  rlp_create :: "evm_address \<Rightarrow> nat \<Rightarrow> bytes"
  block_hash_at :: "'s \<Rightarrow> u32 \<Rightarrow> bytes"
  block_number_now :: "'s \<Rightarrow> block_number"
  timestamp_now :: "'s \<Rightarrow> u64"
  error_str :: "dispatch_error \<Rightarrow> string"
  sub_layers :: nat

type_synonym ('acc, 'w, 'g) engine = "('g, ('acc, 'w) evm_state) evm_engine"
type_synonym ('acc, 'w, 'g) frame = "'g handler \<times> ('acc, 'w) evm_state"
type_synonym ('acc, 'w, 'g, 'a) frame_op = "(('acc, 'w, 'g) frame, exit_error, 'a) storage_op"

text \<open>\<open>TransactionOutcome\<close>.\<close>

datatype 'r outcome = Commit 'r | Rollback 'r

section \<open>Accounts and addresses\<close>

definition STORAGE_SIZE :: u32 where "STORAGE_SIZE = 64"

definition l64 :: "u64 \<Rightarrow> u64" where
  "l64 g = g - g div 64"

definition handler_used_gas :: "('acc, 'w, 'g) engine \<Rightarrow> 'g handler \<Rightarrow> u64" where
  "handler_used_gas eng h =
     total_used_gas (gas eng) (gasometer h) -
     min (total_used_gas (gas eng) (gasometer h) div 2) (refunded_gas (gas eng) (gasometer h))"

definition handler_transfer :: "('acc, 'w) evm_cfg \<Rightarrow> evm_transfer \<Rightarrow> (('acc, 'w) evm_state, exit_error, unit) storage_op" where
  "handler_transfer cfg t s =
     (let src = am_account_id (ev_mapping cfg) s (t_source t);
          trg = am_account_id (ev_mapping cfg) s (t_target t)
      in case ev_transfer cfg src trg (saturated_into (unat (t_value t))) AllowDeath s of
           (Inr _, s') \<Rightarrow> (Inr (), s')
         | (Inl _, s') \<Rightarrow> (Inl OutOfGas, s'))"

definition handler_nonce :: "('acc, 'w) evm_cfg \<Rightarrow> ('acc, 'w) evm_state \<Rightarrow> evm_address \<Rightarrow> nat" where
  "handler_nonce cfg s a = fst (account_basic cfg s a)"

definition inc_nonce :: "evm_address \<Rightarrow> ('acc, 'w) evm_state \<Rightarrow> ('acc, 'w) evm_state" where
  "inc_nonce a s =
     s\<lparr>evm_accounts := (evm_accounts s)(a \<mapsto>
       (case evm_accounts s a of
          Some i \<Rightarrow> i\<lparr>nonce := nonce i + 1\<rparr>
        | None \<Rightarrow> (new_account_info 0 None)\<lparr>nonce := 0 + 1\<rparr>))\<rparr>"

text \<open>An address from a hash is its last twenty bytes.\<close>

definition h160_of_h256 :: "bytes \<Rightarrow> evm_address" where
  "h160_of_h256 h = drop 12 h"

definition starts_with :: "bytes \<Rightarrow> bytes \<Rightarrow> bool" where
  "starts_with p bs \<longleftrightarrow> take (length p) bs = p"

definition create_address_of ::
  "('acc, 'w) evm_cfg \<Rightarrow> ('acc, 'w, 'g) engine \<Rightarrow> ('acc, 'w) evm_state \<Rightarrow> create_scheme \<Rightarrow> exit_error + evm_address" where
  "create_address_of cfg eng s scheme =
     (let address = (case scheme of
            Create2 caller chash salt \<Rightarrow> h160_of_h256 (keccak256 cfg ([0xff] @ caller @ salt @ chash))
          | Legacy caller \<Rightarrow> h160_of_h256 (keccak256 cfg (rlp_create eng caller (handler_nonce cfg s caller)))
          | Fixed a \<Rightarrow> a)
      in if starts_with SYSTEM_CONTRACT_ADDRESS_PREFIX address then Inl (OtherExit ''ConflictContractAddress'')
         else Inr address)"

definition is_undeployed_contract :: "('acc, 'w) evm_state \<Rightarrow> evm_address \<Rightarrow> bool" where
  "is_undeployed_contract s a = (case the_contract s a of Some ci \<Rightarrow> \<not> deployed ci | None \<Rightarrow> False)"

definition has_permission_to_call :: "('acc, 'w) evm_state \<Rightarrow> evm_address \<Rightarrow> bool" where
  "has_permission_to_call s a =
     (case evm_accounts s a of
        Some i \<Rightarrow> contract_info_of i \<noteq> None \<or> developer_deposit i \<noteq> None
      | None \<Rightarrow> False)"

section \<open>Reading requests\<close>

text \<open>The answers to the requests that change nothing. A hash is at most as far back as 32 bits tell.\<close>

fun handler_read ::
  "('acc, 'w) evm_cfg \<Rightarrow> ('acc, 'w, 'g) engine \<Rightarrow> handler_request \<Rightarrow> 'g handler \<Rightarrow> ('acc, 'w) evm_state \<Rightarrow> handler_answer" where
  "handler_read cfg eng (R_balance a) h s = A_U256 (of_nat (snd (account_basic cfg s a)))"
| "handler_read cfg eng (R_code_size a) h s = A_U256 (of_nat (length (unwrap_or (Codes s (code_hash_at_address cfg s a)) [])))"
| "handler_read cfg eng (R_code_hash a) h s = A_Bytes (code_hash_at_address cfg s a)"
| "handler_read cfg eng (R_code a) h s = A_Bytes (code_at_address cfg s a)"
| "handler_read cfg eng (R_storage a k) h s = A_Bytes (account_storages s a k)"
| "handler_read cfg eng (R_original_storage a k) h s = A_Bytes default_h256"
| "handler_read cfg eng R_gas_left h s = A_U256 (ucast (gas_of (gas eng) (gasometer h)))"
| "handler_read cfg eng R_gas_price h s = A_U256 (v_gas_price (h_vicinity h))"
| "handler_read cfg eng R_origin h s = A_Bytes (v_origin (h_vicinity h))"
| "handler_read cfg eng (R_block_hash n) h s =
     A_Bytes (if ucast (max_value :: u32) < n then default_h256 else block_hash_at eng s (ucast n))"
| "handler_read cfg eng R_block_number h s = A_U256 (ucast (block_number_now eng s))"
| "handler_read cfg eng R_block_coinbase h s = A_Bytes (replicate 20 0)"
| "handler_read cfg eng R_block_timestamp h s = A_U256 (ucast (timestamp_now eng s) div 1000)"
| "handler_read cfg eng R_block_difficulty h s = A_U256 0"
| "handler_read cfg eng R_block_gas_limit h s = A_U256 0"
| "handler_read cfg eng R_chain_id h s = A_U256 (ucast (ChainId (constants cfg)))"
| "handler_read cfg eng (R_exists a) h s = A_Bool True"
| "handler_read cfg eng (R_deleted a) h s = A_Bool True"
| "handler_read cfg eng _ h s = A_Bool False"

section \<open>Writing requests\<close>

definition on_meter :: "(storage_meter, dispatch_error, unit) storage_op \<Rightarrow> ('acc, 'w, 'g, unit) frame_op" where
  "on_meter f x = (case x of (h, s) \<Rightarrow>
     case f (storage_meter_of h) of
       (Inr _, m) \<Rightarrow> (Inr (), (h\<lparr>storage_meter_of := m\<rparr>, s))
     | (Inl _, m) \<Rightarrow> (Inl OutOfGas, (h\<lparr>storage_meter_of := m\<rparr>, s)))"

definition on_gas :: "('g, exit_error, unit) storage_op \<Rightarrow> ('acc, 'w, 'g, unit) frame_op" where
  "on_gas f x = (case x of (h, s) \<Rightarrow> case f (gasometer h) of (r, g) \<Rightarrow> (r, (h\<lparr>gasometer := g\<rparr>, s)))"

datatype storage_change = NoChange | Added | Removed

definition storage_change_of :: "bytes \<Rightarrow> bytes \<Rightarrow> storage_change" where
  "storage_change_of prev v =
     (if v = default_h256 then (if prev \<noteq> default_h256 then Removed else NoChange)
      else (if prev = default_h256 then Added else NoChange))"

definition set_storage :: "evm_address \<Rightarrow> bytes \<Rightarrow> bytes \<Rightarrow> ('acc, 'w, 'g, unit) frame_op" where
  "set_storage a k v x = (case x of (h, s) \<Rightarrow>
     if is_static h then (Inl OutOfGas, (h, s))
     else let change = storage_change_of (account_storages s a k) v;
              s1 = s\<lparr>AccountStorages := (AccountStorages s)((a, k) := (if v = default_h256 then None else Some v))\<rparr>
          in case change of
               Added \<Rightarrow> on_meter (meter_charge STORAGE_SIZE) (h, s1)
             | Removed \<Rightarrow> on_meter (meter_refund STORAGE_SIZE) (h, s1)
             | NoChange \<Rightarrow> (Inr (), (h, s1)))"

definition handler_log :: "evm_address \<Rightarrow> bytes list \<Rightarrow> bytes \<Rightarrow> ('acc, 'w, 'g, unit) frame_op" where
  "handler_log a topics data x = (case x of (h, s) \<Rightarrow> (Inr (), (h, evm_deposit_event (EV_Log a topics data) s)))"

definition mark_delete :: "('acc, 'w) evm_cfg \<Rightarrow> evm_address \<Rightarrow> evm_address \<Rightarrow> ('acc, 'w, 'g, unit) frame_op" where
  "mark_delete cfg a target x = (case x of (h, s) \<Rightarrow>
     if is_static h then (Inl OutOfGas, (h, s))
     else let src = am_account_id (ev_mapping cfg) s a;
              dest = am_account_id (ev_mapping cfg) s target;
              s1 = snd (remove_account a s)
          in case ev_transfer_all cfg src dest s1 of
               (Inl _, s2) \<Rightarrow> (Inl (OtherExit ''TransferAllError''), (h, s2))
             | (Inr _, s2) \<Rightarrow> (Inr (), (h, queue_event (EV_ContractSelfdestructed target a) s2)))"

definition pre_validate ::
  "('acc, 'w, 'g) engine \<Rightarrow> evm_context \<Rightarrow> u8 \<Rightarrow> u256 list \<Rightarrow> ('acc, 'w, 'g, unit) frame_op" where
  "pre_validate eng c opc stack x = (case x of (h, s) \<Rightarrow>
     case static_opcode_cost (gas eng) opc of
       Some cost \<Rightarrow> on_gas (record_cost (gas eng) cost) (h, s)
     | None \<Rightarrow> on_gas (record_dynamic_opcode eng (c_address c) opc stack h s) (h, s))"

section \<open>Frames\<close>

text \<open>
  \<open>run_transaction\<close>: the outermost frame. The meter is created before the body runs and finished after
  it, and the storage is the old one unless the body commits and the meter finishes.
\<close>

definition run_transaction ::
  "('acc, 'w) evm_cfg \<Rightarrow> ('acc, 'w, 'g) engine \<Rightarrow> vicinity \<Rightarrow> u64 \<Rightarrow> u32 \<Rightarrow> evm_address \<Rightarrow> bool \<Rightarrow> evm_runtime_config \<Rightarrow>
     (('acc, 'w, 'g) frame \<Rightarrow> ('r outcome \<times> ('acc, 'w, 'g) frame) option) \<Rightarrow>
     ('acc, 'w) evm_state \<Rightarrow> ('r result \<times> ('acc, 'w) evm_state) option" where
  "run_transaction cfg eng vic gas_limit storage_limit a static config f s =
     (let mh = storage_meter_handler_impl cfg (v_origin vic)
      in case meter_new mh a storage_limit ([], s) of
           (Inl e, _) \<Rightarrow> Some (Inl e, s)
         | (Inr m, (_, s1)) \<Rightarrow>
             let h = \<lparr>h_vicinity = vic, h_config = config, gasometer = gas_new (gas eng) gas_limit config,
                      storage_meter_of = m, ancestors = [], is_static = static\<rparr>
             in case f (h, s1) of
                  None \<Rightarrow> None
                | Some (Commit r, (h', s2)) \<Rightarrow>
                    (case finish mh (storage_meter_of h') ([], s2) of
                       (Inr _, (_, s3)) \<Rightarrow> Some (Inr r, s3)
                     | (Inl e, _) \<Rightarrow> Some (Inl e, s))
                | Some (Rollback r, _) \<Rightarrow> Some (Inr r, s))"

text \<open>
  \<open>run_sub_transaction\<close>: a nested frame. Its body also works on the gasometer of the calling frame. The
  meters of the frames below keep what the body and \<open>finish\<close> wrote into them even if the storage is
  rolled back.
\<close>

definition with_chain :: "storage_meter list \<Rightarrow> 'g handler \<Rightarrow> 'g handler" where
  "with_chain ms h = (case ms of m # ms' \<Rightarrow> h\<lparr>storage_meter_of := m, ancestors := ms'\<rparr> | [] \<Rightarrow> h)"

definition run_sub_transaction ::
  "('acc, 'w) evm_cfg \<Rightarrow> ('acc, 'w, 'g) engine \<Rightarrow> u64 \<Rightarrow> evm_address \<Rightarrow> bool \<Rightarrow>
     (('acc, 'w, 'g) frame \<times> 'g \<Rightarrow> ('r outcome \<times> ('acc, 'w, 'g) frame \<times> 'g) option) \<Rightarrow>
     ('acc, 'w, 'g) frame \<Rightarrow> ('r result \<times> ('acc, 'w, 'g) frame) option" where
  "run_sub_transaction cfg eng gas_limit a static f x = (case x of (h, s) \<Rightarrow>
     if \<not> length (ancestors h) < sub_layers eng then Some (Inl Transactional_LimitReached, (h, s))
     else let mh = storage_meter_handler_impl cfg (v_origin (h_vicinity h))
      in case child_meter mh (storage_meter_of h) a (ancestors h) s of
           (Inl e, (ms, _)) \<Rightarrow> Some (Inl e, (with_chain ms h, s))
         | (Inr m, (ms, s1)) \<Rightarrow>
             let c = \<lparr>h_vicinity = h_vicinity h, h_config = h_config h, gasometer = gas_new (gas eng) gas_limit (h_config h),
                      storage_meter_of = m, ancestors = ms, is_static = static\<rparr>
             in case f ((c, s1), gasometer h) of
                  None \<Rightarrow> None
                | Some (Commit r, (c', s2), g) \<Rightarrow>
                    (case finish mh (storage_meter_of c') (ancestors c', s2) of
                       (Inr _, (ms', s3)) \<Rightarrow> Some (Inr r, (with_chain ms' (h\<lparr>gasometer := g\<rparr>), s3))
                     | (Inl e, (ms', _)) \<Rightarrow> Some (Inl e, (with_chain ms' (h\<lparr>gasometer := g\<rparr>), s)))
                | Some (Rollback r, (c', _), g) \<Rightarrow> Some (Inr r, (with_chain (ancestors c') (h\<lparr>gasometer := g\<rparr>), s)))"

text \<open>\<open>execute\<close>, with the way programs are run as its first argument.\<close>

type_synonym ('acc, 'w, 'g) runner =
  "evm_program \<Rightarrow> ('acc, 'w, 'g) frame \<Rightarrow> ((exit_reason \<times> bytes) \<times> ('acc, 'w, 'g) frame) option"

definition handler_execute ::
  "('acc, 'w, 'g) engine \<Rightarrow> ('acc, 'w, 'g) runner \<Rightarrow> evm_address \<Rightarrow> evm_address \<Rightarrow> u256 \<Rightarrow> bytes \<Rightarrow> bytes \<Rightarrow>
     ('acc, 'w, 'g) frame \<Rightarrow> ((exit_reason \<times> bytes) \<times> ('acc, 'w, 'g) frame) option" where
  "handler_execute eng rn caller a v code input x =
     (let c = \<lparr>c_address = a, c_caller = caller, apparent_value = v\<rparr>
      in case rn (runtime_new eng code input c (h_config (fst x))) x of
           None \<Rightarrow> None
         | Some ((reason, ret), (h, s)) \<Rightarrow>
             Some (case reason of
               Succeed r \<Rightarrow> ((Succeed r, ret), (h, s))
             | Error e \<Rightarrow> ((Error e, []), (h, s))
             | Revert \<Rightarrow> ((Revert, ret), (h, s))
             | Fatal e \<Rightarrow> ((Fatal e, []), (h\<lparr>gasometer := gas_fail (gas eng) (gasometer h)\<rparr>, s))))"

text \<open>The macros \<open>try_or_rollback\<close> and \<open>try_or_fail\<close>: an error ends the body with a rollback.\<close>

definition try_or_rollback ::
  "('st, exit_error, 'a) storage_op \<Rightarrow> (exit_error \<Rightarrow> 'r) \<Rightarrow> ('a \<Rightarrow> 'st \<Rightarrow> ('r outcome \<times> 'st) option) \<Rightarrow>
     'st \<Rightarrow> ('r outcome \<times> 'st) option" where
  "try_or_rollback f err k st =
     (case f st of (Inl e, st') \<Rightarrow> Some (Rollback (err e), st') | (Inr x, st') \<Rightarrow> k x st')"

definition in_storage :: "(('acc, 'w) evm_state, exit_error, 'a) storage_op \<Rightarrow> (('acc, 'w, 'g) frame \<times> 'g, exit_error, 'a) storage_op" where
  "in_storage f x = (case x of ((c, s), g) \<Rightarrow> case f s of (r, s') \<Rightarrow> (r, ((c, s'), g)))"

definition in_frame :: "('acc, 'w, 'g, 'a) frame_op \<Rightarrow> (('acc, 'w, 'g) frame \<times> 'g, exit_error, 'a) storage_op" where
  "in_frame f x = (case x of (c, g) \<Rightarrow> case f c of (r, c') \<Rightarrow> (r, (c', g)))"

definition in_caller_gas :: "('g, exit_error, 'a) storage_op \<Rightarrow> (('acc, 'w, 'g) frame \<times> 'g, exit_error, 'a) storage_op" where
  "in_caller_gas f x = (case x of (c, g) \<Rightarrow> case f g of (r, g') \<Rightarrow> (r, (c, g')))"

text \<open>Giving the gas a frame has left back to its caller.\<close>

definition return_gas ::
  "('acc, 'w, 'g) engine \<Rightarrow> (exit_error \<Rightarrow> 'r) \<Rightarrow> (('acc, 'w, 'g) frame \<times> 'g \<Rightarrow> ('r outcome \<times> ('acc, 'w, 'g) frame \<times> 'g) option) \<Rightarrow>
     ('acc, 'w, 'g) frame \<times> 'g \<Rightarrow> ('r outcome \<times> ('acc, 'w, 'g) frame \<times> 'g) option" where
  "return_gas eng err k x =
     (let child = gasometer (fst (fst x))
      in try_or_rollback (in_caller_gas (record_stipend (gas eng) (gas_of (gas eng) child))) err (\<lambda>_.
         try_or_rollback (in_caller_gas (record_refund (gas eng) (refunded_gas (gas eng) child))) err (\<lambda>_. k)) x)"

section \<open>Calls and creations inside an execution\<close>

definition call_target_gas :: "('acc, 'w, 'g) engine \<Rightarrow> 'g handler \<Rightarrow> u64 option \<Rightarrow> u64" where
  "call_target_gas eng h target_gas =
     (let after_gas = (if call_l64_after_gas (h_config h) then l64 (gas_of (gas eng) (gasometer h)) else gas_of (gas eng) (gasometer h))
      in min (unwrap_or target_gas after_gas) after_gas)"

definition call_body ::
  "('acc, 'w) evm_cfg \<Rightarrow> ('acc, 'w, 'g) engine \<Rightarrow> ('acc, 'w, 'g) runner \<Rightarrow> evm_address \<Rightarrow> evm_transfer option \<Rightarrow> bytes \<Rightarrow>
     u64 \<Rightarrow> evm_context \<Rightarrow> bytes \<Rightarrow> ('acc, 'w, 'g) frame \<times> 'g \<Rightarrow>
     ((exit_reason \<times> bytes) outcome \<times> ('acc, 'w, 'g) frame \<times> 'g) option" where
  "call_body cfg eng rn code_address transfer input target_gas ctx code =
     (let err = (\<lambda>e. (Error e, []))
      in try_or_rollback (in_storage (case transfer of Some t \<Rightarrow> handler_transfer cfg t | None \<Rightarrow> ok ())) err (\<lambda>_.
         try_or_rollback (in_caller_gas (record_cost (gas eng) target_gas)) err (\<lambda>_ x.
         case x of ((c, s), g) \<Rightarrow>
         case precompiles eng code_address input (Some target_gas) ctx s of
           (Some (Inr (r, out, cost)), s1) \<Rightarrow>
             try_or_rollback (in_frame (on_gas (record_cost (gas eng) cost))) err (\<lambda>_.
             return_gas eng err (\<lambda>y. Some (Commit (Succeed r, out), y))) ((c, s1), g)
         | (Some (Inl e), s1) \<Rightarrow> Some (Rollback (err e), ((c, s1), g))
         | (None, s1) \<Rightarrow>
             (case handler_execute eng rn (c_caller ctx) (c_address ctx) (apparent_value ctx) code input (c, s1) of
                None \<Rightarrow> None
              | Some ((Succeed r, out), c') \<Rightarrow> return_gas eng err (\<lambda>y. Some (Commit (Succeed r, out), y)) (c', g)
              | Some ((Revert, out), c') \<Rightarrow> Some (Rollback (Revert, out), (c', g))
              | Some ((Error e, out), c') \<Rightarrow> Some (Rollback (err e), (c', g))
              | Some ((Fatal e, out), c') \<Rightarrow> Some (Rollback (Fatal e, []), (c', gas_fail (gas eng) g))))))"

definition handler_call ::
  "('acc, 'w) evm_cfg \<Rightarrow> ('acc, 'w, 'g) engine \<Rightarrow> ('acc, 'w, 'g) runner \<Rightarrow> evm_address \<Rightarrow> evm_transfer option \<Rightarrow> bytes \<Rightarrow>
     u64 option \<Rightarrow> bool \<Rightarrow> evm_context \<Rightarrow> ('acc, 'w, 'g) frame \<Rightarrow> ((exit_reason \<times> bytes) \<times> ('acc, 'w, 'g) frame) option" where
  "handler_call cfg eng rn code_address transfer input target static ctx x = (case x of (h, s) \<Rightarrow>
     if is_static h \<and> transfer \<noteq> None then Some ((Error OutOfGas, []), (h, s))
     else let tg = call_target_gas eng h target;
              target_gas = (case transfer of
                  Some t \<Rightarrow> if t_value t \<noteq> 0 then saturating_add tg (call_stipend (h_config h)) else tg
                | None \<Rightarrow> tg);
              code = code_at_address cfg s code_address
          in case run_sub_transaction cfg eng target_gas (c_address ctx) (is_static h \<or> static)
                    (call_body cfg eng rn code_address transfer input target_gas ctx code) (h, s) of
               None \<Rightarrow> None
             | Some (Inr r, y) \<Rightarrow> Some (r, y)
             | Some (Inl e, y) \<Rightarrow> Some ((Error (OtherExit (error_str eng e)), []), y))"

text \<open>
  The body of a nested creation. The amount of gas announced in the event is the gas that is left, and
  the maintainer of the contract is the origin of the transaction.
\<close>

definition create_body ::
  "('acc, 'w) evm_cfg \<Rightarrow> ('acc, 'w, 'g) engine \<Rightarrow> ('acc, 'w, 'g) runner \<Rightarrow> evm_address \<Rightarrow> evm_address \<Rightarrow> evm_address \<Rightarrow> u256 \<Rightarrow> bytes \<Rightarrow>
     ('acc, 'w, 'g) frame \<times> 'g \<Rightarrow>
     ((exit_reason \<times> evm_address option \<times> bytes) outcome \<times> ('acc, 'w, 'g) frame \<times> 'g) option" where
  "create_body cfg eng rn orig caller a v init_code =
     (let err = (\<lambda>e. (Error e, None, []))
      in try_or_rollback (in_storage (handler_transfer cfg \<lparr>t_source = caller, t_target = a, t_value = v\<rparr>)) err (\<lambda>_ x.
         case handler_execute eng rn caller a v init_code [] (fst x) of
           None \<Rightarrow> None
         | Some ((Succeed r, out), c) \<Rightarrow>
             try_or_rollback (in_frame (on_gas (record_deposit (gas eng) (length out)))) err (\<lambda>_ y.
             let gas_used = gas_of (gas eng) (gasometer (fst (fst y)));
                 storage_used = saturating_add (of_nat (length out)) (NewContractExtraBytes (constants cfg))
             in return_gas eng err (
                try_or_rollback (in_storage (modify_op (inc_nonce a))) err (\<lambda>_.
                try_or_rollback (in_frame (on_meter (meter_charge storage_used))) err (\<lambda>_.
                try_or_rollback (in_storage (on_contract_initialization cfg a orig out gas_used storage_used)) err (\<lambda>_ z.
                Some (Commit (Succeed r, Some a, []), z))))) y) (c, snd x)
         | Some ((Revert, out), c) \<Rightarrow> Some (Rollback (Revert, None, out), (c, snd x))
         | Some ((Error e, out), c) \<Rightarrow> Some (Rollback (err e), (c, snd x))
         | Some ((Fatal e, out), c) \<Rightarrow> Some (Rollback (Fatal e, None, []), (c, gas_fail (gas eng) (snd x)))))"

definition handler_create ::
  "('acc, 'w) evm_cfg \<Rightarrow> ('acc, 'w, 'g) engine \<Rightarrow> ('acc, 'w, 'g) runner \<Rightarrow> evm_address \<Rightarrow> create_scheme \<Rightarrow> u256 \<Rightarrow> bytes \<Rightarrow>
     u64 option \<Rightarrow> ('acc, 'w, 'g) frame \<Rightarrow> ((exit_reason \<times> evm_address option \<times> bytes) \<times> ('acc, 'w, 'g) frame) option" where
  "handler_create cfg eng rn caller scheme v init_code target x = (case x of (h, s) \<Rightarrow>
     if is_static h then Some ((Error OutOfGas, None, []), (h, s))
     else let target_gas = call_target_gas eng h target
      in case on_gas (record_cost (gas eng) target_gas) (h, s) of
           (Inl e, y) \<Rightarrow> Some ((Error e, None, []), y)
         | (Inr _, (h1, s1)) \<Rightarrow>
             (case create_address_of cfg eng s1 scheme of
                Inl e \<Rightarrow> Some ((Error e, None, []), (h1, s1))
              | Inr a \<Rightarrow>
                  (case run_sub_transaction cfg eng target_gas a (is_static h1)
                          (create_body cfg eng rn (v_origin (h_vicinity h1)) caller a v init_code) (h1, inc_nonce caller s1) of
                     None \<Rightarrow> None
                   | Some (Inr r, y) \<Rightarrow> Some (r, y)
                   | Some (Inl e, y) \<Rightarrow> Some ((Error (OtherExit (error_str eng e)), None, []), y))))"

section \<open>Running a program\<close>

definition then_run ::
  "('acc, 'w, 'g) runner \<Rightarrow> (handler_answer \<Rightarrow> evm_program) \<Rightarrow> (exit_error + unit) \<times> ('acc, 'w, 'g) frame \<Rightarrow>
     ((exit_reason \<times> bytes) \<times> ('acc, 'w, 'g) frame) option" where
  "then_run rn k ry = rn (k (A_Result (fst ry))) (snd ry)"

definition run_request ::
  "('acc, 'w) evm_cfg \<Rightarrow> ('acc, 'w, 'g) engine \<Rightarrow> ('acc, 'w, 'g) runner \<Rightarrow> handler_request \<Rightarrow>
     (handler_answer \<Rightarrow> evm_program) \<Rightarrow> ('acc, 'w, 'g) frame \<Rightarrow> ((exit_reason \<times> bytes) \<times> ('acc, 'w, 'g) frame) option" where
  "run_request cfg eng rn q k x =
     (case q of
        R_set_storage a i v \<Rightarrow> then_run rn k (set_storage a i v x)
      | R_log a topics data \<Rightarrow> then_run rn k (handler_log a topics data x)
      | R_mark_delete a target \<Rightarrow> then_run rn k (mark_delete cfg a target x)
      | R_pre_validate c opc stack \<Rightarrow> then_run rn k (pre_validate eng c opc stack x)
      | R_create caller scheme v init_code target \<Rightarrow>
          (case handler_create cfg eng rn caller scheme v init_code target x of
             None \<Rightarrow> None
           | Some ((r, a, out), y) \<Rightarrow> rn (k (A_Create r a out)) y)
      | R_call code_address transfer input target static ctx \<Rightarrow>
          (case handler_call cfg eng rn code_address transfer input target static ctx x of
             None \<Rightarrow> None
           | Some ((r, out), y) \<Rightarrow> rn (k (A_Call r out)) y)
      | _ \<Rightarrow> rn (k (handler_read cfg eng q (fst x) (snd x))) x)"

primrec run :: "('acc, 'w) evm_cfg \<Rightarrow> ('acc, 'w, 'g) engine \<Rightarrow> nat \<Rightarrow> ('acc, 'w, 'g) runner" where
  "run cfg eng 0 = (\<lambda>p x. None)"
| "run cfg eng (Suc n) = (\<lambda>p x. case p of Exit r out \<Rightarrow> Some ((r, out), x) | Request q k \<Rightarrow> run_request cfg eng (run cfg eng n) q k x)"

end
