(* ===== verification/Evm_Runner.thy ===== *)
theory Evm_Runner
  imports Evm_Handler
begin

text \<open>
  The runner, \<^verbatim>\<open>modules/evm/src/runner/mod.rs\<close>, and the calls of the pallet that execute code together
  with the pallet as the EVM of other pallets (\<open>EVMTrait::execute\<close>), \<^verbatim>\<open>modules/evm/src/lib.rs\<close>. All take
  the fuel of \<open>run\<close> and answer \<open>None\<close> when it is used up.
\<close>

section \<open>The runner\<close>

type_synonym ('acc, 'w, 'a) evm_run = "('acc, 'w) evm_state \<Rightarrow> ('a result \<times> ('acc, 'w) evm_state) option"

definition succeeded :: "exit_reason \<Rightarrow> bool" where
  "succeeded r = (case r of Succeed _ \<Rightarrow> True | _ \<Rightarrow> False)"

definition runner_transfer :: "('acc, 'w) evm_cfg \<Rightarrow> evm_address \<Rightarrow> evm_address \<Rightarrow> balance \<Rightarrow> ('acc, 'w, unit) evm_op" where
  "runner_transfer cfg src trg v s =
     (if v = 0 then (Inr (), s)
      else ev_transfer cfg (am_account_id (ev_mapping cfg) s src) (am_account_id (ev_mapping cfg) s trg) v AllowDeath s)"

text \<open>\<open>run_transaction(..)?\<close> on a body whose value is itself a result.\<close>

definition flatten :: "('a result result \<times> 's) option \<Rightarrow> ('a result \<times> 's) option" where
  "flatten x = (case x of
     None \<Rightarrow> None
   | Some (Inl e, s) \<Rightarrow> Some (Inl e, s)
   | Some (Inr r, s) \<Rightarrow> Some (r, s))"

definition default_vicinity :: "evm_address \<Rightarrow> vicinity" where
  "default_vicinity orig = \<lparr>v_gas_price = 1, v_origin = orig, v_block_base_fee_per_gas = None\<rparr>"

definition runner_call_body ::
  "('acc, 'w) evm_cfg \<Rightarrow> ('acc, 'w, 'g) engine \<Rightarrow> nat \<Rightarrow> evm_address \<Rightarrow> evm_address \<Rightarrow> bytes \<Rightarrow> balance \<Rightarrow>
     ('acc, 'w, 'g) frame \<Rightarrow> (call_info result outcome \<times> ('acc, 'w, 'g) frame) option" where
  "runner_call_body cfg eng fuel snder target input v x = (case x of (h, s) \<Rightarrow>
     case runner_transfer cfg snder target v s of
       (Inl e, s1) \<Rightarrow> Some (Rollback (Inl e), (h, s1))
     | (Inr _, s1) \<Rightarrow>
         let code = code_at_address cfg s1 target
         in case on_gas (record_call_transaction (gas eng) code) (h, s1) of
              (Inl _, y) \<Rightarrow> Some (Rollback (Inl (Other ''OutOfGas'')), y)
            | (Inr _, y) \<Rightarrow>
                (case handler_execute eng (run cfg eng fuel) snder target (ucast v) code input y of
                   None \<Rightarrow> None
                 | Some ((reason, out), (h', s2)) \<Rightarrow>
                     let info = \<lparr>exit_reason_of = reason, call_output = out, used_gas = ucast (handler_used_gas eng h'),
                                 used_storage = meter_used_storage (storage_meter_of h')\<rparr>
                     in Some (if succeeded reason then Commit (Inr info) else Rollback (Inr info), (h', s2))))"

definition runner_call ::
  "('acc, 'w) evm_cfg \<Rightarrow> ('acc, 'w, 'g) engine \<Rightarrow> nat \<Rightarrow> evm_address \<Rightarrow> evm_address \<Rightarrow> evm_address \<Rightarrow> bytes \<Rightarrow> balance \<Rightarrow>
     u64 \<Rightarrow> u32 \<Rightarrow> evm_runtime_config \<Rightarrow> ('acc, 'w, call_info) evm_run" where
  "runner_call cfg eng fuel snder orig target input v gas_limit storage_limit config s =
     (if is_undeployed_contract s target \<and> \<not> has_permission_to_call s snder then Some (Inl (evm_fail NoPermission), s)
      else flatten (run_transaction cfg eng (default_vicinity orig) gas_limit storage_limit target False config
             (runner_call_body cfg eng fuel snder target input v) (inc_nonce snder s)))"

text \<open>
  The body of a creation. The first two failing exits carry the gas used so far; the storage charge is
  for the length of the code (cast to 32 bits) and the extra bytes of a contract.
\<close>

definition settle_create ::
  "('acc, 'w) evm_cfg \<Rightarrow> ('acc, 'w, 'g) engine \<Rightarrow> evm_address \<Rightarrow> evm_address \<Rightarrow> create_info \<Rightarrow> bytes \<Rightarrow>
     ('acc, 'w, 'g) frame \<Rightarrow> create_info result outcome \<times> ('acc, 'w, 'g) frame" where
  "settle_create cfg eng src a info out x =
     (case on_gas (record_deposit (gas eng) (length out)) x of
       (Inl e, y1) \<Rightarrow> (Rollback (Inr (info\<lparr>create_exit_reason := Error e\<rparr>)), y1)
     | (Inr _, (h2, s3)) \<Rightarrow>
     let info1 = info\<lparr>create_used_gas := ucast (handler_used_gas eng h2)\<rparr>;
         bytes = saturating_add (of_nat (length out)) (NewContractExtraBytes (constants cfg))
     in case on_meter (meter_charge bytes) (h2, inc_nonce a s3) of
       (Inl _, y2) \<Rightarrow> (Rollback (Inr (info1\<lparr>create_exit_reason := Error OutOfGas\<rparr>)), y2)
     | (Inr _, (h3, s4)) \<Rightarrow>
     let info2 = info1\<lparr>create_used_storage := meter_used_storage (storage_meter_of h3)\<rparr>
     in case on_contract_initialization cfg a src out (saturated_into (unat (create_used_gas info2))) (create_used_storage info2) s4 of
       (Inl e, s5) \<Rightarrow> (Rollback (Inr (info2\<lparr>create_exit_reason := Error e\<rparr>)), (h3, s5))
     | (Inr _, s5) \<Rightarrow> (Commit (Inr info2), (h3, s5)))"

definition inner_create_body ::
  "('acc, 'w) evm_cfg \<Rightarrow> ('acc, 'w, 'g) engine \<Rightarrow> nat \<Rightarrow> evm_address \<Rightarrow> evm_address \<Rightarrow> bytes \<Rightarrow> balance \<Rightarrow>
     ('acc, 'w, 'g) frame \<Rightarrow> (create_info result outcome \<times> ('acc, 'w, 'g) frame) option" where
  "inner_create_body cfg eng fuel src a init v x = (case x of (h, s) \<Rightarrow>
     case runner_transfer cfg src a v s of
       (Inl e, s1) \<Rightarrow> Some (Rollback (Inl e), (h, s1))
     | (Inr _, s1) \<Rightarrow>
     case on_gas (record_call_transaction (gas eng) init) (h, s1) of
       (Inl _, y) \<Rightarrow> Some (Rollback (Inl (Other ''OutOfGas'')), y)
     | (Inr _, y) \<Rightarrow>
     case handler_execute eng (run cfg eng fuel) src a (ucast v) init [] y of
       None \<Rightarrow> None
     | Some ((reason, out), (h1, s2)) \<Rightarrow>
     let info = \<lparr>create_exit_reason = reason, create_address = a, create_output = [],
                 create_used_gas = ucast (handler_used_gas eng h1),
                 create_used_storage = meter_used_storage (storage_meter_of h1)\<rparr>
     in if \<not> succeeded reason then Some (Rollback (Inr (info\<lparr>create_output := out\<rparr>)), (h1, s2))
        else Some (settle_create cfg eng src a info out (h1, s2)))"

definition inner_create ::
  "('acc, 'w) evm_cfg \<Rightarrow> ('acc, 'w, 'g) engine \<Rightarrow> nat \<Rightarrow> evm_address \<Rightarrow> bytes \<Rightarrow> balance \<Rightarrow> u64 \<Rightarrow> u32 \<Rightarrow>
     evm_address option \<Rightarrow> bytes option \<Rightarrow> evm_runtime_config \<Rightarrow> ('acc, 'w, create_info) evm_run" where
  "inner_create cfg eng fuel src init v gas_limit storage_limit assigned_address salt config s =
     (let address = (case assigned_address of
            Some a \<Rightarrow> Inr a
          | None \<Rightarrow>
              create_address_of cfg eng s (case salt of
                Some t \<Rightarrow> Create2 src (keccak256 cfg init) t
              | None \<Rightarrow> Legacy src))
      in case address of
           Inl _ \<Rightarrow> Some (Inl (evm_fail ConflictContractAddress), s)
         | Inr a \<Rightarrow>
             flatten (run_transaction cfg eng (default_vicinity src) gas_limit storage_limit a False config
               (inner_create_body cfg eng fuel src a init v) (inc_nonce src s)))"

definition runner_create where
  "runner_create cfg eng fuel src init v gas_limit storage_limit config =
     inner_create cfg eng fuel src init v gas_limit storage_limit None None config"

definition runner_create2 where
  "runner_create2 cfg eng fuel src init salt v gas_limit storage_limit config =
     inner_create cfg eng fuel src init v gas_limit storage_limit None (Some salt) config"

definition create_at_address where
  "create_at_address cfg eng fuel src init v assigned_address gas_limit storage_limit config =
     inner_create cfg eng fuel src init v gas_limit storage_limit (Some assigned_address) None config"

section \<open>The calls of the pallet\<close>

text \<open>The calls are transactional and answer with the weight to charge.\<close>

definition transactional_run :: "('acc, 'w, 'a) evm_run \<Rightarrow> ('acc, 'w, 'a) evm_run" where
  "transactional_run f s = (case f s of
     None \<Rightarrow> None
   | Some (Inl e, _) \<Rightarrow> Some (Inl e, s)
   | Some (Inr x, t) \<Rightarrow> Some (Inr x, t))"

definition bind_run :: "('acc, 'w, 'a) evm_run \<Rightarrow> ('a \<Rightarrow> ('acc, 'w, 'b) evm_run) \<Rightarrow> ('acc, 'w, 'b) evm_run" where
  "bind_run f k s = (case f s of
     None \<Rightarrow> None
   | Some (Inl e, t) \<Rightarrow> Some (Inl e, t)
   | Some (Inr x, t) \<Rightarrow> k x t)"

definition lift_op :: "('acc, 'w, 'a) evm_op \<Rightarrow> ('acc, 'w, 'a) evm_run" where
  "lift_op f s = Some (f s)"

definition gas_u64 :: "u256 \<Rightarrow> u64" where
  "gas_u64 g = saturated_into (unat g)"

definition executed_event :: "evm_address \<Rightarrow> evm_address \<Rightarrow> u64 \<Rightarrow> call_info \<Rightarrow> 'acc evm_event" where
  "executed_event src target gas_limit info =
     (if succeeded (exit_reason_of info) then EV_Executed src target (gas_u64 (used_gas info)) (used_storage info)
      else EV_ExecutedFailed src target (exit_reason_of info) (call_output info) gas_limit 0)"

definition evm_call_call ::
  "('acc, 'w) evm_cfg \<Rightarrow> ('acc, 'w, 'g) engine \<Rightarrow> nat \<Rightarrow> 'acc origin \<Rightarrow> evm_address \<Rightarrow> bytes \<Rightarrow> balance \<Rightarrow> u64 \<Rightarrow> u32 \<Rightarrow>
     ('acc, 'w, u64) evm_run" where
  "evm_call_call cfg eng fuel orig target input v gas_limit storage_limit = transactional_run (
     bind_run (lift_op (pure (ensure_signed orig))) (\<lambda>who s.
     case am_or_create (ev_mapping cfg) who s of (src, s1) \<Rightarrow>
     bind_run (runner_call cfg eng fuel src src target input v gas_limit storage_limit EVM_CONFIG) (\<lambda>info s.
     Some (Inr (GasToWeight cfg (gas_u64 (used_gas info))),
       process_queued_events (evm_deposit_event (executed_event src target gas_limit info) s))) s1))"

definition scheduled_call_call ::
  "('acc, 'w) evm_cfg \<Rightarrow> ('acc, 'w, 'g) engine \<Rightarrow> nat \<Rightarrow> 'acc origin \<Rightarrow> evm_address \<Rightarrow> evm_address \<Rightarrow> bytes \<Rightarrow> balance \<Rightarrow>
     u64 \<Rightarrow> u32 \<Rightarrow> ('acc, 'w, u64) evm_run" where
  "scheduled_call_call cfg eng fuel orig from target input v gas_limit storage_limit = transactional_run (
     bind_run (lift_op (pure (ensure_root orig))) (\<lambda>_ s.
     let from_account = am_account_id (ev_mapping cfg) s from;
         compat = ethereum_compatibility (constants cfg)
     in bind_run (if compat then lift_op (ok 0) else (\<lambda>s.
          case unreserve_and_charge_fee cfg from_account (GasToWeight cfg gas_limit) s of
            (Inl _, t) \<Rightarrow> Some (Inl (evm_fail ChargeFeeFailed), t)
          | (Inr (_, payed), t) \<Rightarrow> Some (Inr payed, t))) (\<lambda>payed.
        bind_run (runner_call cfg eng fuel from from target input v gas_limit storage_limit EVM_CONFIG) (\<lambda>info s.
        let s1 = evm_deposit_event (executed_event from target gas_limit info) s;
            refund_gas = saturating_sub gas_limit (gas_u64 (used_gas info));
            s2 = (if compat \<or> refund_gas = 0 then s1
                  else snd (refund_fee cfg from_account (GasToWeight cfg refund_gas) payed s1))
        in Some (Inr (GasToWeight cfg (gas_u64 (used_gas info))), process_queued_events s2))) s))"

definition created_event :: "evm_address \<Rightarrow> u64 \<Rightarrow> create_info \<Rightarrow> ('acc, 'w) evm_state \<Rightarrow> ('acc, 'w) evm_state" where
  "created_event src gas_limit info s =
     (if succeeded (create_exit_reason info) then s
      else evm_deposit_event (EV_CreatedFailed src (create_address info) (create_exit_reason info) (create_output info) gas_limit 0) s)"

definition evm_create_call ::
  "('acc, 'w) evm_cfg \<Rightarrow> ('acc, 'w, 'g) engine \<Rightarrow> nat \<Rightarrow> 'acc origin \<Rightarrow> bytes \<Rightarrow> balance \<Rightarrow> u64 \<Rightarrow> u32 \<Rightarrow> ('acc, 'w, u64) evm_run" where
  "evm_create_call cfg eng fuel orig init v gas_limit storage_limit = transactional_run (
     bind_run (lift_op (pure (ensure_signed orig))) (\<lambda>who s.
     case am_or_create (ev_mapping cfg) who s of (src, s1) \<Rightarrow>
     bind_run (runner_create cfg eng fuel src init v gas_limit storage_limit EVM_CONFIG) (\<lambda>info s.
     Some (Inr (GasToWeight cfg (gas_u64 (create_used_gas info))), process_queued_events (created_event src gas_limit info s))) s1))"

definition evm_create2_call ::
  "('acc, 'w) evm_cfg \<Rightarrow> ('acc, 'w, 'g) engine \<Rightarrow> nat \<Rightarrow> 'acc origin \<Rightarrow> bytes \<Rightarrow> bytes \<Rightarrow> balance \<Rightarrow> u64 \<Rightarrow> u32 \<Rightarrow>
     ('acc, 'w, u64) evm_run" where
  "evm_create2_call cfg eng fuel orig init salt v gas_limit storage_limit = transactional_run (
     bind_run (lift_op (pure (ensure_signed orig))) (\<lambda>who s.
     case am_or_create (ev_mapping cfg) who s of (src, s1) \<Rightarrow>
     bind_run (runner_create2 cfg eng fuel src init salt v gas_limit storage_limit EVM_CONFIG) (\<lambda>info s.
     Some (Inr (GasToWeight cfg (gas_u64 (create_used_gas info))), process_queued_events (created_event src gas_limit info s))) s1))"

text \<open>\<open>EvmAddress::from_low_u64_be\<close>.\<close>

definition from_low_u64_be :: "u64 \<Rightarrow> evm_address" where
  "from_low_u64_be n = replicate 12 0 @ be_bytes 8 (unat n)"

definition create_network_contract_call ::
  "('acc, 'w) evm_cfg \<Rightarrow> ('acc, 'w, 'g) engine \<Rightarrow> nat \<Rightarrow> 'acc origin \<Rightarrow> bytes \<Rightarrow> balance \<Rightarrow> u64 \<Rightarrow> u32 \<Rightarrow>
     ('acc, 'w, u64) evm_run" where
  "create_network_contract_call cfg eng fuel orig init v gas_limit storage_limit = transactional_run (
     bind_run (lift_op (ensure (NetworkContractOrigin cfg orig) BadOrigin)) (\<lambda>_ s.
     let src = NetworkContractSource (constants cfg);
         a = from_low_u64_be (NetworkContractIndex s)
     in bind_run (create_at_address cfg eng fuel src init v a gas_limit storage_limit EVM_CONFIG) (\<lambda>info s.
        let s1 = s\<lparr>NetworkContractIndex := saturating_add (NetworkContractIndex s) 1\<rparr>
        in Some (Inr (GasToWeight cfg (gas_u64 (create_used_gas info))), process_queued_events (created_event src gas_limit info s1))) s))"

section \<open>The pallet as the EVM of other pallets\<close>

text \<open>
  \<open>EVMTrait::execute\<close>: only a successful execution in executing mode is committed; the event of a
  failing one is rolled back with it.
\<close>

definition evm_trait_execute ::
  "('acc, 'w) evm_cfg \<Rightarrow> ('acc, 'w, 'g) engine \<Rightarrow> nat \<Rightarrow> invoke_context \<Rightarrow> bytes \<Rightarrow> balance \<Rightarrow> u64 \<Rightarrow> u32 \<Rightarrow> execution_mode \<Rightarrow>
     ('acc, 'w, call_info) evm_run" where
  "evm_trait_execute cfg eng fuel ctx input v gas_limit storage_limit mode s =
     (let config = (if mode = EstimateGas then EVM_CONFIG\<lparr>estimate := True\<rparr> else EVM_CONFIG)
      in case runner_call cfg eng fuel (sender ctx) (ctx_origin ctx) (contract ctx) input v gas_limit storage_limit config s of
           None \<Rightarrow> None
         | Some (Inl e, _) \<Rightarrow> Some (Inl e, s)
         | Some (Inr info, t) \<Rightarrow>
             if mode = Execute \<and> succeeded (exit_reason_of info)
             then Some (Inr info, evm_deposit_event
                    (EV_Executed (sender ctx) (contract ctx) (gas_u64 (used_gas info)) (used_storage info)) t)
             else Some (Inr info, s))"

end
