(* ===== verification/Evm_Effects.thy ===== *)
theory Evm_Effects
  imports Evm_Runner
begin

text \<open>
  What an execution can do to the storage. The locale \<open>frame_effects\<close> collects the elementary effects the
  handler has: writing a slot, a nonce, an event, removing and initialising contracts, the currency and
  the precompiles. For every reflexive and transitive relation that contains them, the locale shows
  that a whole execution, nested frames and rollbacks included, stays inside the relation. With
  \<open>static\<close> set, only the effects allowed in static frames have to be contained, and the conclusion is
  about static frames.
\<close>

section \<open>Frames\<close>

definition selfs :: "storage_meter \<Rightarrow> u32 \<times> u32" where
  "selfs m = (self_used m, self_refunded m)"

text \<open>What one frame's work leaves alone of its handler: the shape of the meters below and, in a static frame, its own counts.\<close>

definition keeps :: "bool \<Rightarrow> 'g handler \<Rightarrow> 'g handler \<Rightarrow> bool" where
  "keeps static h h' \<longleftrightarrow> map selfs (ancestors h') = map selfs (ancestors h) \<and> is_static h' = is_static h \<and>
     h_vicinity h' = h_vicinity h \<and> h_config h' = h_config h \<and>
     (static \<longrightarrow> selfs (storage_meter_of h') = selfs (storage_meter_of h))"

definition quiet :: "bool \<Rightarrow> 'g handler \<Rightarrow> bool" where
  "quiet static h \<longleftrightarrow> (static \<longrightarrow> is_static h \<and> self_used (storage_meter_of h) = self_refunded (storage_meter_of h))"

lemma keeps_refl [simp]: "keeps b h h"
  by (simp add: keeps_def)

lemma keeps_trans: "keeps b h h1 \<Longrightarrow> keeps b h1 h2 \<Longrightarrow> keeps b h h2"
  by (simp add: keeps_def)

lemma keeps_gas [simp]: "keeps b h (h'\<lparr>gasometer := g\<rparr>) \<longleftrightarrow> keeps b h h'"
  by (simp add: keeps_def)

lemma keeps_quiet: "keeps b h h' \<Longrightarrow> quiet b h \<Longrightarrow> quiet b h'"
  by (auto simp: keeps_def quiet_def selfs_def)

lemma chain_charge_selfs:
  "chain_charge_storage mh a used refunded (ms, s) = (r, (ms', t)) \<Longrightarrow> map selfs ms' = map selfs ms"
  by (induction ms arbitrary: r ms' t) (auto simp: Let_def selfs_def split: prod.splits sum.splits)

lemma chain_unreserve_selfs:
  "chain_unreserve_storage mh n used refunded (ms, s) = (r, (ms', t)) \<Longrightarrow> map selfs ms' = map selfs ms"
  by (cases ms) (auto split: prod.splits)

lemma finish_selfs:
  assumes "finish mh m (ms, s) = (r, (ms', t))"
  shows "map selfs ms' = map selfs ms"
proof (cases r)
  case (Inl e)
  with assms show ?thesis
    by (auto simp: finish_def op_simps split: sum.splits if_splits dest!: chain_charge_selfs chain_unreserve_selfs)
next
  case (Inr u)
  with assms show ?thesis
    by (auto simp: finish_def op_simps split: sum.splits if_splits dest!: chain_charge_selfs chain_unreserve_selfs)
qed

lemma child_meter_Inr:
  assumes "child_meter mh m a ms s = (Inr c, (ms', t))"
  shows "ms' = m # ms" and "t = s" and "self_used c = 0" and "self_refunded c = 0"
  using assms by (auto simp: child_meter_def meter_new_def op_simps split: sum.splits)

lemma child_meter_Inl:
  assumes "child_meter mh m a ms s = (Inl e, (ms', t))"
  shows "ms' = m # ms" and "t = s"
  using assms by (auto simp: child_meter_def meter_new_def op_simps split: sum.splits)

lemma with_chain_keeps:
  assumes "map selfs ms = map selfs (storage_meter_of h # ancestors h)"
  shows "keeps b h (with_chain ms h)"
  using assms by (cases ms) (auto simp: with_chain_def keeps_def)

lemma with_chain_gas_keeps:
  assumes "map selfs ms = map selfs (storage_meter_of h # ancestors h)"
  shows "keeps b h (with_chain ms (h\<lparr>gasometer := g\<rparr>))"
  using assms by (cases ms) (auto simp: with_chain_def keeps_def)

text \<open>Operations, bodies of frames and runs that stay inside a relation on the storage.\<close>

definition good_op where
  "good_op b R f \<longleftrightarrow> (\<forall>c s g r c' s' g'. quiet b c \<longrightarrow> f ((c, s), g) = (r, ((c', s'), g')) \<longrightarrow> R s s' \<and> keeps b c c')"

definition good_body where
  "good_body b R f \<longleftrightarrow>
     (\<forall>c s g r c' s' g'. quiet b c \<longrightarrow> f ((c, s), g) = Some (r, ((c', s'), g')) \<longrightarrow> R s s' \<and> keeps b c c')"

definition good_run where
  "good_run b R rn \<longleftrightarrow> (\<forall>p h s r h' s'. quiet b h \<longrightarrow> rn p (h, s) = Some (r, (h', s')) \<longrightarrow> R s s' \<and> keeps b h h')"

lemma good_opD: "good_op b R f \<Longrightarrow> quiet b c \<Longrightarrow> f ((c, s), g) = (r, ((c', s'), g')) \<Longrightarrow> R s s' \<and> keeps b c c'"
  unfolding good_op_def by blast

lemma good_bodyD: "good_body b R f \<Longrightarrow> quiet b c \<Longrightarrow> f ((c, s), g) = Some (r, ((c', s'), g')) \<Longrightarrow> R s s' \<and> keeps b c c'"
  unfolding good_body_def by blast

lemma good_runD: "good_run b R rn \<Longrightarrow> quiet b h \<Longrightarrow> rn p (h, s) = Some (r, (h', s')) \<Longrightarrow> R s s' \<and> keeps b h h'"
  unfolding good_run_def by blast

section \<open>The effects of an execution\<close>

locale frame_effects =
  fixes cfg :: "('acc, 'w) evm_cfg" and eng :: "('acc, 'w, 'g) engine"
    and static :: bool and R :: "('acc, 'w) evm_state \<Rightarrow> ('acc, 'w) evm_state \<Rightarrow> bool"
  assumes R_refl: "R s s"
    and R_trans: "R s t \<Longrightarrow> R t u \<Longrightarrow> R s u"
    and R_event: "R s (evm_deposit_event e s)"
    and R_precompile: "R s (snd (precompiles eng a input g c s))"
    and R_storage: "\<not> static \<Longrightarrow> R s (s\<lparr>AccountStorages := (AccountStorages s)(slot := word)\<rparr>)"
    and R_nonce: "\<not> static \<Longrightarrow> R s (inc_nonce a s)"
    and R_remove: "\<not> static \<Longrightarrow> R s (snd (remove_account a s))"
    and R_queue: "\<not> static \<Longrightarrow> R s (queue_event e s)"
    and R_init: "\<not> static \<Longrightarrow> R s (snd (on_contract_initialization cfg a m code gu su s))"
    and R_transfer: "\<not> static \<Longrightarrow> R s (snd (ev_transfer cfg x y v er s))"
    and R_transfer_all: "\<not> static \<Longrightarrow> R s (snd (ev_transfer_all cfg x y s))"
    and R_reserve: "\<not> static \<Longrightarrow> R s (snd (cur_reserve (ev_currency cfg) x v s))"
    and R_unreserve: "\<not> static \<Longrightarrow> R s (snd (cur_unreserve (ev_currency cfg) x v s))"
    and R_repatriate: "\<not> static \<Longrightarrow> R s (snd (ev_repatriate_reserved cfg x y v st s))"
begin

lemma bind_R:
  assumes "\<And>s. R s (snd (f s))" and "\<And>x s. R s (snd (k x s))"
  shows "R s (snd (bind_op f k s))"
  using assms R_trans by (auto simp: bind_op_def split: prod.splits sum.splits) (metis snd_conv)+

lemma ok_R: "R s (snd (ok x s))"
  by (simp add: ok_def R_refl)

lemma impl_charge_R:
  assumes "\<not> static \<or> used = refunded"
  shows "R s (snd (impl_charge_storage cfg orig a used refunded s))"
proof (cases "used = refunded")
  case True
  then show ?thesis by (simp add: impl_charge_storage_def ok_def R_refl)
next
  case False
  with assms have ns: "\<not> static" by simp
  have via: "R s (snd (bind_op f k (snd (cur_unreserve (ev_currency cfg) x v s))))"
    if "\<And>s. R s (snd (f s))" "\<And>y s. R s (snd (k y s))" for f k x v
    by (rule R_trans [OF R_unreserve [OF ns] bind_R [OF that]])
  show ?thesis
    using False ns by (auto simp: impl_charge_storage_def Let_def intro!: via bind_R R_transfer R_reserve R_repatriate ok_R)
qed

lemma chain_charge_R:
  assumes "\<not> static \<or> used = refunded"
    and "chain_charge_storage (storage_meter_handler_impl cfg orig) a used refunded (ms, s) = (r, (ms', t))"
  shows "R s t"
  using assms(2)
proof (induction ms arbitrary: r ms' t)
  case Nil
  then show ?case
    using impl_charge_R [OF assms(1), of s orig a]
    by (auto simp: storage_meter_handler_impl_def split: prod.splits)
next
  case (Cons m ms)
  then show ?case by (auto simp: Let_def R_refl split: prod.splits sum.splits)
qed

lemma chain_unreserve_R:
  assumes "\<not> static \<or> ms \<noteq> []"
    and "chain_unreserve_storage (storage_meter_handler_impl cfg orig) n used refunded (ms, s) = (r, (ms', t))"
  shows "R s t"
proof (cases ms)
  case Nil
  have "R s (snd (impl_unreserve_storage cfg orig n used refunded s))"
    using assms(1) Nil by (auto simp: impl_unreserve_storage_def Let_def ok_def R_refl R_unreserve)
  with Nil assms(2) show ?thesis by (auto simp: storage_meter_handler_impl_def split: prod.splits)
next
  case (Cons m ms)
  with assms(2) show ?thesis by (simp add: R_refl)
qed

lemma finish_R:
  assumes "static \<longrightarrow> ms \<noteq> [] \<and> self_used m = self_refunded m"
    and "finish (storage_meter_handler_impl cfg orig) m (ms, s) = (r, (ms', t))"
  shows "R s t"
proof -
  have c: "\<not> static \<or> self_used m = self_refunded m" using assms(1) by blast
  have u: "\<not> static \<or> ms1 \<noteq> []"
    if "chain_charge_storage (storage_meter_handler_impl cfg orig) (meter_contract m) (self_used m) (self_refunded m) (ms, s) = (q, (ms1, s1))"
    for q ms1 s1 using chain_charge_selfs [OF that] assms(1) by auto
  show ?thesis
  proof (cases r)
    case (Inl e)
    with assms(2) show ?thesis
      by (auto simp: finish_def op_simps R_refl split: sum.splits if_splits
        dest: chain_charge_R [OF c] intro: R_trans [OF chain_charge_R [OF c] chain_unreserve_R [OF u]])
  next
    case (Inr x)
    with assms(2) show ?thesis
      by (auto simp: finish_def op_simps split: sum.splits if_splits
        intro: R_trans [OF chain_charge_R [OF c] chain_unreserve_R [OF u]])
  qed
qed

lemma good_in_storage:
  assumes "\<And>s. R s (snd (f s))"
  shows "good_op static R (in_storage f)"
proof -
  have "R s s'" if "f s = (r, s')" for s r s'
    using assms [of s] that by simp
  then show ?thesis by (auto simp: good_op_def in_storage_def split: prod.splits)
qed

lemma good_caller_gas: "good_op static R (in_caller_gas f)"
  by (auto simp: good_op_def in_caller_gas_def R_refl split: prod.splits)

lemma good_on_gas: "good_op static R (in_frame (on_gas f))"
  by (auto simp: good_op_def in_frame_def on_gas_def R_refl split: prod.splits)

lemma good_on_meter:
  assumes "\<not> static"
  shows "good_op static R (in_frame (on_meter f))"
  using assms by (auto simp: good_op_def in_frame_def on_meter_def R_refl keeps_def split: prod.splits sum.splits)

lemma good_commit: "good_body static R (\<lambda>y. Some (r, y))"
  by (auto simp: good_body_def R_refl)

lemma good_try:
  assumes "good_op static R f" and "\<And>x. good_body static R (k x)"
  shows "good_body static R (try_or_rollback f err k)"
  unfolding good_body_def
proof (intro allI impI)
  fix c s g r c' s' g'
  assume q: "quiet static c" and res: "try_or_rollback f err k ((c, s), g) = Some (r, ((c', s'), g'))"
  obtain x c1 s1 g1 where f: "f ((c, s), g) = (x, ((c1, s1), g1))" by (metis surj_pair)
  have 1: "R s s1" "keeps static c c1" using good_opD [OF assms(1) q f] by simp_all
  show "R s s' \<and> keeps static c c'"
  proof (cases x)
    case (Inl e)
    with f res 1 show ?thesis by (simp add: try_or_rollback_def)
  next
    case (Inr y)
    with f res have "k y ((c1, s1), g1) = Some (r, ((c', s'), g'))" by (simp add: try_or_rollback_def)
    note k = good_bodyD [OF assms(2) keeps_quiet [OF 1(2) q] this]
    with 1 show ?thesis using R_trans keeps_trans by blast
  qed
qed

lemma good_return_gas:
  assumes "good_body static R k"
  shows "good_body static R (return_gas eng err k)"
proof -
  have "good_body static R (try_or_rollback (in_caller_gas f) err (\<lambda>_. try_or_rollback (in_caller_gas g) err (\<lambda>_. k)))" for f g
    by (intro good_try good_caller_gas assms)
  then show ?thesis unfolding good_body_def return_gas_def Let_def by blast
qed

lemma good_execute:
  assumes "good_run static R rn" and "quiet static h" and "handler_execute eng rn caller a v code input (h, s) = Some (r, (h', s'))"
  shows "R s s' \<and> keeps static h h'"
  using assms(3) by (auto simp: handler_execute_def Let_def split: option.splits prod.splits exit_reason.splits
    dest!: good_runD [OF assms(1,2)])

lemma handler_transfer_R: "\<not> static \<Longrightarrow> R s (snd (handler_transfer cfg t s))"
  using R_transfer by (auto simp: handler_transfer_def Let_def split: prod.splits sum.splits) (metis snd_conv)+

lemma good_call_body:
  assumes "good_run static R rn" and "static \<longrightarrow> transfer = None"
  shows "good_body static R (call_body cfg eng rn code_address transfer input target_gas ctx code)"
proof -
  let ?err = "\<lambda>e. (Error e, [])"
  have 1: "good_op static R (in_storage (case transfer of Some t \<Rightarrow> handler_transfer cfg t | None \<Rightarrow> ok ()))"
    using assms(2) by (intro good_in_storage) (auto split: option.splits intro: ok_R handler_transfer_R)
  define rest where "rest = (\<lambda>x :: ('acc, 'w, 'g) frame \<times> 'g. case x of ((c, s), g) \<Rightarrow>
         case precompiles eng code_address input (Some target_gas) ctx s of
           (Some (Inr (r, out, cost)), s1) \<Rightarrow>
             try_or_rollback (in_frame (on_gas (record_cost (gas eng) cost))) ?err (\<lambda>_.
             return_gas eng ?err (\<lambda>y. Some (Commit (Succeed r, out), y))) ((c, s1), g)
         | (Some (Inl e), s1) \<Rightarrow> Some (Rollback (?err e), ((c, s1), g))
         | (None, s1) \<Rightarrow>
             (case handler_execute eng rn (c_caller ctx) (c_address ctx) (apparent_value ctx) code input (c, s1) of
                None \<Rightarrow> None
              | Some ((Succeed r, out), c') \<Rightarrow> return_gas eng ?err (\<lambda>y. Some (Commit (Succeed r, out), y)) (c', g)
              | Some ((Revert, out), c') \<Rightarrow> Some (Rollback (Revert, out), (c', g))
              | Some ((Error e, out), c') \<Rightarrow> Some (Rollback (?err e), (c', g))
              | Some ((Fatal e, out), c') \<Rightarrow> Some (Rollback (Fatal e, []), (c', gas_fail (gas eng) g))))"
  have "good_body static R rest"
    unfolding good_body_def
  proof (intro allI impI)
    fix c s g r c' s' g'
    assume q: "quiet static c" and res: "rest ((c, s), g) = Some (r, ((c', s'), g'))"
    obtain p s1 where p: "precompiles eng code_address input (Some target_gas) ctx s = (p, s1)" by fastforce
    have R1: "R s s1" using R_precompile [of s code_address input "Some target_gas" ctx] p by simp
    have ret: "R t s' \<and> keeps static d c'" if "return_gas eng ?err (\<lambda>y. Some (o', y)) ((d, t), g) = Some (r, ((c', s'), g'))"
      "quiet static d" for o' d t
      by (rule good_bodyD [OF good_return_gas [OF good_commit] that(2,1)])
    have pre: "R t s' \<and> keeps static d c'"
      if "try_or_rollback (in_frame (on_gas f)) ?err (\<lambda>_. return_gas eng ?err (\<lambda>y. Some (o', y))) ((d, t), g) = Some (r, ((c', s'), g'))"
        "quiet static d" for f o' d t
      by (rule good_bodyD [OF good_try [OF good_on_gas good_return_gas [OF good_commit]] that(2,1)])
    consider (none) "p = None" | (err) e where "p = Some (Inl e)" | (succ) a b k where "p = Some (Inr (a, b, k))"
      by (metis option.exhaust prod.exhaust sum.exhaust)
    then have "R s1 s' \<and> keeps static c c'"
    proof cases
      case none
      with res p obtain x d t where x: "handler_execute eng rn (c_caller ctx) (c_address ctx) (apparent_value ctx) code input (c, s1)
          = Some (x, (d, t))"
        by (auto simp: rest_def split: option.splits)
      note ex = good_execute [OF assms(1) q x]
      obtain reason out where "x = (reason, out)" by fastforce
      with none res p x have "R t s' \<and> keeps static d c'"
        using ret keeps_quiet [OF conjunct2 [OF ex] q]
        by (cases reason) (auto simp: rest_def R_refl)
      with ex show ?thesis using R_trans keeps_trans by blast
    next
      case err
      with res p show ?thesis by (auto simp: rest_def R_refl)
    next
      case succ
      with res p have "try_or_rollback (in_frame (on_gas (record_cost (gas eng) k))) ?err
          (\<lambda>_. return_gas eng ?err (\<lambda>y. Some (Commit (Succeed a, b), y))) ((c, s1), g) = Some (r, ((c', s'), g'))"
        by (simp add: rest_def)
      then show ?thesis by (rule pre [OF _ q])
    qed
    with R1 show "R s s' \<and> keeps static c c'" using R_trans by blast
  qed
  then show ?thesis
    unfolding call_body_def Let_def rest_def by (intro good_try 1 good_caller_gas)
qed

lemma good_create_body:
  assumes "good_run static R rn" and "\<not> static"
  shows "good_body static R (create_body cfg eng rn orig caller a v init_code)"
proof -
  let ?err = "\<lambda>e. (Error e, None :: evm_address option, [] :: bytes)"
  have nonce: "good_op static R (in_storage (modify_op (inc_nonce a)))"
    by (rule good_in_storage) (simp add: modify_op_def R_nonce [OF assms(2)])
  have init: "good_op static R (in_storage (on_contract_initialization cfg a orig out gu su))" for out gu su
    by (rule good_in_storage) (rule R_init [OF assms(2)])
  define tail where "tail = (\<lambda>out r. try_or_rollback (in_frame (on_gas (record_deposit (gas eng) (length out)))) ?err (\<lambda>_ y.
             let gas_used = gas_of (gas eng) (gasometer (fst (fst y)));
                 storage_used = saturating_add (of_nat (length out)) (NewContractExtraBytes (constants cfg))
             in return_gas eng ?err (
                try_or_rollback (in_storage (modify_op (inc_nonce a))) ?err (\<lambda>_.
                try_or_rollback (in_frame (on_meter (meter_charge storage_used))) ?err (\<lambda>_.
                try_or_rollback (in_storage (on_contract_initialization cfg a orig out gas_used storage_used)) ?err (\<lambda>_ z.
                Some (Commit (Succeed r, Some a, []), z))))) y))"
  have inner: "good_body static R (return_gas eng ?err (
                try_or_rollback (in_storage (modify_op (inc_nonce a))) ?err (\<lambda>_.
                try_or_rollback (in_frame (on_meter (meter_charge su))) ?err (\<lambda>_.
                try_or_rollback (in_storage (on_contract_initialization cfg a orig out gu su)) ?err (\<lambda>_ z.
                Some (Commit (Succeed r, Some a, []), z))))))" for out r gu su
    by (intro good_return_gas good_try nonce good_on_meter init good_commit assms(2))
  have tail: "good_body static R (tail out r)" for out r
    unfolding tail_def Let_def
    by (rule good_try [OF good_on_gas]) (use inner in \<open>unfold good_body_def, blast\<close>)
  define rest where "rest = (\<lambda>x :: ('acc, 'w, 'g) frame \<times> 'g.
         case handler_execute eng rn caller a v init_code [] (fst x) of
           None \<Rightarrow> None
         | Some ((Succeed r, out), c) \<Rightarrow> tail out r (c, snd x)
         | Some ((Revert, out), c) \<Rightarrow> Some (Rollback (Revert, None, out), (c, snd x))
         | Some ((Error e, out), c) \<Rightarrow> Some (Rollback (?err e), (c, snd x))
         | Some ((Fatal e, out), c) \<Rightarrow> Some (Rollback (Fatal e, None, []), (c, gas_fail (gas eng) (snd x))))"
  have "good_body static R rest"
    unfolding good_body_def
  proof (intro allI impI)
    fix c s g r c' s' g'
    assume q: "quiet static c" and res: "rest ((c, s), g) = Some (r, ((c', s'), g'))"
    from res obtain reason out d t where x: "handler_execute eng rn caller a v init_code [] (c, s) = Some ((reason, out), (d, t))"
      by (auto simp: rest_def split: option.splits)
    note ex = good_execute [OF assms(1) q x]
    have "R t s' \<and> keeps static d c'"
    proof (cases reason)
      case (Succeed r')
      with res x have "tail out r' ((d, t), g) = Some (r, ((c', s'), g'))" by (simp add: rest_def)
      then show ?thesis by (rule good_bodyD [OF tail keeps_quiet [OF conjunct2 [OF ex] q]])
    qed (use res x in \<open>auto simp: rest_def R_refl\<close>)
    with ex show "R s s' \<and> keeps static c c'" using R_trans keeps_trans by blast
  qed
  then show ?thesis
    unfolding create_body_def Let_def rest_def tail_def
    by (intro good_try good_in_storage handler_transfer_R assms(2))
qed

lemma run_sub_R:
  assumes "good_body static R f" and "static \<longrightarrow> st"
    and "run_sub_transaction cfg eng gl a st f (h, s) = Some (r, (h', s'))"
  shows "R s s' \<and> keeps static h h'"
proof (cases "length (ancestors h) < sub_layers eng")
  case False
  with assms(3) show ?thesis by (simp add: run_sub_transaction_def R_refl)
next
  case True
  let ?mh = "storage_meter_handler_impl cfg (v_origin (h_vicinity h))"
  obtain x ms s1 where ch: "child_meter ?mh (storage_meter_of h) a (ancestors h) s = (x, (ms, s1))" by (metis surj_pair)
  show ?thesis
  proof (cases x)
    case (Inl e)
    with True ch assms(3) child_meter_Inl [of ?mh "storage_meter_of h" a "ancestors h" s e ms s1] show ?thesis
      by (auto simp: run_sub_transaction_def R_refl intro: with_chain_keeps)
  next
    case (Inr m)
    note ch = ch [unfolded Inr] and m = child_meter_Inr [OF ch [unfolded Inr]]
    let ?c = "\<lparr>h_vicinity = h_vicinity h, h_config = h_config h, gasometer = gas_new (gas eng) gl (h_config h),
                storage_meter_of = m, ancestors = ms, is_static = st\<rparr>"
    have q: "quiet static ?c" using assms(2) m by (simp add: quiet_def)
    from True ch assms(3) obtain out c' s2 g where f: "f ((?c, s1), gasometer h) = Some (out, (c', s2), g)"
      by (auto simp: run_sub_transaction_def Let_def split: option.splits)
    note eff = good_bodyD [OF assms(1) q f]
    then have sel: "map selfs (ancestors c') = map selfs (storage_meter_of h # ancestors h)"
      using m(1) by (simp add: keeps_def)
    show ?thesis
    proof (cases out)
      case (Rollback y)
      with True ch f assms(3) sel show ?thesis
        by (auto simp: run_sub_transaction_def Let_def R_refl intro: with_chain_gas_keeps)
    next
      case (Commit y)
      obtain z ms' s3 where fin: "finish ?mh (storage_meter_of c') (ancestors c', s2) = (z, (ms', s3))" by (metis surj_pair)
      have "static \<longrightarrow> ancestors c' \<noteq> [] \<and> self_used (storage_meter_of c') = self_refunded (storage_meter_of c')"
        using keeps_quiet [OF conjunct2 [OF eff] q] sel by (auto simp: quiet_def)
      note finR = finish_R [OF this fin]
      have sel': "map selfs ms' = map selfs (storage_meter_of h # ancestors h)" using finish_selfs [OF fin] sel by simp
      show ?thesis
        using True ch f fin Commit assms(3) with_chain_gas_keeps [OF sel'] R_trans [OF conjunct1 [OF eff] finR] m(2)
        by (cases z) (auto simp: run_sub_transaction_def Let_def R_refl)
    qed
  qed
qed

lemma good_call:
  assumes "good_run static R rn" and "static \<longrightarrow> is_static h \<or> st \<and> transfer = None"
    and "handler_call cfg eng rn ca transfer input target st ctx (h, s) = Some (r, (h', s'))"
  shows "R s s' \<and> keeps static h h'"
proof (cases "is_static h \<and> transfer \<noteq> None")
  case True
  with assms(3) show ?thesis by (simp add: handler_call_def R_refl)
next
  case False
  with assms(2) have t: "static \<longrightarrow> transfer = None" "static \<longrightarrow> is_static h \<or> st" by auto
  define tg where "tg = (case transfer of
      Some t \<Rightarrow> if t_value t \<noteq> 0 then saturating_add (call_target_gas eng h target) (call_stipend (h_config h)) else call_target_gas eng h target
    | None \<Rightarrow> call_target_gas eng h target)"
  define sub where "sub = run_sub_transaction cfg eng tg (c_address ctx) (is_static h \<or> st)
      (call_body cfg eng rn ca transfer input tg ctx (code_at_address cfg s ca)) (h, s)"
  have "(case sub of None \<Rightarrow> None | Some (Inr r, y) \<Rightarrow> Some (r, y)
       | Some (Inl e, y) \<Rightarrow> Some ((Error (OtherExit (error_str eng e)), []), y)) = Some (r, (h', s'))"
    using assms(3) unfolding handler_call_def prod.case if_not_P [OF False] Let_def sub_def tg_def .
  then obtain x where "sub = Some (x, (h', s'))" by (auto split: option.splits prod.splits sum.splits)
  then show ?thesis
    unfolding sub_def by (rule run_sub_R [OF good_call_body [OF assms(1) t(1)] t(2)])
qed

lemma good_create:
  assumes "good_run static R rn" and "quiet static h"
    and "handler_create cfg eng rn caller scheme v init target (h, s) = Some (r, (h', s'))"
  shows "R s s' \<and> keeps static h h'"
proof (cases "is_static h")
  case True
  with assms(3) show ?thesis by (simp add: handler_create_def R_refl)
next
  case False
  with assms(2) have ns: "\<not> static" by (auto simp: quiet_def)
  obtain x g where g: "record_cost (gas eng) (call_target_gas eng h target) (gasometer h) = (x, g)" by fastforce
  let ?h = "h\<lparr>gasometer := g\<rparr>"
  consider (out) "h' = ?h" "s' = s"
    | (sub) a y where "run_sub_transaction cfg eng (call_target_gas eng h target) a (is_static ?h)
        (create_body cfg eng rn (v_origin (h_vicinity ?h)) caller a v init) (?h, inc_nonce caller s) = Some (y, (h', s'))"
    using assms(3) False g
    by (auto simp: handler_create_def on_gas_def Let_def split: option.splits prod.splits sum.splits)
  then show ?thesis
  proof cases
    case out
    then show ?thesis by (simp add: R_refl)
  next
    case sub
    have eff: "R (inc_nonce caller s) s' \<and> keeps static ?h h'"
      using ns by (intro run_sub_R [OF good_create_body [OF assms(1) ns] _ sub]) simp
    then show ?thesis using R_trans [OF R_nonce [OF ns, of s caller]] by (simp add: keeps_def)
  qed
qed

lemma good_then_run:
  assumes "good_run static R rn" and "quiet static h" and "\<And>r h' s'. op (h, s) = (r, (h', s')) \<Longrightarrow> R s s' \<and> keeps static h h'"
    and "then_run rn k (op (h, s)) = Some (r, (h', s'))"
  shows "R s s' \<and> keeps static h h'"
proof -
  obtain x h1 s1 where op: "op (h, s) = (x, (h1, s1))" by (metis surj_pair)
  note 1 = assms(3) [OF op]
  from assms(4) op have "rn (k (A_Result x)) (h1, s1) = Some (r, (h', s'))" by (simp add: then_run_def)
  from good_runD [OF assms(1) keeps_quiet [OF conjunct2 [OF 1] assms(2)] this] 1 show ?thesis
    using R_trans keeps_trans by blast
qed

lemma on_gas_eff: "on_gas f (h, s) = (r, (h', s')) \<Longrightarrow> R s s' \<and> keeps static h h'"
  by (auto simp: on_gas_def R_refl split: prod.splits)

lemma on_meter_eff: "\<not> static \<Longrightarrow> on_meter f (h, s) = (r, (h', s')) \<Longrightarrow> R s s' \<and> keeps static h h'"
  by (auto simp: on_meter_def R_refl keeps_def split: prod.splits sum.splits)

lemma set_storage_eff:
  assumes "quiet static h" and "set_storage a k v (h, s) = (r, (h', s'))"
  shows "R s s' \<and> keeps static h h'"
proof (cases "is_static h")
  case True
  with assms(2) show ?thesis by (simp add: set_storage_def R_refl)
next
  case False
  with assms(1) have ns: "\<not> static" by (auto simp: quiet_def)
  let ?s1 = "s\<lparr>AccountStorages := (AccountStorages s)((a, k) := (if v = default_h256 then None else Some v))\<rparr>"
  have "R ?s1 s' \<and> keeps static h h'"
  proof (cases "storage_change_of (account_storages s a k) v")
    case NoChange
    with False assms(2) show ?thesis by (simp add: set_storage_def Let_def R_refl)
  next
    case Added
    with False assms(2) have "on_meter (meter_charge STORAGE_SIZE) (h, ?s1) = (r, (h', s'))" by (simp add: set_storage_def Let_def)
    then show ?thesis by (rule on_meter_eff [OF ns])
  next
    case Removed
    with False assms(2) have "on_meter (meter_refund STORAGE_SIZE) (h, ?s1) = (r, (h', s'))" by (simp add: set_storage_def Let_def)
    then show ?thesis by (rule on_meter_eff [OF ns])
  qed
  then show ?thesis using R_trans [OF R_storage [OF ns]] by blast
qed

lemma mark_delete_eff:
  assumes "quiet static h" and "mark_delete cfg a target (h, s) = (r, (h', s'))"
  shows "R s s' \<and> keeps static h h'"
proof (cases "is_static h")
  case True
  with assms(2) show ?thesis by (simp add: mark_delete_def R_refl)
next
  case False
  with assms(1) have ns: "\<not> static" by (auto simp: quiet_def)
  let ?s1 = "snd (remove_account a s)"
  obtain x s2 where t: "ev_transfer_all cfg (am_account_id (ev_mapping cfg) s a) (am_account_id (ev_mapping cfg) s target) ?s1 = (x, s2)"
    by fastforce
  have "R s s2"
    using R_trans [OF R_remove [OF ns, of s a] R_transfer_all [OF ns, of ?s1]] t by (metis snd_conv)
  moreover have "h' = h" "R s2 s'"
    using False assms(2) t R_queue [OF ns] by (auto simp: mark_delete_def Let_def R_refl split: sum.splits)
  ultimately show ?thesis using R_trans by auto
qed

lemma pre_validate_eff: "pre_validate eng c opc stack (h, s) = (r, (h', s')) \<Longrightarrow> R s s' \<and> keeps static h h'"
  by (auto simp: pre_validate_def on_gas_def R_refl split: option.splits prod.splits)

lemma log_eff: "handler_log a topics data (h, s) = (r, (h', s')) \<Longrightarrow> R s s' \<and> keeps static h h'"
  by (auto simp: handler_log_def R_event)

lemma good_request:
  assumes rn: "good_run static R rn" and q: "quiet static h" and res: "run_request cfg eng rn rq k (h, s) = Some (r, (h', s'))"
  shows "R s s' \<and> keeps static h h'"
proof -
  have step: "R s s' \<and> keeps static h h'"
    if "R s s1 \<and> keeps static h h1" "rn p (h1, s1) = Some (r, (h', s'))" for p h1 s1
    using good_runD [OF rn keeps_quiet [OF conjunct2 [OF that(1)] q] that(2)] that(1) R_trans keeps_trans by blast
  show ?thesis
  proof (cases rq)
    case (R_create caller scheme v init target)
    with res obtain x h1 s1 p where "handler_create cfg eng rn caller scheme v init target (h, s) = Some (x, (h1, s1))"
      "rn p (h1, s1) = Some (r, (h', s'))"
      by (auto simp: run_request_def split: option.splits)
    then show ?thesis using step [OF good_create [OF rn q]] by blast
  next
    case (R_call ca transfer input target st ctx)
    with res obtain x h1 s1 p where "handler_call cfg eng rn ca transfer input target st ctx (h, s) = Some (x, (h1, s1))"
      "rn p (h1, s1) = Some (r, (h', s'))"
      by (auto simp: run_request_def split: option.splits)
    then show ?thesis using step good_call [OF rn] q unfolding quiet_def by blast
  next
    case (R_set_storage a i v)
    with res have "then_run rn k (set_storage a i v (h, s)) = Some (r, (h', s'))" by (simp add: run_request_def)
    then show ?thesis by (elim good_then_run [where op = "set_storage a i v", OF rn q, rotated]) (rule set_storage_eff [OF q])
  next
    case (R_mark_delete a target)
    with res have "then_run rn k (mark_delete cfg a target (h, s)) = Some (r, (h', s'))" by (simp add: run_request_def)
    then show ?thesis by (elim good_then_run [where op = "mark_delete cfg a target", OF rn q, rotated]) (rule mark_delete_eff [OF q])
  next
    case (R_pre_validate c opc stack)
    with res have "then_run rn k (pre_validate eng c opc stack (h, s)) = Some (r, (h', s'))" by (simp add: run_request_def)
    then show ?thesis by (elim good_then_run [where op = "pre_validate eng c opc stack", OF rn q, rotated]) (rule pre_validate_eff)
  next
    case (R_log a topics data)
    with res have "then_run rn k (handler_log a topics data (h, s)) = Some (r, (h', s'))" by (simp add: run_request_def)
    then show ?thesis by (elim good_then_run [where op = "handler_log a topics data", OF rn q, rotated]) (rule log_eff)
  qed (use res in \<open>auto simp: run_request_def dest!: good_runD [OF rn q]\<close>)
qed

lemma run_good: "good_run static R (run cfg eng n)"
proof (induction n)
  case 0
  then show ?case by (simp add: good_run_def)
next
  case (Suc n)
  show ?case
    unfolding good_run_def
  proof (intro allI impI)
    fix p h s r h' s'
    assume q: "quiet static h" and res: "run cfg eng (Suc n) p (h, s) = Some (r, (h', s'))"
    show "R s s' \<and> keeps static h h'"
    proof (cases p)
      case (Exit x y)
      with res show ?thesis by (simp add: R_refl)
    next
      case (Request rq k)
      with res have "run_request cfg eng (run cfg eng n) rq k (h, s) = Some (r, (h', s'))" by simp
      then show ?thesis by (rule good_request [OF Suc q])
    qed
  qed
qed

lemma transaction_R:
  assumes "\<not> static" and "\<And>h s r h' s'. f (h, s) = Some (r, (h', s')) \<Longrightarrow> R s s'"
    and "run_transaction cfg eng vic gl sl a st config f s = Some (r, t)"
  shows "R s t"
proof -
  let ?mh = "storage_meter_handler_impl cfg (v_origin vic)"
  obtain x ms s1 where new: "meter_new ?mh a sl ([], s) = (x, (ms, s1))" by (metis surj_pair)
  have "R s s1"
    using new assms(1) R_reserve R_refl
    by (cases x) (auto simp: meter_new_def op_simps storage_meter_handler_impl_def impl_reserve_storage_def Let_def ok_def
      split: prod.splits if_splits; metis snd_conv)+
  moreover have "R s t" if "x = Inr m" "R s s1" for m
  proof -
    have fin: "R s2 s3" if "finish ?mh m' ([], s2) = (z, (ms', s3))" for m' s2 z ms' s3
      using finish_R [OF _ that] assms(1) by blast
    show ?thesis
      using assms(3) new that R_refl
      by (auto simp: run_transaction_def Let_def split: option.splits prod.splits outcome.splits sum.splits
        intro: R_trans [OF R_trans [OF that(2) assms(2)] fin])
  qed
  ultimately show ?thesis
    using assms(3) new R_refl by (cases x) (auto simp: run_transaction_def Let_def)
qed

lemma runner_transfer_R: "\<not> static \<Longrightarrow> R s (snd (runner_transfer cfg src trg v s))"
  by (simp add: runner_transfer_def R_refl R_transfer)

lemma execute_R:
  assumes "\<not> static" and "handler_execute eng (run cfg eng n) caller a v code input (h, s) = Some (r, (h', s'))"
  shows "R s s'"
  using good_execute [OF run_good _ assms(2)] assms(1) by (simp add: quiet_def)

lemma runner_call_body_R:
  assumes ns: "\<not> static" and "runner_call_body cfg eng n snder target input v (h, s) = Some (r, (h', s'))"
  shows "R s s'"
proof -
  obtain x s1 where t: "runner_transfer cfg snder target v s = (x, s1)" by fastforce
  then have 1: "R s s1" using runner_transfer_R [OF ns, of s snder target v] by simp
  have "R s1 s'"
    using assms(2) t execute_R [OF ns] R_refl
    by (auto simp: runner_call_body_def on_gas_def Let_def split: prod.splits sum.splits option.splits)
  with 1 show ?thesis using R_trans by blast
qed

lemma flatten_Some: "flatten x = Some (r, t) \<Longrightarrow> \<exists>q. x = Some (q, t)"
  by (auto simp: flatten_def split: option.splits prod.splits sum.splits)

lemma runner_call_R:
  assumes ns: "\<not> static" and "runner_call cfg eng n snder orig target input v gl sl config s = Some (r, t)"
  shows "R s t"
proof (cases "is_undeployed_contract s target \<and> \<not> has_permission_to_call s snder")
  case True
  with assms(2) show ?thesis by (simp add: runner_call_def R_refl)
next
  case False
  with assms(2) obtain q where "run_transaction cfg eng (default_vicinity orig) gl sl target False config
      (runner_call_body cfg eng n snder target input v) (inc_nonce snder s) = Some (q, t)"
    by (auto simp: runner_call_def dest: flatten_Some)
  then have "R (inc_nonce snder s) t" by (rule transaction_R [OF ns, rotated]) (rule runner_call_body_R [OF ns])
  then show ?thesis using R_trans [OF R_nonce [OF ns]] by blast
qed

lemma settle_create_R:
  assumes ns: "\<not> static" and res: "settle_create cfg eng src a info out (h, s) = (r, (h', s'))"
  shows "R s s'"
proof -
  let ?bytes = "saturating_add (of_nat (length out)) (NewContractExtraBytes (constants cfg))"
  have nonce: "R s (inc_nonce a s)" by (rule R_nonce [OF ns])
  have init: "R (inc_nonce a s) w" if "on_contract_initialization cfg a src out gu su (inc_nonce a s) = (z, w)" for gu su z w
    using R_init [OF ns, of "inc_nonce a s" a src out gu su] that by simp
  obtain x g where 1: "record_deposit (gas eng) (length out) (gasometer h) = (x, g)" by fastforce
  obtain y m where 2: "meter_charge ?bytes (storage_meter_of h) = (y, m)" by fastforce
  show ?thesis
  proof (cases x)
    case (Inl e)
    with res 1 show ?thesis by (simp add: settle_create_def on_gas_def R_refl)
  next
    case Inr
    note x = this
    show ?thesis
    proof (cases y)
      case (Inl e)
      with res 1 2 x nonce show ?thesis by (simp add: settle_create_def on_gas_def on_meter_def Let_def)
    next
      case Inr
      with res 1 2 x have "\<exists>gu su z. on_contract_initialization cfg a src out gu su (inc_nonce a s) = (z, s')"
        by (auto simp: settle_create_def on_gas_def on_meter_def Let_def split: prod.splits sum.splits)
      then show ?thesis using init R_trans [OF nonce] by blast
    qed
  qed
qed

lemma inner_create_body_R:
  assumes ns: "\<not> static" and res: "inner_create_body cfg eng n src a init v (h, s) = Some (r, (h', s'))"
  shows "R s s'"
proof -
  obtain x s1 where t: "runner_transfer cfg src a v s = (x, s1)" by fastforce
  then have 1: "R s s1" using runner_transfer_R [OF ns, of s src a v] by simp
  obtain y g where g: "record_call_transaction (gas eng) init (gasometer h) = (y, g)" by fastforce
  have "R s1 s'"
  proof (cases "handler_execute eng (run cfg eng n) src a (ucast v) init [] (h\<lparr>gasometer := g\<rparr>, s1)")
    case None
    with res t g show ?thesis
      by (auto simp: inner_create_body_def on_gas_def R_refl split: sum.splits)
  next
    case (Some q)
    then obtain reason out h1 s2 where q: "q = ((reason, out), (h1, s2))" by (metis surj_pair)
    have 2: "R s1 s2" using Some unfolding q by (rule execute_R [OF ns])
    from res t g Some q have "s' = s1 \<or> s' = s2 \<or> (\<exists>info o'. settle_create cfg eng src a info out (h1, s2) = (o', (h', s')))"
      by (auto simp: inner_create_body_def on_gas_def Let_def split: sum.splits if_splits)
    then show ?thesis using 2 R_refl R_trans [OF 2] settle_create_R [OF ns] by blast
  qed
  with 1 show ?thesis using R_trans by blast
qed

lemma inner_create_R:
  assumes ns: "\<not> static" and "inner_create cfg eng n src init v gl sl assigned salt config s = Some (r, t)"
  shows "R s t"
proof -
  consider "t = s" | a q where "run_transaction cfg eng (default_vicinity src) gl sl a False config
      (inner_create_body cfg eng n src a init v) (inc_nonce src s) = Some (q, t)"
    using assms(2) by (auto simp: inner_create_def Let_def split: option.splits sum.splits dest: flatten_Some)
  then show ?thesis
  proof cases
    case 1
    then show ?thesis by (simp add: R_refl)
  next
    case 2
    then have "R (inc_nonce src s) t" by (rule transaction_R [OF ns, rotated]) (rule inner_create_body_R [OF ns])
    then show ?thesis using R_trans [OF R_nonce [OF ns]] by blast
  qed
qed

end

end
