(* ===== verification/Evm_Steps.thy ===== *)
theory Evm_Steps
  imports Evm_Effects
begin

text \<open>
  The steps of the chain as the EVM pallet sees them (\<open>evm_step\<close>), and what the other pallets can do to its
  storage (\<open>outside\<close>). The locale \<open>pallet_effects\<close> extends \<open>frame_effects\<close> by the elementary effects of the
  calls that do not execute code and shows that every step stays inside the relation.
\<close>

section \<open>The other pallets\<close>

text \<open>
  What the other pallets can do to the storage of the EVM pallet: nothing, except that the framework
  reports the death of an account, and that the state rent precompile transfers a maintainer.
\<close>

inductive outside :: "('acc, 'w) evm_cfg \<Rightarrow> ('acc, 'w) evm_state \<Rightarrow> ('acc, 'w) evm_state \<Rightarrow> bool" for cfg where
  outside_world: "outside cfg s (s\<lparr>evm_world := w\<rparr>)"
| outside_death: "outside cfg s (evm_on_killed_account cfg who s)"
| outside_rent: "outside cfg s (snd (do_transfer_maintainer cfg who a m s))"

definition pallets_within ::
  "('acc, 'w) evm_cfg \<Rightarrow> ('acc, 'w, 'g) engine \<Rightarrow> (('acc, 'w) evm_state \<Rightarrow> ('acc, 'w) evm_state \<Rightarrow> bool) \<Rightarrow> bool" where
  "pallets_within cfg eng K \<longleftrightarrow>
     (\<forall>x y v er s. K s (snd (ev_transfer cfg x y v er s))) \<and>
     (\<forall>x y s. K s (snd (ev_transfer_all cfg x y s))) \<and>
     (\<forall>x v s. K s (snd (cur_reserve (ev_currency cfg) x v s))) \<and>
     (\<forall>x v s. K s (snd (cur_unreserve (ev_currency cfg) x v s))) \<and>
     (\<forall>x v er s. K s (snd (withdraw_and_drop (ev_currency cfg) x v er s))) \<and>
     (\<forall>x y v st s. K s (snd (ev_repatriate_reserved cfg x y v st s))) \<and>
     (\<forall>x s. K s (snd (am_or_create (ev_mapping cfg) x s))) \<and>
     (\<forall>x w s. K s (snd (unreserve_and_charge_fee cfg x w s))) \<and>
     (\<forall>x w v s. K s (snd (refund_fee cfg x w v s))) \<and>
     (\<forall>a input g c s. K s (snd (precompiles eng a input g c s)))"

lemma pallets_withinD:
  assumes "pallets_within cfg eng K"
  shows "K s (snd (ev_transfer cfg x y v er s))" and "K s (snd (ev_transfer_all cfg x y s))"
    and "K s (snd (cur_reserve (ev_currency cfg) x v s))" and "K s (snd (cur_unreserve (ev_currency cfg) x v s))"
    and "K s (snd (withdraw_and_drop (ev_currency cfg) x v er s))"
    and "K s (snd (ev_repatriate_reserved cfg x y v st s))" and "K s (snd (am_or_create (ev_mapping cfg) x s))"
    and "K s (snd (unreserve_and_charge_fee cfg x w s))" and "K s (snd (refund_fee cfg x w v s))"
    and "K s (snd (precompiles eng a input g c s))"
  using assms unfolding pallets_within_def by simp_all

lemma pallets_within_mono:
  assumes "pallets_within cfg eng K" and "\<And>s t. K s t \<Longrightarrow> L s t"
  shows "pallets_within cfg eng L"
  unfolding pallets_within_def by (intro conjI allI assms(2) pallets_withinD [OF assms(1)])

section \<open>Calls\<close>

text \<open>Operations and calls that stay inside a preorder on the storage.\<close>

definition within :: "('s \<Rightarrow> 's \<Rightarrow> bool) \<Rightarrow> ('s, 'e, 'a) storage_op \<Rightarrow> bool" where
  "within K f \<longleftrightarrow> (\<forall>s. K s (snd (f s)))"

definition stays :: "(('acc, 'w) evm_state \<Rightarrow> ('acc, 'w) evm_state \<Rightarrow> bool) \<Rightarrow> ('acc, 'w, 'a) evm_run \<Rightarrow> bool" where
  "stays K f \<longleftrightarrow> (\<forall>s r t. f s = Some (r, t) \<longrightarrow> K s t)"

lemma within_bind:
  assumes "transp K" and "within K f" and "\<And>x. within K (k x)"
  shows "within K (bind_op f k)"
  unfolding within_def
proof
  fix s
  obtain r t where f: "f s = (r, t)" by fastforce
  have 1: "K s t" using assms(2) f unfolding within_def by (metis snd_conv)
  show "K s (snd (bind_op f k s))"
  proof (cases r)
    case (Inl e)
    with f 1 show ?thesis by (simp add: bind_op_def)
  next
    case (Inr x)
    have "K t (snd (k x t))" using assms(3) unfolding within_def by blast
    with f 1 Inr assms(1) show ?thesis by (auto simp: bind_op_def dest: transpD)
  qed
qed

lemma within_bind_read:
  assumes "transp K" and "\<And>s. within K (f s)" and "\<And>x. within K (k x)"
  shows "within K (\<lambda>s. bind_op (f s) k s)"
proof -
  have "within K (bind_op (f s) k)" for s by (rule within_bind [OF assms(1,2)]) (rule assms(3))
  then show ?thesis unfolding within_def by blast
qed

lemma within_pure: "reflp K \<Longrightarrow> within K (pure r)"
  by (simp add: within_def pure_def reflpD)

lemma within_ensure: "reflp K \<Longrightarrow> within K (ensure b e)"
  by (simp add: within_def ensure_def reflpD)

lemma within_transactional:
  assumes "reflp K" and "within K f"
  shows "within K (transactional f)"
  unfolding within_def
proof
  fix s
  obtain r t where f: "f s = (r, t)" by fastforce
  then have "K s t" using assms(2) unfolding within_def by (metis snd_conv)
  with f assms(1) show "K s (snd (transactional f s))" by (cases r) (simp_all add: transactional_def reflpD)
qed

lemma stays_lift: "within K f \<Longrightarrow> stays K (lift_op f)"
  unfolding within_def stays_def lift_op_def by (metis option.inject snd_conv)

lemma stays_transactional: "reflp K \<Longrightarrow> stays K f \<Longrightarrow> stays K (transactional_run f)"
  unfolding stays_def transactional_run_def by (auto split: option.splits sum.splits dest: reflpD)

lemma stays_bind:
  assumes "transp K" and "stays K f" and "\<And>x. stays K (k x)"
  shows "stays K (bind_run f k)"
  unfolding stays_def bind_run_def
proof (intro allI impI)
  fix s r u
  assume res: "(case f s of None \<Rightarrow> None | Some (Inl e, t) \<Rightarrow> Some (Inl e, t) | Some (Inr x, t) \<Rightarrow> k x t) = Some (r, u)"
  then obtain q t where f: "f s = Some (q, t)" by (auto split: option.splits)
  then have 1: "K s t" using assms(2) unfolding stays_def by blast
  show "K s u"
  proof (cases q)
    case (Inl e)
    with res f 1 show ?thesis by simp
  next
    case (Inr x)
    with res f have "k x t = Some (r, u)" by simp
    then have "K t u" using assms(3) unfolding stays_def by blast
    with 1 assms(1) show ?thesis by (auto dest: transpD)
  qed
qed

lemma stays_bind_read:
  assumes "transp K" and "\<And>s. stays K (f s)" and "\<And>x. stays K (k x)"
  shows "stays K (\<lambda>s. bind_run (f s) k s)"
proof -
  have "stays K (bind_run (f s) k)" for s by (rule stays_bind [OF assms(1,2)]) (rule assms(3))
  then show ?thesis unfolding stays_def by blast
qed

text \<open>
  A step of the chain, as the EVM pallet sees it: a call of the pallet, an execution for another pallet, or
  something that happens outside. The call \<open>selfdestruct\<close> is not a step: it releases code twice, which
  is a property of its own.
\<close>

inductive evm_step ::
  "('acc, 'w) evm_cfg \<Rightarrow> ('acc, 'w, 'g) engine \<Rightarrow> ('acc, 'w) evm_state \<Rightarrow> ('acc, 'w) evm_state \<Rightarrow> bool" for cfg eng where
  step_call: "evm_call_call cfg eng n orig target input v gl sl s = Some (r, t) \<Longrightarrow> evm_step cfg eng s t"
| step_scheduled: "scheduled_call_call cfg eng n orig from target input v gl sl s = Some (r, t) \<Longrightarrow> evm_step cfg eng s t"
| step_create: "evm_create_call cfg eng n orig init v gl sl s = Some (r, t) \<Longrightarrow> evm_step cfg eng s t"
| step_create2: "evm_create2_call cfg eng n orig init salt v gl sl s = Some (r, t) \<Longrightarrow> evm_step cfg eng s t"
| step_network: "create_network_contract_call cfg eng n orig init v gl sl s = Some (r, t) \<Longrightarrow> evm_step cfg eng s t"
| step_maintainer: "evm_step cfg eng s (snd (transfer_maintainer_call cfg orig a m s))"
| step_deploy: "evm_step cfg eng s (snd (deploy_call cfg orig a s))"
| step_deploy_free: "evm_step cfg eng s (snd (deploy_free_call cfg orig a s))"
| step_enable: "evm_step cfg eng s (snd (enable_contract_development_call cfg orig s))"
| step_disable: "evm_step cfg eng s (snd (disable_contract_development_call cfg orig s))"
| step_set_code: "evm_step cfg eng s (snd (set_code_call cfg orig a code s))"
| step_execute: "evm_trait_execute cfg eng n ctx input v gl sl mode s = Some (r, t) \<Longrightarrow> evm_step cfg eng s t"
| step_outside: "outside cfg s t \<Longrightarrow> evm_step cfg eng s t"

section \<open>Steps inside a relation\<close>

locale pallet_effects = frame_effects cfg eng False K
  for cfg :: "('acc, 'w) evm_cfg" and eng :: "('acc, 'w, 'g) engine"
    and K :: "('acc, 'w) evm_state \<Rightarrow> ('acc, 'w) evm_state \<Rightarrow> bool" +
  assumes K_withdraw: "K s (snd (withdraw_and_drop (ev_currency cfg) x v er s))"
    and K_mapping: "K s (snd (am_or_create (ev_mapping cfg) x s))"
    and K_charge: "K s (snd (unreserve_and_charge_fee cfg x w s))"
    and K_refund: "K s (snd (refund_fee cfg x w v s))"
    and K_process: "K s (process_queued_events s)"
    and K_index: "K s (s\<lparr>NetworkContractIndex := saturating_add (NetworkContractIndex s) 1\<rparr>)"
    and K_contract: "the_contract s a = Some ci \<Longrightarrow> code_hash_of cj = code_hash_of ci \<Longrightarrow> K s (set_contract a cj s)"
    and K_developer: "contract_info_of j = the_contract s a \<Longrightarrow> K s (s\<lparr>evm_accounts := (evm_accounts s)(a \<mapsto> j)\<rparr>)"
    and K_code: "K s (evm_deposit_event (EV_ContractSetCode a) (ref_code (code_hash cfg code) code s))"
    and K_outside: "outside cfg s t \<Longrightarrow> K s t"
begin

lemma preorder: "reflp K" "transp K"
  by (rule reflpI, rule R_refl) (rule transpI, erule R_trans)

lemma within_event: "within K (modify_op (evm_deposit_event e))"
  by (simp add: within_def modify_op_def R_event)

lemma within_deployed: "within K (mark_deployed a m)"
  by (auto simp: within_def mark_deployed_def R_refl intro!: K_contract split: option.splits)

lemma within_maintainer: "within K (do_transfer_maintainer cfg who a m)"
  by (auto simp: within_def do_transfer_maintainer_def R_refl intro!: K_contract split: option.splits)

lemma within_enable: "within K (enable_development d a)"
  unfolding within_def enable_development_def
  by (auto simp: the_contract_def new_account_info_def R_refl intro!: K_developer split: option.splits)

lemma within_disable: "within K (disable_development a)"
  unfolding within_def disable_development_def
  by (auto simp: the_contract_def R_refl intro!: K_developer split: option.splits)

lemmas within_rules = within_transactional within_bind within_pure within_ensure within_event within_deployed within_maintainer
  within_enable within_disable preorder

lemma within_other:
  assumes "\<And>s. K s (snd (f s))"
  shows "within K f"
  using assms by (simp add: within_def)

lemma maintainer_within: "within K (transfer_maintainer_call cfg orig a m)"
  unfolding transfer_maintainer_call_def by (intro within_rules)

lemma deploy_free_within: "within K (deploy_free_call cfg orig a)"
  unfolding deploy_free_call_def by (intro within_rules)

lemma set_code_within: "within K (set_code_call cfg orig a code)"
proof -
  have "within K (bind_op (do_set_code cfg who a code) (\<lambda>_. modify_op (evm_deposit_event (EV_ContractSetCode a))))" for who
    by (auto simp: within_def do_set_code_def op_defs Let_def R_event R_refl K_code split: option.splits sum.splits)
  then show ?thesis
    unfolding set_code_call_def
    by (intro within_transactional preorder within_bind [OF preorder(2) within_pure [OF preorder(1)]])
qed

lemma deploy_within: "within K (deploy_call cfg orig a)"
proof -
  have "within K (withdraw_and_drop (ev_currency cfg) who v er)" for who v er
    by (rule within_other) (rule K_withdraw)
  then show ?thesis
    unfolding deploy_call_def by (intro within_rules within_bind_read)
qed

lemma enable_within: "within K (enable_contract_development_call cfg orig)"
proof -
  have res: "within K (cur_reserve (ev_currency cfg) who v)" for who v
    by (rule within_other) (simp add: R_reserve)
  have map: "within K (\<lambda>s. case am_or_create (ev_mapping cfg) who s of (x, s1) \<Rightarrow> f x s1)"
    if f: "\<And>x. within K (f x)" for who and f :: "evm_address \<Rightarrow> (_, dispatch_error, unit) storage_op"
    unfolding within_def
  proof
    fix s
    obtain x s1 where m: "am_or_create (ev_mapping cfg) who s = (x, s1)" by fastforce
    then have "K s s1" using K_mapping [of s who] by simp
    moreover have "K s1 (snd (f x s1))" using f [of x] unfolding within_def by blast
    ultimately show "K s (snd (case am_or_create (ev_mapping cfg) who s of (x, s1) \<Rightarrow> f x s1))"
      using m R_trans by simp
  qed
  show ?thesis
    unfolding enable_contract_development_call_def by (intro within_rules res map)
qed

lemma disable_within: "within K (disable_contract_development_call cfg orig)"
proof -
  have "within K (modify_op (\<lambda>s. snd (cur_unreserve (ev_currency cfg) who v s)))" for who v
    by (rule within_other) (simp add: modify_op_def R_unreserve)
  then show ?thesis
    unfolding disable_contract_development_call_def by (intro within_rules within_bind_read)
qed

lemma stays_runner_call: "stays K (runner_call cfg eng n snder orig target input v gl sl config)"
  using runner_call_R unfolding stays_def by blast

lemma stays_create: "stays K (inner_create cfg eng n src init v gl sl assigned salt config)"
  using inner_create_R unfolding stays_def by blast

lemma created_K: "K s (process_queued_events (created_event src gl info s))"
  using R_trans [OF R_event K_process] by (simp add: created_event_def K_process)

lemma stays_finish: "stays K (\<lambda>s. Some (r, process_queued_events (evm_deposit_event e s)))"
  using R_trans [OF R_event K_process] by (simp add: stays_def)

lemma stays_created: "stays K (\<lambda>s. Some (r, process_queued_events (created_event src gl info s)))"
  by (simp add: stays_def created_K)

lemma stays_mapping:
  assumes "\<And>x. stays K (f x)"
  shows "stays K (\<lambda>s. case am_or_create (ev_mapping cfg) who s of (x, s1) \<Rightarrow> f x s1)"
  unfolding stays_def
proof (intro allI impI)
  fix s r t
  assume res: "(case am_or_create (ev_mapping cfg) who s of (x, s1) \<Rightarrow> f x s1) = Some (r, t)"
  obtain x s1 where m: "am_or_create (ev_mapping cfg) who s = (x, s1)" by fastforce
  then have "K s s1" using K_mapping [of s who] by simp
  moreover have "K s1 t" using res m assms [of x] unfolding stays_def by simp
  ultimately show "K s t" by (rule R_trans)
qed

lemmas stays_rules = stays_transactional stays_bind stays_lift within_pure within_ensure preorder stays_finish stays_created

lemma calls_stay:
  "stays K (evm_call_call cfg eng n orig target input v gl sl)"
  "stays K (evm_create_call cfg eng n orig init v gl sl)"
  "stays K (evm_create2_call cfg eng n orig init salt v gl sl)"
  unfolding evm_call_call_def evm_create_call_def evm_create2_call_def runner_create_def runner_create2_def
  by (intro stays_rules stays_mapping stays_runner_call stays_create)+

lemma network_stays: "stays K (create_network_contract_call cfg eng n orig init v gl sl)"
proof -
  have fin: "stays K (\<lambda>s. Some (r, process_queued_events (created_event src gl info
      (s\<lparr>NetworkContractIndex := saturating_add (NetworkContractIndex s) 1\<rparr>))))" for r src info
    using R_trans [OF K_index created_K] by (simp add: stays_def)
  show ?thesis
    unfolding create_network_contract_call_def create_at_address_def Let_def
    by (intro stays_transactional stays_bind [OF preorder(2) stays_lift [OF within_ensure]] stays_bind_read fin preorder stays_create)
qed

lemma scheduled_stays: "stays K (scheduled_call_call cfg eng n orig from target input v gl sl)"
proof -
  define pay where "pay = (\<lambda>acc. if ethereum_compatibility (constants cfg) then lift_op (ok 0) else (\<lambda>s.
      case unreserve_and_charge_fee cfg acc (GasToWeight cfg gl) s of
        (Inl _, t) \<Rightarrow> Some (Inl (evm_fail ChargeFeeFailed), t)
      | (Inr (_, payed), t) \<Rightarrow> Some (Inr payed, t)))"
  have pay: "stays K (pay acc)" for acc
    using K_charge
    by (auto simp: pay_def stays_def lift_op_def ok_def R_refl split: prod.splits sum.splits) (metis snd_conv)+
  define settle where "settle = (\<lambda>acc payed info s.
      let s1 = evm_deposit_event (executed_event from target gl info) s;
          refund_gas = saturating_sub gl (gas_u64 (used_gas info));
          s2 = (if ethereum_compatibility (constants cfg) \<or> refund_gas = 0 then s1
                else snd (refund_fee cfg acc (GasToWeight cfg refund_gas) payed s1))
      in Some (Inr (GasToWeight cfg (gas_u64 (used_gas info))) :: u64 result, process_queued_events s2))"
  have settle: "stays K (settle acc payed info)" for acc payed info
    unfolding stays_def settle_def Let_def
    using R_trans [OF R_trans [OF R_event K_refund] K_process] R_trans [OF R_event K_process] by auto
  have "stays K (bind_run (pay acc) (\<lambda>payed. bind_run
      (runner_call cfg eng n from from target input v gl sl EVM_CONFIG) (settle acc payed)))" for acc
    by (intro stays_bind preorder pay settle stays_runner_call)
  then have "stays K (\<lambda>s. bind_run (pay (am_account_id (ev_mapping cfg) s from)) (\<lambda>payed. bind_run
      (runner_call cfg eng n from from target input v gl sl EVM_CONFIG) (settle (am_account_id (ev_mapping cfg) s from) payed)) s)"
    unfolding stays_def by blast
  then show ?thesis
    unfolding scheduled_call_call_def Let_def pay_def settle_def
    by (intro stays_transactional stays_bind [OF preorder(2) stays_lift [OF within_pure]] preorder)
qed

lemma execute_stays: "stays K (evm_trait_execute cfg eng n ctx input v gl sl mode)"
  unfolding stays_def evm_trait_execute_def Let_def
  by (auto simp: R_refl split: option.splits prod.splits sum.splits if_splits intro: R_trans [OF runner_call_R R_event])

lemma step_K: "evm_step cfg eng s t \<Longrightarrow> K s t"
  by (cases rule: evm_step.cases, assumption)
    (use calls_stay network_stays scheduled_stays execute_stays maintainer_within deploy_within deploy_free_within enable_within disable_within
      set_code_within K_outside in \<open>auto simp: stays_def within_def\<close>)

lemma steps_K: "(evm_step cfg eng)\<^sup>*\<^sup>* s t \<Longrightarrow> K s t"
  by (induction rule: rtranclp_induct) (auto intro: R_refl R_trans step_K)

end

end
