(* ===== verification/Evm_Code.thy ===== *)
theory Evm_Code
  imports Evm_Steps
begin

text \<open>
  The code of contracts and its reference counts. \<open>code_inv\<close> says that the code of every contract is
  stored under its hash with a count that covers all contracts using it. Every call of the pallet keeps
  it, whole executions included (\<open>frame_effects\<close>), except for \<open>selfdestruct\<close>, which loses references.

  Counts are 32 bits wide and saturate. The number of events that announce a new reference bounds them,
  so the results are stated for histories with fewer than \<open>2 ^ 32 - 1\<close> of these events.
\<close>

section \<open>The invariant\<close>

definition contracts_with :: "('acc, 'w) evm_state \<Rightarrow> bytes \<Rightarrow> evm_address set" where
  "contracts_with s h = {a. \<exists>ci. the_contract s a = Some ci \<and> code_hash_of ci = h}"

fun is_code_event :: "'acc evm_event \<Rightarrow> bool" where
  "is_code_event (EV_Created _ _ _ _) = True"
| "is_code_event (EV_ContractSetCode _) = True"
| "is_code_event _ = False"

definition code_events :: "('acc, 'w) evm_state \<Rightarrow> nat" where
  "code_events s = length (filter is_code_event (evm_events s @ QueuedEvents s))"

definition code_inv :: "('acc, 'w) evm_cfg \<Rightarrow> ('acc, 'w) evm_state \<Rightarrow> bool" where
  "code_inv cfg s \<longleftrightarrow>
     (\<forall>h. finite (contracts_with s h)) \<and>
     (\<forall>h. contracts_with s h \<noteq> {} \<longrightarrow> CodeInfos s h \<noteq> None) \<and>
     (\<forall>h i. CodeInfos s h = Some i \<longrightarrow>
        card (contracts_with s h) \<le> unat (ref_count i) \<and> unat (ref_count i) \<le> code_events s \<and>
        (\<exists>code. Codes s h = Some code \<and> code_hash cfg code = h))"

lemma code_invD:
  assumes "code_inv cfg s"
  shows "finite (contracts_with s h)" and "contracts_with s h \<noteq> {} \<Longrightarrow> CodeInfos s h \<noteq> None"
    and "CodeInfos s h = Some i \<Longrightarrow> card (contracts_with s h) \<le> unat (ref_count i)"
    and "CodeInfos s h = Some i \<Longrightarrow> unat (ref_count i) \<le> code_events s"
    and "CodeInfos s h = Some i \<Longrightarrow> \<exists>code. Codes s h = Some code \<and> code_hash cfg code = h"
  using assms unfolding code_inv_def by blast+

lemma code_invI:
  assumes "\<And>h. finite (contracts_with s h)" and "\<And>h. contracts_with s h \<noteq> {} \<Longrightarrow> CodeInfos s h \<noteq> None"
    and "\<And>h i. CodeInfos s h = Some i \<Longrightarrow> card (contracts_with s h) \<le> unat (ref_count i) \<and>
      unat (ref_count i) \<le> code_events s \<and> (\<exists>code. Codes s h = Some code \<and> code_hash cfg code = h)"
  shows "code_inv cfg s"
  using assms unfolding code_inv_def by blast

lemma code_inv_frame:
  assumes "code_inv cfg s" and "the_contract t = the_contract s" and "CodeInfos t = CodeInfos s" and "Codes t = Codes s"
    and "code_events s \<le> code_events t"
  shows "code_inv cfg t"
proof -
  have "contracts_with t = contracts_with s" by (simp add: contracts_with_def fun_eq_iff assms(2))
  then show ?thesis
    using code_invD [OF assms(1)] assms(3,4,5) by (intro code_invI) (fastforce intro: le_trans)+
qed

text \<open>Losing and gaining a reference. The counts of all other code stay as they are.\<close>

lemma code_inv_unref:
  assumes inv: "code_inv cfg s" and ci: "the_contract s a = Some ci"
    and t: "the_contract t = (the_contract s)(a := None)" "CodeInfos t = CodeInfos (unref_code (code_hash_of ci) s)"
      "Codes t = Codes (unref_code (code_hash_of ci) s)" "code_events t = code_events s"
  shows "code_inv cfg t"
proof -
  let ?h = "code_hash_of ci"
  have with_t: "contracts_with t h = contracts_with s h - {a}" for h
    by (auto simp: contracts_with_def t(1))
  have mem: "a \<in> contracts_with s ?h" using ci by (auto simp: contracts_with_def)
  then obtain i where i: "CodeInfos s ?h = Some i" using code_invD(2) [OF inv, of ?h] by blast
  have card: "card (contracts_with s ?h) \<le> unat (ref_count i)" by (rule code_invD(3) [OF inv i])
  have card_h: "card (contracts_with t ?h) = card (contracts_with s ?h) - 1"
    using mem code_invD(1) [OF inv] by (simp add: with_t)
  have card_le: "card (contracts_with t h) \<le> card (contracts_with s h)" for h
    using code_invD(1) [OF inv] by (simp add: with_t card_Diff1_le)
  have fin: "finite (contracts_with t h)" for h using code_invD(1) [OF inv] by (simp add: with_t)
  let ?n = "saturating_sub (ref_count i) 1"
  have n: "unat ?n = unat (ref_count i) - 1" by (simp add: unat_saturating_sub)
  show ?thesis
  proof (cases "?n = 0")
    case True
    with n card card_h have "card (contracts_with t ?h) = 0" by simp
    with fin have empty: "contracts_with t ?h = {}" by simp
    have "CodeInfos t = (CodeInfos s)(?h := None)" "Codes t = (Codes s)(?h := None)"
      using i True by (simp_all add: t unref_code_def Let_def)
    note ct = this
    show ?thesis
    proof (rule code_invI)
      show "finite (contracts_with t h)" for h by (rule fin)
      show "CodeInfos t h \<noteq> None" if "contracts_with t h \<noteq> {}" for h
        using that empty code_invD(2) [OF inv, of h] by (cases "h = ?h") (auto simp: ct with_t)
      show "card (contracts_with t h) \<le> unat (ref_count j) \<and> unat (ref_count j) \<le> code_events t \<and>
          (\<exists>code. Codes t h = Some code \<and> code_hash cfg code = h)" if "CodeInfos t h = Some j" for h j
      proof -
        from that have "h \<noteq> ?h" "CodeInfos s h = Some j" by (auto simp: ct split: if_splits)
        then show ?thesis
          using code_invD(3,4,5) [OF inv, of h j] card_le [of h] by (simp add: ct t(4))
      qed
    qed
  next
    case False
    then have "CodeInfos t = (CodeInfos s)(?h \<mapsto> i\<lparr>ref_count := ?n\<rparr>)" "Codes t = Codes s"
      using i by (simp_all add: t unref_code_def Let_def)
    note ct = this
    show ?thesis
    proof (rule code_invI)
      show "finite (contracts_with t h)" for h by (rule fin)
      show "CodeInfos t h \<noteq> None" if "contracts_with t h \<noteq> {}" for h
        using that code_invD(2) [OF inv, of h] by (auto simp: ct with_t)
      show "card (contracts_with t h) \<le> unat (ref_count j) \<and> unat (ref_count j) \<le> code_events t \<and>
          (\<exists>code. Codes t h = Some code \<and> code_hash cfg code = h)" if "CodeInfos t h = Some j" for h j
      proof (cases "h = ?h")
        case True
        with that have "j = i\<lparr>ref_count := ?n\<rparr>" by (simp add: ct)
        then show ?thesis
          using True n card card_h code_invD(4,5) [OF inv i] by (simp add: ct t(4)) linarith
      next
        case False
        with that have "CodeInfos s h = Some j" by (simp add: ct)
        then show ?thesis
          using code_invD(3,4,5) [OF inv, of h j] card_le [of h] by (simp add: ct t(4))
      qed
    qed
  qed
qed

lemma code_inv_ref:
  assumes inv: "code_inv cfg s" and few: "code_events s < 2 ^ 32 - 1"
    and t: "CodeInfos t = CodeInfos (ref_code (code_hash cfg code) code s)" "Codes t = Codes (ref_code (code_hash cfg code) code s)"
      "code_events t = Suc (code_events s)"
    and sub: "contracts_with t (code_hash cfg code) \<subseteq> insert a (contracts_with s (code_hash cfg code))"
      "\<And>h. h \<noteq> code_hash cfg code \<Longrightarrow> contracts_with t h \<subseteq> contracts_with s h"
  shows "code_inv cfg t"
proof (rule code_invI)
  let ?h = "code_hash cfg code"
  have fin: "finite (contracts_with t h)" for h
    using finite_subset [OF sub(1)] finite_subset [OF sub(2) [of h]] code_invD(1) [OF inv] by (cases "h = ?h") auto
  then show "finite (contracts_with t h)" for h .
  have "card (contracts_with t ?h) \<le> card (insert a (contracts_with s ?h))"
    by (rule card_mono [OF _ sub(1)]) (simp add: code_invD(1) [OF inv])
  also have "\<dots> \<le> Suc (card (contracts_with s ?h))"
    by (simp add: card_insert_if code_invD(1) [OF inv])
  finally have card_h: "card (contracts_with t ?h) \<le> Suc (card (contracts_with s ?h))" .
  have card: "card (contracts_with t h) \<le> card (contracts_with s h)" if "h \<noteq> ?h" for h
    using that by (rule card_mono [OF code_invD(1) [OF inv] sub(2)])
  have infos: "CodeInfos t h = CodeInfos s h" "Codes t h = Codes s h" if "h \<noteq> ?h" for h
    using that by (simp_all add: t ref_code_def split: option.splits)
  show "CodeInfos t h \<noteq> None" if "contracts_with t h \<noteq> {}" for h
  proof (cases "h = ?h")
    case True
    then show ?thesis by (simp add: t ref_code_def split: option.splits)
  next
    case False
    with that sub(2) [OF False] show ?thesis using code_invD(2) [OF inv, of h] by (auto simp: infos)
  qed
  show "card (contracts_with t h) \<le> unat (ref_count j) \<and> unat (ref_count j) \<le> code_events t \<and>
      (\<exists>code. Codes t h = Some code \<and> code_hash cfg code = h)" if j: "CodeInfos t h = Some j" for h j
  proof (cases "h = ?h")
    case False
    with j have "CodeInfos s h = Some j" by (simp add: infos)
    from code_invD(3,4,5) [OF inv this] card [OF False] show ?thesis
      by (simp add: infos [OF False] t(3) del: Suc_le_eq)
  next
    case True
    show ?thesis
    proof (cases "CodeInfos s ?h")
      case None
      then have "contracts_with s ?h = {}" using code_invD(2) [OF inv] by blast
      with card_h None j True show ?thesis by (auto simp: t ref_code_def)
    next
      case (Some i)
      with j True have ji: "j = i\<lparr>ref_count := saturating_add (ref_count i) 1\<rparr>" "Codes t ?h = Codes s ?h"
        by (simp_all add: t ref_code_def)
      have "unat (ref_count i) < 2 ^ 32 - 1" using code_invD(4) [OF inv Some] few by simp
      then have "unat (ref_count j) = Suc (unat (ref_count i))" by (simp add: ji unat_saturating_add)
      then show ?thesis
        using True card_h code_invD(3,4,5) [OF inv Some] by (simp add: ji(2) t(3))
    qed
  qed
qed

section \<open>What keeps it\<close>

definition keeps_code :: "('acc, 'w) evm_cfg \<Rightarrow> ('acc, 'w) evm_state \<Rightarrow> ('acc, 'w) evm_state \<Rightarrow> bool" where
  "keeps_code cfg s t \<longleftrightarrow>
     code_events s \<le> code_events t \<and> (code_events t < 2 ^ 32 - 1 \<longrightarrow> code_inv cfg s \<longrightarrow> code_inv cfg t)"

lemma keeps_code_refl: "keeps_code cfg s s"
  by (simp add: keeps_code_def)

lemma keeps_code_trans: "keeps_code cfg s t \<Longrightarrow> keeps_code cfg t u \<Longrightarrow> keeps_code cfg s u"
  unfolding keeps_code_def by auto

lemma keeps_code_frame:
  assumes "the_contract t = the_contract s" and "CodeInfos t = CodeInfos s" and "Codes t = Codes s"
    and "code_events s \<le> code_events t"
  shows "keeps_code cfg s t"
  using assms code_inv_frame unfolding keeps_code_def by blast

lemma keeps_code_event: "keeps_code cfg s (evm_deposit_event e s)"
  by (rule keeps_code_frame) (simp_all add: evm_deposit_event_def the_contract_def code_events_def fun_eq_iff)

lemma keeps_code_queue: "keeps_code cfg s (queue_event e s)"
  by (rule keeps_code_frame) (simp_all add: queue_event_def the_contract_def code_events_def fun_eq_iff)

lemma keeps_code_nonce: "keeps_code cfg s (inc_nonce a s)"
  by (rule keeps_code_frame)
    (auto simp: inc_nonce_def the_contract_def code_events_def fun_eq_iff new_account_info_def split: option.splits)

lemma the_contract_remove [simp]: "the_contract (snd (remove_account a s)) = (the_contract s)(a := None)"
  by (auto simp: remove_account_def the_contract_def remove_prefix_def unref_code_def Let_def fun_eq_iff
    split: option.splits prod.splits)

lemma keeps_code_remove: "keeps_code cfg s (snd (remove_account a s))"
proof (cases "the_contract s a")
  case None
  then show ?thesis
    by (intro keeps_code_frame)
      (auto simp: remove_account_def remove_prefix_def code_events_def fun_eq_iff the_contract_def Let_def split: option.splits)
next
  case (Some ci)
  have same: "code_events (unref_code (code_hash_of ci) s) = code_events s"
    by (simp add: unref_code_def code_events_def Let_def split: option.splits)
  then have ev: "code_events (snd (remove_account a s)) = code_events s"
    using Some by (simp add: remove_account_def remove_prefix_def code_events_def)
  have "code_inv cfg (snd (remove_account a s))" if "code_inv cfg s"
    by (rule code_inv_unref [OF that Some the_contract_remove _ _ ev])
      (simp_all add: remove_account_def remove_prefix_def Some)
  then show ?thesis by (simp add: keeps_code_def ev)
qed

lemma keeps_code_init: "keeps_code cfg s (snd (on_contract_initialization cfg a m code gu su s))"
proof (cases "MaxCodeSize (constants cfg) < of_nat (length code)")
  case True
  then show ?thesis by (simp add: on_contract_initialization_def Let_def keeps_code_refl)
next
  case False
  let ?t = "snd (on_contract_initialization cfg a m code gu su s)"
  let ?ci = "\<lparr>code_hash_of = code_hash cfg code, maintainer = m, deployed = ethereum_compatibility (constants cfg)\<rparr>"
  have same: "evm_accounts (ref_code h code s) = evm_accounts s" "code_events (ref_code h code s) = code_events s" for h
    by (simp_all add: ref_code_def code_events_def split: option.splits)
  have ct: "the_contract ?t = (the_contract s)(a \<mapsto> ?ci)"
    using False by (auto simp: on_contract_initialization_def Let_def the_contract_def queue_event_def fun_eq_iff same
      new_account_info_def split: option.splits)
  have ev: "code_events ?t = Suc (code_events s)"
    using False same(2) [of "code_hash cfg code"] by (simp add: on_contract_initialization_def Let_def queue_event_def code_events_def)
  have "code_inv cfg ?t" if "code_inv cfg s" "code_events s < 2 ^ 32 - 1"
  proof (rule code_inv_ref [OF that _ _ ev])
    show "CodeInfos ?t = CodeInfos (ref_code (code_hash cfg code) code s)" "Codes ?t = Codes (ref_code (code_hash cfg code) code s)"
      using False by (simp_all add: on_contract_initialization_def Let_def queue_event_def)
    show "contracts_with ?t (code_hash cfg code) \<subseteq> insert a (contracts_with s (code_hash cfg code))"
      by (auto simp: contracts_with_def ct split: if_splits)
    show "contracts_with ?t h \<subseteq> contracts_with s h" if "h \<noteq> code_hash cfg code" for h
      using that by (auto simp: contracts_with_def ct split: if_splits)
  qed
  then show ?thesis by (simp add: keeps_code_def ev)
qed

lemma the_contract_set [simp]:
  assumes "the_contract s a = Some ci"
  shows "the_contract (set_contract a cj s) = (the_contract s)(a \<mapsto> cj)"
  using assms by (auto simp: set_contract_def the_contract_def fun_eq_iff split: option.splits)

lemma set_contract_sel [simp]:
  "CodeInfos (set_contract a ci s) = CodeInfos s" "Codes (set_contract a ci s) = Codes s"
  "code_events (set_contract a ci s) = code_events s"
  by (simp_all add: set_contract_def code_events_def split: option.splits)

lemma keeps_code_set:
  assumes "the_contract s a = Some ci" and "code_hash_of cj = code_hash_of ci"
  shows "keeps_code cfg s (set_contract a cj s)"
proof -
  have "contracts_with (set_contract a cj s) h = contracts_with s h" for h
    using assms by (auto simp: contracts_with_def)
  then have "code_inv cfg s \<Longrightarrow> code_inv cfg (set_contract a cj s)"
    using code_invD by (intro code_invI) fastforce+
  then show ?thesis by (simp add: keeps_code_def)
qed

lemma keeps_code_maintainer: "keeps_code cfg s (snd (do_transfer_maintainer cfg who a m s))"
  by (auto simp: do_transfer_maintainer_def keeps_code_refl intro!: keeps_code_set split: option.splits)

lemma outside_keeps_code: "outside cfg s t \<Longrightarrow> keeps_code cfg s t"
proof (induction rule: outside.induct)
  case (outside_world s w)
  show ?case by (rule keeps_code_frame) (simp_all add: the_contract_def code_events_def fun_eq_iff)
next
  case (outside_death s who)
  show ?case
    by (auto simp: evm_on_killed_account_def Let_def split: option.splits
      intro: keeps_code_remove keeps_code_trans [OF keeps_code_remove keeps_code_remove])
next
  case (outside_rent s who a m)
  show ?case by (rule keeps_code_maintainer)
qed

lemma outside_star_keeps_code: "(outside cfg)\<^sup>*\<^sup>* s t \<Longrightarrow> keeps_code cfg s t"
  by (induction rule: rtranclp_induct) (auto intro: keeps_code_refl keeps_code_trans outside_keeps_code)

lemma code_effects:
  assumes "pallets_within cfg eng (keeps_code cfg)"
  shows "frame_effects cfg eng False (keeps_code cfg)"
proof
  show "keeps_code cfg s (s\<lparr>AccountStorages := (AccountStorages s)(k := v)\<rparr>)" for s k v
    by (rule keeps_code_frame) (simp_all add: the_contract_def code_events_def fun_eq_iff)
qed (auto intro: keeps_code_refl keeps_code_trans keeps_code_event keeps_code_queue keeps_code_nonce keeps_code_remove keeps_code_init
  pallets_withinD [OF assms])

lemma process_keeps_code: "keeps_code cfg s (process_queued_events s)"
  by (rule keeps_code_frame) (simp_all add: process_queued_events_def the_contract_def code_events_def fun_eq_iff)

lemma index_keeps_code: "keeps_code cfg s (s\<lparr>NetworkContractIndex := i\<rparr>)"
  by (rule keeps_code_frame) (simp_all add: the_contract_def code_events_def fun_eq_iff)

lemma developer_keeps_code:
  assumes "contract_info_of j = the_contract s a"
  shows "keeps_code cfg s (s\<lparr>evm_accounts := (evm_accounts s)(a \<mapsto> j)\<rparr>)"
  using assms by (intro keeps_code_frame) (auto simp: the_contract_def code_events_def fun_eq_iff)

lemma set_code_keeps: "keeps_code cfg s (evm_deposit_event (EV_ContractSetCode a) (ref_code (code_hash cfg code) code s))"
proof -
  let ?t = "evm_deposit_event (EV_ContractSetCode a) (ref_code (code_hash cfg code) code s)"
  have ev: "code_events ?t = Suc (code_events s)"
    by (simp add: evm_deposit_event_def ref_code_def code_events_def split: option.splits)
  have ct: "the_contract ?t = the_contract s"
    by (simp add: evm_deposit_event_def ref_code_def the_contract_def fun_eq_iff split: option.splits)
  have same: "contracts_with ?t h = contracts_with s h" for h by (simp add: contracts_with_def ct)
  have "code_inv cfg ?t" if "code_inv cfg s" "code_events s < 2 ^ 32 - 1"
    by (rule code_inv_ref [OF that _ _ ev, where a = a]) (auto simp: same, simp_all add: evm_deposit_event_def)
  then show ?thesis by (simp add: keeps_code_def ev)
qed

lemma code_steps:
  assumes "pallets_within cfg eng (keeps_code cfg)"
  shows "pallet_effects cfg eng (keeps_code cfg)"
  using code_effects [OF assms]
  by (rule pallet_effects.intro, unfold_locales)
    (auto intro: pallets_withinD [OF assms] process_keeps_code index_keeps_code keeps_code_set developer_keeps_code
      set_code_keeps outside_keeps_code)

section \<open>Pallets on their own storage\<close>

text \<open>
  The configuration whose other pallets work on \<open>evm_world\<close> only, made from pallets that know nothing of
  the EVM pallet. It is what the other pallets are as long as no account dies.
\<close>

definition in_world :: "('w \<Rightarrow> 'r \<times> 'w) \<Rightarrow> ('acc, 'w) evm_state \<Rightarrow> 'r \<times> ('acc, 'w) evm_state" where
  "in_world f s = (case f (evm_world s) of (r, w) \<Rightarrow> (r, s\<lparr>evm_world := w\<rparr>))"

definition over_world :: "('acc, 'w) evm_config \<Rightarrow> ('acc, 'w) evm_cfg" where
  "over_world base =
     \<lparr>constants = constants base,
      ev_mapping =
        \<lparr>am_account_id = (\<lambda>s. am_account_id (ev_mapping base) (evm_world s)),
         am_evm_address = (\<lambda>s. am_evm_address (ev_mapping base) (evm_world s)),
         am_or_create = (\<lambda>x. in_world (am_or_create (ev_mapping base) x)), am_default = am_default (ev_mapping base),
         am_is_linked = (\<lambda>s. am_is_linked (ev_mapping base) (evm_world s))\<rparr>,
      ev_currency =
        \<lparr>cur_withdraw = (\<lambda>x v er. in_world (cur_withdraw (ev_currency base) x v er)),
         cur_deposit_into_existing = (\<lambda>x v. in_world (cur_deposit_into_existing (ev_currency base) x v)),
         cur_drop_negative = (\<lambda>v s. s\<lparr>evm_world := cur_drop_negative (ev_currency base) v (evm_world s)\<rparr>),
         cur_drop_positive = (\<lambda>v s. s\<lparr>evm_world := cur_drop_positive (ev_currency base) v (evm_world s)\<rparr>),
         cur_reserve = (\<lambda>x v. in_world (cur_reserve (ev_currency base) x v)),
         cur_unreserve = (\<lambda>x v. in_world (cur_unreserve (ev_currency base) x v)),
         cur_total_issuance = (\<lambda>s. cur_total_issuance (ev_currency base) (evm_world s)),
         cur_free_balance = (\<lambda>s. cur_free_balance (ev_currency base) (evm_world s)),
         cur_reserved_balance = (\<lambda>s. cur_reserved_balance (ev_currency base) (evm_world s))\<rparr>,
      ev_minimum_balance = ev_minimum_balance base,
      ev_deposit_creating = (\<lambda>x v s. s\<lparr>evm_world := ev_deposit_creating base x v (evm_world s)\<rparr>),
      ev_transfer = (\<lambda>x y v er. in_world (ev_transfer base x y v er)),
      ev_repatriate_reserved = (\<lambda>x y v st. in_world (ev_repatriate_reserved base x y v st)),
      ev_transfer_all = (\<lambda>x y. in_world (ev_transfer_all base x y)),
      NetworkContractOrigin = NetworkContractOrigin base, FreeDeploymentOrigin = FreeDeploymentOrigin base,
      GasToWeight = GasToWeight base,
      unreserve_and_charge_fee = (\<lambda>x w. in_world (unreserve_and_charge_fee base x w)),
      refund_fee = (\<lambda>x w v. in_world (refund_fee base x w v)), keccak256 = keccak256 base\<rparr>"

definition with_precompiles ::
  "(evm_address \<Rightarrow> bytes \<Rightarrow> u64 option \<Rightarrow> evm_context \<Rightarrow> 'w \<Rightarrow> (exit_error + exit_succeed \<times> bytes \<times> u64) option \<times> 'w) \<Rightarrow>
     ('acc, 'w, 'g) engine \<Rightarrow> ('acc, 'w, 'g) engine" where
  "with_precompiles pc eng = eng\<lparr>precompiles := (\<lambda>a input g c. in_world (pc a input g c))\<rparr>"

lemma in_world_outside: "(outside cfg)\<^sup>*\<^sup>* s (snd (in_world f s))"
  by (auto simp: in_world_def split: prod.splits intro: outside_world)

lemma over_world_within: "pallets_within (over_world base) (with_precompiles pc eng) ((outside (over_world base))\<^sup>*\<^sup>*)"
proof -
  have "(outside (over_world base))\<^sup>*\<^sup>* s (snd (withdraw_and_drop (ev_currency (over_world base)) x v er s))" for s x v er
    by (auto simp: withdraw_and_drop_def over_world_def in_world_def bind_op_def modify_op_def split: prod.splits sum.splits
      intro: outside_world)
  then show ?thesis
    by (simp add: pallets_within_def with_precompiles_def in_world_outside)
      (simp add: over_world_def in_world_outside)
qed

lemma over_world_code: "pallets_within (over_world base) (with_precompiles pc eng) (keeps_code (over_world base))"
  by (rule pallets_within_mono [OF over_world_within]) (rule outside_star_keeps_code)

interpretation code: pallet_effects "over_world base" "with_precompiles pc eng" "keeps_code (over_world base)"
  for base :: "('acc, 'w) evm_config" and pc and eng :: "('acc, 'w, 'g) engine"
  by (rule code_steps) (rule over_world_code)

end
