(* ===== verification/Evm_Properties.thy ===== *)
theory Evm_Properties
  imports Evm_Code
begin

text \<open>
  Properties of the EVM pallet: the code of contracts is kept, executions that fail or only look
  change nothing, static calls are static, and the addresses of system contracts are never taken.
\<close>

section \<open>A small chain\<close>

text \<open>
  The chain of the witnesses: accounts are addresses, a currency that grants everything, a gasometer
  without limits, and an interpreter for three programs: code that starts with 1 stores a word, code
  that starts with 2 emits a log and then stores a word, code that starts with 3 stores a word and reverts,
  all other code returns itself.
\<close>

definition demo_mapping :: "(evm_address, 's) address_mapping" where
  "demo_mapping = \<lparr>am_account_id = (\<lambda>s a. a), am_evm_address = (\<lambda>s a. Some a), am_or_create = (\<lambda>a s. (a, s)),
     am_default = (\<lambda>a. a), am_is_linked = (\<lambda>s a b. a = b)\<rparr>"

definition demo_currency :: "(evm_address, 's) currency" where
  "demo_currency = \<lparr>cur_withdraw = (\<lambda>who v er. ok v), cur_deposit_into_existing = (\<lambda>who v. ok v),
     cur_drop_negative = (\<lambda>v s. s), cur_drop_positive = (\<lambda>v s. s), cur_reserve = (\<lambda>who v. ok ()),
     cur_unreserve = (\<lambda>who v s. (0, s)), cur_total_issuance = (\<lambda>s. 0), cur_free_balance = (\<lambda>s who. 0),
     cur_reserved_balance = (\<lambda>s who. 0)\<rparr>"

definition demo_constants :: evm_constants where
  "demo_constants = \<lparr>NewContractExtraBytes = 100, StorageDepositPerByte = 1, MaxCodeSize = 1000, ChainId = 1,
     NetworkContractSource = replicate 20 0, DeveloperDeposit = 10, DeploymentFee = 5, ethereum_compatibility = False\<rparr>"

definition demo_evm_cfg :: "(evm_address, unit) evm_cfg" where
  "demo_evm_cfg = \<lparr>constants = demo_constants, ev_mapping = demo_mapping, ev_currency = demo_currency,
     ev_minimum_balance = 1, ev_deposit_creating = (\<lambda>who v s. s), ev_transfer = (\<lambda>x y v er. ok ()),
     ev_repatriate_reserved = (\<lambda>x y v st. ok 0), ev_transfer_all = (\<lambda>x y. ok ()),
     NetworkContractOrigin = (\<lambda>orig. orig = Root), FreeDeploymentOrigin = (\<lambda>orig. orig = Root),
     GasToWeight = (\<lambda>g. g), unreserve_and_charge_fee = (\<lambda>who w. ok (0, 0)), refund_fee = (\<lambda>who w v. ok ()),
     keccak256 = (\<lambda>bs. replicate 31 9 @ [of_nat (length bs)])\<rparr>"

definition demo_gas :: "unit gasometer_ops" where
  "demo_gas = \<lparr>gas_new = (\<lambda>l c. ()), gas_of = (\<lambda>g. 1000), total_used_gas = (\<lambda>g. 7), refunded_gas = (\<lambda>g. 0),
     record_cost = (\<lambda>c. ok ()), record_stipend = (\<lambda>c. ok ()), record_refund = (\<lambda>c. ok ()), record_deposit = (\<lambda>c. ok ()),
     record_call_transaction = (\<lambda>c. ok ()), gas_fail = (\<lambda>g. g), static_opcode_cost = (\<lambda>o'. None)\<rparr>"

definition demo_store :: "evm_address \<Rightarrow> evm_program" where
  "demo_store a = Request (R_set_storage a default_h256 (replicate 32 1)) (\<lambda>ans. case ans of
     A_Result (Inr _) \<Rightarrow> Exit (Succeed Stopped) [] | _ \<Rightarrow> Exit (Error OutOfGas) [])"

definition demo_program :: "bytes \<Rightarrow> evm_address \<Rightarrow> evm_program" where
  "demo_program code a =
     (case code of
        b # bs \<Rightarrow>
          if b = 1 then demo_store a
          else if b = 2 then Request (R_log a [] [5]) (\<lambda>_. demo_store a)
          else if b = 3 then Request (R_set_storage a default_h256 (replicate 32 1)) (\<lambda>_. Exit Revert [5])
          else Exit (Succeed Returned) code
      | [] \<Rightarrow> Exit (Succeed Stopped) [])"

definition demo_engine :: "(evm_address, unit, unit) engine" where
  "demo_engine = \<lparr>gas = demo_gas, record_dynamic_opcode = (\<lambda>a o' st h s. ok ()),
     runtime_new = (\<lambda>code input c config. demo_program code (c_address c)), precompiles = (\<lambda>a i g c s. (None, s)),
     rlp_create = (\<lambda>a n. a @ [of_nat n]), block_hash_at = (\<lambda>s n. []), block_number_now = (\<lambda>s. 0), timestamp_now = (\<lambda>s. 0),
     error_str = (\<lambda>e. []), sub_layers = 10\<rparr>"

definition demo_chain :: "(evm_address, unit) evm_state" where
  "demo_chain = \<lparr>evm_accounts = Map.empty, AccountStorages = Map.empty, Codes = Map.empty, CodeInfos = Map.empty,
     NetworkContractIndex = NETWORK_CONTRACT_START, ExtrinsicOrigin = None, QueuedEvents = [], evm_events = [], evm_world = ()\<rparr>"

definition demo_user :: evm_address where "demo_user = replicate 20 8"

lemmas demo_defs = demo_mapping_def demo_currency_def demo_constants_def demo_evm_cfg_def demo_gas_def demo_store_def
  demo_program_def demo_engine_def demo_chain_def demo_user_def NETWORK_CONTRACT_START_def

lemma demo_pallets: "pallets_within demo_evm_cfg demo_engine ((outside demo_evm_cfg)\<^sup>*\<^sup>*)"
  by (simp add: pallets_within_def demo_defs ok_def withdraw_and_drop_def bind_op_def modify_op_def)

lemmas evm_eval = op_defs Let_def transactional_def transactional_run_def bind_run_def lift_op_def
  runner_create_def runner_create2_def inner_create_def create_address_of_def h160_of_h256_def starts_with_def
  SYSTEM_CONTRACT_ADDRESS_PREFIX_def flatten_def run_transaction_def meter_new_def storage_meter_handler_impl_def
  impl_reserve_storage_def impl_charge_storage_def impl_unreserve_storage_def byte_deposit_def
  inner_create_body_def settle_create_def runner_transfer_def on_gas_def on_meter_def meter_charge_def meter_refund_def handle_def
  handler_execute_def succeeded_def handler_used_gas_def meter_used_storage_def on_contract_initialization_def
  code_hash_def ref_code_def queue_event_def inc_nonce_def new_account_info_def finish_def new_limit_def
  created_event_def process_queued_events_def evm_deposit_event_def handler_nonce_def account_basic_def default_vicinity_def

lemma run_numeral [simp]: "run cfg eng (numeral k) p x =
    (case p of Exit r out \<Rightarrow> Some ((r, out), x) | Request q k' \<Rightarrow> run_request cfg eng (run cfg eng (pred_numeral k)) q k' x)"
  by (simp add: numeral_eq_Suc)

definition "demo_created = evm_create_call demo_evm_cfg demo_engine 5 (Signed demo_user) [4, 4] 0 100 2000 demo_chain"

lemma demo_created_eval:
  "\<exists>w s. demo_created = Some (Inr w, s) \<and> code_events s = 1 \<and>
     the_contract s (replicate 19 9 @ [21]) =
       Some \<lparr>code_hash_of = replicate 31 9 @ [2], maintainer = demo_user, deployed = False\<rparr>"
  unfolding demo_created_def evm_create_call_def
  by (simp add: demo_defs evm_eval EVM_CONFIG_def the_contract_def code_events_def
    saturating_add_def saturating_sub_def saturating_mul_def)

section \<open>The code of contracts\<close>

lemma code_inv_code_at:
  assumes "code_inv cfg s" and "the_contract s a = Some ci"
  shows "Codes s (code_hash_of ci) = Some (code_at_address cfg s a)" and "keccak256 cfg (code_at_address cfg s a) = code_hash_of ci"
proof -
  have "a \<in> contracts_with s (code_hash_of ci)" using assms(2) by (auto simp: contracts_with_def)
  then obtain i where i: "CodeInfos s (code_hash_of ci) = Some i" using code_invD(2) [OF assms(1), of "code_hash_of ci"] by blast
  from code_invD(5) [OF assms(1) i] show "Codes s (code_hash_of ci) = Some (code_at_address cfg s a)"
    and "keccak256 cfg (code_at_address cfg s a) = code_hash_of ci"
    using assms(2) by (auto simp: code_at_address_def code_hash_at_address_def code_hash_def)
qed

text \<open>
  (C4) No contract loses its code: from a chain without contracts, after any sequence of calls,
  scheduled calls, creations of all kinds, maintenance calls and code uploads, with deaths of accounts
  and activity of other pallets in between, the code of every contract is still stored under the hash
  in its entry, so executing the contract executes the code it was created with, however many contracts
  share it. Histories with \<open>2 ^ 32 - 1\<close> or more new references, where the counts saturate, are excluded.
\<close>

theorem contract_code_kept:
  assumes "pallets_within cfg eng ((outside cfg)\<^sup>*\<^sup>*)"
    and "evm_accounts s0 = Map.empty" and "CodeInfos s0 = Map.empty"
    and "(evm_step cfg eng)\<^sup>*\<^sup>* s0 s" and "code_events s < 2 ^ 32 - 1" and "the_contract s a = Some ci"
  shows "Codes s (code_hash_of ci) = Some (code_at_address cfg s a) \<and> keccak256 cfg (code_at_address cfg s a) = code_hash_of ci"
proof -
  have pal: "pallets_within cfg eng (keeps_code cfg)"
    using assms(1) by (rule pallets_within_mono) (rule outside_star_keeps_code)
  have "code_inv cfg s0"
    using assms(2,3) by (intro code_invI) (simp_all add: contracts_with_def the_contract_def)
  moreover have "keeps_code cfg s0 s" by (rule pallet_effects.steps_K [OF code_steps [OF pal] assms(4)])
  ultimately have "code_inv cfg s" using assms(5) by (simp add: keeps_code_def)
  then show ?thesis using code_inv_code_at assms(6) by blast
qed

theorem contract_code_kept_witness:
  "\<exists>w s. demo_created = Some (Inr w, s) \<and>
     keccak256 demo_evm_cfg (code_at_address demo_evm_cfg s (replicate 19 9 @ [21])) = replicate 31 9 @ [2]"
proof -
  obtain w s where s: "demo_created = Some (Inr w, s)" "code_events s = 1"
    "the_contract s (replicate 19 9 @ [21]) =
       Some \<lparr>code_hash_of = replicate 31 9 @ [2], maintainer = demo_user, deployed = False\<rparr>"
    using demo_created_eval by blast
  have "evm_step demo_evm_cfg demo_engine demo_chain s"
    using s(1) unfolding demo_created_def by (rule step_create)
  then have "(evm_step demo_evm_cfg demo_engine)\<^sup>*\<^sup>* demo_chain s" by (rule r_into_rtranclp)
  from contract_code_kept [OF demo_pallets _ _ this _ s(3)] s(2)
  have "keccak256 demo_evm_cfg (code_at_address demo_evm_cfg s (replicate 19 9 @ [21])) = replicate 31 9 @ [2]"
    by (simp add: demo_chain_def)
  with s(1) show ?thesis by blast
qed

section \<open>Destroying a contract\<close>

text \<open>The death of the contract's account during its removal, which leaves the rest of the EVM's storage alone.\<close>

definition dies_when_emptied :: "('acc, 'w) evm_cfg \<Rightarrow> evm_address \<Rightarrow> 'acc \<Rightarrow> bool" where
  "dies_when_emptied cfg a acc \<longleftrightarrow>
     (\<forall>s. am_account_id (ev_mapping cfg) s a = acc) \<and> (\<forall>s. am_evm_address (ev_mapping cfg) s acc = Some a) \<and>
     (\<forall>s v. \<exists>w. snd (cur_unreserve (ev_currency cfg) acc v s) = s\<lparr>evm_world := w\<rparr>) \<and>
     (\<forall>s y. \<exists>w. ev_transfer_all cfg acc y s = (Inr (), evm_on_killed_account cfg acc (s\<lparr>evm_world := w\<rparr>)))"

lemma dies_when_emptiedD:
  assumes "dies_when_emptied cfg a acc"
  shows "am_account_id (ev_mapping cfg) s a = acc" and "am_evm_address (ev_mapping cfg) s acc = Some a"
    and "\<exists>w. snd (cur_unreserve (ev_currency cfg) acc v s) = s\<lparr>evm_world := w\<rparr>"
    and "\<exists>w. ev_transfer_all cfg acc y s = (Inr (), evm_on_killed_account cfg acc (s\<lparr>evm_world := w\<rparr>))"
  using assms unfolding dies_when_emptied_def by blast+

text \<open>
  (C32) Destroying a contract can destroy the code of another one. If two contracts share their code, with
  the right count of two, and the maintainer destroys the first, whose account dies when its funds are
  moved away, then the call succeeds and the second contract is left without code: the reference is
  given up once by the removal and once more by the report of the death, since the removal has not yet
  written the contract's entry back.
\<close>

theorem selfdestruct_frees_shared_code:
  assumes "the_contract s a = Some ci" and "\<not> deployed ci" and "b \<noteq> a" and "the_contract s b = Some cj"
    and "code_hash_of cj = code_hash_of ci" and "CodeInfos s (code_hash_of ci) = Some i" and "ref_count i = 2"
    and "dies_when_emptied cfg a acc" and "am_default (ev_mapping cfg) acc \<noteq> b"
  shows "\<exists>t. do_selfdestruct cfg (maintainer ci) a s = (Inr (), t) \<and> the_contract t b = Some cj \<and>
    Codes t (code_hash_of cj) = None \<and> code_at_address cfg t b = []"
proof -
  let ?h = "code_hash_of ci"
  note dies = dies_when_emptiedD [OF assms(8)]
  from assms(1) obtain info where info: "evm_accounts s a = Some info" "contract_info_of info = Some ci"
    by (auto simp: the_contract_def split: option.splits)
  define s1 where "s1 = unref_code ?h (remove_prefix a s)"
  have s1: "CodeInfos s1 ?h = Some (i\<lparr>ref_count := 1\<rparr>)" "evm_accounts s1 = evm_accounts s"
    using assms(6,7) by (simp_all add: s1_def unref_code_def remove_prefix_def saturating_sub_def Let_def)
  obtain w where s2: "snd (cur_unreserve (ev_currency cfg) acc (cur_reserved_balance (ev_currency cfg) s1 acc) s1) = s1\<lparr>evm_world := w\<rparr>"
    using dies(3) by blast
  define s2 where "s2 = s1\<lparr>evm_world := w\<rparr>"
  obtain w' where s3: "ev_transfer_all cfg acc (am_account_id (ev_mapping cfg) s2 (maintainer ci)) s2 =
      (Inr (), evm_on_killed_account cfg acc (s2\<lparr>evm_world := w'\<rparr>))"
    using dies(4) by blast
  define s3 where "s3 = snd (remove_account a (s2\<lparr>evm_world := w'\<rparr>))"
  have c3: "Codes s3 ?h = None" "CodeInfos s3 ?h = None" "evm_accounts s3 = (evm_accounts s)(a := None)"
    using s1 info
    by (simp_all add: s3_def s2_def remove_account_def the_contract_def unref_code_def remove_prefix_def saturating_sub_def Let_def)
  define t where "t = snd (remove_account (am_default (ev_mapping cfg) acc) s3)"
  have ct: "Codes t ?h = None" "evm_accounts t b = evm_accounts s b"
    using c3 assms(3,9)
    by (auto simp: t_def remove_account_def unref_code_def remove_prefix_def Let_def the_contract_def split: option.splits)
  let ?t = "t\<lparr>evm_accounts := (evm_accounts t)(a \<mapsto> info\<lparr>contract_info_of := None\<rparr>)\<rparr>"
  have killed: "evm_on_killed_account cfg acc (s2\<lparr>evm_world := w'\<rparr>) = t"
    by (simp add: evm_on_killed_account_def dies(2) t_def s3_def)
  have "do_selfdestruct cfg (maintainer ci) a s = (Inr (), ?t)"
    using assms(1,2) info s3
    by (simp add: do_selfdestruct_def remove_contract_def transactional_def Let_def dies(1) s1_def [symmetric] s2 s2_def [symmetric] killed)
  moreover have "the_contract ?t b = Some cj" using assms(3,4) ct(2) by (simp add: the_contract_def)
  ultimately show ?thesis
    using ct(1) assms(5) by (auto simp: code_at_address_def code_hash_at_address_def)
qed

definition demo_killing_cfg :: "(evm_address, unit) evm_cfg" where
  "demo_killing_cfg = demo_evm_cfg\<lparr>ev_transfer_all := (\<lambda>x y s. (Inr (), evm_on_killed_account demo_evm_cfg x s))\<rparr>"

definition demo_contract :: contract_info where
  "demo_contract = \<lparr>code_hash_of = [7], maintainer = demo_user, deployed = False\<rparr>"

definition demo_shared :: "(evm_address, unit) evm_state" where
  "demo_shared = demo_chain\<lparr>evm_accounts := [[1] \<mapsto> new_account_info 1 (Some demo_contract), [2] \<mapsto> new_account_info 1 (Some demo_contract)],
     CodeInfos := [[7] \<mapsto> \<lparr>code_size = 3, ref_count = 2\<rparr>], Codes := [[7] \<mapsto> [4, 4, 4]]\<rparr>"

lemma demo_kills: "dies_when_emptied demo_killing_cfg a a"
proof -
  have id: "s\<lparr>evm_world := ()\<rparr> = s" for s :: "(evm_address, unit) evm_state" by (cases s) simp
  have "evm_on_killed_account demo_killing_cfg = evm_on_killed_account demo_evm_cfg"
    by (simp add: fun_eq_iff evm_on_killed_account_def demo_killing_cfg_def)
  then have kill: "ev_transfer_all demo_killing_cfg x y s = (Inr (), evm_on_killed_account demo_killing_cfg x s)" for x y s
    by (simp add: demo_killing_cfg_def)
  have "ev_mapping demo_killing_cfg = demo_mapping" "ev_currency demo_killing_cfg = demo_currency"
    by (simp_all add: demo_killing_cfg_def demo_evm_cfg_def)
  then show ?thesis
    using id by (auto simp: dies_when_emptied_def kill id demo_mapping_def demo_currency_def)
qed

theorem selfdestruct_frees_shared_code_witness:
  "code_at_address demo_killing_cfg demo_shared [2] = [4, 4, 4] \<and>
   (\<exists>t. do_selfdestruct demo_killing_cfg demo_user [1] demo_shared = (Inr (), t) \<and> code_at_address demo_killing_cfg t [2] = [])"
proof
  show "code_at_address demo_killing_cfg demo_shared [2] = [4, 4, 4]"
    by (simp add: code_at_address_def code_hash_at_address_def the_contract_def demo_shared_def new_account_info_def demo_contract_def)
  have c: "the_contract demo_shared [1] = Some demo_contract" "the_contract demo_shared [2] = Some demo_contract"
    by (simp_all add: the_contract_def demo_shared_def new_account_info_def)
  have i: "CodeInfos demo_shared (code_hash_of demo_contract) = Some \<lparr>code_size = 3, ref_count = 2\<rparr>"
    by (simp add: demo_shared_def demo_contract_def)
  from selfdestruct_frees_shared_code [OF c(1) _ _ c(2) refl i _ demo_kills]
  show "\<exists>t. do_selfdestruct demo_killing_cfg demo_user [1] demo_shared = (Inr (), t) \<and> code_at_address demo_killing_cfg t [2] = []"
    by (auto simp: demo_contract_def demo_killing_cfg_def demo_evm_cfg_def demo_mapping_def)
qed

section \<open>Executions that change nothing\<close>

text \<open>
  What static frames may do: add an event, and execute a precompile, which is not told that the frame is
  static and may write whatever it likes.
\<close>

inductive static_effect :: "('acc, 'w, 'g) engine \<Rightarrow> ('acc, 'w) evm_state \<Rightarrow> ('acc, 'w) evm_state \<Rightarrow> bool"
  for eng :: "('acc, 'w, 'g) engine" where
  static_event: "static_effect eng s (evm_deposit_event e s)"
| static_precompile: "static_effect eng s (snd (precompiles eng a input g c s))"

interpretation static_frames: frame_effects cfg eng True "(static_effect eng)\<^sup>*\<^sup>*"
  for cfg :: "('acc, 'w) evm_cfg" and eng :: "('acc, 'w, 'g) engine"
  by unfold_locales (auto intro: static_effect.intros)

text \<open>Whatever the precompiles leave alone, and events do not change, static effects leave alone.\<close>

definition only_events :: "('acc, 'w) evm_state \<Rightarrow> ('acc, 'w) evm_state \<Rightarrow> bool" where
  "only_events s t \<longleftrightarrow> (\<exists>es. t = s\<lparr>evm_events := evm_events s @ es\<rparr>)"

definition precompiles_read_only :: "('acc, 'w, 'g) engine \<Rightarrow> bool" where
  "precompiles_read_only eng \<longleftrightarrow> (\<forall>a input g c s. snd (precompiles eng a input g c s) = s)"

lemma static_effects_read_only:
  assumes "(static_effect eng)\<^sup>*\<^sup>* s t" and "precompiles_read_only eng"
  shows "only_events s t"
  using assms(1)
proof (induction rule: rtranclp_induct)
  case base
  have "s = s\<lparr>evm_events := evm_events s @ []\<rparr>" by simp
  then show ?case unfolding only_events_def by blast
next
  case (step t u)
  from step.hyps(2) have "only_events t u"
  proof cases
    case (static_event e)
    then show ?thesis by (auto simp: only_events_def evm_deposit_event_def)
  next
    case (static_precompile a input g c)
    then have "u = t\<lparr>evm_events := evm_events t @ []\<rparr>" using assms(2) by (simp add: precompiles_read_only_def)
    then show ?thesis unfolding only_events_def by blast
  qed
  with step.IH show ?case unfolding only_events_def by auto
qed

lemma try_commit:
  "try_or_rollback f err k st = Some (Commit r, y) \<Longrightarrow> \<exists>x st'. f st = (Inr x, st') \<and> k x st' = Some (Commit r, y)"
  by (auto simp: try_or_rollback_def split: prod.splits sum.splits)

lemma return_gas_commit: "return_gas eng err k x = Some (Commit r, y) \<Longrightarrow> \<exists>x'. k x' = Some (Commit r, y)"
  by (auto simp: return_gas_def Let_def dest!: try_commit)

lemma call_body_commit:
  assumes "call_body cfg eng rn ca transfer input tg ctx code x = Some (Commit (reason, out), y)"
  shows "succeeded reason"
  using assms
  by (auto simp: call_body_def Let_def succeeded_def dest!: try_commit return_gas_commit
    split: prod.splits option.splits sum.splits exit_reason.splits)

lemma run_sub_Inr:
  assumes "run_sub_transaction cfg eng gl a st f (h, s) = Some (Inr r, (h', s'))"
  shows "s' = s \<or> (\<exists>x y. f x = Some (Commit r, y))"
  using assms
  by (auto simp: run_sub_transaction_def Let_def split: if_splits prod.splits sum.splits option.splits outcome.splits)

lemma run_sub_Inl:
  assumes "run_sub_transaction cfg eng gl a st f (h, s) = Some (Inl e, (h', s'))"
  shows "s' = s"
  using assms
  by (auto simp: run_sub_transaction_def Let_def split: if_splits prod.splits sum.splits option.splits outcome.splits)

lemma failed_nested_call:
  assumes "handler_call cfg eng rn ca transfer input target st ctx (h, s) = Some ((reason, out), (h', s'))"
    and "\<not> succeeded reason"
  shows "s' = s"
proof (cases "is_static h \<and> transfer \<noteq> None")
  case True
  with assms(1) show ?thesis by (simp add: handler_call_def)
next
  case False
  define tg where "tg = (case transfer of
      Some t \<Rightarrow> if t_value t \<noteq> 0 then saturating_add (call_target_gas eng h target) (call_stipend (h_config h)) else call_target_gas eng h target
    | None \<Rightarrow> call_target_gas eng h target)"
  define sub where "sub = run_sub_transaction cfg eng tg (c_address ctx) (is_static h \<or> st)
      (call_body cfg eng rn ca transfer input tg ctx (code_at_address cfg s ca)) (h, s)"
  have res: "(case sub of None \<Rightarrow> None | Some (Inr r, y) \<Rightarrow> Some (r, y)
       | Some (Inl e, y) \<Rightarrow> Some ((Error (OtherExit (error_str eng e)), []), y)) = Some ((reason, out), (h', s'))"
    using assms(1) unfolding handler_call_def prod.case if_not_P [OF False] Let_def sub_def tg_def .
  then consider e where "sub = Some (Inl e, (h', s'))" | "sub = Some (Inr (reason, out), (h', s'))"
    by (auto split: option.splits prod.splits sum.splits)
  then show ?thesis
  proof cases
    case 1
    then show ?thesis unfolding sub_def by (rule run_sub_Inl)
  next
    case 2
    then have "s' = s \<or> (\<exists>x y. call_body cfg eng rn ca transfer input tg ctx (code_at_address cfg s ca) x = Some (Commit (reason, out), y))"
      unfolding sub_def by (rule run_sub_Inr)
    then show ?thesis using call_body_commit assms(2) by metis
  qed
qed

text \<open>
  (C8) A static call is static but for the precompiles: whatever the called code does, with whatever calls
  and creations inside it, a call made in static mode (and so without a transfer) changes the storage only
  by added events and by what the precompiles it executes write, which are not told that the call is static.
  If the precompiles write nothing, it only adds events; and if the call does not succeed, nothing at all
  is left of it, not even of the precompiles.
\<close>

theorem static_call_is_static:
  assumes "handler_call cfg eng (run cfg eng n) ca None input target True ctx (h, s) = Some ((reason, out), (h', s'))"
  shows "(static_effect eng)\<^sup>*\<^sup>* s s' \<and>
    (precompiles_read_only eng \<longrightarrow> (\<exists>es. s' = s\<lparr>evm_events := evm_events s @ es\<rparr>)) \<and>
    (\<not> succeeded reason \<longrightarrow> s' = s)"
proof -
  have "(static_effect eng)\<^sup>*\<^sup>* s s' \<and> keeps True h h'"
    by (rule static_frames.good_call [OF static_frames.run_good _ assms]) simp
  then show ?thesis using failed_nested_call [OF assms] static_effects_read_only [of eng s s'] by (simp add: only_events_def)
qed

definition demo_handler :: "unit handler" where
  "demo_handler = \<lparr>h_vicinity = default_vicinity demo_user, h_config = EVM_CONFIG, gasometer = (),
     storage_meter_of = \<lparr>meter_contract = [1], meter_limit = 500, total_used = 0, self_used = 0, total_refunded = 0,
       self_refunded = 0, meter_result = Inr ()\<rparr>, ancestors = [], is_static = False\<rparr>"

definition demo_logger :: "(evm_address, unit) evm_state" where
  "demo_logger = demo_chain\<lparr>evm_accounts := [[1] \<mapsto> new_account_info 1 (Some demo_contract)], Codes := [[7] \<mapsto> [2]]\<rparr>"

definition demo_context :: evm_context where
  "demo_context = \<lparr>c_address = [1], c_caller = demo_user, apparent_value = 0\<rparr>"

lemmas frame_eval = evm_eval handler_call_def call_target_gas_def code_at_address_def code_hash_at_address_def the_contract_def
  run_sub_transaction_def child_meter_def available_storage_def call_body_def try_or_rollback_def in_storage_def in_frame_def
  in_caller_gas_def return_gas_def with_chain_def run_request_def then_run_def set_storage_def handler_log_def
  saturating_add_def saturating_sub_def saturating_mul_def

theorem static_call_is_static_witness:
  "\<exists>reason out h'. handler_call demo_evm_cfg demo_engine (run demo_evm_cfg demo_engine 5) [1] None [] None True demo_context
     (demo_handler, demo_logger) = Some ((reason, out), (h', demo_logger)) \<and> \<not> succeeded reason"
proof -
  have "\<exists>h' s'. handler_call demo_evm_cfg demo_engine (run demo_evm_cfg demo_engine 5) [1] None [] None True demo_context
     (demo_handler, demo_logger) = Some ((Error OutOfGas, []), (h', s'))"
    by (simp add: demo_defs demo_handler_def demo_logger_def demo_context_def demo_contract_def frame_eval EVM_CONFIG_def)
  then obtain h' s' where call: "handler_call demo_evm_cfg demo_engine (run demo_evm_cfg demo_engine 5) [1] None [] None True demo_context
     (demo_handler, demo_logger) = Some ((Error OutOfGas, []), (h', s'))" by blast
  have "s' = demo_logger" using static_call_is_static [OF call] by (simp add: succeeded_def)
  with call show ?thesis by (auto simp: succeeded_def)
qed

lemma run_transaction_Inr:
  assumes "run_transaction cfg eng vic gl sl a st config f s = Some (Inr r, t)"
  shows "t = s \<or> (\<exists>x y. f x = Some (Commit r, y))"
  using assms by (auto simp: run_transaction_def Let_def split: prod.splits sum.splits option.splits outcome.splits)

lemma runner_call_body_commit:
  "runner_call_body cfg eng n snder target input v x = Some (Commit r, y) \<Longrightarrow> \<exists>info. r = Inr info \<and> succeeded (exit_reason_of info)"
  by (auto simp: runner_call_body_def Let_def split: prod.splits sum.splits option.splits if_splits)

lemma runner_call_failed:
  assumes "runner_call cfg eng n snder orig target input v gl sl config s = Some (Inr info, t)" and "\<not> succeeded (exit_reason_of info)"
  shows "t = inc_nonce snder s"
proof -
  have "flatten (run_transaction cfg eng (default_vicinity orig) gl sl target False config
      (runner_call_body cfg eng n snder target input v) (inc_nonce snder s)) = Some (Inr info, t)"
    using assms(1) by (simp add: runner_call_def split: if_splits)
  then have "run_transaction cfg eng (default_vicinity orig) gl sl target False config
      (runner_call_body cfg eng n snder target input v) (inc_nonce snder s) = Some (Inr (Inr info), t)"
    by (auto simp: flatten_def split: option.splits sum.splits)
  from run_transaction_Inr [OF this] show ?thesis using runner_call_body_commit assms(2) by blast
qed

lemma inner_create_body_commit:
  "inner_create_body cfg eng n src a init v x = Some (Commit r, y) \<Longrightarrow> \<exists>info. r = Inr info \<and> succeeded (create_exit_reason info)"
  by (auto simp: inner_create_body_def settle_create_def Let_def split: prod.splits sum.splits option.splits if_splits)

lemma inner_create_failed:
  assumes "inner_create cfg eng n src init v gl sl assigned salt config s = Some (Inr info, t)"
    and "\<not> succeeded (create_exit_reason info)"
  shows "t = inc_nonce src s"
proof -
  from assms(1) obtain a where "flatten (run_transaction cfg eng (default_vicinity src) gl sl a False config
      (inner_create_body cfg eng n src a init v) (inc_nonce src s)) = Some (Inr info, t)"
    by (auto simp: inner_create_def Let_def split: sum.splits option.splits)
  then have "run_transaction cfg eng (default_vicinity src) gl sl a False config
      (inner_create_body cfg eng n src a init v) (inc_nonce src s) = Some (Inr (Inr info), t)"
    by (auto simp: flatten_def split: option.splits sum.splits)
  from run_transaction_Inr [OF this] show ?thesis using inner_create_body_commit assms(2) by blast
qed

text \<open>How a signed call or creation ends, given how the runner's execution from the storage \<open>s1\<close> ended.\<close>

definition call_ends where
  "call_ends cfg src target gl s s1 x r t \<longleftrightarrow>
     (case x of
        (Inl e, _) \<Rightarrow> r = Inl e \<and> t = s
      | (Inr info, t1) \<Rightarrow> r = Inr (GasToWeight cfg (gas_u64 (used_gas info))) \<and>
          t = process_queued_events
            (if succeeded (exit_reason_of info)
             then evm_deposit_event (EV_Executed src target (gas_u64 (used_gas info)) (used_storage info)) t1
             else evm_deposit_event (EV_ExecutedFailed src target (exit_reason_of info) (call_output info) gl 0) (inc_nonce src s1)))"

definition create_ends where
  "create_ends cfg src gl s s1 x r t \<longleftrightarrow>
     (case x of
        (Inl e, _) \<Rightarrow> r = Inl e \<and> t = s
      | (Inr info, t1) \<Rightarrow> r = Inr (GasToWeight cfg (gas_u64 (create_used_gas info))) \<and>
          t = process_queued_events
            (if succeeded (create_exit_reason info) then t1
             else evm_deposit_event (EV_CreatedFailed src (create_address info) (create_exit_reason info) (create_output info) gl 0)
               (inc_nonce src s1)))"

lemma evm_call_call_ends:
  assumes "am_or_create (ev_mapping cfg) who s = (src, s1)"
    and "evm_call_call cfg eng fuel (Signed who) target input v gl sl s = Some (r, t)"
  obtains x where "runner_call cfg eng fuel src src target input v gl sl EVM_CONFIG s1 = Some x"
    "call_ends cfg src target gl s s1 x r t"
proof -
  obtain q t1 where run: "runner_call cfg eng fuel src src target input v gl sl EVM_CONFIG s1 = Some (q, t1)"
    using assms by (auto simp: evm_call_call_def transactional_run_def bind_run_def lift_op_def pure_def split: option.splits)
  have "call_ends cfg src target gl s s1 (q, t1) r t"
    using assms run runner_call_failed [of cfg eng fuel src src target input v gl sl EVM_CONFIG s1 _ t1]
    by (cases q) (auto simp: call_ends_def evm_call_call_def transactional_run_def bind_run_def lift_op_def pure_def executed_event_def)
  with run show thesis by (rule that)
qed

lemma created_ends:
  assumes "am_or_create (ev_mapping cfg) who s = (src, s1)"
    and "inner_create cfg eng fuel src init v gl sl None salt EVM_CONFIG s1 = Some x"
    and "evm_create_call cfg eng fuel (Signed who) init v gl sl s = Some (r, t) \<and> salt = None \<or>
      evm_create2_call cfg eng fuel (Signed who) init sa v gl sl s = Some (r, t) \<and> salt = Some sa"
  shows "create_ends cfg src gl s s1 x r t"
proof -
  obtain q t1 where x: "x = (q, t1)" by fastforce
  note run = assms(2) [unfolded x]
  show ?thesis
    using assms(1,3) run inner_create_failed [of cfg eng fuel src init v gl sl None salt EVM_CONFIG s1 _ t1]
    by (cases q) (auto simp: x create_ends_def evm_create_call_def evm_create2_call_def runner_create_def runner_create2_def
      transactional_run_def bind_run_def lift_op_def pure_def created_event_def)
qed

text \<open>
  (C33) Only successful executions leave a trace. A signed call or creation first looks up the sender's
  EVM address, which is created and stored for a sender without one, and then runs. If it is refused, with
  an error, nothing changes, the new address included. If it runs and fails, for whatever reason and after
  whatever it did, the storage is the one after the address was looked up, with the sender's nonce
  incremented, the event that reports the failure added and the events queued before it delivered, and
  nothing else; the weight charged is that of the gas used.
\<close>

theorem failed_execution_reverts:
  assumes "am_or_create (ev_mapping cfg) who s = (src, s1)"
  shows "(evm_call_call cfg eng fuel (Signed who) target input v gl sl s = Some (r, t) \<longrightarrow>
      (\<exists>x. runner_call cfg eng fuel src src target input v gl sl EVM_CONFIG s1 = Some x \<and> call_ends cfg src target gl s s1 x r t)) \<and>
    (evm_create_call cfg eng fuel (Signed who) init v gl sl s = Some (r, t) \<longrightarrow>
      (\<exists>x. runner_create cfg eng fuel src init v gl sl EVM_CONFIG s1 = Some x \<and> create_ends cfg src gl s s1 x r t)) \<and>
    (evm_create2_call cfg eng fuel (Signed who) init salt v gl sl s = Some (r, t) \<longrightarrow>
      (\<exists>x. runner_create2 cfg eng fuel src init salt v gl sl EVM_CONFIG s1 = Some x \<and> create_ends cfg src gl s s1 x r t))"
proof (intro conjI impI)
  show "\<exists>x. runner_call cfg eng fuel src src target input v gl sl EVM_CONFIG s1 = Some x \<and> call_ends cfg src target gl s s1 x r t"
    if "evm_call_call cfg eng fuel (Signed who) target input v gl sl s = Some (r, t)"
    using evm_call_call_ends [OF assms that] by blast
  assume create: "evm_create_call cfg eng fuel (Signed who) init v gl sl s = Some (r, t)"
  then obtain x where x: "runner_create cfg eng fuel src init v gl sl EVM_CONFIG s1 = Some x"
    using assms by (auto simp: evm_create_call_def transactional_run_def bind_run_def lift_op_def pure_def split: option.splits)
  then have "create_ends cfg src gl s s1 x r t" using created_ends [OF assms, where salt = None] create by (simp add: runner_create_def)
  with x show "\<exists>x. runner_create cfg eng fuel src init v gl sl EVM_CONFIG s1 = Some x \<and> create_ends cfg src gl s s1 x r t" by blast
next
  assume create: "evm_create2_call cfg eng fuel (Signed who) init salt v gl sl s = Some (r, t)"
  then obtain x where x: "runner_create2 cfg eng fuel src init salt v gl sl EVM_CONFIG s1 = Some x"
    using assms by (auto simp: evm_create2_call_def transactional_run_def bind_run_def lift_op_def pure_def split: option.splits)
  then have "create_ends cfg src gl s s1 x r t" using created_ends [OF assms, where salt = "Some salt" and sa = salt] create by (simp add: runner_create2_def)
  with x show "\<exists>x. runner_create2 cfg eng fuel src init salt v gl sl EVM_CONFIG s1 = Some x \<and> create_ends cfg src gl s s1 x r t" by blast
qed

definition demo_reverter :: "(evm_address, unit) evm_state" where
  "demo_reverter = demo_chain\<lparr>evm_accounts := [[1] \<mapsto> new_account_info 1 (Some (demo_contract\<lparr>deployed := True\<rparr>))], Codes := [[7] \<mapsto> [3]]\<rparr>"

lemma demo_revert:
  "\<exists>g u t. runner_call demo_evm_cfg demo_engine 5 demo_user demo_user [1] [] 0 100 500 EVM_CONFIG demo_reverter =
     Some (Inr \<lparr>exit_reason_of = Revert, call_output = [5], used_gas = g, used_storage = u\<rparr>, t)"
  by (simp add: runner_call_def is_undeployed_contract_def runner_call_body_def demo_defs demo_reverter_def demo_contract_def
    frame_eval EVM_CONFIG_def storage_change_of_def account_storages_def default_h256_def STORAGE_SIZE_def)

theorem failed_execution_reverts_witness:
  "\<exists>w. evm_call_call demo_evm_cfg demo_engine 5 (Signed demo_user) [1] [] 0 100 500 demo_reverter =
     Some (Inr w, process_queued_events (evm_deposit_event (EV_ExecutedFailed demo_user [1] Revert [5] 100 0)
       (inc_nonce demo_user demo_reverter)))"
proof -
  obtain g u t where run: "runner_call demo_evm_cfg demo_engine 5 demo_user demo_user [1] [] 0 100 500 EVM_CONFIG demo_reverter =
     Some (Inr \<lparr>exit_reason_of = Revert, call_output = [5], used_gas = g, used_storage = u\<rparr>, t)"
    using demo_revert by blast
  have map: "am_or_create (ev_mapping demo_evm_cfg) demo_user demo_reverter = (demo_user, demo_reverter)"
    by (simp add: demo_evm_cfg_def demo_mapping_def)
  then obtain w t' where call: "evm_call_call demo_evm_cfg demo_engine 5 (Signed demo_user) [1] [] 0 100 500 demo_reverter = Some (Inr w, t')"
    using run by (simp add: evm_call_call_def transactional_run_def bind_run_def lift_op_def pure_def)
  from failed_execution_reverts [OF map, THEN conjunct1, rule_format, OF call] run call show ?thesis
    by (auto simp: call_ends_def succeeded_def)
qed

section \<open>The addresses of system contracts\<close>

definition index_grows :: "('acc, 'w) evm_state \<Rightarrow> ('acc, 'w) evm_state \<Rightarrow> bool" where
  "index_grows s t \<longleftrightarrow> NetworkContractIndex s \<le> NetworkContractIndex t"

lemma index_steps:
  fixes cfg :: "('acc, 'w) evm_cfg" and eng :: "('acc, 'w, 'g) engine"
  assumes "pallets_within cfg eng ((outside cfg)\<^sup>*\<^sup>*)"
  shows "pallet_effects cfg eng index_grows"
proof -
  have keep: "NetworkContractIndex (snd (remove_account a s)) = NetworkContractIndex s"
    "NetworkContractIndex (set_contract a ci s) = NetworkContractIndex s"
    "NetworkContractIndex (ref_code h code s) = NetworkContractIndex s" for a ci h code and s :: "('acc, 'w) evm_state"
    by (auto simp: remove_account_def remove_prefix_def unref_code_def set_contract_def ref_code_def Let_def split: option.splits prod.splits)
  have out: "index_grows s t" if "outside cfg s t" for s t
    using that by induction
      (auto simp: index_grows_def evm_on_killed_account_def do_transfer_maintainer_def keep Let_def split: option.splits)
  have outs: "index_grows s t" if "(outside cfg)\<^sup>*\<^sup>* s t" for s t
    using that by induction (use out in \<open>auto simp: index_grows_def intro: order_trans\<close>)
  have "pallets_within cfg eng index_grows"
    by (rule pallets_within_mono [OF assms]) (rule outs)
  note pal = pallets_withinD [OF this, unfolded index_grows_def]
  have sat: "n \<le> saturating_add n 1" for n :: u64
    using unsigned_less [of n, where ?'a = nat] by (simp add: word_le_nat_alt unat_saturating_add)
  show ?thesis
    by unfold_locales
      (auto intro: pal out [unfolded index_grows_def] simp: index_grows_def evm_deposit_event_def queue_event_def inc_nonce_def
        process_queued_events_def on_contract_initialization_def Let_def keep sat)
qed

lemma from_low_u64_be_inj: "from_low_u64_be m = from_low_u64_be n \<longleftrightarrow> m = n"
proof
  assume "from_low_u64_be m = from_low_u64_be n"
  then have "be_nat (be_bytes 8 (unat m)) = be_nat (be_bytes 8 (unat n))" by (simp add: from_low_u64_be_def)
  then show "m = n"
    using unsigned_less [of m, where ?'a = nat] unsigned_less [of n, where ?'a = nat] by (simp add: be_nat_be_bytes word_eq_unat)
qed simp

lemma from_low_is_system: "starts_with SYSTEM_CONTRACT_ADDRESS_PREFIX (from_low_u64_be n)"
  by (simp add: starts_with_def SYSTEM_CONTRACT_ADDRESS_PREFIX_def from_low_u64_be_def)

text \<open>
  (C11) The address of a network contract is given once. After a network contract has been created, and
  after any further steps of the chain, the next network contract gets another address, and no address
  computed for a creation by users or contracts, whatever the hash function does, is that address.
\<close>

theorem network_address_given_once:
  assumes "pallets_within cfg eng ((outside cfg)\<^sup>*\<^sup>*)"
    and "create_network_contract_call cfg eng n orig init v gl sl s = Some (Inr w, t)"
    and "(evm_step cfg eng)\<^sup>*\<^sup>* t u" and "NetworkContractIndex s \<noteq> max_value"
  shows "from_low_u64_be (NetworkContractIndex u) \<noteq> from_low_u64_be (NetworkContractIndex s) \<and>
    create_address_of cfg eng u scheme \<noteq> Inr (from_low_u64_be (NetworkContractIndex s))"
proof
  note effects = index_steps [OF assms(1)]
  obtain info s1 where create: "create_at_address cfg eng n (NetworkContractSource (constants cfg)) init v
      (from_low_u64_be (NetworkContractIndex s)) gl sl EVM_CONFIG s = Some (Inr info, s1)"
    and t: "t = process_queued_events (created_event (NetworkContractSource (constants cfg)) gl info
        (s1\<lparr>NetworkContractIndex := saturating_add (NetworkContractIndex s1) 1\<rparr>))"
    using assms(2)
    by (auto simp: create_network_contract_call_def transactional_run_def bind_run_def lift_op_def ensure_def Let_def
      split: option.splits sum.splits if_splits)
  have "index_grows s s1"
    using create unfolding create_at_address_def
    by (rule frame_effects.inner_create_R [OF pallet_effects.axioms(1) [OF effects], rotated]) simp
  moreover have "NetworkContractIndex t = saturating_add (NetworkContractIndex s1) 1"
    by (simp add: t process_queued_events_def created_event_def evm_deposit_event_def)
  moreover have "index_grows t u" by (rule pallet_effects.steps_K [OF effects assms(3)])
  moreover have "unat (NetworkContractIndex s) < 2 ^ 64 - 1"
    using assms(4) unsigned_less [of "NetworkContractIndex s", where ?'a = nat] by (simp add: word_eq_unat unat_max_value)
  ultimately have "NetworkContractIndex s < NetworkContractIndex u"
    by (simp add: index_grows_def word_less_nat_alt word_le_nat_alt unat_saturating_add)
  then show "from_low_u64_be (NetworkContractIndex u) \<noteq> from_low_u64_be (NetworkContractIndex s)"
    by (simp add: from_low_u64_be_inj)
  show "create_address_of cfg eng u scheme \<noteq> Inr (from_low_u64_be (NetworkContractIndex s))"
    using from_low_is_system by (auto simp: create_address_of_def Let_def split: if_splits)
qed

definition "demo_network = create_network_contract_call demo_evm_cfg demo_engine 5 Root [4, 4] 0 100 2000 demo_chain"

theorem network_address_given_once_witness:
  "\<exists>w t. demo_network = Some (Inr w, t) \<and>
     from_low_u64_be (NetworkContractIndex t) \<noteq> from_low_u64_be NETWORK_CONTRACT_START"
proof -
  have "\<exists>w t. demo_network = Some (Inr w, t)"
    unfolding demo_network_def create_network_contract_call_def create_at_address_def
    by (simp add: demo_defs evm_eval EVM_CONFIG_def saturating_add_def saturating_sub_def saturating_mul_def)
  then obtain w t where net: "demo_network = Some (Inr w, t)" by blast
  have "NetworkContractIndex demo_chain \<noteq> max_value" by (simp add: demo_chain_def NETWORK_CONTRACT_START_def max_value_def)
  from network_address_given_once [OF demo_pallets net [unfolded demo_network_def] rtranclp.rtrancl_refl this]
  show ?thesis using net by (auto simp: demo_chain_def)
qed

end
