(* ===== verification/Staking_Types.thy ===== *)
theory Staking_Types
  imports Primitives
begin

text \<open>
  The data, the storage and the configuration of the staking pallet
  (\<^verbatim>\<open>modules/staking/src/lib.rs\<close>, \<^verbatim>\<open>modules/staking/src/pallet/mod.rs\<close>).

  The currency, the list of voters, the session pallet and the other pallets told of slashes are
  not part of this repository: their operations are fields of the configuration, each on a part of
  the storage of its own (\<open>staking_currency\<close>, \<open>voter_list\<close>, \<open>session\<close>). So are the fixed-point
  fractions of the framework, whose generic operations are taken on the values of the numbers
  involved. An imbalance of the currency is kept as its amount.
\<close>

section \<open>Data\<close>

type_synonym session_index = u32
type_synonym reward_point = u32
type_synonym span_index = u32
type_synonym vote_weight = u64

text \<open>A fraction is the number of its parts: of a billion, a hundred, or a billion billions.\<close>

type_synonym perbill = u32
type_synonym percent = u8
type_synonym perquintill = u64

record active_era_info =
  era_idx :: era_index
  era_start :: "u64 option"

record 'acc era_reward_points =
  points_total :: reward_point
  individual :: "'acc \<rightharpoonup> reward_point"

definition default_reward_points :: "'acc era_reward_points" where
  "default_reward_points = \<lparr>points_total = 0, individual = Map.empty\<rparr>"

datatype 'acc reward_destination =
  RD_Staked | RD_Stash | RD_Controller | RD_Account 'acc | RD_None

record validator_prefs =
  commission :: perbill
  blocked :: bool

definition default_prefs :: validator_prefs where
  "default_prefs = \<lparr>commission = 0, blocked = False\<rparr>"

record unlock_chunk =
  chunk_value :: balance
  chunk_era :: era_index

record 'acc staking_ledger =
  ledger_stash :: 'acc
  ledger_total :: balance
  ledger_active :: balance
  unlocking :: "unlock_chunk list"
  claimed_rewards :: "era_index list"

record 'acc nominations =
  targets :: "'acc list"
  submitted_in :: era_index
  suppressed :: bool

record 'acc individual_exposure =
  ie_who :: 'acc
  ie_value :: balance

record 'acc exposure =
  exp_total :: balance
  exp_own :: balance
  exp_others :: "'acc individual_exposure list"

definition default_exposure :: "'acc exposure" where
  "default_exposure = \<lparr>exp_total = 0, exp_own = 0, exp_others = []\<rparr>"

record 'acc unapplied_slash =
  us_validator :: 'acc
  us_own :: balance
  us_others :: "('acc \<times> balance) list"
  us_reporters :: "'acc list"
  us_payout :: balance

datatype forcing = NotForcing | ForceNew | ForceNone | ForceAlways

datatype disable_strategy = DS_Never | DS_WhenSlashed | DS_Always

datatype 'acc staker_status = Idle | Validator | Nominator "'acc list"

datatype 'a config_op = Noop | SetTo 'a | RemoveIt

text \<open>Slashing spans (\<^verbatim>\<open>modules/staking/src/slashing.rs\<close>).\<close>

record slashing_span =
  span_idx :: span_index
  span_start :: era_index
  span_length :: "era_index option"

record slashing_spans =
  spans_index :: span_index
  last_start :: era_index
  last_nonzero_slash :: era_index
  prior :: "era_index list"

record span_record =
  slashed :: balance
  paid_out :: balance

definition default_span_record :: span_record where
  "default_span_record = \<lparr>slashed = 0, paid_out = 0\<rparr>"

datatype 'acc staking_event =
  SE_EraPaid era_index balance balance
| SE_Rewarded 'acc balance
| SE_Slashed 'acc balance
| SE_SlashReported 'acc perbill era_index
| SE_OldSlashingReportDiscarded session_index
| SE_StakersElected
| SE_Bonded 'acc balance
| SE_Unbonded 'acc balance
| SE_Withdrawn 'acc balance
| SE_Kicked 'acc 'acc
| SE_StakingElectionFailed
| SE_Chilled 'acc
| SE_PayoutStarted era_index 'acc
| SE_ValidatorPrefsSet 'acc validator_prefs
| SE_ForceEra forcing

section \<open>Storage\<close>

text \<open>
  The two counted maps have their counters beside them. A double map is a map from pairs.
\<close>

record ('acc, 's, 'v, 'x) staking_state =
  ValidatorCount :: u32
  MinimumValidatorCount :: u32
  Invulnerables :: "'acc list"
  Bonded :: "'acc \<rightharpoonup> 'acc"
  MinNominatorBond :: balance
  MinValidatorBond :: balance
  MinimumActiveStake :: balance
  MinCommission :: perbill
  Ledger :: "'acc \<rightharpoonup> 'acc staking_ledger"
  Payee :: "'acc \<rightharpoonup> 'acc reward_destination"
  Validators :: "'acc \<rightharpoonup> validator_prefs"
  CounterForValidators :: u32
  MaxValidatorsCount :: "u32 option"
  Nominators :: "'acc \<rightharpoonup> 'acc nominations"
  CounterForNominators :: u32
  MaxNominatorsCount :: "u32 option"
  CurrentEra :: "era_index option"
  ActiveEra :: "active_era_info option"
  ErasStartSessionIndex :: "era_index \<rightharpoonup> session_index"
  ErasStakers :: "era_index \<times> 'acc \<rightharpoonup> 'acc exposure"
  ErasStakersClipped :: "era_index \<times> 'acc \<rightharpoonup> 'acc exposure"
  ErasValidatorPrefs :: "era_index \<times> 'acc \<rightharpoonup> validator_prefs"
  ErasValidatorReward :: "era_index \<rightharpoonup> balance"
  ErasRewardPoints :: "era_index \<rightharpoonup> 'acc era_reward_points"
  ErasTotalStake :: "era_index \<rightharpoonup> balance"
  ForceEra :: forcing
  SlashRewardFraction :: perbill
  CanceledSlashPayout :: balance
  UnappliedSlashes :: "era_index \<rightharpoonup> 'acc unapplied_slash list"
  BondedEras :: "(era_index \<times> session_index) list"
  ValidatorSlashInEra :: "era_index \<times> 'acc \<rightharpoonup> perbill \<times> balance"
  NominatorSlashInEra :: "era_index \<times> 'acc \<rightharpoonup> balance"
  SlashingSpans :: "'acc \<rightharpoonup> slashing_spans"
  SpanSlash :: "'acc \<times> span_index \<rightharpoonup> span_record"
  CurrentPlannedSession :: session_index
  OffendingValidators :: "(u32 \<times> bool) list"
  ChillThreshold :: "percent option"
  staking_events :: "'acc staking_event list"
  staking_currency :: 's
  voter_list :: 'v
  session :: 'x

section \<open>Configuration\<close>

record ('acc, 's) stake_currency =
  sc_minimum_balance :: balance
  sc_free_balance :: "'s \<Rightarrow> 'acc \<Rightarrow> balance"
  sc_total_balance :: "'s \<Rightarrow> 'acc \<Rightarrow> balance"
  sc_total_issuance :: "'s \<Rightarrow> balance"
  sc_set_lock :: "bytes \<Rightarrow> 'acc \<Rightarrow> balance \<Rightarrow> 's \<Rightarrow> 's"
  sc_remove_lock :: "bytes \<Rightarrow> 'acc \<Rightarrow> 's \<Rightarrow> 's"
  sc_deposit_creating :: "'acc \<Rightarrow> balance \<Rightarrow> 's \<Rightarrow> balance \<times> 's"
  sc_deposit_into_existing :: "'acc \<Rightarrow> balance \<Rightarrow> ('s, dispatch_error, balance) storage_op"
  sc_slash :: "'acc \<Rightarrow> balance \<Rightarrow> 's \<Rightarrow> (balance \<times> balance) \<times> 's"
  sc_issue :: "balance \<Rightarrow> 's \<Rightarrow> balance \<times> 's"
  sc_resolve_creating :: "'acc \<Rightarrow> balance \<Rightarrow> 's \<Rightarrow> 's"
  sc_inc_consumers :: "'acc \<Rightarrow> ('s, dispatch_error, unit) storage_op"
  sc_dec_consumers :: "'acc \<Rightarrow> 's \<Rightarrow> 's"

record ('acc, 'v) sorted_list_provider =
  vl_iter :: "'v \<Rightarrow> 'acc list"
  vl_count :: "'v \<Rightarrow> u32"
  vl_contains :: "'v \<Rightarrow> 'acc \<Rightarrow> bool"
  vl_on_insert :: "'acc \<Rightarrow> vote_weight \<Rightarrow> 'v \<Rightarrow> 'v"
  vl_on_update :: "'acc \<Rightarrow> vote_weight \<Rightarrow> 'v \<Rightarrow> 'v"
  vl_on_remove :: "'acc \<Rightarrow> 'v \<Rightarrow> 'v"

record fractions =
  perbill_mul :: "perbill \<Rightarrow> nat \<Rightarrow> nat"
  perbill_from_rational :: "nat \<Rightarrow> nat \<Rightarrow> perbill"
  percent_mul :: "percent \<Rightarrow> nat \<Rightarrow> nat"
  percent_mul_floor :: "percent \<Rightarrow> nat \<Rightarrow> nat"
  perquintill_from_rational_up :: "nat \<Rightarrow> nat \<Rightarrow> perquintill option"
  perquintill_mul_ceil :: "perquintill \<Rightarrow> nat \<Rightarrow> nat"

record ('acc, 'x) session_interface =
  disable_validator :: "u32 \<Rightarrow> 'x \<Rightarrow> 'x"
  session_validators :: "'x \<Rightarrow> 'acc list"
  prune_historical_up_to :: "session_index \<Rightarrow> 'x \<Rightarrow> 'x"

record ('acc, 'k, 's, 'v, 'x) staking_config =
  Currency :: "('acc, 's) stake_currency"
  to_vote :: "balance \<Rightarrow> balance \<Rightarrow> vote_weight"
  to_currency :: "u128 \<Rightarrow> balance \<Rightarrow> balance"
  MaxWinners :: u32
  MaxNominations :: u32
  HistoryDepth :: era_index
  RewardRemainder :: "balance \<Rightarrow> 's \<Rightarrow> 's"
  Slash :: "balance \<Rightarrow> 's \<Rightarrow> 's"
  Reward :: "balance \<Rightarrow> 's \<Rightarrow> 's"
  SessionsPerEra :: session_index
  BondingDuration :: era_index
  SlashDeferDuration :: era_index
  AdminOrigin :: "'acc origin \<Rightarrow> bool"
  SessionInterface :: "('acc, 'x) session_interface"
  EraPayout :: "balance \<Rightarrow> balance \<Rightarrow> u64 \<Rightarrow> balance \<times> balance"
  MaxNominatorRewardedPerValidator :: u32
  OffendingValidatorsThreshold :: perbill
  VoterList :: "('acc, 'v) sorted_list_provider"
  MaxUnlockingChunks :: u32
  OnStakerSlash :: "'acc \<Rightarrow> balance \<Rightarrow> (era_index \<rightharpoonup> balance) \<Rightarrow> 'x \<Rightarrow> 'x"
  Fractions :: fractions
  Lookup :: "'k \<Rightarrow> 'acc result"
  Unlookup :: "'acc \<Rightarrow> 'k"

definition STAKING_ID :: bytes where
  "STAKING_ID = [115, 116, 97, 107, 105, 110, 103, 32]"

definition perquintill_one :: perquintill where "perquintill_one = 1000000000000000000"

type_synonym ('acc, 's, 'v, 'x, 'a) staking_op =
  "(('acc, 's, 'v, 'x) staking_state, dispatch_error, 'a) storage_op"

abbreviation staking_fail :: "staking_error \<Rightarrow> dispatch_error" where
  "staking_fail e \<equiv> Module (Staking_Error e)"

definition times_perbill :: "('acc, 'k, 's, 'v, 'x) staking_config \<Rightarrow> perbill \<Rightarrow> 'a::len word \<Rightarrow> 'a word" where
  "times_perbill cfg p v = of_nat (perbill_mul (Fractions cfg) p (unat v))"

definition st_deposit_event :: "'acc staking_event \<Rightarrow> ('acc, 's, 'v, 'x) staking_state \<Rightarrow> ('acc, 's, 'v, 'x) staking_state" where
  "st_deposit_event e s = s\<lparr>staking_events := staking_events s @ [e]\<rparr>"

definition with_currency :: "('s \<Rightarrow> 's) \<Rightarrow> ('acc, 's, 'v, 'x) staking_state \<Rightarrow> ('acc, 's, 'v, 'x) staking_state" where
  "with_currency f s = s\<lparr>staking_currency := f (staking_currency s)\<rparr>"

definition with_voters :: "('v \<Rightarrow> 'v) \<Rightarrow> ('acc, 's, 'v, 'x) staking_state \<Rightarrow> ('acc, 's, 'v, 'x) staking_state" where
  "with_voters f s = s\<lparr>voter_list := f (voter_list s)\<rparr>"

definition with_session :: "('x \<Rightarrow> 'x) \<Rightarrow> ('acc, 's, 'v, 'x) staking_state \<Rightarrow> ('acc, 's, 'v, 'x) staking_state" where
  "with_session f s = s\<lparr>session := f (session s)\<rparr>"

end
