(* ===== verification/Staking_Ledger.thy ===== *)
theory Staking_Ledger
  imports Staking_Types
begin

text \<open>
  The ledger of a bonded stash (\<^verbatim>\<open>modules/staking/src/lib.rs\<close>, \<open>StakingLedger\<close>): releasing the chunks
  whose time has come, rebonding, and slashing, with the facts the pallet's theorems rest on. A
  ledger is balanced when its total is the active amount plus all the chunks; every operation keeps
  it so.
\<close>

section \<open>Operations\<close>

definition default_from :: "'acc \<Rightarrow> 'acc staking_ledger" where
  "default_from stash =
     \<lparr>ledger_stash = stash, ledger_total = 0, ledger_active = 0, unlocking = [], claimed_rewards = []\<rparr>"

definition consolidate_unlocked :: "'acc staking_ledger \<Rightarrow> era_index \<Rightarrow> 'acc staking_ledger" where
  "consolidate_unlocked l current_era =
     l\<lparr>ledger_total := foldl (\<lambda>t c. if current_era < chunk_era c then t else saturating_sub t (chunk_value c))
                         (ledger_total l) (unlocking l),
       unlocking := filter (\<lambda>c. current_era < chunk_era c) (unlocking l)\<rparr>"

text \<open>
  The loop of \<open>rebond\<close> pops the newest chunks while they fit and takes the rest out of the next
  one. In the second branch the loop always ends, which is part of its termination proof.
\<close>

function rebond_loop :: "balance \<Rightarrow> balance \<Rightarrow> 'acc staking_ledger \<Rightarrow> 'acc staking_ledger \<times> balance" where
  "rebond_loop v b l =
     (if unlocking l = [] then (l, b)
      else
        let c = last (unlocking l) in
        if b + chunk_value c \<le> v then
          let b1 = b + chunk_value c;
              l1 = l\<lparr>ledger_active := ledger_active l + chunk_value c, unlocking := butlast (unlocking l)\<rparr>
          in if v \<le> b1 then (l1, b1) else rebond_loop v b1 l1
        else
          let diff = v - b;
              b1 = b + diff;
              l1 = l\<lparr>ledger_active := ledger_active l + diff,
                     unlocking := butlast (unlocking l) @ [c\<lparr>chunk_value := chunk_value c - diff\<rparr>]\<rparr>
          in if v \<le> b1 then (l1, b1) else rebond_loop v b1 l1)"
  by pat_completeness auto
termination
  by (relation "measure (\<lambda>(v, b, l). length (unlocking l))") auto

declare rebond_loop.simps [simp del]

definition ledger_rebond :: "'acc staking_ledger \<Rightarrow> balance \<Rightarrow> 'acc staking_ledger \<times> balance" where
  "ledger_rebond l v = rebond_loop v 0 l"

text \<open>
  \<open>slash_out_of\<close> is the closure that slashes one part of the ledger; besides the part and the
  remaining slash it updates the total.
\<close>

definition slash_out_of ::
  "('acc, 'k, 's, 'v, 'x) staking_config \<Rightarrow> perquintill option \<Rightarrow> balance \<Rightarrow> balance \<Rightarrow> balance \<Rightarrow> balance \<Rightarrow>
     balance \<times> balance \<times> balance" where
  "slash_out_of cfg maybe_proportional minimum_balance target slash_remaining tot =
     (let slash_from_target =
            min (min (case maybe_proportional of
                        Some ratio \<Rightarrow> of_nat (perquintill_mul_ceil (Fractions cfg) ratio (unat target))
                      | None \<Rightarrow> slash_remaining) target) slash_remaining;
          target1 = target - slash_from_target;
          (target2, slash_from_target) =
            (if target1 < minimum_balance then (0, saturating_add target1 slash_from_target)
             else (target1, slash_from_target))
      in (target2, saturating_sub slash_remaining slash_from_target, saturating_sub tot slash_from_target))"

fun slash_chunks ::
  "('acc, 'k, 's, 'v, 'x) staking_config \<Rightarrow> perquintill option \<Rightarrow> balance \<Rightarrow> nat list \<Rightarrow>
     unlock_chunk list \<times> balance \<times> balance \<times> (era_index \<rightharpoonup> balance) \<Rightarrow>
     unlock_chunk list \<times> balance \<times> balance \<times> (era_index \<rightharpoonup> balance)" where
  "slash_chunks cfg mp mb [] st = st"
| "slash_chunks cfg mp mb (i # is) (u, remaining, tot, m) =
     (if remaining = 0 then (u, remaining, tot, m)
      else if i < length u then
        (case slash_out_of cfg mp mb (chunk_value (u ! i)) remaining tot of (v, remaining', tot') \<Rightarrow>
           slash_chunks cfg mp mb is
             (u[i := (u ! i)\<lparr>chunk_value := v\<rparr>], remaining', tot', m(chunk_era (u ! i) \<mapsto> v)))
      else (u, remaining, tot, m))"

fun position :: "('a \<Rightarrow> bool) \<Rightarrow> 'a list \<Rightarrow> nat option" where
  "position P [] = None"
| "position P (x # xs) = (if P x then Some 0 else map_option Suc (position P xs))"

definition slash_plan ::
  "('acc, 'k, 's, 'v, 'x) staking_config \<Rightarrow> balance \<Rightarrow> era_index \<Rightarrow> 'acc staking_ledger \<Rightarrow>
     perquintill option \<times> nat list" where
  "slash_plan cfg slash_amount slash_era l =
     (let n = length (unlocking l);
          slashable_chunks_start = slash_era + BondingDuration cfg
      in case position (\<lambda>c. slashable_chunks_start \<le> chunk_era c) (unlocking l) of
           Some first_slashable_index \<Rightarrow>
             let unbonding_affected_balance =
                   foldl (\<lambda>sum c. saturating_add sum (chunk_value c)) 0 (drop first_slashable_index (unlocking l));
                 affected_balance = saturating_add (ledger_active l) unbonding_affected_balance;
                 ratio = unwrap_or (perquintill_from_rational_up (Fractions cfg) (unat slash_amount) (unat affected_balance))
                           perquintill_one
             in (Some ratio, [first_slashable_index..<n] @ rev [0..<first_slashable_index])
         | None \<Rightarrow> (None, rev [0..<n]))"

definition ledger_slash ::
  "('acc, 'k, 's, 'v, 'x) staking_config \<Rightarrow> balance \<Rightarrow> balance \<Rightarrow> era_index \<Rightarrow> 'acc staking_ledger \<Rightarrow> 'x \<Rightarrow>
     balance \<times> 'acc staking_ledger \<times> 'x" where
  "ledger_slash cfg slash_amount minimum_balance slash_era l x =
     (if slash_amount = 0 then (0, l, x)
      else
        let (maybe_proportional, slash_chunks_priority) = slash_plan cfg slash_amount slash_era l;
            (active, remaining, tot) =
              slash_out_of cfg maybe_proportional minimum_balance (ledger_active l) slash_amount (ledger_total l);
            (u, remaining, tot, slashed_unlocking) =
              slash_chunks cfg maybe_proportional minimum_balance slash_chunks_priority (unlocking l, remaining, tot, Map.empty);
            l1 = l\<lparr>ledger_total := tot, ledger_active := active, unlocking := filter (\<lambda>c. chunk_value c \<noteq> 0) u\<rparr>
        in (saturating_sub (ledger_total l) tot, l1, OnStakerSlash cfg (ledger_stash l) active slashed_unlocking x))"

section \<open>Balanced ledgers\<close>

definition chunk_sum :: "unlock_chunk list \<Rightarrow> nat" where
  "chunk_sum u = (\<Sum>c\<leftarrow>u. unat (chunk_value c))"

definition balanced_ledger :: "'acc staking_ledger \<Rightarrow> bool" where
  "balanced_ledger l \<longleftrightarrow> unat (ledger_total l) = unat (ledger_active l) + chunk_sum (unlocking l)"

lemma chunk_sum_simps [simp]:
  "chunk_sum [] = 0" "chunk_sum (c # u) = unat (chunk_value c) + chunk_sum u"
  "chunk_sum (u @ v) = chunk_sum u + chunk_sum v"
  by (simp_all add: chunk_sum_def)

lemma chunk_sum_update:
  "i < length u \<Longrightarrow> chunk_sum (u[i := c]) + unat (chunk_value (u ! i)) = chunk_sum u + unat (chunk_value c)"
  by (induction u arbitrary: i) (auto simp: nth_Cons split: nat.splits)

lemma chunk_sum_nonzero: "chunk_sum (filter (\<lambda>c. chunk_value c \<noteq> 0) u) = chunk_sum u"
  by (induction u) auto

lemma chunk_sum_filter_le: "chunk_sum (filter P u) \<le> chunk_sum u"
  by (induction u) auto

lemma chunk_sum_butlast:
  "u \<noteq> [] \<Longrightarrow> chunk_sum u = chunk_sum (butlast u) + unat (chunk_value (last u))"
  by (induction u rule: rev_induct) auto

subsection \<open>Releasing chunks\<close>

lemma consolidate_total:
  "unat (foldl (\<lambda>t c. if now < chunk_era c then t else saturating_sub t (chunk_value c)) t u)
     = unat t - chunk_sum (filter (\<lambda>c. \<not> now < chunk_era c) u)"
  by (induction u arbitrary: t) (simp_all add: unat_saturating_sub)

lemma chunk_sum_partition: "chunk_sum (filter P u) + chunk_sum (filter (\<lambda>c. \<not> P c) u) = chunk_sum u"
  by (induction u) auto

lemma consolidate_balanced:
  assumes "balanced_ledger l"
  shows "balanced_ledger (consolidate_unlocked l now)"
    and "unat (ledger_total (consolidate_unlocked l now)) + chunk_sum (filter (\<lambda>c. \<not> now < chunk_era c) (unlocking l))
           = unat (ledger_total l)"
  using assms chunk_sum_partition [of "\<lambda>c. now < chunk_era c" "unlocking l"]
  by (auto simp: balanced_ledger_def consolidate_unlocked_def consolidate_total)

lemma consolidate_sel [simp]:
  "ledger_stash (consolidate_unlocked l now) = ledger_stash l"
  "ledger_active (consolidate_unlocked l now) = ledger_active l"
  "claimed_rewards (consolidate_unlocked l now) = claimed_rewards l"
  "unlocking (consolidate_unlocked l now) = filter (\<lambda>c. now < chunk_era c) (unlocking l)"
  by (simp_all add: consolidate_unlocked_def)

subsection \<open>Rebonding\<close>

lemma unat_plus_less: "unat a + unat b < 2 ^ LENGTH('a) \<Longrightarrow> unat (a + b :: 'a::len word) = unat a + unat b"
  by (simp add: unat_word_ariths)

lemma unat_minus_le: "b \<le> a \<Longrightarrow> unat (a - b :: 'a::len word) = unat a - unat b"
  by (simp add: unat_sub)

lemma rebond_loop_effect:
  assumes "rebond_loop v b l = (l', r)" and "b \<le> v" and "v \<noteq> 0 \<longrightarrow> b < v"
    and "balanced_ledger l"
    and "unat b + chunk_sum (unlocking l) < 2 ^ 128"
  shows "balanced_ledger l' \<and> ledger_total l' = ledger_total l \<and> ledger_stash l' = ledger_stash l \<and>
      claimed_rewards l' = claimed_rewards l \<and>
      unat r = min (unat v) (unat b + chunk_sum (unlocking l)) \<and>
      unat (ledger_active l') + unat b = unat (ledger_active l) + unat r \<and>
      length (unlocking l') \<le> length (unlocking l)"
  using assms
proof (induction v b l rule: rebond_loop.induct)
  case (1 v b l)
  let ?c = "last (unlocking l)"
  show ?case
  proof (cases "unlocking l = []")
    case True
    then show ?thesis using 1(3-) by (subst (asm) rebond_loop.simps) (auto simp: unat_order)
  next
    case False
    note split = chunk_sum_butlast [OF False]
    have tot: "unat (ledger_active l) + chunk_sum (unlocking l) < 2 ^ 128"
      using 1(6) unat_u128 [of "ledger_total l"] by (simp add: balanced_ledger_def)
    have c1: "unat (b + chunk_value ?c) = unat b + unat (chunk_value ?c)"
      using 1(7) split by (intro unat_plus_less) simp
    have c2: "unat (ledger_active l + chunk_value ?c) = unat (ledger_active l) + unat (chunk_value ?c)"
      using tot split by (intro unat_plus_less) simp
    show ?thesis
    proof (cases "b + chunk_value ?c \<le> v")
      case fits: True
      define l1 where "l1 = l\<lparr>ledger_active := ledger_active l + chunk_value ?c, unlocking := butlast (unlocking l)\<rparr>"
      have bal: "balanced_ledger l1"
        using 1(6) split c2 by (simp add: balanced_ledger_def l1_def)
      have eq: "rebond_loop v b l = (if v \<le> b + chunk_value ?c then (l1, b + chunk_value ?c) else rebond_loop v (b + chunk_value ?c) l1)"
        using False fits by (subst rebond_loop.simps) (simp add: Let_def l1_def)
      show ?thesis
      proof (cases "v \<le> b + chunk_value ?c")
        case True
        then have "l' = l1" "r = b + chunk_value ?c" using 1(3) eq by simp_all
        then show ?thesis using True fits bal c1 c2 split
          by (auto simp: l1_def unat_order)
      next
        case rec: False
        then have "rebond_loop v (b + chunk_value ?c) l1 = (l', r)" using 1(3) eq by simp
        from 1(1) [OF False refl fits refl _ rec this, unfolded l1_def [symmetric]] rec bal c1 split 1(7)
        show ?thesis
          using c2 by (auto simp: l1_def unat_order)
      qed
    next
      case part: False
      define l1 where "l1 = l\<lparr>ledger_active := ledger_active l + (v - b),
          unlocking := butlast (unlocking l) @ [?c\<lparr>chunk_value := chunk_value ?c - (v - b)\<rparr>]\<rparr>"
      have "rebond_loop v b l = (l1, v)"
        using False part by (subst rebond_loop.simps) (simp add: Let_def l1_def)
      then have r: "l' = l1" "r = v" using 1(3) by simp_all
      have d: "unat (v - b) = unat v - unat b" using 1(4) by (rule unat_minus_le)
      have lt: "unat v < unat b + unat (chunk_value ?c)" using part c1 by (simp add: unat_order)
      then have e: "unat (chunk_value ?c - (v - b)) = unat (chunk_value ?c) - (unat v - unat b)"
        using d by (subst unat_minus_le) (auto simp: unat_order)
      have a: "unat (ledger_active l + (v - b)) = unat (ledger_active l) + (unat v - unat b)"
        using tot split lt d by (subst unat_plus_less) auto
      have le: "unat b \<le> unat v" using 1(4) by (simp add: unat_order)
      show ?thesis
        using 1(6) split a e lt le False unfolding r
        by (auto simp: balanced_ledger_def l1_def)
    qed
  qed
qed

lemma ledger_rebond_effect:
  assumes "ledger_rebond l v = (l', r)" and "balanced_ledger l"
  shows "balanced_ledger l'" and "ledger_total l' = ledger_total l" and "ledger_stash l' = ledger_stash l"
    and "claimed_rewards l' = claimed_rewards l"
    and "unat r = min (unat v) (chunk_sum (unlocking l))"
    and "unat (ledger_active l') = unat (ledger_active l) + unat r"
    and "length (unlocking l') \<le> length (unlocking l)"
proof -
  have "chunk_sum (unlocking l) < 2 ^ 128"
    using assms(2) unat_u128 [of "ledger_total l"] by (simp add: balanced_ledger_def)
  with rebond_loop_effect [of v 0 l l' r] assms
  have *: "balanced_ledger l' \<and> ledger_total l' = ledger_total l \<and> ledger_stash l' = ledger_stash l \<and>
      claimed_rewards l' = claimed_rewards l \<and>
      unat r = min (unat v) (chunk_sum (unlocking l)) \<and>
      unat (ledger_active l') = unat (ledger_active l) + unat r \<and>
      length (unlocking l') \<le> length (unlocking l)"
    by (auto simp: ledger_rebond_def word_neq_0_conv)
  from * show "balanced_ledger l'" by blast
  from * show "ledger_total l' = ledger_total l" by blast
  from * show "ledger_stash l' = ledger_stash l" by blast
  from * show "claimed_rewards l' = claimed_rewards l" by blast
  from * show "unat r = min (unat v) (chunk_sum (unlocking l))" by blast
  from * show "unat (ledger_active l') = unat (ledger_active l) + unat r" by blast
  from * show "length (unlocking l') \<le> length (unlocking l)" by blast
qed

subsection \<open>Slashing\<close>

text \<open>
  What the pallet relies on of the fixed-point fractions: a fraction rounded up covers the ratio it
  was made from and never exceeds the whole, and no fraction is made of a ratio with denominator
  zero.
\<close>

definition fractions_cover :: "fractions \<Rightarrow> bool" where
  "fractions_cover fr \<longleftrightarrow>
     (\<forall>p q r. perquintill_from_rational_up fr p q = Some r \<longrightarrow>
        0 < q \<and> (\<forall>x. perquintill_mul_ceil fr r x \<le> x \<and> p * x \<le> q * perquintill_mul_ceil fr r x)) \<and>
     (\<forall>x. perquintill_mul_ceil fr perquintill_one x = x)"

text \<open>What is left undone of a part when the slash is not used up.\<close>

definition slashed_enough :: "('acc, 'k, 's, 'v, 'x) staking_config \<Rightarrow> perquintill option \<Rightarrow> nat \<Rightarrow> nat \<Rightarrow> bool" where
  "slashed_enough cfg mp t t' \<longleftrightarrow>
     (case mp of None \<Rightarrow> t' = 0 | Some r \<Rightarrow> t' + perquintill_mul_ceil (Fractions cfg) r t \<le> t)"

definition overshoot_ok :: "balance \<Rightarrow> nat \<Rightarrow> nat \<Rightarrow> bool" where
  "overshoot_ok mb remaining taken \<longleftrightarrow> taken \<le> remaining \<or> taken < remaining + unat mb"

lemma slash_out_of_effect:
  assumes "slash_out_of cfg mp mb t remaining tot = (t', remaining', tot')" and "unat t \<le> unat tot"
    and "\<And>r x. mp = Some r \<Longrightarrow> perquintill_mul_ceil (Fractions cfg) r x \<le> x"
  shows "\<exists>taken. unat t' + taken = unat t \<and> unat remaining' = unat remaining - taken \<and>
      unat tot' + taken = unat tot \<and> overshoot_ok mb (unat remaining) taken \<and>
      (remaining' = 0 \<or> slashed_enough cfg mp (unat t) (unat t'))"
proof -
  define want where "want = (case mp of Some ratio \<Rightarrow> of_nat (perquintill_mul_ceil (Fractions cfg) ratio (unat t))
      | None \<Rightarrow> remaining)"
  define first where "first = min (min want t) remaining"
  have f: "unat first \<le> unat t" "unat first \<le> unat remaining"
    by (simp_all add: first_def unat_min)
  have t1: "unat (t - first) = unat t - unat first" using f by (intro unat_minus_le) (simp add: unat_order)
  have w: "unat want = perquintill_mul_ceil (Fractions cfg) r (unat t)" if "mp = Some r" for r
    using assms(3) [OF that, of "unat t"] unat_u128 [of t] that
    by (simp add: want_def unat_of_nat)
  define dust where "dust = (t - first < mb)"
  define taken where "taken = (if dust then unat t else unat first)"
  have sat: "unat (saturating_add (t - first) first) = unat t"
    using f t1 unat_u128 [of t] by (simp add: unat_saturating_add)
  have eq: "t' = (if dust then 0 else t - first)"
    "remaining' = saturating_sub remaining (if dust then saturating_add (t - first) first else first)"
    "tot' = saturating_sub tot (if dust then saturating_add (t - first) first else first)"
    using assms(1) by (auto simp: slash_out_of_def Let_def want_def [symmetric] first_def [symmetric] dust_def split: if_splits)
  have "unat t' + taken = unat t" using eq f t1 by (simp add: taken_def)
  moreover have r: "unat remaining' = unat remaining - taken"
    using eq sat by (simp add: taken_def unat_saturating_sub)
  moreover have "unat tot' + taken = unat tot"
    using eq sat assms(2) f by (simp add: taken_def unat_saturating_sub)
  moreover have "overshoot_ok mb (unat remaining) taken"
    using f t1 by (auto simp: overshoot_ok_def taken_def dust_def unat_order)
  moreover have "remaining' = 0 \<or> slashed_enough cfg mp (unat t) (unat t')"
  proof (cases "first = remaining")
    case True
    then have "unat remaining' = 0" using r f by (auto simp: taken_def)
    then show ?thesis by (simp add: word_eq_unat)
  next
    case False
    then have "first = min want t" by (auto simp: first_def min_def split: if_splits)
    then have "slashed_enough cfg mp (unat t) (unat t')"
      using False w f t1 eq assms(3) [of _ "unat t"]
      by (auto simp: slashed_enough_def want_def unat_min min_def first_def unat_order split: option.splits if_splits)
    then show ?thesis ..
  qed
  ultimately show ?thesis by blast
qed

lemma overshoot_ok_add:
  "overshoot_ok mb n a \<Longrightarrow> overshoot_ok mb (n - a) b \<Longrightarrow> (n - a = 0 \<Longrightarrow> b = 0) \<Longrightarrow> overshoot_ok mb n (a + b)"
  by (cases "n \<le> a") (auto simp: overshoot_ok_def)

lemma slash_chunks_effect:
  assumes "slash_chunks cfg mp mb is (u, remaining, tot, m) = (u', remaining', tot', m')"
    and "chunk_sum u \<le> unat tot" and "set is \<subseteq> {..<length u}" and "distinct is"
    and "\<And>r x. mp = Some r \<Longrightarrow> perquintill_mul_ceil (Fractions cfg) r x \<le> x"
  shows "\<exists>taken. chunk_sum u' + taken = chunk_sum u \<and> unat remaining' = unat remaining - taken \<and>
      unat tot' + taken = unat tot \<and> overshoot_ok mb (unat remaining) taken \<and> (remaining = 0 \<longrightarrow> taken = 0) \<and>
      length u' = length u \<and>
      (\<forall>i < length u. unat (chunk_value (u' ! i)) \<le> unat (chunk_value (u ! i)) \<and> (i \<notin> set is \<longrightarrow> u' ! i = u ! i)) \<and>
      (remaining' = 0 \<or> (\<forall>i \<in> set is. slashed_enough cfg mp (unat (chunk_value (u ! i))) (unat (chunk_value (u' ! i)))))"
  using assms(1-4)
proof (induction "is" arbitrary: u remaining tot m)
  case Nil
  then show ?case by (auto simp: overshoot_ok_def)
next
  case (Cons i "is")
  show ?case
  proof (cases "remaining = 0")
    case True
    then show ?thesis using Cons.prems(1) by (auto simp: overshoot_ok_def)
  next
    case False
    have i: "i < length u" using Cons.prems(3) by simp
    obtain v rem1 tot1 where so: "slash_out_of cfg mp mb (chunk_value (u ! i)) remaining tot = (v, rem1, tot1)"
      by (cases "slash_out_of cfg mp mb (chunk_value (u ! i)) remaining tot") auto
    define u1 where "u1 = u[i := (u ! i)\<lparr>chunk_value := v\<rparr>]"
    have rest: "slash_chunks cfg mp mb is (u1, rem1, tot1, m(chunk_era (u ! i) \<mapsto> v)) = (u', remaining', tot', m')"
      using Cons.prems(1) False i so by (simp add: u1_def)
    have sum1: "chunk_sum u1 + unat (chunk_value (u ! i)) = chunk_sum u + unat v"
      using chunk_sum_update [OF i, of "(u ! i)\<lparr>chunk_value := v\<rparr>"] by (simp add: u1_def)
    have le: "unat (chunk_value (u ! i)) \<le> chunk_sum u"
      using i by (auto simp: chunk_sum_def intro: member_le_sum_list)
    then have "unat (chunk_value (u ! i)) \<le> unat tot" using Cons.prems(2) by simp
    from slash_out_of_effect [OF so this assms(5)]
    obtain t1 where t1: "unat v + t1 = unat (chunk_value (u ! i))" "unat rem1 = unat remaining - t1"
      "unat tot1 + t1 = unat tot" "overshoot_ok mb (unat remaining) t1"
      "rem1 = 0 \<or> slashed_enough cfg mp (unat (chunk_value (u ! i))) (unat v)" by blast
    have "chunk_sum u1 \<le> unat tot1" using sum1 t1 Cons.prems(2) by simp
    moreover have "set is \<subseteq> {..<length u1}" using Cons.prems(3) by (simp add: u1_def)
    ultimately obtain t2 where t2: "chunk_sum u' + t2 = chunk_sum u1" "unat remaining' = unat rem1 - t2"
      "unat tot' + t2 = unat tot1" "overshoot_ok mb (unat rem1) t2" "rem1 = 0 \<longrightarrow> t2 = 0" "length u' = length u1"
      "\<forall>j < length u1. unat (chunk_value (u' ! j)) \<le> unat (chunk_value (u1 ! j)) \<and> (j \<notin> set is \<longrightarrow> u' ! j = u1 ! j)"
      "remaining' = 0 \<or> (\<forall>j \<in> set is. slashed_enough cfg mp (unat (chunk_value (u1 ! j))) (unat (chunk_value (u' ! j))))"
      using Cons.IH [OF rest] Cons.prems(4) by auto
    have nth1: "u1 ! j = (if j = i then (u ! i)\<lparr>chunk_value := v\<rparr> else u ! j)" if "j < length u" for j
      using i that by (auto simp: u1_def nth_list_update)
    have len1: "length u1 = length u" by (simp add: u1_def)
    have last: "u' ! i = u1 ! i" using t2(7) i Cons.prems(4) by (auto simp: u1_def)
    have "overshoot_ok mb (unat remaining) (t1 + t2)"
      using overshoot_ok_add [OF t1(4), of t2] t1(2) t2(4,5) by (simp add: word_eq_unat)
    moreover have "\<forall>j < length u. unat (chunk_value (u' ! j)) \<le> unat (chunk_value (u ! j)) \<and>
        (j \<notin> set (i # is) \<longrightarrow> u' ! j = u ! j)"
    proof (intro allI impI)
      fix j assume "j < length u"
      then show "unat (chunk_value (u' ! j)) \<le> unat (chunk_value (u ! j)) \<and> (j \<notin> set (i # is) \<longrightarrow> u' ! j = u ! j)"
        using t2(7) [rule_format, of j] nth1 [of j] t1(1) len1 by (auto split: if_splits)
    qed
    moreover have "remaining' = 0 \<or>
        (\<forall>j \<in> set (i # is). slashed_enough cfg mp (unat (chunk_value (u ! j))) (unat (chunk_value (u' ! j))))"
    proof (cases "remaining' = 0")
      case False
      then have "rem1 \<noteq> 0" using t2(2) by (auto simp: word_eq_unat)
      moreover have "\<forall>j \<in> set is. u1 ! j = u ! j" using nth1 Cons.prems(3,4) by auto
      ultimately show ?thesis using False t1(5) t2(8) last nth1 [OF i] by auto
    qed simp
    moreover have "chunk_sum u' + (t1 + t2) = chunk_sum u" using sum1 t1(1) t2(1) by simp
    ultimately show ?thesis
      using False t1 t2 by (intro exI [of _ "t1 + t2"]) (auto simp: u1_def)
  qed
qed

lemma position_bound: "position P xs = Some n \<Longrightarrow> n < length xs"
  by (induction xs arbitrary: n) (auto split: if_splits)

lemma slash_plan_priority:
  assumes "slash_plan cfg a era l = (mp, is)"
  shows "set is = {..<length (unlocking l)}" and "distinct is"
proof -
  have "set is = {..<length (unlocking l)} \<and> distinct is"
  proof (cases "position (\<lambda>c. era + BondingDuration cfg \<le> chunk_era c) (unlocking l)")
    case None
    with assms show ?thesis by (auto simp: slash_plan_def)
  next
    case (Some n)
    with assms position_bound [OF Some] show ?thesis
      by (auto simp: slash_plan_def Let_def)
  qed
  then show "set is = {..<length (unlocking l)}" and "distinct is" by simp_all
qed

lemma slash_plan_ratio:
  assumes "slash_plan cfg a era l = (Some r, is)" and "fractions_cover (Fractions cfg)"
  shows "perquintill_mul_ceil (Fractions cfg) r x \<le> x"
  using assms by (auto simp: slash_plan_def Let_def fractions_cover_def unwrap_or_def split: option.splits)

lemma foldl_saturating_add_chunks:
  "unat t + chunk_sum u < 2 ^ 128 \<Longrightarrow>
     unat (foldl (\<lambda>sum c. saturating_add sum (chunk_value c)) t u) = unat t + chunk_sum u"
  by (induction u arbitrary: t) (simp_all add: unat_saturating_add)

lemma chunk_sum_drop_le: "chunk_sum (drop n u) \<le> chunk_sum u"
  by (metis append_take_drop_id chunk_sum_simps(3) le_add2)

lemma chunk_sum_zero_iff: "chunk_sum u = 0 \<longleftrightarrow> (\<forall>i < length u. unat (chunk_value (u ! i)) = 0)"
  by (simp add: chunk_sum_def all_set_conv_all_nth)

lemma chunk_sum_ratio:
  assumes "list_all2 (\<lambda>c c'. p * unat (chunk_value c) + q * unat (chunk_value c') \<le> q * unat (chunk_value c)) u u'"
  shows "p * chunk_sum u + q * chunk_sum u' \<le> q * chunk_sum u"
  using assms by (induction u u') (auto simp: algebra_simps)

text \<open>When no part of a proportional slash is left to do, all of it has been done.\<close>

lemma slash_plan_complete:
  assumes plan: "slash_plan cfg a era l = (mp, is)" and cover: "fractions_cover (Fractions cfg)"
    and bal: "balanced_ledger l" and len: "length u' = length (unlocking l)"
    and act: "slashed_enough cfg mp (unat (ledger_active l)) active'"
    and chunks: "\<forall>i < length (unlocking l). slashed_enough cfg mp (unat (chunk_value (unlocking l ! i))) (unat (chunk_value (u' ! i)))"
    and left: "active' + chunk_sum u' \<noteq> 0"
  shows "unat a + active' + chunk_sum u' \<le> unat (ledger_total l)"
proof (cases "position (\<lambda>c. era + BondingDuration cfg \<le> chunk_era c) (unlocking l)")
  case None
  with plan have "mp = None" by (simp add: slash_plan_def)
  with act chunks len have "active' = 0" "chunk_sum u' = 0"
    by (auto simp: slashed_enough_def chunk_sum_zero_iff)
  with left show ?thesis by simp
next
  case (Some n)
  let ?fr = "Fractions cfg"
  define q where "q = unat (ledger_active l) + chunk_sum (drop n (unlocking l))"
  have fits: "q \<le> unat (ledger_total l)" "unat (ledger_total l) < 2 ^ 128"
    using bal chunk_sum_drop_le [of n "unlocking l"] unat_u128 [of "ledger_total l"] by (auto simp: q_def balanced_ledger_def)
  have aff: "unat (saturating_add (ledger_active l)
      (foldl (\<lambda>sum c. saturating_add sum (chunk_value c)) 0 (drop n (unlocking l)))) = q"
    using fits foldl_saturating_add_chunks [of 0 "drop n (unlocking l)"] by (simp add: unat_saturating_add q_def)
  have mp: "mp = Some (unwrap_or (perquintill_from_rational_up ?fr (unat a) q) perquintill_one)"
    using plan Some aff by (auto simp: slash_plan_def Let_def)
  show ?thesis
  proof (cases "perquintill_from_rational_up ?fr (unat a) q")
    case None
    with mp have "mp = Some perquintill_one" by simp
    with act chunks len cover have "active' = 0" "chunk_sum u' = 0"
      by (auto simp: slashed_enough_def chunk_sum_zero_iff fractions_cover_def)
    with left show ?thesis by simp
  next
    case r: (Some r)
    have law: "0 < q" "\<And>x. unat a * x \<le> q * perquintill_mul_ceil ?fr r x"
      using cover r by (auto simp: fractions_cover_def)
    have part: "unat a * t + q * t' \<le> q * t" if "slashed_enough cfg mp t t'" for t t'
    proof -
      have "t' + perquintill_mul_ceil ?fr r t \<le> t" using that mp r by (simp add: slashed_enough_def)
      then have "q * t' + q * perquintill_mul_ceil ?fr r t \<le> q * t"
        by (metis add_mult_distrib2 mult_le_mono2)
      with law(2) [of t] show ?thesis by simp
    qed
    have "list_all2 (\<lambda>c c'. unat a * unat (chunk_value c) + q * unat (chunk_value c') \<le> q * unat (chunk_value c))
        (drop n (unlocking l)) (drop n u')"
      using chunks len part by (auto simp: list_all2_conv_all_nth)
    from chunk_sum_ratio [OF this] part [OF act]
    have "unat a * q + q * (active' + chunk_sum (drop n u')) \<le> q * q"
      by (simp add: q_def algebra_simps)
    then have "q * (unat a + active' + chunk_sum (drop n u')) \<le> q * q" by (simp add: algebra_simps)
    then have "unat a + active' + chunk_sum (drop n u') \<le> q" using law(1) by simp
    moreover have "chunk_sum (take n u') \<le> chunk_sum (take n (unlocking l))"
    proof -
      have "list_all2 (\<lambda>c c'. 0 * unat (chunk_value c) + 1 * unat (chunk_value c') \<le> 1 * unat (chunk_value c))
          (take n (unlocking l)) (take n u')"
        using chunks len mp by (auto simp: list_all2_conv_all_nth slashed_enough_def)
      from chunk_sum_ratio [OF this] show ?thesis by simp
    qed
    moreover have "chunk_sum u' = chunk_sum (take n u') + chunk_sum (drop n u')"
      "chunk_sum (unlocking l) = chunk_sum (take n (unlocking l)) + chunk_sum (drop n (unlocking l))"
      by (metis append_take_drop_id chunk_sum_simps(3))+
    ultimately show ?thesis using bal by (simp add: balanced_ledger_def q_def)
  qed
qed

lemma ledger_slash_effect:
  assumes slash: "ledger_slash cfg a mb era l x = (r, l', y)"
    and bal: "balanced_ledger l" and cover: "fractions_cover (Fractions cfg)"
  shows "balanced_ledger l'" and "unat (ledger_total l') + unat r = unat (ledger_total l)"
    and "overshoot_ok mb (unat a) (unat r)" and "min (unat a) (unat (ledger_total l)) \<le> unat r"
    and "ledger_stash l' = ledger_stash l" and "claimed_rewards l' = claimed_rewards l"
    and "length (unlocking l') \<le> length (unlocking l)"
proof -
  have "balanced_ledger l' \<and> unat (ledger_total l') + unat r = unat (ledger_total l) \<and>
      overshoot_ok mb (unat a) (unat r) \<and> min (unat a) (unat (ledger_total l)) \<le> unat r \<and>
      ledger_stash l' = ledger_stash l \<and> claimed_rewards l' = claimed_rewards l \<and>
      length (unlocking l') \<le> length (unlocking l)"
  proof (cases "a = 0")
    case True
    with slash bal show ?thesis by (simp add: ledger_slash_def overshoot_ok_def)
  next
    case False
    obtain mp "is" where plan: "slash_plan cfg a era l = (mp, is)" by (cases "slash_plan cfg a era l")
    obtain act rem1 tot1 where s1: "slash_out_of cfg mp mb (ledger_active l) a (ledger_total l) = (act, rem1, tot1)"
      by (cases "slash_out_of cfg mp mb (ledger_active l) a (ledger_total l)") auto
    obtain u' rem2 tot2 m where s2: "slash_chunks cfg mp mb is (unlocking l, rem1, tot1, Map.empty) = (u', rem2, tot2, m)"
      by (cases "slash_chunks cfg mp mb is (unlocking l, rem1, tot1, Map.empty)") auto
    have l': "l' = l\<lparr>ledger_total := tot2, ledger_active := act, unlocking := filter (\<lambda>c. chunk_value c \<noteq> 0) u'\<rparr>"
      and r: "r = saturating_sub (ledger_total l) tot2"
      using slash False plan s1 s2 by (auto simp: ledger_slash_def)
    have ratio: "\<And>r x. mp = Some r \<Longrightarrow> perquintill_mul_ceil (Fractions cfg) r x \<le> x"
      using slash_plan_ratio [OF _ cover] plan by blast
    have "unat (ledger_active l) \<le> unat (ledger_total l)" using bal by (simp add: balanced_ledger_def)
    from slash_out_of_effect [OF s1 this ratio]
    obtain t1 where t1: "unat act + t1 = unat (ledger_active l)" "unat rem1 = unat a - t1"
      "unat tot1 + t1 = unat (ledger_total l)" "overshoot_ok mb (unat a) t1"
      "rem1 = 0 \<or> slashed_enough cfg mp (unat (ledger_active l)) (unat act)" by blast
    have "chunk_sum (unlocking l) \<le> unat tot1" using bal t1 by (simp add: balanced_ledger_def)
    with slash_chunks_effect [OF s2 this] slash_plan_priority [OF plan] ratio
    obtain t2 where t2: "chunk_sum u' + t2 = chunk_sum (unlocking l)" "unat rem2 = unat rem1 - t2"
      "unat tot2 + t2 = unat tot1" "overshoot_ok mb (unat rem1) t2" "rem1 = 0 \<longrightarrow> t2 = 0"
      "length u' = length (unlocking l)"
      "rem2 = 0 \<or> (\<forall>i < length (unlocking l). slashed_enough cfg mp (unat (chunk_value (unlocking l ! i))) (unat (chunk_value (u' ! i))))"
      by auto
    have rr: "unat r = t1 + t2" using t1(3) t2(3) by (simp add: r unat_saturating_sub)
    have "overshoot_ok mb (unat a) (t1 + t2)"
      using overshoot_ok_add [OF t1(4), of t2] t1(2) t2(4,5) by (simp add: word_eq_unat)
    moreover have tot: "unat tot2 = unat act + chunk_sum u'"
      using bal t1(1,3) t2(1,3) by (simp add: balanced_ledger_def)
    moreover have "min (unat a) (unat (ledger_total l)) \<le> t1 + t2"
    proof (cases "rem2 = 0 \<or> unat act + chunk_sum u' = 0")
      case True
      then show ?thesis using t1 t2 tot by (auto simp: word_eq_unat)
    next
      case left: False
      then have "rem1 \<noteq> 0" using t2(2) by (auto simp: word_eq_unat)
      with left t1(5) t2(7) slash_plan_complete [OF plan cover bal t2(6), of "unat act"]
      have "unat a + unat act + chunk_sum u' \<le> unat (ledger_total l)" by auto
      then show ?thesis using t1 t2 tot by simp
    qed
    ultimately show ?thesis
      using rr t1 t2 by (auto simp: l' balanced_ledger_def chunk_sum_nonzero intro: le_trans [OF length_filter_le])
  qed
  then show "balanced_ledger l'" and "unat (ledger_total l') + unat r = unat (ledger_total l)"
    and "overshoot_ok mb (unat a) (unat r)" and "min (unat a) (unat (ledger_total l)) \<le> unat r"
    and "ledger_stash l' = ledger_stash l" and "claimed_rewards l' = claimed_rewards l"
    and "length (unlocking l') \<le> length (unlocking l)" by blast+
qed

end
