(* ===== verification/Staking_Spans.thy ===== *)
theory Staking_Spans
  imports Staking_Ledger
begin

text \<open>
  Slashing spans (\<^verbatim>\<open>modules/staking/src/slashing.rs\<close>): the eras of a stash are cut into spans, a new span
  starts after every slash, and within a span only the largest slash counts. The reference
  parameters of \<open>InspectingSpans\<close> are fields of its record; its \<open>Drop\<close> is \<open>drop_spans\<close>.
\<close>

section \<open>Spans\<close>

definition contains_era :: "slashing_span \<Rightarrow> era_index \<Rightarrow> bool" where
  "contains_era span era \<longleftrightarrow> span_start span \<le> era \<and>
     (case span_length span of None \<Rightarrow> True | Some l \<Rightarrow> era < span_start span + l)"

definition new_spans :: "era_index \<Rightarrow> slashing_spans" where
  "new_spans window_start = \<lparr>spans_index = 0, last_start = window_start, last_nonzero_slash = 0, prior = []\<rparr>"

definition spans_end_span :: "era_index \<Rightarrow> slashing_spans \<Rightarrow> bool \<times> slashing_spans" where
  "spans_end_span now sp =
     (let next_start = now + 1 in
      if next_start \<le> last_start sp then (False, sp)
      else (True, sp\<lparr>prior := (next_start - last_start sp) # prior sp, last_start := next_start,
                     spans_index := spans_index sp + 1\<rparr>))"

fun prior_spans :: "era_index \<Rightarrow> span_index \<Rightarrow> era_index list \<Rightarrow> slashing_span list" where
  "prior_spans ls i [] = []"
| "prior_spans ls i (len # ps) =
     \<lparr>span_idx = i - 1, span_start = ls - len, span_length = Some len\<rparr> # prior_spans (ls - len) (i - 1) ps"

definition spans_iter :: "slashing_spans \<Rightarrow> slashing_span list" where
  "spans_iter sp =
     \<lparr>span_idx = spans_index sp, span_start = last_start sp, span_length = None\<rparr> #
       prior_spans (last_start sp) (spans_index sp) (prior sp)"

definition spans_prune :: "era_index \<Rightarrow> slashing_spans \<Rightarrow> (span_index \<times> span_index) option \<times> slashing_spans" where
  "spans_prune window_start sp =
     (let old_idx = position (\<lambda>s. case span_length s of None \<Rightarrow> False | Some len \<Rightarrow> span_start s + len \<le> window_start)
                      (drop 1 (spans_iter sp));
          earliest_span_index = spans_index sp - of_nat (length (prior sp));
          (pruned, sp1) =
            (case old_idx of
               Some n \<Rightarrow>
                 let sp1 = sp\<lparr>prior := take n (prior sp)\<rparr>;
                     new_earliest = spans_index sp - of_nat (length (prior sp1))
                 in (Some (earliest_span_index, new_earliest), sp1)
             | None \<Rightarrow> (None, sp))
      in (pruned, sp1\<lparr>last_start := max (last_start sp1) window_start\<rparr>))"

section \<open>Inspecting the spans of a stash\<close>

record 'acc inspecting_spans =
  dirty :: bool
  window_start :: era_index
  insp_stash :: 'acc
  insp_spans :: slashing_spans
  insp_paid_out :: balance
  slash_of :: balance
  reward_proportion :: perbill

definition REWARD_F1 :: perbill where "REWARD_F1 = 500000000"

definition fetch_spans ::
  "'acc \<Rightarrow> era_index \<Rightarrow> balance \<Rightarrow> balance \<Rightarrow> perbill \<Rightarrow> ('acc, 's, 'v, 'x) staking_state \<Rightarrow>
     'acc inspecting_spans \<times> ('acc, 's, 'v, 'x) staking_state" where
  "fetch_spans stash win paid slash prop s =
     (let (spans, s1) =
            (case SlashingSpans s stash of
               Some spans \<Rightarrow> (spans, s)
             | None \<Rightarrow> (new_spans win, s\<lparr>SlashingSpans := (SlashingSpans s)(stash \<mapsto> new_spans win)\<rparr>))
      in (\<lparr>dirty = False, window_start = win, insp_stash = stash, insp_spans = spans,
           insp_paid_out = paid, slash_of = slash, reward_proportion = prop\<rparr>, s1))"

definition insp_end_span :: "era_index \<Rightarrow> 'acc inspecting_spans \<Rightarrow> 'acc inspecting_spans" where
  "insp_end_span now x =
     (case spans_end_span now (insp_spans x) of (d, sp) \<Rightarrow> x\<lparr>insp_spans := sp, dirty := d \<or> dirty x\<rparr>)"

definition add_slash :: "balance \<Rightarrow> era_index \<Rightarrow> 'acc inspecting_spans \<Rightarrow> 'acc inspecting_spans" where
  "add_slash amount slash_era x =
     x\<lparr>slash_of := slash_of x + amount,
       insp_spans := (insp_spans x)\<lparr>last_nonzero_slash := max (last_nonzero_slash (insp_spans x)) slash_era\<rparr>\<rparr>"

definition era_span :: "slashing_spans \<Rightarrow> era_index \<Rightarrow> slashing_span option" where
  "era_span sp era = List.find (\<lambda>span. contains_era span era) (spans_iter sp)"

definition span_reward :: "('acc, 'k, 's, 'v, 'x) staking_config \<Rightarrow> perbill \<Rightarrow> balance \<Rightarrow> span_record \<Rightarrow> balance" where
  "span_reward cfg prop slash r = times_perbill cfg REWARD_F1 (saturating_sub (times_perbill cfg prop slash) (paid_out r))"

definition compare_and_update_span_slash ::
  "('acc, 'k, 's, 'v, 'x) staking_config \<Rightarrow> era_index \<Rightarrow> balance \<Rightarrow> 'acc inspecting_spans \<Rightarrow> ('acc, 's, 'v, 'x) staking_state \<Rightarrow>
     span_index option \<times> 'acc inspecting_spans \<times> ('acc, 's, 'v, 'x) staking_state" where
  "compare_and_update_span_slash cfg slash_era slash x s =
     (case era_span (insp_spans x) slash_era of
        None \<Rightarrow> (None, x, s)
      | Some target_span \<Rightarrow>
          let key = (insp_stash x, span_idx target_span);
              r = unwrap_or (SpanSlash s key) default_span_record;
              (reward, r, x, changed) =
                (if slashed r < slash then
                   (span_reward cfg (reward_proportion x) slash r, r\<lparr>slashed := slash\<rparr>,
                    add_slash (slash - slashed r) slash_era x, True)
                 else if slashed r = slash then (span_reward cfg (reward_proportion x) slash r, r, x, False)
                 else (0, r, x, False));
              (r, x, changed) =
                (if reward \<noteq> 0 then
                   (r\<lparr>paid_out := paid_out r + reward\<rparr>, x\<lparr>insp_paid_out := insp_paid_out x + reward\<rparr>, True)
                 else (r, x, changed))
          in (Some (span_idx target_span),
              (if changed then x\<lparr>dirty := True\<rparr> else x),
              (if changed then s\<lparr>SpanSlash := (SpanSlash s)(key \<mapsto> r)\<rparr> else s)))"

definition remove_span_slashes ::
  "'acc \<Rightarrow> (span_index \<Rightarrow> bool) \<Rightarrow> ('acc, 's, 'v, 'x) staking_state \<Rightarrow> ('acc, 's, 'v, 'x) staking_state" where
  "remove_span_slashes stash P s =
     s\<lparr>SpanSlash := (\<lambda>k. if fst k = stash \<and> P (snd k) then None else SpanSlash s k)\<rparr>"

definition drop_spans :: "'acc inspecting_spans \<Rightarrow> ('acc, 's, 'v, 'x) staking_state \<Rightarrow> ('acc, 's, 'v, 'x) staking_state" where
  "drop_spans x s =
     (if \<not> dirty x then s
      else case spans_prune (window_start x) (insp_spans x) of (pruned, sp) \<Rightarrow>
        let s1 = (case pruned of
                    Some (start, end) \<Rightarrow> remove_span_slashes (insp_stash x) (\<lambda>i. start \<le> i \<and> i < end) s
                  | None \<Rightarrow> s)
        in s1\<lparr>SlashingSpans := (SlashingSpans s1)(insp_stash x \<mapsto> sp)\<rparr>)"

section \<open>Clearing\<close>

definition clear_era_metadata :: "era_index \<Rightarrow> ('acc, 's, 'v, 'x) staking_state \<Rightarrow> ('acc, 's, 'v, 'x) staking_state" where
  "clear_era_metadata e s =
     s\<lparr>ValidatorSlashInEra := (\<lambda>k. if fst k = e then None else ValidatorSlashInEra s k),
       NominatorSlashInEra := (\<lambda>k. if fst k = e then None else NominatorSlashInEra s k)\<rparr>"

definition clear_stash_metadata :: "'acc \<Rightarrow> u32 \<Rightarrow> ('acc, 's, 'v, 'x, unit) staking_op" where
  "clear_stash_metadata stash num_slashing_spans s =
     (case SlashingSpans s stash of
        None \<Rightarrow> ok () s
      | Some spans \<Rightarrow>
          bind_op (ensure (length (spans_iter spans) \<le> unat num_slashing_spans) (staking_fail IncorrectSlashingSpans)) (\<lambda>_.
          bind_op (modify_op (\<lambda>s. s\<lparr>SlashingSpans := (SlashingSpans s)(stash := None)\<rparr>)) (\<lambda>_.
          modify_op (remove_span_slashes stash (\<lambda>i. i \<in> span_idx ` set (spans_iter spans))))) s)"

section \<open>Spans partition the eras\<close>

text \<open>
  The spans of a stash are well formed when no offset reaches below era zero and there are at least
  as many indices as prior spans, so that neither subtraction of the iterator wraps around.
\<close>

definition spans_ok :: "slashing_spans \<Rightarrow> bool" where
  "spans_ok sp \<longleftrightarrow> sum_list (map unat (prior sp)) \<le> unat (last_start sp) \<and> length (prior sp) \<le> unat (spans_index sp)"

definition earliest_era :: "slashing_spans \<Rightarrow> nat" where
  "earliest_era sp = unat (last_start sp) - sum_list (map unat (prior sp))"

lemma contains_era_simps [simp]:
  "contains_era \<lparr>span_idx = i, span_start = b, span_length = None\<rparr> e \<longleftrightarrow> b \<le> e"
  "contains_era \<lparr>span_idx = i, span_start = b, span_length = Some l\<rparr> e \<longleftrightarrow> b \<le> e \<and> e < b + l"
  by (simp_all add: contains_era_def)

lemma length_prior_spans [simp]: "length (prior_spans ls i ps) = length ps"
  by (induction ps arbitrary: ls i) auto

lemma prior_spans_cover:
  assumes "sum_list (map unat ps) \<le> unat ls"
  shows "(\<exists>s \<in> set (prior_spans ls i ps). contains_era s e) \<longleftrightarrow>
    unat ls - sum_list (map unat ps) \<le> unat e \<and> e < ls"
  using assms
proof (induction ps arbitrary: ls i)
  case Nil
  then show ?case by (auto simp: unat_order)
next
  case (Cons len ps)
  have d: "unat (ls - len) = unat ls - unat len"
    using Cons.prems by (intro unat_minus_le) (simp add: unat_order)
  have "sum_list (map unat ps) \<le> unat (ls - len)" using Cons.prems d by simp
  from Cons.IH [OF this, of "i - 1"] d Cons.prems show ?case
    by (auto simp: unat_order)
qed

lemma prior_spans_unique:
  assumes "sum_list (map unat ps) \<le> unat ls"
    and "s \<in> set (prior_spans ls i ps)" "contains_era s e" "s' \<in> set (prior_spans ls i ps)" "contains_era s' e"
  shows "s = s'"
  using assms
proof (induction ps arbitrary: ls i)
  case Nil
  then show ?case by simp
next
  case (Cons len ps)
  have d: "unat (ls - len) = unat ls - unat len"
    using Cons.prems by (intro unat_minus_le) (simp add: unat_order)
  then have le: "sum_list (map unat ps) \<le> unat (ls - len)" using Cons.prems(1) by simp
  have below: "e < ls - len" if "t \<in> set (prior_spans (ls - len) (i - 1) ps)" "contains_era t e" for t
    using prior_spans_cover [OF le, of "i - 1" e] that by blast
  show ?case
    using Cons.prems(2-) Cons.IH [OF le, of "i - 1"] below by (auto simp: not_le [symmetric])
qed

lemma era_span_Some_iff:
  assumes "spans_ok sp"
  shows "era_span sp e = Some s \<longleftrightarrow> s \<in> set (spans_iter sp) \<and> contains_era s e"
proof -
  have le: "sum_list (map unat (prior sp)) \<le> unat (last_start sp)" using assms by (simp add: spans_ok_def)
  have uniq: "s = s'" if "s \<in> set (spans_iter sp)" "contains_era s e" "s' \<in> set (spans_iter sp)" "contains_era s' e" for s s'
  proof -
    have below: "e < last_start sp" if "t \<in> set (prior_spans (last_start sp) (spans_index sp) (prior sp))" "contains_era t e" for t
      using prior_spans_cover [OF le, of "spans_index sp" e] that by blast
    show ?thesis
      using that below prior_spans_unique [OF le, of _ "spans_index sp" e] by (auto simp: spans_iter_def not_le [symmetric])
  qed
  show ?thesis
  proof
    assume "era_span sp e = Some s"
    then show "s \<in> set (spans_iter sp) \<and> contains_era s e"
      by (auto simp: era_span_def find_Some_iff)
  next
    assume s: "s \<in> set (spans_iter sp) \<and> contains_era s e"
    then obtain s' where s': "era_span sp e = Some s'"
      unfolding era_span_def by (cases "List.find (\<lambda>span. contains_era span e) (spans_iter sp)") (auto simp: find_None_iff)
    then have "s' \<in> set (spans_iter sp) \<and> contains_era s' e"
      by (auto simp: era_span_def find_Some_iff)
    with s s' uniq show "era_span sp e = Some s" by blast
  qed
qed

lemma era_span_exists:
  assumes "spans_ok sp" and "earliest_era sp \<le> unat e"
  shows "\<exists>s. era_span sp e = Some s"
proof -
  have le: "sum_list (map unat (prior sp)) \<le> unat (last_start sp)" using assms by (simp add: spans_ok_def)
  have "\<exists>s \<in> set (spans_iter sp). contains_era s e"
  proof (cases "last_start sp \<le> e")
    case True
    then show ?thesis by (auto simp: spans_iter_def contains_era_def)
  next
    case False
    with prior_spans_cover [OF le, of "spans_index sp" e] assms(2) show ?thesis
      by (auto simp: spans_iter_def earliest_era_def)
  qed
  with era_span_Some_iff [OF assms(1)] show ?thesis by blast
qed

definition era_span_index :: "slashing_spans \<Rightarrow> era_index \<Rightarrow> span_index option" where
  "era_span_index sp e = map_option span_idx (era_span sp e)"

lemma spans_end_span_effect:
  assumes "spans_end_span now sp = (True, sp')" and "spans_ok sp"
    and "unat now + 1 < 2 ^ 32" and "unat (spans_index sp) + 1 < 2 ^ 32"
  shows "spans_ok sp'" and "earliest_era sp' = earliest_era sp"
    and "e \<le> now \<Longrightarrow> era_span_index sp' e = era_span_index sp e"
    and "now < e \<Longrightarrow> era_span_index sp' e = Some (spans_index sp + 1)"
proof -
  have nx: "unat (now + 1) = unat now + 1" using assms(3) by (simp add: unat_word_ariths)
  have ix: "unat (spans_index sp + 1) = unat (spans_index sp) + 1" using assms(4) by (simp add: unat_word_ariths)
  have lt: "last_start sp < now + 1" and sp': "sp' = sp\<lparr>prior := (now + 1 - last_start sp) # prior sp,
      last_start := now + 1, spans_index := spans_index sp + 1\<rparr>"
    using assms(1) by (auto simp: spans_end_span_def Let_def split: if_splits)
  have d: "unat (now + 1 - last_start sp) = unat now + 1 - unat (last_start sp)"
    using lt nx by (subst unat_minus_le) auto
  show ok': "spans_ok sp'" using assms(2) lt nx ix d by (auto simp: spans_ok_def sp' unat_order)
  show "earliest_era sp' = earliest_era sp" using assms(2) lt nx d by (auto simp: spans_ok_def sp' earliest_era_def unat_order)
  have iter: "spans_iter sp' = \<lparr>span_idx = spans_index sp + 1, span_start = now + 1, span_length = None\<rparr> #
      \<lparr>span_idx = spans_index sp, span_start = last_start sp, span_length = Some (now + 1 - last_start sp)\<rparr> #
      prior_spans (last_start sp) (spans_index sp) (prior sp)"
    by (simp add: spans_iter_def sp')
  show "era_span_index sp' e = era_span_index sp e" if "e \<le> now"
  proof -
    have "\<not> now + 1 \<le> e" "e < now + 1" using that nx by (auto simp: unat_order)
    then show ?thesis
      by (auto simp: era_span_index_def era_span_def iter spans_iter_def [of sp] contains_era_def)
  qed
  show "era_span_index sp' e = Some (spans_index sp + 1)" if "now < e"
  proof -
    have "now + 1 \<le> e" using that nx by (simp add: unat_order)
    then show ?thesis by (simp add: era_span_index_def era_span_def iter contains_era_def)
  qed
qed

lemma prior_spans_take: "prior_spans ls i (take n ps) = take n (prior_spans ls i ps)"
  by (induction ps arbitrary: ls i n) (auto simp: take_Cons split: nat.splits)

lemma position_drop:
  assumes "position P xs = Some n"
  shows "\<exists>y ys. drop n xs = y # ys \<and> P y"
  using assms by (induction xs arbitrary: n) (auto split: if_splits)

lemma sum_take_le: "sum_list (map unat (take n ps)) \<le> sum_list (map unat ps)"
  by (metis append_take_drop_id le_add1 map_append sum_list.append)

lemma prior_spans_drop:
  "drop n (prior_spans ls i ps) = y # ys \<Longrightarrow> sum_list (map unat ps) \<le> unat ls \<Longrightarrow> span_length y = Some len \<Longrightarrow>
     s \<in> set (drop n (prior_spans ls i ps)) \<Longrightarrow> contains_era s e \<Longrightarrow> e < span_start y + len"
proof (induction ps arbitrary: ls i n)
  case Nil
  then show ?case by simp
next
  case (Cons l ps)
  have d: "unat (ls - l) = unat ls - unat l"
    using Cons.prems(2) by (intro unat_minus_le) (simp add: unat_order)
  then have le: "sum_list (map unat ps) \<le> unat (ls - l)" using Cons.prems(2) by simp
  show ?case
  proof (cases n)
    case 0
    then have y: "y = \<lparr>span_idx = i - 1, span_start = ls - l, span_length = Some l\<rparr>" using Cons.prems(1) by simp
    have "\<exists>s \<in> set (prior_spans ls i (l # ps)). contains_era s e" using Cons.prems(4,5) 0 by auto
    then have "e < ls" using prior_spans_cover [OF Cons.prems(2)] by blast
    then show ?thesis using y Cons.prems(3) by simp
  next
    case (Suc m)
    then show ?thesis using Cons.IH [OF _ le, of m "i - 1"] Cons.prems by simp
  qed
qed

lemma find_drop:
  assumes "\<And>s. s \<in> set (drop n xs) \<Longrightarrow> \<not> P s"
  shows "List.find P (take n xs) = List.find P xs"
  using assms
proof (induction xs arbitrary: n)
  case (Cons x xs)
  then show ?case by (cases n) (auto simp: find_None_iff find_None_iff2)
qed simp

lemma spans_prune_effect:
  assumes "spans_prune w sp = (pruned, sp')" and "spans_ok sp"
  shows "spans_ok sp'" and "w \<le> e \<Longrightarrow> era_span_index sp' e = era_span_index sp e"
proof -
  let ?old = "\<lambda>s. case span_length s of None \<Rightarrow> False | Some len \<Rightarrow> span_start s + len \<le> w"
  let ?ps = "prior_spans (last_start sp) (spans_index sp) (prior sp)"
  have le: "sum_list (map unat (prior sp)) \<le> unat (last_start sp)" and n: "length (prior sp) \<le> unat (spans_index sp)"
    using assms(2) by (simp_all add: spans_ok_def)
  define m where "m = (case position ?old ?ps of None \<Rightarrow> length (prior sp) | Some k \<Rightarrow> k)"
  have sp': "sp' = sp\<lparr>prior := take m (prior sp), last_start := max (last_start sp) w\<rparr>"
    using assms(1) by (auto simp: spans_prune_def Let_def spans_iter_def m_def split: option.splits)
  have "sum_list (map unat (take m (prior sp))) \<le> unat (max (last_start sp) w)"
    using sum_take_le [of m "prior sp"] le by (auto simp: unat_max)
  then show "spans_ok sp'" using n by (simp add: spans_ok_def sp')
  have gone: "\<not> contains_era s e" if "s \<in> set (drop m ?ps)" "w \<le> e" for s
  proof (cases "position ?old ?ps")
    case None
    with that show ?thesis by (simp add: m_def)
  next
    case (Some k)
    then have k: "m = k" by (simp add: m_def)
    from position_drop [OF Some] obtain y ys where y: "drop k ?ps = y # ys" "?old y" by blast
    then obtain len where len: "span_length y = Some len" "span_start y + len \<le> w"
      by (auto split: option.splits)
    show ?thesis
      using prior_spans_drop [OF y(1) le len(1)] that len(2) k by fastforce
  qed
  show "era_span_index sp' e = era_span_index sp e" if "w \<le> e"
  proof (cases "w \<le> last_start sp")
    case True
    then have "sp' = sp\<lparr>prior := take m (prior sp)\<rparr>" by (simp add: sp' max_absorb1)
    then have "spans_iter sp' = \<lparr>span_idx = spans_index sp, span_start = last_start sp, span_length = None\<rparr> # take m ?ps"
      by (simp add: spans_iter_def prior_spans_take)
    moreover have "List.find (\<lambda>s. contains_era s e) (take m ?ps) = List.find (\<lambda>s. contains_era s e) ?ps"
      using gone that by (intro find_drop) blast
    ultimately show ?thesis by (simp add: era_span_index_def era_span_def spans_iter_def [of sp])
  next
    case False
    then have "last_start sp \<le> e" "w \<le> e" using that by auto
    moreover have "last_start sp' = w" using False by (auto simp: sp' max_def)
    moreover have "spans_index sp' = spans_index sp" by (simp add: sp')
    ultimately show ?thesis by (simp add: era_span_index_def era_span_def spans_iter_def contains_era_def)
  qed
qed

end
