(* ===== verification/Staking.thy ===== *)
theory Staking
  imports Staking_Spans
begin

text \<open>
  The staking pallet's calls (\<^verbatim>\<open>modules/staking/src/pallet/mod.rs\<close>) and the functions they are made of
  (\<^verbatim>\<open>modules/staking/src/pallet/impls.rs\<close>): bonding, unbonding and withdrawing, the roles of validator
  and nominator, and the root calls. Weights are left out.
\<close>

section \<open>Stake, locks and roles\<close>

definition slashable_balance_of :: "('acc, 's, 'v, 'x) staking_state \<Rightarrow> 'acc \<Rightarrow> balance" where
  "slashable_balance_of s stash =
     (case Bonded s stash of
        None \<Rightarrow> 0
      | Some controller \<Rightarrow> (case Ledger s controller of None \<Rightarrow> 0 | Some l \<Rightarrow> ledger_active l))"

definition weight_of :: "('acc, 'k, 's, 'v, 'x) staking_config \<Rightarrow> ('acc, 's, 'v, 'x) staking_state \<Rightarrow> 'acc \<Rightarrow> vote_weight" where
  "weight_of cfg s who =
     to_vote cfg (slashable_balance_of s who) (sc_total_issuance (Currency cfg) (staking_currency s))"

definition update_ledger ::
  "('acc, 'k, 's, 'v, 'x) staking_config \<Rightarrow> 'acc \<Rightarrow> 'acc staking_ledger \<Rightarrow> ('acc, 's, 'v, 'x) staking_state \<Rightarrow> ('acc, 's, 'v, 'x) staking_state" where
  "update_ledger cfg controller l s =
     (let s1 = with_currency (sc_set_lock (Currency cfg) STAKING_ID (ledger_stash l) (ledger_total l)) s
      in s1\<lparr>Ledger := (Ledger s1)(controller \<mapsto> l)\<rparr>)"

text \<open>The update of a staker in the list of voters, if they are in it.\<close>

definition update_voter :: "('acc, 'k, 's, 'v, 'x) staking_config \<Rightarrow> 'acc \<Rightarrow> 'acc \<Rightarrow> ('acc, 's, 'v, 'x) staking_state \<Rightarrow> ('acc, 's, 'v, 'x) staking_state" where
  "update_voter cfg voter stash s =
     (if vl_contains (VoterList cfg) (voter_list s) voter
      then with_voters (vl_on_update (VoterList cfg) voter (weight_of cfg s stash)) s else s)"

text \<open>
  A stored nomination that is longer than the bound of its vector cannot be decoded: the key exists
  and reading the value gives nothing.
\<close>

definition nominators_get :: "('acc, 'k, 's, 'v, 'x) staking_config \<Rightarrow> ('acc, 's, 'v, 'x) staking_state \<Rightarrow> 'acc \<Rightarrow> 'acc nominations option" where
  "nominators_get cfg s who =
     (case Nominators s who of
        None \<Rightarrow> None
      | Some n \<Rightarrow> if length (targets n) \<le> unat (MaxNominations cfg) then Some n else None)"

definition insert_nominator :: "'acc \<Rightarrow> 'acc nominations \<Rightarrow> ('acc, 's, 'v, 'x) staking_state \<Rightarrow> ('acc, 's, 'v, 'x) staking_state" where
  "insert_nominator who n s =
     s\<lparr>Nominators := (Nominators s)(who \<mapsto> n),
       CounterForNominators := (if Nominators s who = None then saturating_add (CounterForNominators s) 1 else CounterForNominators s)\<rparr>"

definition insert_validator :: "'acc \<Rightarrow> validator_prefs \<Rightarrow> ('acc, 's, 'v, 'x) staking_state \<Rightarrow> ('acc, 's, 'v, 'x) staking_state" where
  "insert_validator who p s =
     s\<lparr>Validators := (Validators s)(who \<mapsto> p),
       CounterForValidators := (if Validators s who = None then saturating_add (CounterForValidators s) 1 else CounterForValidators s)\<rparr>"

definition do_add_nominator ::
  "('acc, 'k, 's, 'v, 'x) staking_config \<Rightarrow> 'acc \<Rightarrow> 'acc nominations \<Rightarrow> ('acc, 's, 'v, 'x) staking_state \<Rightarrow> ('acc, 's, 'v, 'x) staking_state" where
  "do_add_nominator cfg who n s =
     insert_nominator who n
       (if Nominators s who = None then with_voters (vl_on_insert (VoterList cfg) who (weight_of cfg s who)) s else s)"

definition do_remove_nominator ::
  "('acc, 'k, 's, 'v, 'x) staking_config \<Rightarrow> 'acc \<Rightarrow> ('acc, 's, 'v, 'x) staking_state \<Rightarrow> bool \<times> ('acc, 's, 'v, 'x) staking_state" where
  "do_remove_nominator cfg who s =
     (if Nominators s who \<noteq> None then
        (True, with_voters (vl_on_remove (VoterList cfg) who)
                 (s\<lparr>Nominators := (Nominators s)(who := None), CounterForNominators := saturating_sub (CounterForNominators s) 1\<rparr>))
      else (False, s))"

definition do_add_validator ::
  "('acc, 'k, 's, 'v, 'x) staking_config \<Rightarrow> 'acc \<Rightarrow> validator_prefs \<Rightarrow> ('acc, 's, 'v, 'x) staking_state \<Rightarrow> ('acc, 's, 'v, 'x) staking_state" where
  "do_add_validator cfg who p s =
     insert_validator who p
       (if Validators s who = None then with_voters (vl_on_insert (VoterList cfg) who (weight_of cfg s who)) s else s)"

definition do_remove_validator ::
  "('acc, 'k, 's, 'v, 'x) staking_config \<Rightarrow> 'acc \<Rightarrow> ('acc, 's, 'v, 'x) staking_state \<Rightarrow> bool \<times> ('acc, 's, 'v, 'x) staking_state" where
  "do_remove_validator cfg who s =
     (if Validators s who \<noteq> None then
        (True, with_voters (vl_on_remove (VoterList cfg) who)
                 (s\<lparr>Validators := (Validators s)(who := None), CounterForValidators := saturating_sub (CounterForValidators s) 1\<rparr>))
      else (False, s))"

definition chill_stash :: "('acc, 'k, 's, 'v, 'x) staking_config \<Rightarrow> 'acc \<Rightarrow> ('acc, 's, 'v, 'x) staking_state \<Rightarrow> ('acc, 's, 'v, 'x) staking_state" where
  "chill_stash cfg stash s =
     (let (chilled_as_validator, s1) = do_remove_validator cfg stash s;
          (chilled_as_nominator, s2) = do_remove_nominator cfg stash s1
      in if chilled_as_validator \<or> chilled_as_nominator then st_deposit_event (SE_Chilled stash) s2 else s2)"

definition kill_stash :: "('acc, 'k, 's, 'v, 'x) staking_config \<Rightarrow> 'acc \<Rightarrow> u32 \<Rightarrow> ('acc, 's, 'v, 'x, unit) staking_op" where
  "kill_stash cfg stash num_slashing_spans s =
     bind_op (pure (ok_or (Bonded s stash) (staking_fail NotStash))) (\<lambda>controller.
     bind_op (clear_stash_metadata stash num_slashing_spans) (\<lambda>_.
     modify_op (\<lambda>s.
       let s1 = s\<lparr>Bonded := (Bonded s)(stash := None), Ledger := (Ledger s)(controller := None),
                   Payee := (Payee s)(stash := None)\<rparr>;
           s2 = snd (do_remove_validator cfg stash s1);
           s3 = snd (do_remove_nominator cfg stash s2)
       in with_currency (sc_dec_consumers (Currency cfg) stash) s3))) s"

definition set_force_era :: "forcing \<Rightarrow> ('acc, 's, 'v, 'x) staking_state \<Rightarrow> ('acc, 's, 'v, 'x) staking_state" where
  "set_force_era mode s = st_deposit_event (SE_ForceEra mode) (s\<lparr>ForceEra := mode\<rparr>)"

definition ensure_new_era :: "('acc, 's, 'v, 'x) staking_state \<Rightarrow> ('acc, 's, 'v, 'x) staking_state" where
  "ensure_new_era s =
     (case ForceEra s of ForceAlways \<Rightarrow> s | ForceNew \<Rightarrow> s | _ \<Rightarrow> set_force_era ForceNew s)"

definition get_ledger :: "'acc \<Rightarrow> ('acc, 's, 'v, 'x, 'acc staking_ledger) staking_op" where
  "get_ledger controller s = (ok_or (Ledger s controller) (staking_fail NotController), s)"

section \<open>Bonding\<close>

definition era_range :: "era_index \<Rightarrow> era_index \<Rightarrow> era_index list" where
  "era_range a b = map of_nat [unat a..<unat b]"

definition st_bond ::
  "('acc, 'k, 's, 'v, 'x) staking_config \<Rightarrow> 'acc origin \<Rightarrow> balance \<Rightarrow> 'acc reward_destination \<Rightarrow> ('acc, 's, 'v, 'x, unit) staking_op" where
  "st_bond cfg orig v payee =
     bind_op (pure (ensure_signed orig)) (\<lambda>stash s.
     bind_op (ensure (Bonded s stash = None) (staking_fail AlreadyBonded)) (\<lambda>_.
     bind_op (ensure (Ledger s stash = None) (staking_fail AlreadyPaired)) (\<lambda>_.
     bind_op (ensure (sc_minimum_balance (Currency cfg) \<le> v) (staking_fail InsufficientBond)) (\<lambda>_.
     bind_op (\<lambda>s. case sc_inc_consumers (Currency cfg) stash (staking_currency s) of
                     (Inl _, x) \<Rightarrow> (Inl (staking_fail BadState), s\<lparr>staking_currency := x\<rparr>)
                   | (Inr _, x) \<Rightarrow> (Inr (), s\<lparr>staking_currency := x\<rparr>)) (\<lambda>_.
     bind_op (modify_op (\<lambda>s. s\<lparr>Bonded := (Bonded s)(stash \<mapsto> stash), Payee := (Payee s)(stash \<mapsto> payee)\<rparr>)) (\<lambda>_ s.
     let current_era = unwrap_or (CurrentEra s) 0;
         last_reward_era = saturating_sub current_era (HistoryDepth cfg);
         stash_balance = sc_free_balance (Currency cfg) (staking_currency s) stash;
         value = min v stash_balance;
         claimed = era_range last_reward_era current_era
     in bind_op (modify_op (st_deposit_event (SE_Bonded stash value))) (\<lambda>_.
        bind_op (ensure (length claimed \<le> unat (HistoryDepth cfg)) (staking_fail BoundNotMet)) (\<lambda>_.
        modify_op (update_ledger cfg stash
          \<lparr>ledger_stash = stash, ledger_total = value, ledger_active = value, unlocking = [],
           claimed_rewards = claimed\<rparr>))) s))))) s)"

definition st_bond_extra ::
  "('acc, 'k, 's, 'v, 'x) staking_config \<Rightarrow> 'acc origin \<Rightarrow> balance \<Rightarrow> ('acc, 's, 'v, 'x, unit) staking_op" where
  "st_bond_extra cfg orig max_additional =
     bind_op (pure (ensure_signed orig)) (\<lambda>stash s.
     bind_op (pure (ok_or (Bonded s stash) (staking_fail NotStash))) (\<lambda>controller.
     bind_op (get_ledger controller) (\<lambda>l s.
     case checked_sub (sc_free_balance (Currency cfg) (staking_currency s) stash) (ledger_total l) of
       None \<Rightarrow> ok () s
     | Some extra \<Rightarrow>
         let extra = min extra max_additional;
             l1 = l\<lparr>ledger_total := ledger_total l + extra, ledger_active := ledger_active l + extra\<rparr>
         in bind_op (ensure (sc_minimum_balance (Currency cfg) \<le> ledger_active l1) (staking_fail InsufficientBond)) (\<lambda>_.
            modify_op (\<lambda>s. st_deposit_event (SE_Bonded stash extra) (update_voter cfg stash (ledger_stash l1)
              (update_ledger cfg controller l1 s)))) s)) s)"

definition do_withdraw_unbonded ::
  "('acc, 'k, 's, 'v, 'x) staking_config \<Rightarrow> 'acc \<Rightarrow> u32 \<Rightarrow> ('acc, 's, 'v, 'x, unit) staking_op" where
  "do_withdraw_unbonded cfg controller num_slashing_spans =
     bind_op (get_ledger controller) (\<lambda>l s.
     let stash = ledger_stash l;
         old_total = ledger_total l;
         l1 = (case CurrentEra s of Some current_era \<Rightarrow> consolidate_unlocked l current_era | None \<Rightarrow> l)
     in bind_op
          (if unlocking l1 = [] \<and> ledger_active l1 < sc_minimum_balance (Currency cfg) then
             bind_op (kill_stash cfg stash num_slashing_spans) (\<lambda>_.
             modify_op (with_currency (sc_remove_lock (Currency cfg) STAKING_ID stash)))
           else modify_op (update_ledger cfg controller l1)) (\<lambda>_.
        modify_op (\<lambda>s. if ledger_total l1 < old_total
                        then st_deposit_event (SE_Withdrawn stash (old_total - ledger_total l1)) s else s)) s)"

definition st_withdraw_unbonded ::
  "('acc, 'k, 's, 'v, 'x) staking_config \<Rightarrow> 'acc origin \<Rightarrow> u32 \<Rightarrow> ('acc, 's, 'v, 'x, unit) staking_op" where
  "st_withdraw_unbonded cfg orig num_slashing_spans =
     bind_op (pure (ensure_signed orig)) (\<lambda>controller. do_withdraw_unbonded cfg controller num_slashing_spans)"

text \<open>The ledger after unbonding: a chunk for the era exists already only as the last one.\<close>

definition push_chunk :: "('acc, 'k, 's, 'v, 'x) staking_config \<Rightarrow> balance \<Rightarrow> era_index \<Rightarrow> unlock_chunk list \<Rightarrow> unlock_chunk list result" where
  "push_chunk cfg v era u =
     (if u \<noteq> [] \<and> chunk_era (last u) = era
      then Inr (butlast u @ [(last u)\<lparr>chunk_value := saturating_add (chunk_value (last u)) v\<rparr>])
      else if length u < unat (MaxUnlockingChunks cfg) then Inr (u @ [\<lparr>chunk_value = v, chunk_era = era\<rparr>])
      else Inl (staking_fail NoMoreChunks))"

definition min_active_bond :: "('acc, 's, 'v, 'x) staking_state \<Rightarrow> 'acc \<Rightarrow> balance" where
  "min_active_bond s stash =
     (if Nominators s stash \<noteq> None then MinNominatorBond s
      else if Validators s stash \<noteq> None then MinValidatorBond s else 0)"

definition unbond_value ::
  "('acc, 'k, 's, 'v, 'x) staking_config \<Rightarrow> 'acc \<Rightarrow> 'acc staking_ledger \<Rightarrow> balance \<Rightarrow> ('acc, 's, 'v, 'x, unit) staking_op" where
  "unbond_value cfg controller l value s =
     (if value = 0 then ok () s
      else
        let active = ledger_active l - value;
            (value, active) = (if active < sc_minimum_balance (Currency cfg) then (value + active, 0) else (value, active))
        in bind_op (ensure (min_active_bond s (ledger_stash l) \<le> active) (staking_fail InsufficientBond)) (\<lambda>_.
           bind_op (pure (push_chunk cfg value (unwrap_or (CurrentEra s) 0 + BondingDuration cfg) (unlocking l))) (\<lambda>u.
           modify_op (\<lambda>s. st_deposit_event (SE_Unbonded (ledger_stash l) value)
             (update_voter cfg (ledger_stash l) (ledger_stash l) (update_ledger cfg controller (l\<lparr>ledger_active := active, unlocking := u\<rparr>) s))))) s)"

definition st_unbond ::
  "('acc, 'k, 's, 'v, 'x) staking_config \<Rightarrow> 'acc origin \<Rightarrow> balance \<Rightarrow> ('acc, 's, 'v, 'x, unit) staking_op" where
  "st_unbond cfg orig v =
     bind_op (pure (ensure_signed orig)) (\<lambda>controller.
     bind_op (get_ledger controller) (\<lambda>l0.
     bind_op (\<lambda>s. if length (unlocking l0) = unat (MaxUnlockingChunks cfg) then
                     do_withdraw_unbonded cfg controller
                       (case SlashingSpans s controller of None \<Rightarrow> 0 | Some sp \<Rightarrow> of_nat (length (spans_iter sp))) s
                   else ok () s) (\<lambda>_.
     bind_op (get_ledger controller) (\<lambda>l.
     bind_op (ensure (length (unlocking l) < unat (MaxUnlockingChunks cfg)) (staking_fail NoMoreChunks)) (\<lambda>_.
     unbond_value cfg controller l (min v (ledger_active l)))))))"

definition st_rebond ::
  "('acc, 'k, 's, 'v, 'x) staking_config \<Rightarrow> 'acc origin \<Rightarrow> balance \<Rightarrow> ('acc, 's, 'v, 'x, unit) staking_op" where
  "st_rebond cfg orig v =
     bind_op (pure (ensure_signed orig)) (\<lambda>controller.
     bind_op (get_ledger controller) (\<lambda>l.
     bind_op (ensure (unlocking l \<noteq> []) (staking_fail NoUnlockChunk)) (\<lambda>_.
     case ledger_rebond l v of (l1, rebonded_value) \<Rightarrow>
     bind_op (ensure (sc_minimum_balance (Currency cfg) \<le> ledger_active l1) (staking_fail InsufficientBond)) (\<lambda>_.
     modify_op (\<lambda>s. update_voter cfg (ledger_stash l1) (ledger_stash l1)
       (update_ledger cfg controller l1 (st_deposit_event (SE_Bonded (ledger_stash l1) rebonded_value) s)))))))"

definition st_force_unstake ::
  "('acc, 'k, 's, 'v, 'x) staking_config \<Rightarrow> 'acc origin \<Rightarrow> 'acc \<Rightarrow> u32 \<Rightarrow> ('acc, 's, 'v, 'x, unit) staking_op" where
  "st_force_unstake cfg orig stash num_slashing_spans =
     bind_op (pure (ensure_root orig)) (\<lambda>_.
     bind_op (kill_stash cfg stash num_slashing_spans) (\<lambda>_.
     modify_op (with_currency (sc_remove_lock (Currency cfg) STAKING_ID stash))))"

definition st_reap_stash ::
  "('acc, 'k, 's, 'v, 'x) staking_config \<Rightarrow> 'acc origin \<Rightarrow> 'acc \<Rightarrow> u32 \<Rightarrow> ('acc, 's, 'v, 'x, unit) staking_op" where
  "st_reap_stash cfg orig stash num_slashing_spans =
     bind_op (pure (ensure_signed orig)) (\<lambda>_ s.
     let ed = sc_minimum_balance (Currency cfg) in
     bind_op (if sc_total_balance (Currency cfg) (staking_currency s) stash < ed then ok True
              else bind_op (pure (ok_or (Bonded s stash) (staking_fail NotStash))) (\<lambda>controller.
                   ok (case Ledger s controller of None \<Rightarrow> 0 < ed | Some l \<Rightarrow> ledger_total l < ed))) (\<lambda>reapable.
     bind_op (ensure reapable (staking_fail FundedTarget)) (\<lambda>_.
     bind_op (kill_stash cfg stash num_slashing_spans) (\<lambda>_.
     modify_op (with_currency (sc_remove_lock (Currency cfg) STAKING_ID stash))))) s)"

section \<open>Roles\<close>

definition st_validate ::
  "('acc, 'k, 's, 'v, 'x) staking_config \<Rightarrow> 'acc origin \<Rightarrow> validator_prefs \<Rightarrow> ('acc, 's, 'v, 'x, unit) staking_op" where
  "st_validate cfg orig prefs =
     bind_op (pure (ensure_signed orig)) (\<lambda>controller.
     bind_op (get_ledger controller) (\<lambda>l s.
     let stash = ledger_stash l in
     bind_op (ensure (MinValidatorBond s \<le> ledger_active l) (staking_fail InsufficientBond)) (\<lambda>_.
     bind_op (ensure (MinCommission s \<le> commission prefs) (staking_fail CommissionTooLow)) (\<lambda>_.
     bind_op (ensure (Validators s stash \<noteq> None \<or>
                      (case MaxValidatorsCount s of None \<Rightarrow> True | Some n \<Rightarrow> CounterForValidators s < n))
                (staking_fail TooManyValidators)) (\<lambda>_.
     modify_op (\<lambda>s. st_deposit_event (SE_ValidatorPrefsSet stash prefs)
       (do_add_validator cfg stash prefs (snd (do_remove_nominator cfg stash s))))))) s))"

fun collect_targets ::
  "('acc, 'k, 's, 'v, 'x) staking_config \<Rightarrow> ('acc, 's, 'v, 'x) staking_state \<Rightarrow> 'acc list \<Rightarrow> 'k list \<Rightarrow> 'acc list result" where
  "collect_targets cfg s old [] = Inr []"
| "collect_targets cfg s old (t # ts) =
     (case Lookup cfg t of
        Inl e \<Rightarrow> Inl e
      | Inr n \<Rightarrow>
          if n \<in> set old \<or> \<not> blocked (unwrap_or (Validators s n) default_prefs) then
            (case collect_targets cfg s old ts of Inl e \<Rightarrow> Inl e | Inr ns \<Rightarrow> Inr (n # ns))
          else Inl (staking_fail BadTarget))"

definition st_nominate ::
  "('acc, 'k, 's, 'v, 'x) staking_config \<Rightarrow> 'acc origin \<Rightarrow> 'k list \<Rightarrow> ('acc, 's, 'v, 'x, unit) staking_op" where
  "st_nominate cfg orig tgts =
     bind_op (pure (ensure_signed orig)) (\<lambda>controller.
     bind_op (get_ledger controller) (\<lambda>l s.
     let stash = ledger_stash l in
     bind_op (ensure (MinNominatorBond s \<le> ledger_active l) (staking_fail InsufficientBond)) (\<lambda>_.
     bind_op (ensure (Nominators s stash \<noteq> None \<or>
                      (case MaxNominatorsCount s of None \<Rightarrow> True | Some n \<Rightarrow> CounterForNominators s < n))
                (staking_fail TooManyNominators)) (\<lambda>_.
     bind_op (ensure (tgts \<noteq> []) (staking_fail EmptyTargets)) (\<lambda>_.
     bind_op (ensure (length tgts \<le> unat (MaxNominations cfg)) (staking_fail TooManyTargets)) (\<lambda>_.
     bind_op (pure (collect_targets cfg s (case nominators_get cfg s stash of None \<Rightarrow> [] | Some n \<Rightarrow> targets n) tgts)) (\<lambda>ts.
     bind_op (ensure (length ts \<le> unat (MaxNominations cfg)) (staking_fail TooManyNominators)) (\<lambda>_.
     modify_op (\<lambda>s. do_add_nominator cfg stash
       \<lparr>targets = ts, submitted_in = unwrap_or (CurrentEra s) 0, suppressed = False\<rparr>
       (snd (do_remove_validator cfg stash s))))))))) s))"

definition st_chill :: "('acc, 'k, 's, 'v, 'x) staking_config \<Rightarrow> 'acc origin \<Rightarrow> ('acc, 's, 'v, 'x, unit) staking_op" where
  "st_chill cfg orig =
     bind_op (pure (ensure_signed orig)) (\<lambda>controller.
     bind_op (get_ledger controller) (\<lambda>l.
     modify_op (chill_stash cfg (ledger_stash l))))"

text \<open>The check of \<open>chill_other\<close> for one of the two roles.\<close>

definition ensure_over_threshold ::
  "('acc, 'k, 's, 'v, 'x) staking_config \<Rightarrow> percent \<Rightarrow> u32 option \<Rightarrow> u32 \<Rightarrow> ('acc, 's, 'v, 'x, unit) staking_op" where
  "ensure_over_threshold cfg threshold max_count current_count =
     bind_op (pure (ok_or max_count (staking_fail CannotChillOther))) (\<lambda>m.
     ensure ((of_nat (percent_mul (Fractions cfg) threshold (unat m)) :: u32) < current_count) (staking_fail CannotChillOther))"

definition st_chill_other ::
  "('acc, 'k, 's, 'v, 'x) staking_config \<Rightarrow> 'acc origin \<Rightarrow> 'acc \<Rightarrow> ('acc, 's, 'v, 'x, unit) staking_op" where
  "st_chill_other cfg orig controller =
     bind_op (pure (ensure_signed orig)) (\<lambda>caller.
     bind_op (get_ledger controller) (\<lambda>l s.
     let stash = ledger_stash l in
     if Nominators s stash \<noteq> None \<and> nominators_get cfg s stash = None then modify_op (chill_stash cfg stash) s
     else bind_op
       (if caller \<noteq> controller then
          bind_op (pure (ok_or (ChillThreshold s) (staking_fail CannotChillOther))) (\<lambda>threshold.
          bind_op
            (if Nominators s stash \<noteq> None then ensure_over_threshold cfg threshold (MaxNominatorsCount s) (CounterForNominators s)
             else if Validators s stash \<noteq> None then ensure_over_threshold cfg threshold (MaxValidatorsCount s) (CounterForValidators s)
             else ok ()) (\<lambda>_.
          ensure (ledger_active l < min_active_bond s stash) (staking_fail CannotChillOther)))
        else ok ()) (\<lambda>_. modify_op (chill_stash cfg stash)) s))"

definition swap_remove :: "nat \<Rightarrow> 'a list \<Rightarrow> 'a list" where
  "swap_remove i xs = butlast (xs[i := last xs])"

definition kick_one ::
  "('acc, 'k, 's, 'v, 'x) staking_config \<Rightarrow> 'acc \<Rightarrow> 'acc \<Rightarrow> ('acc, 's, 'v, 'x) staking_state \<Rightarrow> ('acc, 's, 'v, 'x) staking_state" where
  "kick_one cfg stash nom_stash s =
     (case nominators_get cfg s nom_stash of
        None \<Rightarrow> s\<lparr>Nominators := (Nominators s)(nom_stash := None)\<rparr>
      | Some nom \<Rightarrow>
          (case position (\<lambda>v. v = stash) (targets nom) of
             None \<Rightarrow> s
           | Some pos \<Rightarrow>
               st_deposit_event (SE_Kicked nom_stash stash)
                 (s\<lparr>Nominators := (Nominators s)(nom_stash \<mapsto> nom\<lparr>targets := swap_remove pos (targets nom)\<rparr>)\<rparr>)))"

fun lookup_all :: "('acc, 'k, 's, 'v, 'x) staking_config \<Rightarrow> 'k list \<Rightarrow> 'acc list result" where
  "lookup_all cfg [] = Inr []"
| "lookup_all cfg (k # ks) =
     (case Lookup cfg k of Inl e \<Rightarrow> Inl e
      | Inr a \<Rightarrow> (case lookup_all cfg ks of Inl e \<Rightarrow> Inl e | Inr as \<Rightarrow> Inr (a # as)))"

definition st_kick ::
  "('acc, 'k, 's, 'v, 'x) staking_config \<Rightarrow> 'acc origin \<Rightarrow> 'k list \<Rightarrow> ('acc, 's, 'v, 'x, unit) staking_op" where
  "st_kick cfg orig who =
     bind_op (pure (ensure_signed orig)) (\<lambda>controller.
     bind_op (get_ledger controller) (\<lambda>l.
     bind_op (pure (lookup_all cfg who)) (\<lambda>noms.
     modify_op (fold (kick_one cfg (ledger_stash l)) noms))))"

definition st_force_apply_min_commission :: "'acc origin \<Rightarrow> 'acc \<Rightarrow> ('acc, 's, 'v, 'x, unit) staking_op" where
  "st_force_apply_min_commission orig validator_stash =
     bind_op (pure (ensure_signed orig)) (\<lambda>_ s.
     bind_op (pure (ok_or (Validators s validator_stash) (staking_fail NotStash))) (\<lambda>prefs.
     modify_op (\<lambda>s. if commission prefs < MinCommission s
       then s\<lparr>Validators := (Validators s)(validator_stash \<mapsto> prefs\<lparr>commission := MinCommission s\<rparr>)\<rparr> else s)) s)"

section \<open>Payees and controllers\<close>

definition st_set_payee :: "'acc origin \<Rightarrow> 'acc reward_destination \<Rightarrow> ('acc, 's, 'v, 'x, unit) staking_op" where
  "st_set_payee orig payee =
     bind_op (pure (ensure_signed orig)) (\<lambda>controller.
     bind_op (get_ledger controller) (\<lambda>l.
     modify_op (\<lambda>s. s\<lparr>Payee := (Payee s)(ledger_stash l \<mapsto> payee)\<rparr>)))"

definition st_set_controller :: "'acc origin \<Rightarrow> ('acc, 's, 'v, 'x, unit) staking_op" where
  "st_set_controller orig =
     bind_op (pure (ensure_signed orig)) (\<lambda>stash s.
     bind_op (pure (ok_or (Bonded s stash) (staking_fail NotStash))) (\<lambda>old_controller.
     bind_op (ensure (Ledger s stash = None) (staking_fail AlreadyPaired)) (\<lambda>_.
     modify_op (\<lambda>s.
       if old_controller \<noteq> stash then
         let s1 = s\<lparr>Bonded := (Bonded s)(stash \<mapsto> stash)\<rparr> in
         (case Ledger s1 old_controller of
            Some l \<Rightarrow> s1\<lparr>Ledger := (Ledger s1)(old_controller := None, stash \<mapsto> l)\<rparr>
          | None \<Rightarrow> s1)
       else s))) s)"

section \<open>Parameters\<close>

definition put_validator_count :: "('acc, 'k, 's, 'v, 'x) staking_config \<Rightarrow> u32 \<Rightarrow> ('acc, 's, 'v, 'x, unit) staking_op" where
  "put_validator_count cfg n =
     bind_op (ensure (n \<le> MaxWinners cfg) (staking_fail TooManyValidators)) (\<lambda>_.
     modify_op (\<lambda>s. s\<lparr>ValidatorCount := n\<rparr>))"

definition st_set_validator_count ::
  "('acc, 'k, 's, 'v, 'x) staking_config \<Rightarrow> 'acc origin \<Rightarrow> u32 \<Rightarrow> ('acc, 's, 'v, 'x, unit) staking_op" where
  "st_set_validator_count cfg orig n = bind_op (pure (ensure_root orig)) (\<lambda>_. put_validator_count cfg n)"

definition st_increase_validator_count ::
  "('acc, 'k, 's, 'v, 'x) staking_config \<Rightarrow> 'acc origin \<Rightarrow> u32 \<Rightarrow> ('acc, 's, 'v, 'x, unit) staking_op" where
  "st_increase_validator_count cfg orig additional =
     bind_op (pure (ensure_root orig)) (\<lambda>_ s.
     bind_op (pure (ok_or (checked_add (ValidatorCount s) additional) (Arithmetic AE_Overflow))) (put_validator_count cfg) s)"

definition st_scale_validator_count ::
  "('acc, 'k, 's, 'v, 'x) staking_config \<Rightarrow> 'acc origin \<Rightarrow> percent \<Rightarrow> ('acc, 's, 'v, 'x, unit) staking_op" where
  "st_scale_validator_count cfg orig factor =
     bind_op (pure (ensure_root orig)) (\<lambda>_ s.
     let old = ValidatorCount s in
     bind_op (pure (ok_or (checked_add old (of_nat (percent_mul_floor (Fractions cfg) factor (unat old)))) (Arithmetic AE_Overflow)))
       (put_validator_count cfg) s)"

definition st_force :: "forcing \<Rightarrow> 'acc origin \<Rightarrow> ('acc, 's, 'v, 'x, unit) staking_op" where
  "st_force mode orig = bind_op (pure (ensure_root orig)) (\<lambda>_. modify_op (set_force_era mode))"

definition st_force_no_eras :: "'acc origin \<Rightarrow> ('acc, 's, 'v, 'x, unit) staking_op" where
  "st_force_no_eras = st_force ForceNone"

definition st_force_new_era :: "'acc origin \<Rightarrow> ('acc, 's, 'v, 'x, unit) staking_op" where
  "st_force_new_era = st_force ForceNew"

definition st_force_new_era_always :: "'acc origin \<Rightarrow> ('acc, 's, 'v, 'x, unit) staking_op" where
  "st_force_new_era_always = st_force ForceAlways"

definition st_set_invulnerables :: "'acc origin \<Rightarrow> 'acc list \<Rightarrow> ('acc, 's, 'v, 'x, unit) staking_op" where
  "st_set_invulnerables orig accs =
     bind_op (pure (ensure_root orig)) (\<lambda>_. modify_op (\<lambda>s. s\<lparr>Invulnerables := accs\<rparr>))"

fun is_sorted_and_unique :: "u32 list \<Rightarrow> bool" where
  "is_sorted_and_unique (a # b # xs) \<longleftrightarrow> a < b \<and> is_sorted_and_unique (b # xs)"
| "is_sorted_and_unique _ \<longleftrightarrow> True"

fun remove_indices :: "nat \<Rightarrow> u32 list \<Rightarrow> 'a list \<Rightarrow> 'a list" where
  "remove_indices removed [] u = u"
| "remove_indices removed (i # is) u =
     (let j = unat i - removed in remove_indices (removed + 1) is (take j u @ drop (j + 1) u))"

definition st_cancel_deferred_slash ::
  "('acc, 'k, 's, 'v, 'x) staking_config \<Rightarrow> 'acc origin \<Rightarrow> era_index \<Rightarrow> u32 list \<Rightarrow> ('acc, 's, 'v, 'x, unit) staking_op" where
  "st_cancel_deferred_slash cfg orig era slash_indices =
     bind_op (ensure (AdminOrigin cfg orig) BadOrigin) (\<lambda>_.
     bind_op (ensure (slash_indices \<noteq> []) (staking_fail EmptyTargets)) (\<lambda>_.
     bind_op (ensure (is_sorted_and_unique slash_indices) (staking_fail NotSortedAndUnique)) (\<lambda>_ s.
     let unapplied = unwrap_or (UnappliedSlashes s era) [] in
     bind_op (ensure (unat (last slash_indices) < length unapplied) (staking_fail InvalidSlashIndex)) (\<lambda>_.
     modify_op (\<lambda>s. s\<lparr>UnappliedSlashes := (UnappliedSlashes s)(era \<mapsto> remove_indices 0 slash_indices unapplied)\<rparr>)) s)))"

fun config_op_value :: "'a \<Rightarrow> 'a config_op \<Rightarrow> 'a \<Rightarrow> 'a" where
  "config_op_value d Noop x = x"
| "config_op_value d (SetTo v) x = v"
| "config_op_value d RemoveIt x = d"

fun config_op_option :: "'a config_op \<Rightarrow> 'a option \<Rightarrow> 'a option" where
  "config_op_option Noop x = x"
| "config_op_option (SetTo v) x = Some v"
| "config_op_option RemoveIt x = None"

definition st_set_staking_configs ::
  "'acc origin \<Rightarrow> balance config_op \<Rightarrow> balance config_op \<Rightarrow> u32 config_op \<Rightarrow> u32 config_op \<Rightarrow> percent config_op \<Rightarrow> perbill config_op \<Rightarrow>
     ('acc, 's, 'v, 'x, unit) staking_op" where
  "st_set_staking_configs orig min_nominator_bond min_validator_bond max_nominator_count max_validator_count chill_threshold min_commission =
     bind_op (pure (ensure_root orig)) (\<lambda>_.
     modify_op (\<lambda>s. s\<lparr>MinNominatorBond := config_op_value 0 min_nominator_bond (MinNominatorBond s),
                       MinValidatorBond := config_op_value 0 min_validator_bond (MinValidatorBond s),
                       MaxNominatorsCount := config_op_option max_nominator_count (MaxNominatorsCount s),
                       MaxValidatorsCount := config_op_option max_validator_count (MaxValidatorsCount s),
                       ChillThreshold := config_op_option chill_threshold (ChillThreshold s),
                       MinCommission := config_op_value 0 min_commission (MinCommission s)\<rparr>))"

definition st_set_min_commission ::
  "('acc, 'k, 's, 'v, 'x) staking_config \<Rightarrow> 'acc origin \<Rightarrow> perbill \<Rightarrow> ('acc, 's, 'v, 'x, unit) staking_op" where
  "st_set_min_commission cfg orig n =
     bind_op (ensure (AdminOrigin cfg orig) BadOrigin) (\<lambda>_. modify_op (\<lambda>s. s\<lparr>MinCommission := n\<rparr>))"

end
