(* ===== verification/Staking_Slashing.thy ===== *)
theory Staking_Slashing
  imports Staking
begin

text \<open>
  Computing and applying slashes (\<^verbatim>\<open>modules/staking/src/slashing.rs\<close>). Variables that the code passes by
  mutable reference (the reward payout, the slashed imbalance) are threaded through as values.
\<close>

record 'acc slash_params =
  sp_stash :: 'acc
  sp_slash :: perbill
  sp_exposure :: "'acc exposure"
  sp_slash_era :: era_index
  sp_window_start :: era_index
  sp_now :: era_index
  sp_reward_proportion :: perbill
  sp_disable_strategy :: disable_strategy

section \<open>Offending validators\<close>

definition add_offending_validator ::
  "('acc, 'k, 's, 'v, 'x) staking_config \<Rightarrow> 'acc \<Rightarrow> bool \<Rightarrow> ('acc, 's, 'v, 'x) staking_state \<Rightarrow> ('acc, 's, 'v, 'x) staking_state" where
  "add_offending_validator cfg stash disable s =
     (let offending = OffendingValidators s;
          validators = session_validators (SessionInterface cfg) (session s)
      in case position (\<lambda>i. i = stash) validators of
           None \<Rightarrow> s
         | Some validator_index \<Rightarrow>
             let index32 = of_nat validator_index :: u32 in
             (case binary_search_by_key fst offending index32 of
                Inl i \<Rightarrow>
                  let offending1 = take i offending @ (index32, disable) # drop i offending;
                      offending_threshold = times_perbill cfg (OffendingValidatorsThreshold cfg) (of_nat (length validators) :: u32);
                      s1 = (if unat offending_threshold \<le> length offending1 then ensure_new_era s else s);
                      s2 = (if disable then with_session (disable_validator (SessionInterface cfg) index32) s1 else s1)
                  in s2\<lparr>OffendingValidators := offending1\<rparr>
              | Inr i \<Rightarrow>
                  if disable \<and> \<not> snd (offending ! i) then
                    (with_session (disable_validator (SessionInterface cfg) index32) s)
                      \<lparr>OffendingValidators := offending[i := (fst (offending ! i), True)]\<rparr>
                  else s))"

section \<open>Computing a slash\<close>

definition kick_out_if_recent ::
  "('acc, 'k, 's, 'v, 'x) staking_config \<Rightarrow> 'acc slash_params \<Rightarrow> ('acc, 's, 'v, 'x) staking_state \<Rightarrow> ('acc, 's, 'v, 'x) staking_state" where
  "kick_out_if_recent cfg p s =
     (let (spans, s1) = fetch_spans (sp_stash p) (sp_window_start p) 0 0 (sp_reward_proportion p) s;
          (spans, s2) =
            (if map_option span_idx (era_span (insp_spans spans) (sp_slash_era p)) = Some (spans_index (insp_spans spans))
             then (insp_end_span (sp_now p) spans, chill_stash cfg (sp_stash p) s1) else (spans, s1));
          s3 = add_offending_validator cfg (sp_stash p) (sp_disable_strategy p = DS_Always) s2
      in drop_spans spans s3)"

text \<open>
  One nominator of \<open>slash_nominators\<close>: its slash in the era grows by the difference of the
  validator's two slash fractions and is then compared with the rest of the span.
\<close>

definition slash_nominator ::
  "('acc, 'k, 's, 'v, 'x) staking_config \<Rightarrow> 'acc slash_params \<Rightarrow> perbill \<Rightarrow> 'acc individual_exposure \<Rightarrow>
     balance \<times> ('acc \<times> balance) list \<times> ('acc, 's, 'v, 'x) staking_state \<Rightarrow> balance \<times> ('acc \<times> balance) list \<times> ('acc, 's, 'v, 'x) staking_state" where
  "slash_nominator cfg p prior_slash_p nominator acc =
     (case acc of (reward_payout, nominators_slashed, s) \<Rightarrow>
        let stash = ie_who nominator;
            own_slash_prior = times_perbill cfg prior_slash_p (ie_value nominator);
            own_slash_by_validator = times_perbill cfg (sp_slash p) (ie_value nominator);
            own_slash_difference = saturating_sub own_slash_by_validator own_slash_prior;
            era_slash = unwrap_or (NominatorSlashInEra s (sp_slash_era p, stash)) 0 + own_slash_difference;
            s1 = s\<lparr>NominatorSlashInEra := (NominatorSlashInEra s)((sp_slash_era p, stash) \<mapsto> era_slash)\<rparr>;
            (spans, s2) = fetch_spans stash (sp_window_start p) reward_payout 0 (sp_reward_proportion p) s1;
            (target_span, spans, s3) = compare_and_update_span_slash cfg (sp_slash_era p) era_slash spans s2;
            spans = (if target_span = Some (spans_index (insp_spans spans)) then insp_end_span (sp_now p) spans else spans)
        in (insp_paid_out spans, nominators_slashed @ [(stash, slash_of spans)], drop_spans spans s3))"

definition slash_nominators ::
  "('acc, 'k, 's, 'v, 'x) staking_config \<Rightarrow> 'acc slash_params \<Rightarrow> perbill \<Rightarrow> ('acc, 's, 'v, 'x) staking_state \<Rightarrow>
     balance \<times> ('acc \<times> balance) list \<times> ('acc, 's, 'v, 'x) staking_state" where
  "slash_nominators cfg p prior_slash_p s = fold (slash_nominator cfg p prior_slash_p) (exp_others (sp_exposure p)) (0, [], s)"

text \<open>The block of \<open>compute_slash\<close> that slashes the validator itself.\<close>

definition slash_validator ::
  "('acc, 'k, 's, 'v, 'x) staking_config \<Rightarrow> 'acc slash_params \<Rightarrow> balance \<Rightarrow> ('acc, 's, 'v, 'x) staking_state \<Rightarrow>
     balance \<times> balance \<times> ('acc, 's, 'v, 'x) staking_state" where
  "slash_validator cfg p own_slash s =
     (let (spans, s1) = fetch_spans (sp_stash p) (sp_window_start p) 0 0 (sp_reward_proportion p) s;
          (target_span, spans, s2) = compare_and_update_span_slash cfg (sp_slash_era p) own_slash spans s1;
          (spans, s3) =
            (if target_span = Some (spans_index (insp_spans spans))
             then (insp_end_span (sp_now p) spans, chill_stash cfg (sp_stash p) s2) else (spans, s2))
      in (insp_paid_out spans, slash_of spans, drop_spans spans s3))"

definition compute_slash ::
  "('acc, 'k, 's, 'v, 'x) staking_config \<Rightarrow> 'acc slash_params \<Rightarrow> ('acc, 's, 'v, 'x) staking_state \<Rightarrow>
     'acc unapplied_slash option \<times> ('acc, 's, 'v, 'x) staking_state" where
  "compute_slash cfg p s =
     (let own_slash = times_perbill cfg (sp_slash p) (exp_own (sp_exposure p)) in
      if times_perbill cfg (sp_slash p) (exp_total (sp_exposure p)) = 0 then (None, kick_out_if_recent cfg p s)
      else
        let key = (sp_slash_era p, sp_stash p);
            prior_slash_p = (case ValidatorSlashInEra s key of None \<Rightarrow> 0 | Some (q, _) \<Rightarrow> q)
        in if prior_slash_p < sp_slash p then
             let s1 = s\<lparr>ValidatorSlashInEra := (ValidatorSlashInEra s)(key \<mapsto> (sp_slash p, own_slash))\<rparr>;
                 (reward_payout, val_slashed, s2) = slash_validator cfg p own_slash s1;
                 s3 = add_offending_validator cfg (sp_stash p) (sp_disable_strategy p \<noteq> DS_Never) s2;
                 (nominators_payout, nominators_slashed, s4) = slash_nominators cfg p prior_slash_p s3
             in (Some \<lparr>us_validator = sp_stash p, us_own = val_slashed, us_others = nominators_slashed, us_reporters = [],
                       us_payout = reward_payout + nominators_payout\<rparr>, s4)
           else (None, s))"

section \<open>Applying a slash\<close>

definition do_slash ::
  "('acc, 'k, 's, 'v, 'x) staking_config \<Rightarrow> era_index \<Rightarrow> 'acc \<times> balance \<Rightarrow> balance \<times> balance \<times> ('acc, 's, 'v, 'x) staking_state \<Rightarrow>
     balance \<times> balance \<times> ('acc, 's, 'v, 'x) staking_state" where
  "do_slash cfg slash_era target acc =
     (case (target, acc) of ((stash, v), (reward_payout, slashed_imbalance, s)) \<Rightarrow>
        (case Bonded s stash of
           None \<Rightarrow> (reward_payout, slashed_imbalance, s)
         | Some controller \<Rightarrow>
             (case Ledger s controller of
                None \<Rightarrow> (reward_payout, slashed_imbalance, s)
              | Some l \<Rightarrow>
                  let (value, l1, x) = ledger_slash cfg v (sc_minimum_balance (Currency cfg)) slash_era l (session s);
                      s1 = s\<lparr>session := x\<rparr>
                  in if value \<noteq> 0 then
                       let ((imbalance, missing), c) = sc_slash (Currency cfg) stash value (staking_currency s1);
                           s2 = s1\<lparr>staking_currency := c\<rparr>
                       in ((if missing \<noteq> 0 then saturating_sub reward_payout missing else reward_payout),
                           saturating_add slashed_imbalance imbalance,
                           st_deposit_event (SE_Slashed stash value) (update_ledger cfg controller l1 s2))
                     else (reward_payout, slashed_imbalance, s1))))"

fun resolve_rewards ::
  "('acc, 's) stake_currency \<Rightarrow> balance \<Rightarrow> 'acc list \<Rightarrow> balance \<Rightarrow> 's \<Rightarrow> balance \<times> 's" where
  "resolve_rewards cur per_reporter [] reward c = (reward, c)"
| "resolve_rewards cur per_reporter (r # rs) reward c =
     (let reporter_reward = min reward per_reporter
      in resolve_rewards cur per_reporter rs (reward - reporter_reward) (sc_resolve_creating cur r reporter_reward c))"

definition pay_reporters ::
  "('acc, 'k, 's, 'v, 'x) staking_config \<Rightarrow> balance \<Rightarrow> balance \<Rightarrow> 'acc list \<Rightarrow> ('acc, 's, 'v, 'x) staking_state \<Rightarrow> ('acc, 's, 'v, 'x) staking_state" where
  "pay_reporters cfg reward_payout slashed_imbalance reporters s =
     (if reward_payout = 0 \<or> reporters = [] then with_currency (Slash cfg slashed_imbalance) s
      else
        let reward = min reward_payout slashed_imbalance;
            value_slashed = slashed_imbalance - reward;
            per_reporter = reward div ucast (of_nat (length reporters) :: u32);
            (rest, c) = resolve_rewards (Currency cfg) per_reporter reporters reward (staking_currency s)
        in with_currency (Slash cfg (saturating_add value_slashed rest)) (s\<lparr>staking_currency := c\<rparr>))"

definition apply_slash ::
  "('acc, 'k, 's, 'v, 'x) staking_config \<Rightarrow> era_index \<Rightarrow> 'acc unapplied_slash \<Rightarrow> ('acc, 's, 'v, 'x) staking_state \<Rightarrow> ('acc, 's, 'v, 'x) staking_state" where
  "apply_slash cfg slash_era u s =
     (case fold (do_slash cfg slash_era) ((us_validator u, us_own u) # us_others u) (us_payout u, 0, s) of
        (reward_payout, slashed_imbalance, s1) \<Rightarrow> pay_reporters cfg reward_payout slashed_imbalance (us_reporters u) s1)"

end
