(* ===== verification/Staking_Eras.thy ===== *)
theory Staking_Eras
  imports Staking_Slashing
begin

text \<open>
  Eras and sessions (\<^verbatim>\<open>modules/staking/src/pallet/impls.rs\<close>, \<^verbatim>\<open>modules/staking/src/inflation.rs\<close>): planning,
  starting and ending eras, paying the stakers, handling offences, and the data given to the
  election. The result of an election and the time are arguments: the election provider and the
  clock are other pallets.
\<close>

section \<open>Payouts\<close>

definition make_payout ::
  "('acc, 'k, 's, 'v, 'x) staking_config \<Rightarrow> 'acc \<Rightarrow> balance \<Rightarrow> ('acc, 's, 'v, 'x) staking_state \<Rightarrow>
     balance option \<times> ('acc, 's, 'v, 'x) staking_state" where
  "make_payout cfg stash amount s =
     (let creating = (\<lambda>who. case sc_deposit_creating (Currency cfg) who amount (staking_currency s) of
                              (i, c) \<Rightarrow> (Some i, s\<lparr>staking_currency := c\<rparr>));
          existing = (case sc_deposit_into_existing (Currency cfg) stash amount (staking_currency s) of
                        (Inr i, c) \<Rightarrow> (Some i, s\<lparr>staking_currency := c\<rparr>)
                      | (Inl _, c) \<Rightarrow> (None, s\<lparr>staking_currency := c\<rparr>))
      in case unwrap_or (Payee s stash) RD_Staked of
           RD_Controller \<Rightarrow> (case Bonded s stash of None \<Rightarrow> (None, s) | Some controller \<Rightarrow> creating controller)
         | RD_Stash \<Rightarrow> existing
         | RD_Staked \<Rightarrow>
             (case Bonded s stash of
                None \<Rightarrow> (None, s)
              | Some controller \<Rightarrow>
                  (case Ledger s controller of
                     None \<Rightarrow> (None, s)
                   | Some l \<Rightarrow>
                       let l1 = l\<lparr>ledger_active := ledger_active l + amount, ledger_total := ledger_total l + amount\<rparr>
                       in (fst existing, update_ledger cfg controller l1 (snd existing))))
         | RD_Account dest_account \<Rightarrow> creating dest_account
         | RD_None \<Rightarrow> (None, s))"

text \<open>A payout, its event, and the imbalance of all payouts so far.\<close>

definition pay_staker ::
  "('acc, 'k, 's, 'v, 'x) staking_config \<Rightarrow> 'acc \<times> balance \<Rightarrow> balance \<times> ('acc, 's, 'v, 'x) staking_state \<Rightarrow>
     balance \<times> ('acc, 's, 'v, 'x) staking_state" where
  "pay_staker cfg p acc =
     (case (p, acc) of ((stash, amount), (total_imbalance, s)) \<Rightarrow>
        (case make_payout cfg stash amount s of
           (Some i, s1) \<Rightarrow> (saturating_add total_imbalance i, st_deposit_event (SE_Rewarded stash i) s1)
         | (None, s1) \<Rightarrow> (total_imbalance, s1)))"

text \<open>
  The split of a validator's reward: the commission comes off the top, the rest is shared by
  exposure. The first entry is the validator, the others are the nominators of the clipped exposure.
\<close>

definition payout_shares ::
  "('acc, 'k, 's, 'v, 'x) staking_config \<Rightarrow> 'acc \<Rightarrow> perbill \<Rightarrow> balance \<Rightarrow> 'acc exposure \<Rightarrow> ('acc \<times> balance) list" where
  "payout_shares cfg stash comm validator_total_payout e =
     (let part = (\<lambda>v. perbill_from_rational (Fractions cfg) (unat v) (unat (exp_total e)));
          validator_commission_payout = times_perbill cfg comm validator_total_payout;
          validator_leftover_payout = validator_total_payout - validator_commission_payout;
          validator_staking_payout = times_perbill cfg (part (exp_own e)) validator_leftover_payout
      in (stash, validator_staking_payout + validator_commission_payout) #
         map (\<lambda>n. (ie_who n, times_perbill cfg (part (ie_value n)) validator_leftover_payout)) (exp_others e))"

definition claim_era ::
  "('acc, 'k, 's, 'v, 'x) staking_config \<Rightarrow> era_index \<Rightarrow> era_index \<Rightarrow> 'acc staking_ledger \<Rightarrow> 'acc staking_ledger result" where
  "claim_era cfg current_era era l =
     (let claimed = filter (\<lambda>x. saturating_sub current_era (HistoryDepth cfg) \<le> x) (claimed_rewards l)
      in case binary_search claimed era of
           Inr _ \<Rightarrow> Inl (staking_fail AlreadyClaimed)
         | Inl pos \<Rightarrow>
             if length claimed < unat (HistoryDepth cfg)
             then Inr (l\<lparr>claimed_rewards := take pos claimed @ era # drop pos claimed\<rparr>)
             else Inl (staking_fail BoundNotMet))"

definition validator_points :: "era_index \<Rightarrow> 'acc \<Rightarrow> ('acc, 's, 'v, 'x) staking_state \<Rightarrow> reward_point" where
  "validator_points era stash s =
     unwrap_or (individual (unwrap_or (ErasRewardPoints s era) default_reward_points) stash) 0"

text \<open>What an era pays to a validator and its nominators, by the points of the validator.\<close>

definition validator_shares ::
  "('acc, 'k, 's, 'v, 'x) staking_config \<Rightarrow> 'acc \<Rightarrow> 'acc \<Rightarrow> era_index \<Rightarrow> balance \<Rightarrow> ('acc, 's, 'v, 'x) staking_state \<Rightarrow>
     ('acc \<times> balance) list" where
  "validator_shares cfg validator_stash stash era era_payout s =
     (let total_reward_points = points_total (unwrap_or (ErasRewardPoints s era) default_reward_points);
          validator_total_reward_part =
            perbill_from_rational (Fractions cfg) (unat (validator_points era stash s)) (unat total_reward_points)
      in payout_shares cfg stash (commission (unwrap_or (ErasValidatorPrefs s (era, validator_stash)) default_prefs))
           (times_perbill cfg validator_total_reward_part era_payout)
           (unwrap_or (ErasStakersClipped s (era, stash)) default_exposure))"

definition do_payout_stakers ::
  "('acc, 'k, 's, 'v, 'x) staking_config \<Rightarrow> 'acc \<Rightarrow> era_index \<Rightarrow> ('acc, 's, 'v, 'x, unit) staking_op" where
  "do_payout_stakers cfg validator_stash era s =
     bind_op (pure (ok_or (CurrentEra s) (staking_fail InvalidEraToReward))) (\<lambda>current_era.
     bind_op (ensure (era \<le> current_era \<and> saturating_sub current_era (HistoryDepth cfg) \<le> era) (staking_fail InvalidEraToReward)) (\<lambda>_.
     bind_op (pure (ok_or (ErasValidatorReward s era) (staking_fail InvalidEraToReward))) (\<lambda>era_payout.
     bind_op (pure (ok_or (Bonded s validator_stash) (staking_fail NotStash))) (\<lambda>controller.
     bind_op (get_ledger controller) (\<lambda>l.
     bind_op (pure (claim_era cfg current_era era l)) (\<lambda>l1.
     bind_op (modify_op (\<lambda>s. s\<lparr>Ledger := (Ledger s)(controller \<mapsto> l1)\<rparr>)) (\<lambda>_ s.
     if validator_points era (ledger_stash l1) s = 0 then ok () s
     else
       let s1 = st_deposit_event (SE_PayoutStarted era (ledger_stash l1)) s
       in case fold (pay_staker cfg) (validator_shares cfg validator_stash (ledger_stash l1) era era_payout s) (0, s1) of
            (total_imbalance, s2) \<Rightarrow> ok () (with_currency (Reward cfg total_imbalance) s2)))))))) s"

definition st_payout_stakers ::
  "('acc, 'k, 's, 'v, 'x) staking_config \<Rightarrow> 'acc origin \<Rightarrow> 'acc \<Rightarrow> era_index \<Rightarrow> ('acc, 's, 'v, 'x, unit) staking_op" where
  "st_payout_stakers cfg orig validator_stash era =
     bind_op (pure (ensure_signed orig)) (\<lambda>_. do_payout_stakers cfg validator_stash era)"

section \<open>Planning an era\<close>

type_synonym 'acc supports = "('acc \<times> ('acc \<times> u128) list) list"

definition exposure_of_support ::
  "('acc, 'k, 's, 'v, 'x) staking_config \<Rightarrow> balance \<Rightarrow> 'acc \<times> ('acc \<times> u128) list \<Rightarrow> 'acc \<times> 'acc exposure" where
  "exposure_of_support cfg issuance support =
     (case support of (validator, voters) \<Rightarrow>
        (validator,
         fold (\<lambda>(nominator, weight) e.
                 let stake = to_currency cfg weight issuance;
                     e1 = (if nominator = validator then e\<lparr>exp_own := saturating_add (exp_own e) stake\<rparr>
                           else e\<lparr>exp_others := exp_others e @ [\<lparr>ie_who = nominator, ie_value = stake\<rparr>]\<rparr>)
                 in e1\<lparr>exp_total := saturating_add (exp_total e1) stake\<rparr>) voters default_exposure))"

definition collect_exposures ::
  "('acc, 'k, 's, 'v, 'x) staking_config \<Rightarrow> 'acc supports \<Rightarrow> ('acc, 's, 'v, 'x) staking_state \<Rightarrow> ('acc \<times> 'acc exposure) list" where
  "collect_exposures cfg supports s =
     map (exposure_of_support cfg (sc_total_issuance (Currency cfg) (staking_currency s))) supports"

definition clip_exposure :: "('acc, 'k, 's, 'v, 'x) staking_config \<Rightarrow> 'acc exposure \<Rightarrow> 'acc exposure" where
  "clip_exposure cfg e =
     (let clipped_max_len = unat (MaxNominatorRewardedPerValidator cfg) in
      if clipped_max_len < length (exp_others e)
      then e\<lparr>exp_others := take clipped_max_len (rev (sort_key ie_value (rev (exp_others e))))\<rparr>
      else e)"

definition store_exposure ::
  "('acc, 'k, 's, 'v, 'x) staking_config \<Rightarrow> era_index \<Rightarrow> 'acc \<times> 'acc exposure \<Rightarrow>
     balance \<times> ('acc, 's, 'v, 'x) staking_state \<Rightarrow> balance \<times> ('acc, 's, 'v, 'x) staking_state" where
  "store_exposure cfg era p acc =
     (case (p, acc) of ((stash, e), (total_stake, s)) \<Rightarrow>
        (saturating_add total_stake (exp_total e),
         s\<lparr>ErasStakers := (ErasStakers s)((era, stash) \<mapsto> e),
           ErasStakersClipped := (ErasStakersClipped s)((era, stash) \<mapsto> clip_exposure cfg e)\<rparr>))"

definition store_stakers_info ::
  "('acc, 'k, 's, 'v, 'x) staking_config \<Rightarrow> ('acc \<times> 'acc exposure) list \<Rightarrow> era_index \<Rightarrow> ('acc, 's, 'v, 'x) staking_state \<Rightarrow>
     'acc list \<times> ('acc, 's, 'v, 'x) staking_state" where
  "store_stakers_info cfg exposures new_planned_era s =
     (let elected_stashes = map fst exposures;
          (total_stake, s1) = fold (store_exposure cfg new_planned_era) exposures (0, s);
          s2 = s1\<lparr>ErasTotalStake := (ErasTotalStake s1)(new_planned_era \<mapsto> total_stake)\<rparr>;
          s3 = fold (\<lambda>stash s. s\<lparr>ErasValidatorPrefs := (ErasValidatorPrefs s)
                 ((new_planned_era, stash) \<mapsto> unwrap_or (Validators s stash) default_prefs)\<rparr>) elected_stashes s2
      in (elected_stashes, s3))"

definition clear_era_information :: "era_index \<Rightarrow> ('acc, 's, 'v, 'x) staking_state \<Rightarrow> ('acc, 's, 'v, 'x) staking_state" where
  "clear_era_information e s =
     s\<lparr>ErasStakers := (\<lambda>k. if fst k = e then None else ErasStakers s k),
       ErasStakersClipped := (\<lambda>k. if fst k = e then None else ErasStakersClipped s k),
       ErasValidatorPrefs := (\<lambda>k. if fst k = e then None else ErasValidatorPrefs s k),
       ErasValidatorReward := (ErasValidatorReward s)(e := None),
       ErasRewardPoints := (ErasRewardPoints s)(e := None),
       ErasTotalStake := (ErasTotalStake s)(e := None),
       ErasStartSessionIndex := (ErasStartSessionIndex s)(e := None)\<rparr>"

definition trigger_new_era ::
  "('acc, 'k, 's, 'v, 'x) staking_config \<Rightarrow> session_index \<Rightarrow> ('acc \<times> 'acc exposure) list \<Rightarrow> ('acc, 's, 'v, 'x) staking_state \<Rightarrow>
     'acc list \<times> ('acc, 's, 'v, 'x) staking_state" where
  "trigger_new_era cfg start_session_index exposures s =
     (let new_planned_era = (case CurrentEra s of None \<Rightarrow> 0 | Some e \<Rightarrow> e + 1);
          s1 = s\<lparr>CurrentEra := Some new_planned_era,
                 ErasStartSessionIndex := (ErasStartSessionIndex s)(new_planned_era \<mapsto> start_session_index)\<rparr>;
          s2 = (case checked_sub new_planned_era (HistoryDepth cfg + 1) of
                  Some old_era \<Rightarrow> clear_era_information old_era s1 | None \<Rightarrow> s1)
      in store_stakers_info cfg exposures new_planned_era s2)"

text \<open>\<open>election\<close> is what the election provider returned, at genesis or later; \<open>None\<close> is its failure.\<close>

definition try_trigger_new_era ::
  "('acc, 'k, 's, 'v, 'x) staking_config \<Rightarrow> session_index \<Rightarrow> 'acc supports option \<Rightarrow> ('acc, 's, 'v, 'x) staking_state \<Rightarrow>
     'acc list option \<times> ('acc, 's, 'v, 'x) staking_state" where
  "try_trigger_new_era cfg start_session_index election s =
     (case election of
        None \<Rightarrow> (None, st_deposit_event SE_StakingElectionFailed s)
      | Some supports \<Rightarrow>
          let exposures = collect_exposures cfg supports s in
          if (of_nat (length exposures) :: u32) < max (MinimumValidatorCount s) 1 then
            let s1 = (case CurrentEra s of
                        Some _ \<Rightarrow> s
                      | None \<Rightarrow> s\<lparr>CurrentEra := Some 0, ErasStartSessionIndex := (ErasStartSessionIndex s)(0 \<mapsto> start_session_index)\<rparr>)
            in (None, st_deposit_event SE_StakingElectionFailed s1)
          else
            case trigger_new_era cfg start_session_index exposures (st_deposit_event SE_StakersElected s) of
              (validators, s1) \<Rightarrow> (Some validators, s1))"

definition plan_session ::
  "('acc, 'k, 's, 'v, 'x) staking_config \<Rightarrow> session_index \<Rightarrow> 'acc supports option \<Rightarrow> ('acc, 's, 'v, 'x) staking_state \<Rightarrow>
     'acc list option \<times> ('acc, 's, 'v, 'x) staking_state" where
  "plan_session cfg session_idx election s =
     (case CurrentEra s of
        Some current_era \<Rightarrow>
          let current_era_start_session_index = unwrap_or (ErasStartSessionIndex s current_era) 0;
              era_length = saturating_sub session_idx current_era_start_session_index
          in if ForceEra s = ForceNew \<or> ForceEra s = ForceAlways \<or> ForceEra s = NotForcing \<and> SessionsPerEra cfg \<le> era_length then
               (case try_trigger_new_era cfg session_idx election s of (validators, s1) \<Rightarrow>
                  (validators, if validators \<noteq> None \<and> ForceEra s1 = ForceNew then set_force_era NotForcing s1 else s1))
             else (None, s)
      | None \<Rightarrow> try_trigger_new_era cfg session_idx election s)"

definition new_session ::
  "('acc, 'k, 's, 'v, 'x) staking_config \<Rightarrow> session_index \<Rightarrow> 'acc supports option \<Rightarrow> ('acc, 's, 'v, 'x) staking_state \<Rightarrow>
     'acc list option \<times> ('acc, 's, 'v, 'x) staking_state" where
  "new_session cfg new_index election s = plan_session cfg new_index election (s\<lparr>CurrentPlannedSession := new_index\<rparr>)"

text \<open>The historical session manager adds the exposures.\<close>

definition historical_new_session ::
  "('acc, 'k, 's, 'v, 'x) staking_config \<Rightarrow> session_index \<Rightarrow> 'acc supports option \<Rightarrow> ('acc, 's, 'v, 'x) staking_state \<Rightarrow>
     ('acc \<times> 'acc exposure) list option \<times> ('acc, 's, 'v, 'x) staking_state" where
  "historical_new_session cfg new_index election s =
     (case new_session cfg new_index election s of (validators, s1) \<Rightarrow>
        (map_option (map (\<lambda>v. (v, unwrap_or (ErasStakers s1 (unwrap_or (CurrentEra s1) 0, v)) default_exposure))) validators, s1))"

section \<open>Starting and ending an era\<close>

definition apply_unapplied_slashes ::
  "('acc, 'k, 's, 'v, 'x) staking_config \<Rightarrow> era_index \<Rightarrow> ('acc, 's, 'v, 'x) staking_state \<Rightarrow> ('acc, 's, 'v, 'x) staking_state" where
  "apply_unapplied_slashes cfg active_era s =
     fold (apply_slash cfg (saturating_sub active_era (SlashDeferDuration cfg)))
       (unwrap_or (UnappliedSlashes s active_era) []) (s\<lparr>UnappliedSlashes := (UnappliedSlashes s)(active_era := None)\<rparr>)"

definition prune_bonded_eras ::
  "('acc, 'k, 's, 'v, 'x) staking_config \<Rightarrow> era_index \<Rightarrow> session_index \<Rightarrow> ('acc, 's, 'v, 'x) staking_state \<Rightarrow> ('acc, 's, 'v, 'x) staking_state" where
  "prune_bonded_eras cfg active_era start_session s =
     (let bonded = BondedEras s @ [(active_era, start_session)] in
      if BondingDuration cfg < active_era then
        let first_kept = active_era - BondingDuration cfg;
            n_to_prune = length (takeWhile (\<lambda>(era_idx, _). era_idx < first_kept) bonded);
            s1 = fold (\<lambda>(pruned_era, _). clear_era_metadata pruned_era) (take n_to_prune bonded) s;
            bonded = drop n_to_prune bonded;
            s2 = (case bonded of
                    [] \<Rightarrow> s1
                  | (_, first_session) # _ \<Rightarrow> with_session (prune_historical_up_to (SessionInterface cfg) first_session) s1)
        in s2\<lparr>BondedEras := bonded\<rparr>
      else s\<lparr>BondedEras := bonded\<rparr>)"

definition start_era ::
  "('acc, 'k, 's, 'v, 'x) staking_config \<Rightarrow> session_index \<Rightarrow> ('acc, 's, 'v, 'x) staking_state \<Rightarrow> ('acc, 's, 'v, 'x) staking_state" where
  "start_era cfg start_session s =
     (let new_index = (case ActiveEra s of None \<Rightarrow> 0 | Some info \<Rightarrow> era_idx info + 1);
          s1 = s\<lparr>ActiveEra := Some \<lparr>era_idx = new_index, era_start = None\<rparr>\<rparr>
      in apply_unapplied_slashes cfg new_index (prune_bonded_eras cfg new_index start_session s1))"

definition start_session ::
  "('acc, 'k, 's, 'v, 'x) staking_config \<Rightarrow> session_index \<Rightarrow> ('acc, 's, 'v, 'x) staking_state \<Rightarrow> ('acc, 's, 'v, 'x) staking_state" where
  "start_session cfg start_idx s =
     (let next_active_era = (case ActiveEra s of None \<Rightarrow> 0 | Some e \<Rightarrow> era_idx e + 1);
          s1 = (case ErasStartSessionIndex s next_active_era of
                  Some i \<Rightarrow> if i \<le> start_idx then start_era cfg start_idx s else s
                | None \<Rightarrow> s)
      in fold (\<lambda>(index, disabled). if disabled then with_session (disable_validator (SessionInterface cfg) index) else id)
           (OffendingValidators s1) s1)"

definition end_era ::
  "('acc, 'k, 's, 'v, 'x) staking_config \<Rightarrow> u64 \<Rightarrow> active_era_info \<Rightarrow> ('acc, 's, 'v, 'x) staking_state \<Rightarrow> ('acc, 's, 'v, 'x) staking_state" where
  "end_era cfg now info s =
     (case era_start info of
        None \<Rightarrow> s
      | Some active_era_start \<Rightarrow>
          let era_duration = now - active_era_start;
              staked = unwrap_or (ErasTotalStake s (era_idx info)) 0;
              issuance = sc_total_issuance (Currency cfg) (staking_currency s);
              (validator_payout, remainder) = EraPayout cfg staked issuance era_duration;
              s1 = st_deposit_event (SE_EraPaid (era_idx info) validator_payout remainder) s;
              s2 = s1\<lparr>ErasValidatorReward := (ErasValidatorReward s1)(era_idx info \<mapsto> validator_payout)\<rparr>;
              (imbalance, c) = sc_issue (Currency cfg) remainder (staking_currency s2)
          in s2\<lparr>staking_currency := RewardRemainder cfg imbalance c, OffendingValidators := []\<rparr>)"

definition end_session ::
  "('acc, 'k, 's, 'v, 'x) staking_config \<Rightarrow> u64 \<Rightarrow> session_index \<Rightarrow> ('acc, 's, 'v, 'x) staking_state \<Rightarrow> ('acc, 's, 'v, 'x) staking_state" where
  "end_session cfg now session_idx s =
     (case ActiveEra s of
        None \<Rightarrow> s
      | Some info \<Rightarrow>
          (case ErasStartSessionIndex s (era_idx info + 1) of
             Some i \<Rightarrow> if i = session_idx + 1 then end_era cfg now info s else s
           | None \<Rightarrow> s))"

definition st_on_finalize :: "u64 \<Rightarrow> ('acc, 's, 'v, 'x) staking_state \<Rightarrow> ('acc, 's, 'v, 'x) staking_state" where
  "st_on_finalize now s =
     (case ActiveEra s of
        Some info \<Rightarrow> if era_start info = None then s\<lparr>ActiveEra := Some (info\<lparr>era_start := Some now\<rparr>)\<rparr> else s
      | None \<Rightarrow> s)"

section \<open>Reward points\<close>

definition reward_by_ids :: "('acc \<times> reward_point) list \<Rightarrow> ('acc, 's, 'v, 'x) staking_state \<Rightarrow> ('acc, 's, 'v, 'x) staking_state" where
  "reward_by_ids validators_points s =
     (case ActiveEra s of
        None \<Rightarrow> s
      | Some info \<Rightarrow>
          s\<lparr>ErasRewardPoints := (ErasRewardPoints s)(era_idx info \<mapsto>
              fold (\<lambda>(validator, points) r.
                      r\<lparr>individual := (individual r)(validator \<mapsto> unwrap_or (individual r validator) 0 + points),
                        points_total := points_total r + points\<rparr>)
                validators_points (unwrap_or (ErasRewardPoints s (era_idx info)) default_reward_points))\<rparr>)"

definition note_author :: "'acc \<Rightarrow> ('acc, 's, 'v, 'x) staking_state \<Rightarrow> ('acc, 's, 'v, 'x) staking_state" where
  "note_author author s = reward_by_ids [(author, 20)] s"

section \<open>Inflation\<close>

definition MILLISECONDS_PER_YEAR :: u64 where
  "MILLISECONDS_PER_YEAR = 1000 * 3600 * 24 * 36525 div 100"

text \<open>The curve is given by its value times the denominator and its maximum.\<close>

definition compute_total_payout ::
  "fractions \<Rightarrow> (balance \<Rightarrow> balance \<Rightarrow> balance) \<Rightarrow> perbill \<Rightarrow> balance \<Rightarrow> balance \<Rightarrow> u64 \<Rightarrow> balance \<times> balance" where
  "compute_total_payout fr curve curve_maximum npos_token_staked total_tokens era_duration =
     (let portion = perbill_from_rational fr (unat era_duration) (unat MILLISECONDS_PER_YEAR);
          mul = (\<lambda>p (v :: balance). of_nat (perbill_mul fr p (unat v)))
      in (mul portion (curve npos_token_staked total_tokens), mul portion (mul curve_maximum total_tokens)))"

definition convert_curve_era_payout ::
  "fractions \<Rightarrow> (balance \<Rightarrow> balance \<Rightarrow> balance) \<Rightarrow> perbill \<Rightarrow> balance \<Rightarrow> balance \<Rightarrow> u64 \<Rightarrow> balance \<times> balance" where
  "convert_curve_era_payout fr curve curve_maximum total_staked total_issuance era_duration_millis =
     (case compute_total_payout fr curve curve_maximum total_staked total_issuance era_duration_millis of
        (validator_payout, max_payout) \<Rightarrow> (validator_payout, saturating_sub max_payout validator_payout))"

section \<open>Offences\<close>

record 'acc offence_details =
  offender :: "'acc \<times> 'acc exposure"
  reporters :: "'acc list"

definition handle_offender ::
  "('acc, 'k, 's, 'v, 'x) staking_config \<Rightarrow> era_index \<Rightarrow> era_index \<Rightarrow> disable_strategy \<Rightarrow> 'acc offence_details \<times> perbill \<Rightarrow>
     ('acc, 's, 'v, 'x) staking_state \<Rightarrow> ('acc, 's, 'v, 'x) staking_state" where
  "handle_offender cfg active_era slash_era strategy od s =
     (case od of (details, fraction) \<Rightarrow>
        let (stash, e) = offender details in
        if stash \<in> set (Invulnerables s) then s
        else
          let (unapplied, s1) =
                compute_slash cfg \<lparr>sp_stash = stash, sp_slash = fraction, sp_exposure = e, sp_slash_era = slash_era,
                  sp_window_start = saturating_sub active_era (BondingDuration cfg), sp_now = active_era,
                  sp_reward_proportion = SlashRewardFraction s, sp_disable_strategy = strategy\<rparr> s;
              s2 = st_deposit_event (SE_SlashReported stash fraction slash_era) s1
          in case unapplied of
               None \<Rightarrow> s2
             | Some u \<Rightarrow>
                 let u = u\<lparr>us_reporters := reporters details\<rparr> in
                 if SlashDeferDuration cfg = 0 then apply_slash cfg slash_era u s2
                 else
                   let slot = saturating_add (saturating_add slash_era (SlashDeferDuration cfg)) 1
                   in s2\<lparr>UnappliedSlashes := (UnappliedSlashes s2)(slot \<mapsto> unwrap_or (UnappliedSlashes s2 slot) [] @ [u])\<rparr>)"

definition offence_era ::
  "('acc, 's, 'v, 'x) staking_state \<Rightarrow> era_index \<Rightarrow> session_index \<Rightarrow> era_index option" where
  "offence_era s active_era slash_session =
     (if unwrap_or (ErasStartSessionIndex s active_era) 0 \<le> slash_session then Some active_era
      else map_option fst (List.find (\<lambda>(_, sesh). sesh \<le> slash_session) (rev (BondedEras s))))"

definition on_offence ::
  "('acc, 'k, 's, 'v, 'x) staking_config \<Rightarrow> 'acc offence_details list \<Rightarrow> perbill list \<Rightarrow> session_index \<Rightarrow> disable_strategy \<Rightarrow>
     ('acc, 's, 'v, 'x) staking_state \<Rightarrow> ('acc, 's, 'v, 'x) staking_state" where
  "on_offence cfg offenders slash_fraction slash_session strategy s =
     (case ActiveEra s of
        None \<Rightarrow> s
      | Some info \<Rightarrow>
          (case offence_era s (era_idx info) slash_session of
             None \<Rightarrow> s
           | Some slash_era \<Rightarrow>
               fold (handle_offender cfg (era_idx info) slash_era strategy) (zip offenders slash_fraction) s))"

text \<open>\<open>FilterHistoricalOffences\<close>: reports from before the bonding period are dropped.\<close>

definition report_offence ::
  "(('acc, 's, 'v, 'x) staking_state \<Rightarrow> ('e + unit) \<times> ('acc, 's, 'v, 'x) staking_state) \<Rightarrow> session_index \<Rightarrow>
     ('acc, 's, 'v, 'x) staking_state \<Rightarrow> ('e + unit) \<times> ('acc, 's, 'v, 'x) staking_state" where
  "report_offence inner offence_session s =
     (case BondedEras s of
        (_, start) # _ \<Rightarrow>
          if start \<le> offence_session then inner s
          else (Inr (), st_deposit_event (SE_OldSlashingReportDiscarded offence_session) s)
      | [] \<Rightarrow> (Inr (), st_deposit_event (SE_OldSlashingReportDiscarded offence_session) s))"

section \<open>Data for the election\<close>

definition NPOS_MAX_ITERATIONS_COEFFICIENT :: u32 where "NPOS_MAX_ITERATIONS_COEFFICIENT = 2"

type_synonym 'acc voter = "'acc \<times> vote_weight \<times> 'acc list"

fun npos_voters_loop ::
  "('acc, 'k, 's, 'v, 'x) staking_config \<Rightarrow> ('acc, 's, 'v, 'x) staking_state \<Rightarrow> nat \<Rightarrow> 'acc list \<Rightarrow> u32 \<Rightarrow> 'acc voter list \<Rightarrow> vote_weight \<Rightarrow>
     'acc voter list \<times> vote_weight" where
  "npos_voters_loop cfg s max_len [] seen all min_stake = (all, min_stake)"
| "npos_voters_loop cfg s max_len (voter # voters) seen all min_stake =
     (if length all < max_len \<and> seen < NPOS_MAX_ITERATIONS_COEFFICIENT * of_nat max_len then
        let seen = saturating_add seen 1;
            w = weight_of cfg s voter
        in case nominators_get cfg s voter of
             Some n \<Rightarrow>
               npos_voters_loop cfg s max_len voters seen
                 (if targets n \<noteq> [] then all @ [(voter, w, targets n)] else all) (min w min_stake)
           | None \<Rightarrow>
               npos_voters_loop cfg s max_len voters seen
                 (if Validators s voter \<noteq> None then all @ [(voter, w, [voter])] else all) min_stake
      else (all, min_stake))"

definition get_npos_voters ::
  "('acc, 'k, 's, 'v, 'x) staking_config \<Rightarrow> nat option \<Rightarrow> ('acc, 's, 'v, 'x) staking_state \<Rightarrow>
     'acc voter list \<times> ('acc, 's, 'v, 'x) staking_state" where
  "get_npos_voters cfg maybe_max_len s =
     (let all_voter_count = unat (vl_count (VoterList cfg) (voter_list s));
          max_allowed_len = min (unwrap_or maybe_max_len all_voter_count) all_voter_count;
          (all, min_stake) = npos_voters_loop cfg s max_allowed_len (vl_iter (VoterList cfg) (voter_list s)) 0 [] max_value
      in (all, s\<lparr>MinimumActiveStake := (if all = [] then 0 else ucast min_stake)\<rparr>))"

fun npos_targets_loop ::
  "('acc, 's, 'v, 'x) staking_state \<Rightarrow> nat \<Rightarrow> 'acc list \<Rightarrow> u32 \<Rightarrow> 'acc list \<Rightarrow> 'acc list" where
  "npos_targets_loop s max_len [] seen all = all"
| "npos_targets_loop s max_len (target # ts) seen all =
     (if length all < max_len \<and> seen < NPOS_MAX_ITERATIONS_COEFFICIENT * of_nat max_len
      then npos_targets_loop s max_len ts (saturating_add seen 1) (if Validators s target \<noteq> None then all @ [target] else all)
      else all)"

text \<open>
  The list of targets is the map of validators itself (\<open>UseValidatorsMap\<close>): its count is the
  counter of the map, and \<open>order\<close> is the order in which the storage iterates over its keys.
\<close>

definition get_npos_targets :: "nat option \<Rightarrow> 'acc list \<Rightarrow> ('acc, 's, 'v, 'x) staking_state \<Rightarrow> 'acc list" where
  "get_npos_targets maybe_max_len order s =
     (let max_allowed_len = unwrap_or maybe_max_len (unat (CounterForValidators s))
      in npos_targets_loop s max_allowed_len order 0 [])"

definition electable_targets :: "nat option \<Rightarrow> 'acc list \<Rightarrow> ('acc, 's, 'v, 'x) staking_state \<Rightarrow> string + 'acc list" where
  "electable_targets maybe_max_len order s =
     (if (case maybe_max_len of None \<Rightarrow> False | Some max_len \<Rightarrow> (of_nat max_len :: u32) < CounterForValidators s)
      then Inl ''Target snapshot too big'' else Inr (get_npos_targets None order s))"

definition next_election_prediction ::
  "('acc, 'k, 's, 'v, 'x) staking_config \<Rightarrow> (block_number \<Rightarrow> block_number option) \<Rightarrow> block_number \<Rightarrow> block_number \<Rightarrow>
     ('acc, 's, 'v, 'x) staking_state \<Rightarrow> block_number" where
  "next_election_prediction cfg estimate_next_new_session session_length now s =
     (let current_era = unwrap_or (CurrentEra s) 0;
          current_era_start_session_index = unwrap_or (ErasStartSessionIndex s current_era) 0;
          era_progress = min (saturating_sub (CurrentPlannedSession s) current_era_start_session_index) (SessionsPerEra cfg);
          until_this_session_end = saturating_sub (unwrap_or (estimate_next_new_session now) 0) now;
          sessions_left = (case ForceEra s of
              ForceNone \<Rightarrow> max_value
            | ForceNew \<Rightarrow> 0
            | ForceAlways \<Rightarrow> 0
            | NotForcing \<Rightarrow> if SessionsPerEra cfg \<le> era_progress then 0
                            else saturating_sub (saturating_sub (SessionsPerEra cfg) era_progress) 1)
      in saturating_add now (saturating_add until_this_session_end (saturating_mul sessions_left session_length)))"

end
