(* ===== verification/Staking_Interface.thy ===== *)
theory Staking_Interface
  imports Staking_Eras
begin

text \<open>
  The genesis of the staking pallet, its interface for other pallets (\<open>StakingInterface\<close>) and the
  checks of its storage (\<open>do_try_state\<close>). The order in which the storage iterates over a map is an
  argument; a panic at genesis is \<open>None\<close>.
\<close>

section \<open>Genesis\<close>

record 'acc staking_genesis =
  g_validator_count :: u32
  g_minimum_validator_count :: u32
  g_invulnerables :: "'acc list"
  g_force_era :: forcing
  g_slash_reward_fraction :: perbill
  g_canceled_payout :: balance
  g_stakers :: "('acc \<times> 'acc \<times> balance \<times> 'acc staker_status) list"
  g_min_nominator_bond :: balance
  g_min_validator_bond :: balance
  g_max_validator_count :: "u32 option"
  g_max_nominator_count :: "u32 option"

definition assert_ok :: "('e + 'a) \<times> 's \<Rightarrow> 's option" where
  "assert_ok r = (case r of (Inl _, _) \<Rightarrow> None | (Inr _, s) \<Rightarrow> Some s)"

definition genesis_staker ::
  "('acc, 'k, 's, 'v, 'x) staking_config \<Rightarrow> 'acc \<times> 'acc \<times> balance \<times> 'acc staker_status \<Rightarrow> ('acc, 's, 'v, 'x) staking_state option \<Rightarrow>
     ('acc, 's, 'v, 'x) staking_state option" where
  "genesis_staker cfg staker st =
     (case staker of (stash, _, bal, status) \<Rightarrow>
        Option.bind st (\<lambda>s.
          if sc_free_balance (Currency cfg) (staking_currency s) stash < bal then None
          else
            Option.bind (assert_ok (st_bond cfg (Signed stash) bal RD_Staked s)) (\<lambda>s1.
            Option.bind (assert_ok (case status of
                Validator \<Rightarrow> st_validate cfg (Signed stash) default_prefs s1
              | Nominator votes \<Rightarrow> st_nominate cfg (Signed stash) (map (Unlookup cfg) votes) s1
              | Idle \<Rightarrow> (Inr (), s1))) (\<lambda>s2.
            if ValidatorCount s2 \<le> MaxWinners cfg then Some s2 else None))))"

definition staking_genesis_build ::
  "('acc, 'k, 's, 'v, 'x) staking_config \<Rightarrow> 'acc staking_genesis \<Rightarrow> ('acc, 's, 'v, 'x) staking_state \<Rightarrow>
     ('acc, 's, 'v, 'x) staking_state option" where
  "staking_genesis_build cfg g s =
     (let s1 = s\<lparr>ValidatorCount := g_validator_count g, MinimumValidatorCount := g_minimum_validator_count g,
                 Invulnerables := g_invulnerables g, ForceEra := g_force_era g, CanceledSlashPayout := g_canceled_payout g,
                 SlashRewardFraction := g_slash_reward_fraction g, MinNominatorBond := g_min_nominator_bond g,
                 MinValidatorBond := g_min_validator_bond g,
                 MaxValidatorsCount := (case g_max_validator_count g of Some x \<Rightarrow> Some x | None \<Rightarrow> MaxValidatorsCount s),
                 MaxNominatorsCount := (case g_max_nominator_count g of Some x \<Rightarrow> Some x | None \<Rightarrow> MaxNominatorsCount s)\<rparr>
      in Option.bind (fold (genesis_staker cfg) (g_stakers g) (Some s1)) (\<lambda>s2.
           if vl_count (VoterList cfg) (voter_list s2) = CounterForNominators s2 + CounterForValidators s2 then Some s2 else None))"

section \<open>The interface for other pallets\<close>

definition si_force_unstake ::
  "('acc, 'k, 's, 'v, 'x) staking_config \<Rightarrow> 'acc \<Rightarrow> ('acc, 's, 'v, 'x, unit) staking_op" where
  "si_force_unstake cfg who s =
     st_force_unstake cfg Root who
       (case SlashingSpans s who of None \<Rightarrow> 0 | Some sp \<Rightarrow> of_nat (length (spans_iter sp))) s"

definition si_stash_by_ctrl :: "('acc, 's, 'v, 'x) staking_state \<Rightarrow> 'acc \<Rightarrow> 'acc result" where
  "si_stash_by_ctrl s controller = ok_or (map_option ledger_stash (Ledger s controller)) (staking_fail NotController)"

definition si_is_exposed_in_era :: "('acc, 's, 'v, 'x) staking_state \<Rightarrow> 'acc list \<Rightarrow> 'acc \<Rightarrow> era_index \<Rightarrow> bool" where
  "si_is_exposed_in_era s order who era =
     list_ex (\<lambda>validator. case ErasStakers s (era, validator) of
        None \<Rightarrow> False
      | Some e \<Rightarrow> validator = who \<or> list_ex (\<lambda>i. ie_who i = who) (exp_others e)) order"

definition si_stake :: "('acc, 's, 'v, 'x) staking_state \<Rightarrow> 'acc \<Rightarrow> (balance \<times> balance) result" where
  "si_stake s who =
     ok_or (Option.bind (Bonded s who) (\<lambda>c. map_option (\<lambda>l. (ledger_total l, ledger_active l)) (Ledger s c))) (staking_fail NotStash)"

definition with_controller :: "'acc \<Rightarrow> ('acc \<Rightarrow> ('acc, 's, 'v, 'x, 'a) staking_op) \<Rightarrow> ('acc, 's, 'v, 'x, 'a) staking_op" where
  "with_controller who f s = bind_op (pure (ok_or (Bonded s who) (staking_fail NotStash))) f s"

definition si_bond_extra :: "('acc, 'k, 's, 'v, 'x) staking_config \<Rightarrow> 'acc \<Rightarrow> balance \<Rightarrow> ('acc, 's, 'v, 'x, unit) staking_op" where
  "si_bond_extra cfg who extra = st_bond_extra cfg (Signed who) extra"

definition si_unbond :: "('acc, 'k, 's, 'v, 'x) staking_config \<Rightarrow> 'acc \<Rightarrow> balance \<Rightarrow> ('acc, 's, 'v, 'x, unit) staking_op" where
  "si_unbond cfg who v = with_controller who (\<lambda>ctrl. st_unbond cfg (Signed ctrl) v)"

definition si_chill :: "('acc, 'k, 's, 'v, 'x) staking_config \<Rightarrow> 'acc \<Rightarrow> ('acc, 's, 'v, 'x, unit) staking_op" where
  "si_chill cfg who = with_controller who (\<lambda>ctrl. st_chill cfg (Signed ctrl))"

definition si_withdraw_unbonded :: "('acc, 'k, 's, 'v, 'x) staking_config \<Rightarrow> 'acc \<Rightarrow> u32 \<Rightarrow> ('acc, 's, 'v, 'x, bool) staking_op" where
  "si_withdraw_unbonded cfg who num_slashing_spans =
     with_controller who (\<lambda>ctrl. bind_op (st_withdraw_unbonded cfg (Signed ctrl) num_slashing_spans) (\<lambda>_ s. (Inr (Ledger s ctrl = None), s)))"

definition si_bond :: "('acc, 'k, 's, 'v, 'x) staking_config \<Rightarrow> 'acc \<Rightarrow> balance \<Rightarrow> 'acc \<Rightarrow> ('acc, 's, 'v, 'x, unit) staking_op" where
  "si_bond cfg who v payee = st_bond cfg (Signed who) v (RD_Account payee)"

definition si_nominate :: "('acc, 'k, 's, 'v, 'x) staking_config \<Rightarrow> 'acc \<Rightarrow> 'acc list \<Rightarrow> ('acc, 's, 'v, 'x, unit) staking_op" where
  "si_nominate cfg who ts = with_controller who (\<lambda>ctrl. st_nominate cfg (Signed ctrl) (map (Unlookup cfg) ts))"

definition si_status ::
  "('acc, 'k, 's, 'v, 'x) staking_config \<Rightarrow> ('acc, 's, 'v, 'x) staking_state \<Rightarrow> 'acc \<Rightarrow> 'acc staker_status result" where
  "si_status cfg s who =
     (if Bonded s who = None then Inl (staking_fail NotStash)
      else case (Validators s who \<noteq> None, nominators_get cfg s who) of
             (False, None) \<Rightarrow> Inr Idle
           | (True, None) \<Rightarrow> Inr Validator
           | (False, Some n) \<Rightarrow> Inr (Nominator (targets n))
           | (True, Some _) \<Rightarrow> Inl (staking_fail BadState))"

section \<open>Checks of the storage\<close>

fun check_all :: "('a \<Rightarrow> string + unit) \<Rightarrow> 'a list \<Rightarrow> string + unit" where
  "check_all f [] = Inr ()"
| "check_all f (x # xs) = (case f x of Inl e \<Rightarrow> Inl e | Inr _ \<Rightarrow> check_all f xs)"

text \<open>
  The runtime's \<open>TargetList\<close> is \<open>UseValidatorsMap\<close>, which counts the validators of the pallet.
\<close>

definition target_list_count :: "('acc, 's, 'v, 'x) staking_state \<Rightarrow> u32" where
  "target_list_count s = CounterForValidators s"

definition check_count :: "('acc, 'k, 's, 'v, 'x) staking_config \<Rightarrow> ('acc, 's, 'v, 'x) staking_state \<Rightarrow> string + unit" where
  "check_count cfg s =
     (if vl_count (VoterList cfg) (voter_list s) \<noteq> CounterForNominators s + CounterForValidators s then Inl ''wrong external count''
      else if target_list_count s \<noteq> CounterForValidators s then Inl ''wrong external count''
      else if MaxWinners cfg < ValidatorCount s then Inl ''TooManyValidators''
      else Inr ())"

definition ensure_ledger_consistent :: "('acc, 's, 'v, 'x) staking_state \<Rightarrow> 'acc \<Rightarrow> string + unit" where
  "ensure_ledger_consistent s ctrl =
     (case Ledger s ctrl of
        None \<Rightarrow> Inl ''Not a controller.''
      | Some l \<Rightarrow>
          if foldl (\<lambda>a c. a + chunk_value c) (ledger_active l) (unlocking l) = ledger_total l then Inr ()
          else Inl ''ledger.total corrupt'')"

definition check_ledgers :: "('acc, 's, 'v, 'x) staking_state \<Rightarrow> ('acc \<times> 'acc) list \<Rightarrow> string + unit" where
  "check_ledgers s bonded = check_all (\<lambda>(_, ctrl). ensure_ledger_consistent s ctrl) bonded"

definition check_exposures :: "'acc exposure list \<Rightarrow> string + unit" where
  "check_exposures exposures =
     check_all (\<lambda>e. if exp_total e = exp_own e + foldl (\<lambda>a i. a + ie_value i) 0 (exp_others e) then Inr ()
                     else Inl ''wrong total exposure.'') exposures"

definition check_nominator ::
  "('acc, 'k, 's, 'v, 'x) staking_config \<Rightarrow> ('acc, 's, 'v, 'x) staking_state \<Rightarrow> era_index \<Rightarrow> 'acc \<Rightarrow> string + unit" where
  "check_nominator cfg s era nominator =
     (if Bonded s nominator = None then Inl ''Not a stash.''
      else check_all (\<lambda>v. if length (filter (\<lambda>i. ie_who i = nominator)
                                 (exp_others (unwrap_or (ErasStakers s (era, v)) default_exposure))) \<le> 1
                          then Inr () else Inl ''nominator cannot back a validator more than once.'')
             (session_validators (SessionInterface cfg) (session s)))"

definition check_nominators ::
  "('acc, 'k, 's, 'v, 'x) staking_config \<Rightarrow> ('acc, 's, 'v, 'x) staking_state \<Rightarrow> era_index \<Rightarrow> ('acc \<times> 'acc nominations) list \<Rightarrow> string + unit" where
  "check_nominators cfg s era noms =
     check_all (check_nominator cfg s era) (map fst (filter (\<lambda>(_, n). submitted_in n < era) noms))"

definition do_try_state ::
  "('acc, 'k, 's, 'v, 'x) staking_config \<Rightarrow> ('acc, 's, 'v, 'x) staking_state \<Rightarrow> ('acc \<times> 'acc nominations) list \<Rightarrow> 'acc exposure list \<Rightarrow>
     ('acc \<times> 'acc) list \<Rightarrow> (string + unit) option" where
  "do_try_state cfg s noms exposures bonded =
     (if \<not> list_all (\<lambda>x. Nominators s x \<noteq> None \<or> Validators s x \<noteq> None) (vl_iter (VoterList cfg) (voter_list s))
      then Some (Inl ''VoterList contains non-staker'')
      else case ActiveEra s of
             None \<Rightarrow> None
           | Some info \<Rightarrow>
               Some (case check_nominators cfg s (era_idx info) noms of
                       Inl e \<Rightarrow> Inl e
                     | Inr _ \<Rightarrow>
                         (case check_exposures exposures of
                            Inl e \<Rightarrow> Inl e
                          | Inr _ \<Rightarrow> (case check_ledgers s bonded of Inl e \<Rightarrow> Inl e | Inr _ \<Rightarrow> check_count cfg s))))"

end
