(* ===== verification/Staking_Invariants.thy ===== *)
theory Staking_Invariants
  imports Staking_Interface
begin

text \<open>
  The invariant of the staking pallet: bonded stashes and ledgers are paired, every ledger is
  balanced and locked in the currency, the two roles are disjoint, counted, bonded and in the list
  of voters. The contracts of the currency, of the handlers of imbalances and of the list of voters
  are the assumptions of the locale \<open>staking_world\<close>, in which every call is shown to keep it.
\<close>

section \<open>The invariant\<close>

definition ledger_ok :: "('acc, 'k, 's, 'v, 'x) staking_config \<Rightarrow> 'acc staking_ledger \<Rightarrow> bool" where
  "ledger_ok cfg l \<longleftrightarrow> balanced_ledger l \<and> length (unlocking l) \<le> unat (MaxUnlockingChunks cfg) \<and>
     sorted_wrt (<) (claimed_rewards l)"

definition ledgers_inv ::
  "('acc, 'k, 's, 'v, 'x) staking_config \<Rightarrow> ('acc \<Rightarrow> balance) \<Rightarrow> ('acc \<rightharpoonup> 'acc) \<Rightarrow> ('acc \<rightharpoonup> 'acc staking_ledger) \<Rightarrow> bool" where
  "ledgers_inv cfg lk B L \<longleftrightarrow>
     (\<forall>x c. B x = Some c \<longrightarrow> (\<exists>l. L c = Some l \<and> ledger_stash l = x)) \<and>
     (\<forall>c l. L c = Some l \<longrightarrow> B (ledger_stash l) = Some c \<and> ledger_ok cfg l \<and>
        (ledger_total l \<noteq> 0 \<longrightarrow> lk (ledger_stash l) = ledger_total l))"

definition roles_inv ::
  "('acc, 'k, 's, 'v, 'x) staking_config \<Rightarrow> ('acc \<rightharpoonup> 'acc) \<Rightarrow> ('acc \<rightharpoonup> validator_prefs) \<Rightarrow> u32 \<Rightarrow>
     ('acc \<rightharpoonup> 'acc nominations) \<Rightarrow> u32 \<Rightarrow> 'v \<Rightarrow> bool" where
  "roles_inv cfg B V cv N cn vl \<longleftrightarrow>
     finite (dom V) \<and> finite (dom N) \<and> unat cv = card (dom V) \<and> unat cn = card (dom N) \<and>
     dom V \<inter> dom N = {} \<and> dom V \<union> dom N \<subseteq> dom B \<and>
     set (vl_iter (VoterList cfg) vl) = dom V \<union> dom N \<and>
     (\<forall>x n. N x = Some n \<longrightarrow> length (targets n) \<le> unat (MaxNominations cfg))"

definition staking_inv ::
  "('acc, 'k, 's, 'v, 'x) staking_config \<Rightarrow> ('s \<Rightarrow> bool) \<Rightarrow> ('s \<Rightarrow> 'acc \<Rightarrow> balance) \<Rightarrow> ('acc, 's, 'v, 'x) staking_state \<Rightarrow> bool" where
  "staking_inv cfg cinv lock_of s \<longleftrightarrow>
     cinv (staking_currency s) \<and> ledgers_inv cfg (lock_of (staking_currency s)) (Bonded s) (Ledger s) \<and>
     roles_inv cfg (Bonded s) (Validators s) (CounterForValidators s) (Nominators s) (CounterForNominators s) (voter_list s) \<and>
     ValidatorCount s \<le> MaxWinners cfg"

text \<open>The part of the storage the invariant reads, and the functions that leave it alone.\<close>

definition core where
  "core s = (Bonded s, Ledger s, Validators s, CounterForValidators s, Nominators s, CounterForNominators s,
     voter_list s, ValidatorCount s, staking_currency s)"

lemma staking_inv_core: "core t = core s \<Longrightarrow> staking_inv cfg cinv lock_of t \<longleftrightarrow> staking_inv cfg cinv lock_of s"
  by (simp add: core_def staking_inv_def)

lemma core_unchanged [simp]:
  "core (st_deposit_event e s) = core s" "core (with_session f s) = core s" "core (set_force_era m s) = core s"
  "core (s\<lparr>session := x\<rparr>) = core s" "core (s\<lparr>Payee := p\<rparr>) = core s"
  "core (s\<lparr>ErasRewardPoints := rp\<rparr>) = core s" "core (s\<lparr>ErasValidatorReward := rw\<rparr>) = core s"
  "core (s\<lparr>CurrentEra := ce\<rparr>) = core s" "core (s\<lparr>ActiveEra := ae\<rparr>) = core s" "core (s\<lparr>BondedEras := be\<rparr>) = core s"
  "core (s\<lparr>UnappliedSlashes := us\<rparr>) = core s" "core (s\<lparr>OffendingValidators := ov\<rparr>) = core s"
  "core (s\<lparr>NominatorSlashInEra := ns\<rparr>) = core s" "core (s\<lparr>ValidatorSlashInEra := vs\<rparr>) = core s"
  "core (s\<lparr>SpanSlash := sps\<rparr>) = core s" "core (s\<lparr>SlashingSpans := ssp\<rparr>) = core s"
  "core (s\<lparr>MinimumActiveStake := ms\<rparr>) = core s" "core (s\<lparr>Invulnerables := iv\<rparr>) = core s"
  "core (s\<lparr>CurrentPlannedSession := cps\<rparr>) = core s" "core (s\<lparr>ErasStartSessionIndex := esi\<rparr>) = core s"
  "core (s\<lparr>ErasTotalStake := ets\<rparr>) = core s" "core (s\<lparr>ErasValidatorPrefs := evp\<rparr>) = core s"
  by (simp_all add: core_def st_deposit_event_def with_session_def set_force_era_def)

lemma core_spans [simp]:
  "core (remove_span_slashes a P s) = core s" "core (drop_spans x s) = core s" "core (clear_era_metadata e s) = core s"
  "core (ensure_new_era s) = core s"
  by (auto simp: remove_span_slashes_def drop_spans_def clear_era_metadata_def ensure_new_era_def Let_def
      split: prod.splits option.splits forcing.splits)

lemma core_fetch [simp]: "fetch_spans a w p sl pr s = (x, t) \<Longrightarrow> core t = core s"
  by (auto simp: fetch_spans_def Let_def split: option.splits prod.splits)

lemma core_compare [simp]: "compare_and_update_span_slash cfg e sl x s = (i, y, t) \<Longrightarrow> core t = core s"
  by (auto simp: compare_and_update_span_slash_def Let_def split: option.splits prod.splits if_splits)

lemma core_offending [simp]: "core (add_offending_validator cfg a d s) = core s"
  by (auto simp: add_offending_validator_def Let_def split: option.splits sum.splits)

lemma core_fold: "(\<And>x t. core (f x t) = core t) \<Longrightarrow> core (fold f xs s) = core s"
  by (induction xs arbitrary: s) auto

lemma core_clear_stash: "clear_stash_metadata stash n s = (Inr u, t) \<Longrightarrow> core t = core s"
  by (auto simp: clear_stash_metadata_def op_simps split: option.splits)

section \<open>Ledgers\<close>

lemma ledgers_invD:
  assumes "ledgers_inv cfg lk B L" and "L c = Some l"
  shows "B (ledger_stash l) = Some c" and "ledger_ok cfg l"
    and "ledger_total l \<noteq> 0 \<Longrightarrow> lk (ledger_stash l) = ledger_total l"
  using assms by (auto simp: ledgers_inv_def)

lemma ledgers_inv_bonded:
  assumes "ledgers_inv cfg lk B L" and "B x = Some c"
  shows "\<exists>l. L c = Some l \<and> ledger_stash l = x"
  using assms by (auto simp: ledgers_inv_def)

lemma ledgers_inv_stash: "ledgers_inv cfg lk B L \<Longrightarrow> B x = Some c \<Longrightarrow> L c = Some l \<Longrightarrow> ledger_stash l = x"
  using ledgers_inv_bonded by fastforce

lemma ledgers_inv_unique:
  "ledgers_inv cfg lk B L \<Longrightarrow> L c = Some l \<Longrightarrow> L c' = Some k \<Longrightarrow> ledger_stash k = ledger_stash l \<Longrightarrow> c' = c"
  using ledgers_invD(1) [of cfg lk B L c l] ledgers_invD(1) [of cfg lk B L c' k] by simp

lemma ledgers_invI:
  assumes "\<And>x c. B x = Some c \<Longrightarrow> \<exists>l. L c = Some l \<and> ledger_stash l = x"
    and "\<And>c l. L c = Some l \<Longrightarrow> B (ledger_stash l) = Some c"
    and "\<And>c l. L c = Some l \<Longrightarrow> ledger_ok cfg l"
    and "\<And>c l. L c = Some l \<Longrightarrow> ledger_total l \<noteq> 0 \<Longrightarrow> lk (ledger_stash l) = ledger_total l"
  shows "ledgers_inv cfg lk B L"
  using assms by (simp add: ledgers_inv_def)

lemma ledgers_inv_update:
  assumes inv: "ledgers_inv cfg lk B L" and l: "L c = Some l" and st: "ledger_stash l' = ledger_stash l" and lok: "ledger_ok cfg l'"
    and lk: "ledger_total l' \<noteq> 0 \<longrightarrow> lk' (ledger_stash l) = ledger_total l'" and other: "\<And>a. a \<noteq> ledger_stash l \<Longrightarrow> lk' a = lk a"
  shows "ledgers_inv cfg lk' B (L(c \<mapsto> l'))"
proof (rule ledgers_invI)
  fix x c' assume x: "B x = Some c'"
  show "\<exists>k. (L(c \<mapsto> l')) c' = Some k \<and> ledger_stash k = x"
    using ledgers_inv_bonded [OF inv x] l st by (cases "c' = c") auto
next
  fix c' k assume k: "(L(c \<mapsto> l')) c' = Some k"
  note unique = ledgers_inv_unique [OF inv l, of c' k]
  show "B (ledger_stash k) = Some c'" "ledger_ok cfg k"
    using k st lok ledgers_invD(1,2) [OF inv] l by (auto split: if_splits)
  show "lk' (ledger_stash k) = ledger_total k" if "ledger_total k \<noteq> 0"
    using k st that lk other [of "ledger_stash k"] unique ledgers_invD(3) [OF inv, of c' k]
    by (cases "c' = c") auto
qed

lemma ledgers_inv_new:
  assumes inv: "ledgers_inv cfg lk B L" and b: "B x = None" and f: "L x = None" and st: "ledger_stash l = x" and lok: "ledger_ok cfg l"
    and lk: "ledger_total l \<noteq> 0 \<longrightarrow> lk' x = ledger_total l" and other: "\<And>a. a \<noteq> x \<Longrightarrow> lk' a = lk a"
  shows "ledgers_inv cfg lk' (B(x \<mapsto> x)) (L(x \<mapsto> l))"
proof (rule ledgers_invI)
  fix y c assume "(B(x \<mapsto> x)) y = Some c"
  then show "\<exists>k. (L(x \<mapsto> l)) c = Some k \<and> ledger_stash k = y"
    using ledgers_inv_bonded [OF inv, of y c] f st by (auto split: if_splits)
next
  fix c k assume k: "(L(x \<mapsto> l)) c = Some k"
  have ne: "ledger_stash k \<noteq> x" if "c \<noteq> x" using k that ledgers_invD(1) [OF inv, of c k] b by auto
  show "(B(x \<mapsto> x)) (ledger_stash k) = Some c" "ledger_ok cfg k"
    using k ne st lok ledgers_invD(1,2) [OF inv, of c k] by (auto split: if_splits)
  show "lk' (ledger_stash k) = ledger_total k" if "ledger_total k \<noteq> 0"
    using k ne st lk other that ledgers_invD(3) [OF inv, of c k] by (auto split: if_splits)
qed

lemma ledgers_inv_remove:
  assumes inv: "ledgers_inv cfg lk B L" and b: "B x = Some c" and other: "\<And>a. a \<noteq> x \<Longrightarrow> lk' a = lk a"
  shows "ledgers_inv cfg lk' (B(x := None)) (L(c := None))"
proof -
  obtain l where l: "L c = Some l" "ledger_stash l = x" using ledgers_inv_bonded [OF inv b] by blast
  have ne: "ledger_stash k \<noteq> x" if "L c' = Some k" "c' \<noteq> c" for c' k
    using ledgers_inv_unique [OF inv l(1) that(1)] that(2) l(2) by auto
  show ?thesis
  proof (rule ledgers_invI)
    fix y c' assume "(B(x := None)) y = Some c'"
    then show "\<exists>k. (L(c := None)) c' = Some k \<and> ledger_stash k = y"
      using ledgers_inv_bonded [OF inv, of y c'] l by (auto split: if_splits)
  next
    fix c' k assume k: "(L(c := None)) c' = Some k"
    then have k': "L c' = Some k" "c' \<noteq> c" by (auto split: if_splits)
    show "(B(x := None)) (ledger_stash k) = Some c'" "ledger_ok cfg k"
      using ne [OF k'] ledgers_invD(1,2) [OF inv k'(1)] by auto
    show "lk' (ledger_stash k) = ledger_total k" if "ledger_total k \<noteq> 0"
      using ne [OF k'] other that ledgers_invD(3) [OF inv k'(1)] by auto
  qed
qed

lemma ledgers_inv_move:
  assumes inv: "ledgers_inv cfg lk B L" and b: "B x = Some c" and l: "L c = Some l" and f: "L x = None"
  shows "ledgers_inv cfg lk (B(x \<mapsto> x)) (L(c := None, x \<mapsto> l))"
proof -
  have st: "ledger_stash l = x" by (rule ledgers_inv_stash [OF inv b l])
  have ne: "ledger_stash k \<noteq> x" if "L c' = Some k" "c' \<noteq> c" for c' k
    using ledgers_inv_unique [OF inv l that(1)] that(2) st by auto
  show ?thesis
  proof (rule ledgers_invI)
    fix y c' assume "(B(x \<mapsto> x)) y = Some c'"
    then show "\<exists>k. (L(c := None, x \<mapsto> l)) c' = Some k \<and> ledger_stash k = y"
      using ledgers_inv_bonded [OF inv, of y c'] l f st by (auto split: if_splits)
  next
    fix c' k assume "(L(c := None, x \<mapsto> l)) c' = Some k"
    then consider "c' = x" "k = l" | "c' \<noteq> x" "c' \<noteq> c" "L c' = Some k" by (auto split: if_splits)
    then show "(B(x \<mapsto> x)) (ledger_stash k) = Some c'" "ledger_ok cfg k"
      "ledger_total k \<noteq> 0 \<Longrightarrow> lk (ledger_stash k) = ledger_total k"
      using ledgers_invD [OF inv l] st ne ledgers_invD [OF inv, of c' k] by (cases; auto)+
  qed
qed

lemma ledgers_inv_locks:
  assumes "ledgers_inv cfg lk B L" and "B x = None" and "\<And>a. a \<noteq> x \<Longrightarrow> lk' a = lk a"
  shows "ledgers_inv cfg lk' B L"
proof (rule ledgers_invI)
  fix c l assume "L c = Some l" "ledger_total l \<noteq> 0"
  then show "lk' (ledger_stash l) = ledger_total l"
    using ledgers_invD(1,3) [OF assms(1), of c l] assms(2) assms(3) [of "ledger_stash l"] by force
qed (use ledgers_invD(1,2) [OF assms(1)] ledgers_inv_bonded [OF assms(1)] in auto)

section \<open>Roles\<close>

definition voter_list_ok :: "('acc, 'v) sorted_list_provider \<Rightarrow> bool" where
  "voter_list_ok vl \<longleftrightarrow>
     (\<forall>v. distinct (vl_iter vl v) \<and> vl_count vl v = of_nat (length (vl_iter vl v)) \<and>
        (\<forall>x. vl_contains vl v x \<longleftrightarrow> x \<in> set (vl_iter vl v)) \<and>
        (\<forall>x w. set (vl_iter vl (vl_on_insert vl x w v)) = insert x (set (vl_iter vl v)) \<and>
               set (vl_iter vl (vl_on_update vl x w v)) = set (vl_iter vl v) \<and>
               set (vl_iter vl (vl_on_remove vl x v)) = set (vl_iter vl v) - {x}))"

lemma roles_inv_voters:
  "set (vl_iter (VoterList cfg) vl') = set (vl_iter (VoterList cfg) vl) \<Longrightarrow>
     roles_inv cfg B V cv N cn vl' \<longleftrightarrow> roles_inv cfg B V cv N cn vl"
  by (simp add: roles_inv_def)

lemma roles_inv_bonded: "roles_inv cfg B V cv N cn vl \<Longrightarrow> dom B \<subseteq> dom B' \<Longrightarrow> roles_inv cfg B' V cv N cn vl"
  unfolding roles_inv_def by (meson order_trans)

lemma unat_pred: "x \<noteq> 0 \<Longrightarrow> unat (saturating_sub x 1 :: 'a::len word) = unat x - 1"
  by (simp add: unat_saturating_sub)

lemma roles_inv_remove_validator:
  assumes "roles_inv cfg B V cv N cn vl" and "voter_list_ok (VoterList cfg)" and "V x \<noteq> None"
  shows "roles_inv cfg B (V(x := None)) (saturating_sub cv 1) N cn (vl_on_remove (VoterList cfg) x vl)"
proof -
  have x: "x \<in> dom V" using assms(3) by auto
  have "unat (saturating_sub cv 1) = card (dom V) - 1"
    using assms(1) by (simp add: roles_inv_def unat_saturating_sub)
  moreover have "dom (V(x := None)) = dom V - {x}" by auto
  moreover have "x \<notin> dom N" using assms(1) x by (auto simp: roles_inv_def)
  ultimately show ?thesis using assms(1,2) x by (auto simp: roles_inv_def voter_list_ok_def)
qed

lemma roles_inv_remove_nominator:
  assumes "roles_inv cfg B V cv N cn vl" and "voter_list_ok (VoterList cfg)" and "N x \<noteq> None"
  shows "roles_inv cfg B V cv (N(x := None)) (saturating_sub cn 1) (vl_on_remove (VoterList cfg) x vl)"
proof -
  have x: "x \<in> dom N" using assms(3) by auto
  have "unat (saturating_sub cn 1) = card (dom N) - 1"
    using assms(1) by (simp add: roles_inv_def unat_saturating_sub)
  moreover have "dom (N(x := None)) = dom N - {x}" by auto
  moreover have "x \<notin> dom V" using assms(1) x by (auto simp: roles_inv_def)
  ultimately show ?thesis using assms(1,2) x by (auto simp: roles_inv_def voter_list_ok_def split: if_splits)
qed

lemma roles_inv_add_validator:
  assumes "roles_inv cfg B V cv N cn vl" and "voter_list_ok (VoterList cfg)" and "N x = None" and "x \<in> dom B"
    and "unat cv + 1 < 2 ^ 32"
  shows "roles_inv cfg B (V(x \<mapsto> p)) (if V x = None then saturating_add cv 1 else cv) N cn
           (if V x = None then vl_on_insert (VoterList cfg) x w vl else vl)"
proof (cases "V x")
  case None
  then have "x \<notin> dom V" by auto
  moreover have "unat (saturating_add cv 1) = unat cv + 1" using assms(5) by (simp add: unat_saturating_add)
  ultimately show ?thesis using assms None by (auto simp: roles_inv_def voter_list_ok_def card_insert_if)
next
  case (Some q)
  then have "dom (V(x \<mapsto> p)) = dom V" by auto
  with Some assms show ?thesis by (auto simp: roles_inv_def)
qed

lemma roles_inv_add_nominator:
  assumes "roles_inv cfg B V cv N cn vl" and "voter_list_ok (VoterList cfg)" and "V x = None" and "x \<in> dom B"
    and "unat cn + 1 < 2 ^ 32" and "length (targets n) \<le> unat (MaxNominations cfg)"
  shows "roles_inv cfg B V cv (N(x \<mapsto> n)) (if N x = None then saturating_add cn 1 else cn)
           (if N x = None then vl_on_insert (VoterList cfg) x w vl else vl)"
proof (cases "N x")
  case None
  then have "x \<notin> dom N" by auto
  moreover have "unat (saturating_add cn 1) = unat cn + 1" using assms(5) by (simp add: unat_saturating_add)
  ultimately show ?thesis using assms None by (auto simp: roles_inv_def voter_list_ok_def card_insert_if split: if_splits)
next
  case (Some q)
  then have "dom (N(x \<mapsto> n)) = dom N" by auto
  with Some assms show ?thesis by (auto simp: roles_inv_def split: if_splits)
qed

section \<open>What the operations do\<close>

lemma remove_role_effect:
  "Validators (snd (do_remove_validator cfg x s)) = (Validators s)(x := None)"
  "Nominators (snd (do_remove_validator cfg x s)) = Nominators s"
  "Nominators (snd (do_remove_nominator cfg x s)) = (Nominators s)(x := None)"
  "Validators (snd (do_remove_nominator cfg x s)) = Validators s"
  "Bonded (snd (do_remove_validator cfg x s)) = Bonded s" "Bonded (snd (do_remove_nominator cfg x s)) = Bonded s"
  "Ledger (snd (do_remove_validator cfg x s)) = Ledger s" "Ledger (snd (do_remove_nominator cfg x s)) = Ledger s"
  "staking_currency (snd (do_remove_validator cfg x s)) = staking_currency s"
  "staking_currency (snd (do_remove_nominator cfg x s)) = staking_currency s"
  "CounterForNominators (snd (do_remove_validator cfg x s)) = CounterForNominators s"
  "CounterForValidators (snd (do_remove_nominator cfg x s)) = CounterForValidators s"
  by (auto simp: do_remove_validator_def do_remove_nominator_def with_voters_def fun_upd_idem)

lemma remove_role_commute:
  "snd (do_remove_validator cfg x (s\<lparr>Bonded := b, Ledger := l, Payee := p\<rparr>)) =
     (snd (do_remove_validator cfg x s))\<lparr>Bonded := b, Ledger := l, Payee := p\<rparr>"
  "snd (do_remove_nominator cfg x (s\<lparr>Bonded := b, Ledger := l, Payee := p\<rparr>)) =
     (snd (do_remove_nominator cfg x s))\<lparr>Bonded := b, Ledger := l, Payee := p\<rparr>"
  by (simp_all add: do_remove_validator_def do_remove_nominator_def with_voters_def)

lemma ledger_ok_consolidate:
  assumes "ledger_ok cfg l"
  shows "ledger_ok cfg (consolidate_unlocked l now)"
  using assms consolidate_balanced(1) [of l now]
  by (auto simp: ledger_ok_def intro: le_trans [OF length_filter_le])

lemma sorted_era_range: "sorted_wrt (<) (era_range a b)"
proof -
  have "sorted_wrt (\<lambda>m n. (of_nat m :: era_index) < of_nat n) [unat a..<unat b]"
    by (rule sorted_wrt_mono_rel [OF _ sorted_wrt_upt])
      (use unat_u32 [of b] in \<open>auto simp: word_less_nat_alt unat_of_nat\<close>)
  then show ?thesis by (simp add: era_range_def sorted_wrt_map)
qed

lemma inc_consumers_Inr:
  "(case f of (Inl e, x) \<Rightarrow> (Inl (g e), h x) | (Inr i, x) \<Rightarrow> (Inr (), h x)) = (Inr u, t) \<longleftrightarrow> (\<exists>i x. f = (Inr i, x) \<and> t = h x)"
  by (auto split: prod.splits sum.splits)

lemma ledger_ok_extra:
  assumes "ledger_ok cfg l" and "unat (ledger_total l) + unat e < 2 ^ 128"
  shows "ledger_ok cfg (l\<lparr>ledger_total := ledger_total l + e, ledger_active := ledger_active l + e\<rparr>)"
    and "ledger_ok cfg (l\<lparr>ledger_active := ledger_active l + e, ledger_total := ledger_total l + e\<rparr>)"
    and "unat (ledger_total l + e) = unat (ledger_total l) + unat e"
proof -
  have "unat (ledger_active l) + unat e < 2 ^ 128"
    using assms by (simp add: ledger_ok_def balanced_ledger_def)
  then have "unat (ledger_active l + e) = unat (ledger_active l) + unat e" by (intro unat_plus_less) simp
  moreover show t: "unat (ledger_total l + e) = unat (ledger_total l) + unat e" using assms(2) by (intro unat_plus_less) simp
  ultimately show "ledger_ok cfg (l\<lparr>ledger_total := ledger_total l + e, ledger_active := ledger_active l + e\<rparr>)"
    and "ledger_ok cfg (l\<lparr>ledger_active := ledger_active l + e, ledger_total := ledger_total l + e\<rparr>)"
    using assms(1) by (simp_all add: ledger_ok_def balanced_ledger_def)
qed

lemma do_withdraw_unbonded_cases:
  assumes "do_withdraw_unbonded cfg c n s = (Inr u, t)"
  obtains (kill) l s0 where "Ledger s c = Some l" "kill_stash cfg (ledger_stash l) n s = (Inr (), s0)"
      "core t = core (with_currency (sc_remove_lock (Currency cfg) STAKING_ID (ledger_stash l)) s0)"
  | (update) l where "Ledger s c = Some l"
      "core t = core (update_ledger cfg c (case CurrentEra s of Some now \<Rightarrow> consolidate_unlocked l now | None \<Rightarrow> l) s)"
proof (cases "Ledger s c")
  case None
  with assms show thesis by (simp add: do_withdraw_unbonded_def op_simps get_ledger_def)
next
  case (Some l)
  define l1 where "l1 = (case CurrentEra s of Some now \<Rightarrow> consolidate_unlocked l now | None \<Rightarrow> l)"
  show thesis
  proof (cases "unlocking l1 = [] \<and> ledger_active l1 < sc_minimum_balance (Currency cfg)")
    case True
    with assms Some obtain s0 where "kill_stash cfg (ledger_stash l) n s = (Inr (), s0)"
      "core t = core (with_currency (sc_remove_lock (Currency cfg) STAKING_ID (ledger_stash l)) s0)"
      by (auto simp: do_withdraw_unbonded_def op_simps get_ledger_def Let_def l1_def [symmetric])
    then show thesis using Some by (intro kill)
  next
    case False
    with assms Some have "core t = core (update_ledger cfg c l1 s)"
      by (auto simp: do_withdraw_unbonded_def op_simps get_ledger_def Let_def l1_def [symmetric] split: if_splits)
    then show thesis using Some by (intro update) (simp_all add: l1_def)
  qed
qed

lemma push_chunk_effect:
  assumes "push_chunk cfg v e u = Inr u'" and "chunk_sum u + unat v < 2 ^ 128" and "length u < unat (MaxUnlockingChunks cfg)"
  shows "chunk_sum u' = chunk_sum u + unat v" and "length u' \<le> unat (MaxUnlockingChunks cfg)"
proof -
  have "u \<noteq> [] \<Longrightarrow> chunk_sum u = chunk_sum (butlast u) + unat (chunk_value (last u))" by (rule chunk_sum_butlast)
  with assms show "chunk_sum u' = chunk_sum u + unat v" and "length u' \<le> unat (MaxUnlockingChunks cfg)"
    by (auto simp: push_chunk_def unat_saturating_add split: if_splits)
qed

lemma unbond_ledger_ok:
  assumes "ledger_ok cfg l" and "value = min v (ledger_active l)" and "active = ledger_active l - value"
    and "(value', active') = (if active < mb then (value + active, 0) else (value, active))"
    and "push_chunk cfg value' e (unlocking l) = Inr u'" and "length (unlocking l) < unat (MaxUnlockingChunks cfg)"
  shows "ledger_ok cfg (l\<lparr>ledger_active := active', unlocking := u'\<rparr>)"
proof -
  have le: "unat value \<le> unat (ledger_active l)" by (simp add: assms(2) unat_min)
  then have a: "unat active = unat (ledger_active l) - unat value"
    unfolding assms(3) by (intro unat_minus_le) (simp add: unat_order)
  have "unat (value + active) = unat (ledger_active l)"
    using le a unat_u128 [of "ledger_active l"] by (subst unat_plus_less) auto
  then have sum: "unat value' + unat active' = unat (ledger_active l)"
    using assms(4) a le by (auto split: if_splits)
  have "unat (ledger_active l) + chunk_sum (unlocking l) < 2 ^ 128"
    using assms(1) unat_u128 [of "ledger_total l"] by (simp add: ledger_ok_def balanced_ledger_def)
  then have "chunk_sum (unlocking l) + unat value' < 2 ^ 128" using sum by simp
  from push_chunk_effect [OF assms(5) this assms(6)] assms(1) sum show ?thesis
    by (simp add: ledger_ok_def balanced_ledger_def)
qed

lemma unbond_cases:
  assumes "st_unbond cfg orig v s = (Inr u, t)"
  obtains c n s1 l where "s1 = s \<or> do_withdraw_unbonded cfg c n s = (Inr (), s1)" "Ledger s1 c = Some l"
    "length (unlocking l) < unat (MaxUnlockingChunks cfg)" "t = s1"
  | c n s1 l value' active' u' where "s1 = s \<or> do_withdraw_unbonded cfg c n s = (Inr (), s1)" "Ledger s1 c = Some l"
    "length (unlocking l) < unat (MaxUnlockingChunks cfg)"
    "(value', active') = (if ledger_active l - min v (ledger_active l) < sc_minimum_balance (Currency cfg)
       then (min v (ledger_active l) + (ledger_active l - min v (ledger_active l)), 0)
       else (min v (ledger_active l), ledger_active l - min v (ledger_active l)))"
    "push_chunk cfg value' (unwrap_or (CurrentEra s1) 0 + BondingDuration cfg) (unlocking l) = Inr u'"
    "t = st_deposit_event (SE_Unbonded (ledger_stash l) value')
       (update_voter cfg (ledger_stash l) (ledger_stash l) (update_ledger cfg c (l\<lparr>ledger_active := active', unlocking := u'\<rparr>) s1))"
proof -
  from assms obtain c l0 where c: "orig = Signed c" "Ledger s c = Some l0"
    by (auto simp: st_unbond_def op_simps get_ledger_def)
  define n :: u32 where "n = (case SlashingSpans s c of None \<Rightarrow> 0 | Some sp \<Rightarrow> of_nat (length (spans_iter sp)))"
  from assms c obtain s1 l where s1: "s1 = s \<or> do_withdraw_unbonded cfg c n s = (Inr (), s1)" "Ledger s1 c = Some l"
    "length (unlocking l) < unat (MaxUnlockingChunks cfg)"
    and rest: "unbond_value cfg c l (min v (ledger_active l)) s1 = (Inr u, t)"
    by (auto simp: st_unbond_def op_simps get_ledger_def n_def [symmetric] split: if_splits)
  show thesis
  proof (cases "min v (ledger_active l) = 0")
    case True
    then show thesis using that(1) [OF s1] rest by (simp add: unbond_value_def ok_iff)
  next
    case False
    obtain value' active' where va: "(value', active') = (if ledger_active l - min v (ledger_active l) < sc_minimum_balance (Currency cfg)
       then (min v (ledger_active l) + (ledger_active l - min v (ledger_active l)), 0)
       else (min v (ledger_active l), ledger_active l - min v (ledger_active l)))" by (metis prod.collapse)
    from rest False obtain u' where "push_chunk cfg value' (unwrap_or (CurrentEra s1) 0 + BondingDuration cfg) (unlocking l) = Inr u'"
      "t = st_deposit_event (SE_Unbonded (ledger_stash l) value')
       (update_voter cfg (ledger_stash l) (ledger_stash l) (update_ledger cfg c (l\<lparr>ledger_active := active', unlocking := u'\<rparr>) s1))"
      by (auto simp: unbond_value_def Let_def va [symmetric] op_simps)
    then show thesis by (rule that(2) [OF s1 va])
  qed
qed

section \<open>The contracts the pallet relies on\<close>

text \<open>
  The currency: on states that satisfy its own invariant \<open>cinv\<close>, a lock set with a non-zero amount
  is the lock of that account, no operation touches the lock of another account, and only the two
  lock operations touch a lock at all. \<open>lock_of\<close> is the amount locked under the pallet's identifier.
\<close>

locale stake_currency_contract =
  fixes cur :: "('acc, 's) stake_currency" and cinv :: "'s \<Rightarrow> bool" and lock_of :: "'s \<Rightarrow> 'acc \<Rightarrow> balance"
  assumes set_lock_law: "cinv x \<Longrightarrow> cinv (sc_set_lock cur STAKING_ID who v x) \<and>
      (v \<noteq> 0 \<longrightarrow> lock_of (sc_set_lock cur STAKING_ID who v x) who = v) \<and>
      (\<forall>a. a \<noteq> who \<longrightarrow> lock_of (sc_set_lock cur STAKING_ID who v x) a = lock_of x a)"
    and remove_lock_law: "cinv x \<Longrightarrow> cinv (sc_remove_lock cur STAKING_ID who x) \<and>
      (\<forall>a. a \<noteq> who \<longrightarrow> lock_of (sc_remove_lock cur STAKING_ID who x) a = lock_of x a)"
    and deposit_creating_law: "cinv x \<Longrightarrow> sc_deposit_creating cur who v x = (i, y) \<Longrightarrow> cinv y \<and> lock_of y = lock_of x"
    and deposit_into_existing_law: "cinv x \<Longrightarrow> sc_deposit_into_existing cur who v x = (r, y) \<Longrightarrow> cinv y \<and> lock_of y = lock_of x"
    and slash_law: "cinv x \<Longrightarrow> sc_slash cur who v x = (im, y) \<Longrightarrow> cinv y \<and> lock_of y = lock_of x"
    and issue_law: "cinv x \<Longrightarrow> sc_issue cur v x = (i, y) \<Longrightarrow> cinv y \<and> lock_of y = lock_of x"
    and resolve_creating_law: "cinv x \<Longrightarrow> cinv (sc_resolve_creating cur who v x) \<and> lock_of (sc_resolve_creating cur who v x) = lock_of x"
    and inc_consumers_law: "cinv x \<Longrightarrow> sc_inc_consumers cur who x = (ir, y) \<Longrightarrow> cinv y \<and> lock_of y = lock_of x"
    and dec_consumers_law: "cinv x \<Longrightarrow> cinv (sc_dec_consumers cur who x) \<and> lock_of (sc_dec_consumers cur who x) = lock_of x"
begin

lemma resolve_rewards_keep:
  "cinv x \<Longrightarrow> resolve_rewards cur per rs w x = (r, y) \<Longrightarrow> cinv y \<and> lock_of y = lock_of x"
proof (induction rs arbitrary: w x)
  case (Cons a rs)
  note law = resolve_creating_law [OF Cons.prems(1), of a "min w per"]
  have "resolve_rewards cur per rs (w - min w per) (sc_resolve_creating cur a (min w per) x) = (r, y)"
    using Cons.prems(2) by (simp add: Let_def)
  from Cons.IH [OF conjunct1 [OF law] this] law show ?case by simp
qed simp

end

locale staking_world = stake_currency_contract "Currency cfg" cinv lock_of
  for cfg :: "('acc, 'k, 's, 'v, 'x) staking_config" and cinv :: "'s \<Rightarrow> bool" and lock_of :: "'s \<Rightarrow> 'acc \<Rightarrow> balance" +
  assumes reward_law: "cinv x \<Longrightarrow> cinv (Reward cfg v x) \<and> lock_of (Reward cfg v x) = lock_of x"
    and slash_handler_law: "cinv x \<Longrightarrow> cinv (Slash cfg v x) \<and> lock_of (Slash cfg v x) = lock_of x"
    and remainder_law: "cinv x \<Longrightarrow> cinv (RewardRemainder cfg v x) \<and> lock_of (RewardRemainder cfg v x) = lock_of x"
    and voters_law: "voter_list_ok (VoterList cfg)"
    and fractions_law: "fractions_cover (Fractions cfg)"
begin

abbreviation inv :: "('acc, 's, 'v, 'x) staking_state \<Rightarrow> bool" where
  "inv \<equiv> staking_inv cfg cinv lock_of"

lemma inv_core: "inv s \<Longrightarrow> core t = core s \<Longrightarrow> inv t"
  by (erule (1) staking_inv_core [THEN iffD2, rotated])

lemma inv_currency:
  "inv s \<Longrightarrow> cinv x \<and> lock_of x = lock_of (staking_currency s) \<Longrightarrow> inv (s\<lparr>staking_currency := x\<rparr>)"
  by (simp add: staking_inv_def)

lemma inv_with_currency:
  assumes "inv s" and "\<And>x. cinv x \<Longrightarrow> cinv (f x) \<and> lock_of (f x) = lock_of x"
  shows "inv (with_currency f s)"
  using assms(1) assms(2) [of "staking_currency s"] by (simp add: staking_inv_def with_currency_def)

lemma inv_ledgers: "inv s \<Longrightarrow> ledgers_inv cfg (lock_of (staking_currency s)) (Bonded s) (Ledger s)"
  by (simp add: staking_inv_def)

lemma inv_cinv: "inv s \<Longrightarrow> cinv (staking_currency s)"
  by (simp add: staking_inv_def)

lemma inv_roles: "inv s \<Longrightarrow>
    roles_inv cfg (Bonded s) (Validators s) (CounterForValidators s) (Nominators s) (CounterForNominators s) (voter_list s)"
  by (simp add: staking_inv_def)

lemma inv_ledger:
  assumes "inv s" and "Ledger s c = Some l"
  shows "Bonded s (ledger_stash l) = Some c" and "ledger_ok cfg l" and "balanced_ledger l"
  using ledgers_invD [OF inv_ledgers [OF assms(1)] assms(2)] by (auto simp: ledger_ok_def)

lemma inv_event: "inv s \<Longrightarrow> inv (st_deposit_event e s)"
  by (erule inv_core) simp

lemma inv_update_ledger:
  assumes "inv s" and "Ledger s c = Some l" and "ledger_stash l' = ledger_stash l" and "ledger_ok cfg l'"
  shows "inv (update_ledger cfg c l' s)"
proof -
  let ?x = "sc_set_lock (Currency cfg) STAKING_ID (ledger_stash l) (ledger_total l') (staking_currency s)"
  note law = set_lock_law [OF inv_cinv [OF assms(1)], of "ledger_stash l" "ledger_total l'"]
  have "ledgers_inv cfg (lock_of ?x) (Bonded s) ((Ledger s)(c \<mapsto> l'))"
    using law by (intro ledgers_inv_update [OF inv_ledgers [OF assms(1)] assms(2-4)]) auto
  with law assms(1,3) show ?thesis
    by (simp add: staking_inv_def update_ledger_def with_currency_def)
qed

lemma inv_update_voter: "inv s \<Longrightarrow> inv (update_voter cfg x y s)"
  using voters_law
  by (auto simp: staking_inv_def update_voter_def with_voters_def voter_list_ok_def elim: roles_inv_voters [THEN iffD2, rotated])

lemma inv_remove_validator:
  assumes "inv s"
  shows "inv (snd (do_remove_validator cfg x s))"
  using assms roles_inv_remove_validator [OF inv_roles [OF assms] voters_law]
  by (auto simp: staking_inv_def do_remove_validator_def with_voters_def)

lemma inv_remove_nominator:
  assumes "inv s"
  shows "inv (snd (do_remove_nominator cfg x s))"
  using assms roles_inv_remove_nominator [OF inv_roles [OF assms] voters_law]
  by (auto simp: staking_inv_def do_remove_nominator_def with_voters_def)

lemma inv_chill:
  assumes "inv s"
  shows "inv (chill_stash cfg x s)"
  using inv_remove_nominator [OF inv_remove_validator [OF assms, of x], of x]
  by (auto simp: chill_stash_def split: prod.splits intro: inv_event)

lemma inv_add_validator:
  assumes "inv s" and "Bonded s x \<noteq> None" and "Nominators s x = None" and "unat (CounterForValidators s) + 1 < 2 ^ 32"
  shows "inv (do_add_validator cfg x p s)"
proof -
  have "x \<in> dom (Bonded s)" using assms(2) by auto
  from assms(1) roles_inv_add_validator [OF inv_roles [OF assms(1)] voters_law assms(3) this assms(4), of p "weight_of cfg s x"]
  show ?thesis
    by (cases "Validators s x") (simp_all add: staking_inv_def do_add_validator_def insert_validator_def with_voters_def)
qed

lemma inv_add_nominator:
  assumes "inv s" and "Bonded s x \<noteq> None" and "Validators s x = None" and "unat (CounterForNominators s) + 1 < 2 ^ 32"
    and "length (targets n) \<le> unat (MaxNominations cfg)"
  shows "inv (do_add_nominator cfg x n s)"
proof -
  have "x \<in> dom (Bonded s)" using assms(2) by auto
  from assms(1) roles_inv_add_nominator [OF inv_roles [OF assms(1)] voters_law assms(3) this assms(4,5), of "weight_of cfg s x"]
  show ?thesis
    by (cases "Nominators s x") (simp_all add: staking_inv_def do_add_nominator_def insert_nominator_def with_voters_def)
qed

lemma inv_unbond_role:
  assumes "inv s" and "Bonded s x = Some c" and "Validators s x = None" and "Nominators s x = None"
  shows "inv (s\<lparr>Bonded := (Bonded s)(x := None), Ledger := (Ledger s)(c := None), Payee := p\<rparr>)"
proof -
  have "ledgers_inv cfg (lock_of (staking_currency s)) ((Bonded s)(x := None)) ((Ledger s)(c := None))"
    by (rule ledgers_inv_remove [OF inv_ledgers [OF assms(1)] assms(2)]) simp
  moreover have "roles_inv cfg ((Bonded s)(x := None)) (Validators s) (CounterForValidators s) (Nominators s)
      (CounterForNominators s) (voter_list s)"
    using inv_roles [OF assms(1)] assms(3,4) by (auto simp: roles_inv_def)
  ultimately show ?thesis using assms(1) by (simp add: staking_inv_def)
qed

lemma inv_kill_stash:
  assumes "inv s" and "kill_stash cfg x n s = (Inr u, t)"
  shows "inv t" and "Bonded t x = None"
proof -
  from assms(2) obtain c s0 where c: "Bonded s x = Some c" and s0: "clear_stash_metadata x n s = (Inr (), s0)"
    and t: "t = with_currency (sc_dec_consumers (Currency cfg) x)
      ((snd (do_remove_nominator cfg x (snd (do_remove_validator cfg x s0))))
         \<lparr>Bonded := (Bonded s0)(x := None), Ledger := (Ledger s0)(c := None), Payee := (Payee s0)(x := None)\<rparr>)"
    by (auto simp: kill_stash_def op_simps Let_def remove_role_commute)
  have core0: "core s0 = core s" by (rule core_clear_stash [OF s0])
  then have "inv s0" by (rule inv_core [OF assms(1)])
  then have 1: "inv (snd (do_remove_nominator cfg x (snd (do_remove_validator cfg x s0))))"
    by (intro inv_remove_nominator inv_remove_validator)
  have "Bonded s0 x = Some c" using core0 c by (simp add: core_def)
  then have "inv ((snd (do_remove_nominator cfg x (snd (do_remove_validator cfg x s0))))
         \<lparr>Bonded := (Bonded s0)(x := None), Ledger := (Ledger s0)(c := None), Payee := (Payee s0)(x := None)\<rparr>)"
    using inv_unbond_role [OF 1, of x c "(Payee s0)(x := None)"] by (simp add: remove_role_effect)
  then show "inv t" unfolding t by (rule inv_with_currency) (rule dec_consumers_law)
  show "Bonded t x = None" by (simp add: t with_currency_def)
qed

lemma inv_remove_lock:
  assumes "inv s" and "Bonded s x = None"
  shows "inv (with_currency (sc_remove_lock (Currency cfg) STAKING_ID x) s)"
proof -
  note law = remove_lock_law [OF inv_cinv [OF assms(1)], of x]
  have "ledgers_inv cfg (lock_of (sc_remove_lock (Currency cfg) STAKING_ID x (staking_currency s))) (Bonded s) (Ledger s)"
    using law by (intro ledgers_inv_locks [OF inv_ledgers [OF assms(1)] assms(2)]) auto
  with assms(1) law show ?thesis by (simp add: staking_inv_def with_currency_def)
qed

lemma inv_kill_and_unlock:
  assumes "inv s" and "kill_stash cfg x n s = (Inr u, s1)"
  shows "inv (with_currency (sc_remove_lock (Currency cfg) STAKING_ID x) s1)"
  by (rule inv_remove_lock) (rule inv_kill_stash [OF assms])+

section \<open>Bonding keeps the invariant\<close>

lemma inv_bond:
  assumes "inv s" and "st_bond cfg orig v payee s = (Inr u, t)"
  shows "inv t"
proof -
  from assms(2) obtain x y i where st: "orig = Signed x" "Bonded s x = None" "Ledger s x = None"
    and y: "sc_inc_consumers (Currency cfg) x (staking_currency s) = (Inr i, y)"
    by (auto simp: st_bond_def op_simps Let_def inc_consumers_Inr)
  define s1 where "s1 = s\<lparr>staking_currency := y, Bonded := (Bonded s)(x \<mapsto> x), Payee := (Payee s)(x \<mapsto> payee)\<rparr>"
  define amt where "amt = min v (sc_free_balance (Currency cfg) y x)"
  define l where "l = \<lparr>ledger_stash = x, ledger_total = amt, ledger_active = amt, unlocking = [],
    claimed_rewards = era_range (saturating_sub (unwrap_or (CurrentEra s) 0) (HistoryDepth cfg)) (unwrap_or (CurrentEra s) 0)\<rparr>"
  define s2 where "s2 = st_deposit_event (SE_Bonded x amt) s1"
  have t: "t = update_ledger cfg x l s2"
    using assms(2) st y by (simp add: st_bond_def op_simps Let_def inc_consumers_Inr s1_def s2_def l_def amt_def)
  have s2: "core s2 = core (s\<lparr>staking_currency := y, Bonded := (Bonded s)(x \<mapsto> x)\<rparr>)"
    by (simp add: s2_def s1_def core_def st_deposit_event_def)
  have l: "ledger_stash l = x" "ledger_ok cfg l"
    by (simp_all add: l_def ledger_ok_def balanced_ledger_def sorted_era_range)
  note keep = inc_consumers_law [OF inv_cinv [OF assms(1)] y]
  note law = set_lock_law [OF conjunct1 [OF keep], of x "ledger_total l"]
  have "ledgers_inv cfg (lock_of (sc_set_lock (Currency cfg) STAKING_ID x (ledger_total l) y))
      ((Bonded s)(x \<mapsto> x)) ((Ledger s)(x \<mapsto> l))"
    using law keep by (intro ledgers_inv_new [OF inv_ledgers [OF assms(1)] st(2,3) l]) auto
  moreover have "roles_inv cfg ((Bonded s)(x \<mapsto> x)) (Validators s) (CounterForValidators s) (Nominators s)
      (CounterForNominators s) (voter_list s)"
    by (rule roles_inv_bonded [OF inv_roles [OF assms(1)]]) auto
  ultimately show ?thesis
    using s2 law l assms(1) by (simp add: staking_inv_def t update_ledger_def with_currency_def core_def)
qed

lemma inv_bond_extra:
  assumes "inv s" and "st_bond_extra cfg orig v s = (Inr u, t)"
  shows "inv t"
proof -
  from assms(2) obtain x c l where st: "Bonded s x = Some c" "Ledger s c = Some l"
    and t: "t = s \<or> (\<exists>e f. checked_sub (sc_free_balance (Currency cfg) (staking_currency s) x) (ledger_total l) = Some f \<and> e = min f v \<and>
      t = st_deposit_event (SE_Bonded x e) (update_voter cfg x (ledger_stash l)
        (update_ledger cfg c (l\<lparr>ledger_total := ledger_total l + e, ledger_active := ledger_active l + e\<rparr>) s)))"
    by (auto simp: st_bond_extra_def op_simps Let_def get_ledger_def split: option.splits)
  show ?thesis
  proof (cases "t = s")
    case True
    with assms(1) show ?thesis by simp
  next
    case False
    with t obtain e f where f: "checked_sub (sc_free_balance (Currency cfg) (staking_currency s) x) (ledger_total l) = Some f" "e = min f v"
      "t = st_deposit_event (SE_Bonded x e) (update_voter cfg x (ledger_stash l)
        (update_ledger cfg c (l\<lparr>ledger_total := ledger_total l + e, ledger_active := ledger_active l + e\<rparr>) s))" by blast
    have "unat (ledger_total l) + unat e < 2 ^ 128"
      using f(1,2) unat_u128 [of "sc_free_balance (Currency cfg) (staking_currency s) x"]
      by (auto simp: checked_sub_Some_iff unat_min)
    note lok = ledger_ok_extra(1) [OF inv_ledger(2) [OF assms(1) st(2)] this]
    show ?thesis unfolding f(3)
      by (intro inv_event inv_update_voter inv_update_ledger [OF assms(1) st(2) _ lok]) simp
  qed
qed

lemma inv_do_withdraw_unbonded:
  assumes "inv s" and "do_withdraw_unbonded cfg c n s = (Inr u, t)"
  shows "inv t"
  using assms(2)
proof (cases rule: do_withdraw_unbonded_cases)
  case (kill l s0)
  from inv_kill_and_unlock [OF assms(1) kill(2)] kill(3) show ?thesis by (rule inv_core)
next
  case (update l)
  have "ledger_ok cfg (case CurrentEra s of Some now \<Rightarrow> consolidate_unlocked l now | None \<Rightarrow> l)"
    "ledger_stash (case CurrentEra s of Some now \<Rightarrow> consolidate_unlocked l now | None \<Rightarrow> l) = ledger_stash l"
    using inv_ledger(2) [OF assms(1) update(1)] by (auto simp: ledger_ok_consolidate split: option.splits)
  from inv_update_ledger [OF assms(1) update(1) this(2,1)] update(2) show ?thesis by (rule inv_core)
qed

lemma inv_unbond:
  assumes "inv s" and "st_unbond cfg orig v s = (Inr u, t)"
  shows "inv t"
  using assms(2)
proof (cases rule: unbond_cases)
  case (1 c n s1 l)
  then show ?thesis using assms(1) inv_do_withdraw_unbonded by auto
next
  case (2 c n s1 l value' active' u')
  have inv1: "inv s1" using 2(1) assms(1) inv_do_withdraw_unbonded by auto
  have "ledger_ok cfg (l\<lparr>ledger_active := active', unlocking := u'\<rparr>)"
    by (rule unbond_ledger_ok [OF inv_ledger(2) [OF inv1 2(2)] refl refl 2(4,5,3)])
  then show ?thesis unfolding 2(6)
    by (intro inv_event inv_update_voter inv_update_ledger [OF inv1 2(2)]) simp_all
qed

lemma inv_rebond:
  assumes "inv s" and "st_rebond cfg orig v s = (Inr u, t)"
  shows "inv t"
proof -
  from assms(2) obtain c l where c: "orig = Signed c" "Ledger s c = Some l"
    by (auto simp: st_rebond_def op_simps get_ledger_def)
  obtain l1 r where r: "ledger_rebond l v = (l1, r)" by fastforce
  note l = c(2) r
  have t: "t = update_voter cfg (ledger_stash l1) (ledger_stash l1) (update_ledger cfg c l1 (st_deposit_event (SE_Bonded (ledger_stash l1) r) s))"
    using assms(2) c r by (simp add: st_rebond_def op_simps get_ledger_def)
  note lok = inv_ledger(2) [OF assms(1) l(1)]
  note eff = ledger_rebond_effect [OF l(2) inv_ledger(3) [OF assms(1) l(1)]]
  have "ledger_ok cfg l1" using lok eff by (simp add: ledger_ok_def)
  moreover have "Ledger (st_deposit_event (SE_Bonded (ledger_stash l1) r) s) c = Some l"
    using l(1) by (simp add: st_deposit_event_def)
  ultimately show ?thesis
    unfolding t using eff(3) by (intro inv_update_voter inv_update_ledger inv_event assms(1))
qed

lemma inv_force_unstake:
  assumes "inv s" and "st_force_unstake cfg orig x n s = (Inr u, t)"
  shows "inv t"
  using assms inv_kill_and_unlock by (auto simp: st_force_unstake_def op_simps)

lemma inv_reap_stash:
  assumes "inv s" and "st_reap_stash cfg orig x n s = (Inr u, t)"
  shows "inv t"
  using assms inv_kill_and_unlock by (auto simp: st_reap_stash_def op_simps Let_def split: if_splits)

end

end
