(* ===== verification/Staking_Preservation.thy ===== *)
theory Staking_Preservation
  imports Staking_Invariants
begin

text \<open>
  The rest of the staking pallet keeps its invariant: the calls on roles, payees, controllers and
  parameters, slashing, payouts, sessions and eras, and the hooks.
\<close>

text \<open>A payout stays in range: no ledger, increased by all the shares, leaves 128 bits.\<close>

definition ledgers_below :: "nat \<Rightarrow> ('acc, 's, 'v, 'x) staking_state \<Rightarrow> bool" where
  "ledgers_below K s \<longleftrightarrow> (\<forall>l \<in> ran (Ledger s). unat (ledger_total l) \<le> K)"

lemma ledgers_below_iff: "ledgers_below K s \<longleftrightarrow> (\<forall>c l. Ledger s c = Some l \<longrightarrow> unat (ledger_total l) \<le> K)"
  by (auto simp: ledgers_below_def ran_def)

definition payout_fits ::
  "('acc, 'k, 's, 'v, 'x) staking_config \<Rightarrow> 'acc \<Rightarrow> era_index \<Rightarrow> ('acc, 's, 'v, 'x) staking_state \<Rightarrow> bool" where
  "payout_fits cfg x e s \<longleftrightarrow>
     (\<exists>K. ledgers_below K s \<and>
        K + (\<Sum>p\<leftarrow>validator_shares cfg x x e (unwrap_or (ErasValidatorReward s e) 0) s. unat (snd p)) < 2 ^ 128)"

section \<open>What the operations do\<close>

lemma length_swap_remove: "length (swap_remove i xs) = length xs - 1"
  by (simp add: swap_remove_def)

lemma core_slash_nominator:
  assumes "slash_nominator cfg p q n (a, b, s) = (a', b', t)"
  shows "core t = core s"
proof -
  define es where "es = unwrap_or (NominatorSlashInEra s (sp_slash_era p, ie_who n)) 0 +
     saturating_sub (times_perbill cfg (sp_slash p) (ie_value n)) (times_perbill cfg q (ie_value n))"
  define s0 where "s0 = s\<lparr>NominatorSlashInEra := (NominatorSlashInEra s)((sp_slash_era p, ie_who n) \<mapsto> es)\<rparr>"
  obtain sp s1 where 1: "fetch_spans (ie_who n) (sp_window_start p) a 0 (sp_reward_proportion p) s0 = (sp, s1)" by fastforce
  obtain ts sp2 s2 where 2: "compare_and_update_span_slash cfg (sp_slash_era p) es sp s1 = (ts, sp2, s2)" by (metis prod.exhaust)
  have "core t = core s2"
    using assms by (auto simp: slash_nominator_def Let_def es_def [symmetric] s0_def [symmetric] 1 2)
  also have "\<dots> = core s0" using core_fetch [OF 1] core_compare [OF 2] by simp
  finally show ?thesis by (simp add: s0_def)
qed

lemma core_slash_nominators:
  assumes "slash_nominators cfg p q s = (a, b, t)"
  shows "core t = core s"
proof -
  have "fold (slash_nominator cfg p q) ns (a0, b0, s) = (a, b, t) \<Longrightarrow> core t = core s" for ns a0 b0 s
  proof (induction ns arbitrary: a0 b0 s)
    case (Cons n ns)
    obtain a1 b1 s1 where 1: "slash_nominator cfg p q n (a0, b0, s) = (a1, b1, s1)" by (metis prod.exhaust)
    from Cons.IH [of a1 b1 s1] Cons.prems 1 core_slash_nominator [OF 1] show ?case by simp
  qed simp
  with assms show ?thesis by (simp add: slash_nominators_def)
qed

lemma make_payout_cases [consumes 1, case_names none create existing staked]:
  assumes "make_payout cfg x a s = (i, t)"
  obtains "t = s"
  | w j z where "sc_deposit_creating (Currency cfg) w a (staking_currency s) = (j, z)" "t = s\<lparr>staking_currency := z\<rparr>"
  | r y where "sc_deposit_into_existing (Currency cfg) x a (staking_currency s) = (r, y)" "t = s\<lparr>staking_currency := y\<rparr>"
  | r y c l where "sc_deposit_into_existing (Currency cfg) x a (staking_currency s) = (r, y)" "Bonded s x = Some c" "Ledger s c = Some l"
      "t = update_ledger cfg c (l\<lparr>ledger_active := ledger_active l + a, ledger_total := ledger_total l + a\<rparr>) (s\<lparr>staking_currency := y\<rparr>)"
proof -
  obtain r y where y: "sc_deposit_into_existing (Currency cfg) x a (staking_currency s) = (r, y)" by fastforce
  have ex: "snd (case r of Inr i \<Rightarrow> (Some i, s\<lparr>staking_currency := y\<rparr>) | Inl _ \<Rightarrow> (None, s\<lparr>staking_currency := y\<rparr>)) = s\<lparr>staking_currency := y\<rparr>"
    by (cases r) auto
  show thesis
  proof (cases "unwrap_or (Payee s x) RD_Staked")
    case RD_Staked
    show thesis
    proof (cases "\<exists>c l. Bonded s x = Some c \<and> Ledger s c = Some l")
      case True
      then obtain c l where l: "Bonded s x = Some c" "Ledger s c = Some l" by blast
      with assms RD_Staked y ex have
        "t = update_ledger cfg c (l\<lparr>ledger_active := ledger_active l + a, ledger_total := ledger_total l + a\<rparr>) (s\<lparr>staking_currency := y\<rparr>)"
        by (auto simp: make_payout_def Let_def)
      with that(4) y l show thesis by blast
    next
      case False
      with assms RD_Staked show thesis by (intro that(1)) (cases "Bonded s x"; simp add: make_payout_def Let_def split: option.splits)
    qed
  next
    case RD_Stash
    with assms y show thesis by (intro that(3) [OF y]) (cases r; simp add: make_payout_def Let_def)
  next
    case RD_Controller
    show thesis
    proof (cases "Bonded s x")
      case None
      with assms RD_Controller show thesis by (intro that(1)) (simp add: make_payout_def)
    next
      case (Some w)
      obtain j z where z: "sc_deposit_creating (Currency cfg) w a (staking_currency s) = (j, z)" by fastforce
      show thesis by (rule that(2) [OF z]) (use assms RD_Controller Some z in \<open>simp add: make_payout_def\<close>)
    qed
  next
    case (RD_Account w)
    obtain j z where z: "sc_deposit_creating (Currency cfg) w a (staking_currency s) = (j, z)" by fastforce
    show thesis by (rule that(2) [OF z]) (use assms RD_Account z in \<open>simp add: make_payout_def\<close>)
  next
    case RD_None
    with assms show thesis by (intro that(1)) (simp add: make_payout_def)
  qed
qed

lemma claim_era_ok:
  assumes "claim_era cfg now e l = Inr l1" and "ledger_ok cfg l"
  shows "ledger_ok cfg l1" and "ledger_stash l1 = ledger_stash l" and "ledger_total l1 = ledger_total l"
proof -
  let ?c = "filter (\<lambda>x. saturating_sub now (HistoryDepth cfg) \<le> x) (claimed_rewards l)"
  from assms(1) obtain i where i: "binary_search ?c e = Inl i" "l1 = l\<lparr>claimed_rewards := take i ?c @ e # drop i ?c\<rparr>"
    by (auto simp: claim_era_def Let_def split: sum.splits if_splits)
  have "sorted_wrt (<) ?c" using assms(2) by (auto simp: ledger_ok_def intro: sorted_wrt_filter)
  from binary_search_insert(1) [OF this i(1)] assms(2) show "ledger_ok cfg l1"
    by (simp add: i(2) ledger_ok_def balanced_ledger_def)
  show "ledger_stash l1 = ledger_stash l" "ledger_total l1 = ledger_total l" by (simp_all add: i(2))
qed

lemma core_store_exposures: "fold (store_exposure cfg e) es (a, s) = (b, t) \<Longrightarrow> core t = core s"
proof (induction es arbitrary: a s)
  case (Cons x es)
  obtain y z where x: "x = (y, z)" by fastforce
  from Cons.IH Cons.prems show ?case by (force simp: x store_exposure_def core_def)
qed simp

lemma core_store_stakers_info:
  assumes "store_stakers_info cfg es e s = (vs, t)"
  shows "core t = core s"
proof -
  obtain b s1 where 1: "fold (store_exposure cfg e) es (0, s) = (b, s1)" by fastforce
  define s2 where "s2 = s1\<lparr>ErasTotalStake := (ErasTotalStake s1)(e \<mapsto> b)\<rparr>"
  have "t = fold (\<lambda>stash s. s\<lparr>ErasValidatorPrefs := (ErasValidatorPrefs s)
      ((e, stash) \<mapsto> unwrap_or (Validators s stash) default_prefs)\<rparr>) (map fst es) s2"
    using assms by (auto simp: store_stakers_info_def Let_def 1 s2_def)
  also have "core \<dots> = core s2" by (rule core_fold) simp
  finally show ?thesis using core_store_exposures [OF 1] by (simp add: s2_def)
qed

lemma core_trigger_new_era: "trigger_new_era cfg i es s = (vs, t) \<Longrightarrow> core t = core s"
  by (auto simp: trigger_new_era_def Let_def clear_era_information_def core_def dest!: core_store_stakers_info split: option.splits)

lemma core_try_trigger_new_era: "try_trigger_new_era cfg i el s = (vs, t) \<Longrightarrow> core t = core s"
  by (auto simp: try_trigger_new_era_def Let_def core_def st_deposit_event_def dest!: core_trigger_new_era
      split: option.splits if_splits prod.splits)

lemma core_new_session: "new_session cfg i el s = (vs, t) \<Longrightarrow> core t = core s"
  by (auto simp: new_session_def plan_session_def Let_def dest: core_try_trigger_new_era
      split: option.splits if_splits prod.splits)

lemma core_prune_bonded_eras: "core (prune_bonded_eras cfg e i s) = core s"
proof -
  have "core (fold (\<lambda>(pruned_era, _). clear_era_metadata pruned_era) ps t) = core t" for ps t
    by (rule core_fold) auto
  then show ?thesis by (auto simp: prune_bonded_eras_def Let_def split: list.splits)
qed

context staking_world
begin

section \<open>Roles\<close>

lemma inv_validate:
  assumes "inv s" and "st_validate cfg orig p s = (Inr u, t)" and "unat (CounterForValidators s) + 1 < 2 ^ 32"
  shows "inv t"
proof -
  from assms(2) obtain c l where l: "Ledger s c = Some l"
    and t: "t = st_deposit_event (SE_ValidatorPrefsSet (ledger_stash l) p)
      (do_add_validator cfg (ledger_stash l) p (snd (do_remove_nominator cfg (ledger_stash l) s)))"
    by (auto simp: st_validate_def op_simps Let_def get_ledger_def)
  show ?thesis unfolding t
    by (intro inv_event inv_add_validator inv_remove_nominator assms(1))
      (use inv_ledger(1) [OF assms(1) l] assms(3) in \<open>simp_all add: remove_role_effect\<close>)
qed

lemma inv_nominate:
  assumes "inv s" and "st_nominate cfg orig tg s = (Inr u, t)" and "unat (CounterForNominators s) + 1 < 2 ^ 32"
  shows "inv t"
proof -
  from assms(2) obtain c l ts where l: "Ledger s c = Some l" and ts: "length ts \<le> unat (MaxNominations cfg)"
    and t: "t = do_add_nominator cfg (ledger_stash l) \<lparr>targets = ts, submitted_in = unwrap_or (CurrentEra s) 0, suppressed = False\<rparr>
       (snd (do_remove_validator cfg (ledger_stash l) s))"
    by (auto simp: st_nominate_def op_simps Let_def get_ledger_def)
  show ?thesis unfolding t
    by (intro inv_add_nominator inv_remove_validator assms(1))
      (use inv_ledger(1) [OF assms(1) l] assms(3) ts in \<open>simp_all add: remove_role_effect\<close>)
qed

lemma inv_st_chill: "inv s \<Longrightarrow> st_chill cfg orig s = (Inr u, t) \<Longrightarrow> inv t"
  by (auto simp: st_chill_def op_simps get_ledger_def inv_chill)

lemma inv_chill_other: "inv s \<Longrightarrow> st_chill_other cfg orig c s = (Inr u, t) \<Longrightarrow> inv t"
  by (auto simp: st_chill_other_def op_simps get_ledger_def Let_def inv_chill ensure_over_threshold_def split: if_splits)

lemma inv_same_roles:
  assumes "inv s" and "dom V = dom (Validators s)" and "dom N = dom (Nominators s)"
    and "\<And>x n. N x = Some n \<Longrightarrow> length (targets n) \<le> unat (MaxNominations cfg)"
  shows "inv (s\<lparr>Validators := V, Nominators := N\<rparr>)"
  using assms by (auto simp: staking_inv_def roles_inv_def)

lemma inv_kick_one:
  assumes "inv s"
  shows "inv (kick_one cfg x y s)"
proof -
  have le: "length (targets n) \<le> unat (MaxNominations cfg)" if "Nominators s z = Some n" for z n
    using inv_roles [OF assms] that by (auto simp: roles_inv_def)
  show ?thesis
  proof (cases "Nominators s y")
    case None
    then have "s\<lparr>Nominators := (Nominators s)(y := None)\<rparr> = s" by (simp add: fun_upd_idem)
    with None assms show ?thesis by (simp add: kick_one_def nominators_get_def)
  next
    case (Some n)
    then have get: "nominators_get cfg s y = Some n" using le by (simp add: nominators_get_def)
    have "inv (s\<lparr>Validators := Validators s, Nominators := (Nominators s)(y \<mapsto> n\<lparr>targets := swap_remove i (targets n)\<rparr>)\<rparr>)" for i
      by (rule inv_same_roles [OF assms])
        (use Some le diff_le_self [THEN le_trans, OF le [OF Some]] in \<open>auto simp: length_swap_remove split: if_splits\<close>)
    then have "inv (s\<lparr>Nominators := (Nominators s)(y \<mapsto> n\<lparr>targets := swap_remove i (targets n)\<rparr>)\<rparr>)" for i by simp
    then show ?thesis using assms by (auto simp: kick_one_def get split: option.splits intro: inv_event)
  qed
qed

lemma inv_fold: "(\<And>x t. inv t \<Longrightarrow> inv (f x t)) \<Longrightarrow> inv s \<Longrightarrow> inv (fold f xs s)"
  by (induction xs arbitrary: s) auto

lemma inv_kick: "inv s \<Longrightarrow> st_kick cfg orig who s = (Inr u, t) \<Longrightarrow> inv t"
  by (auto simp: st_kick_def op_simps get_ledger_def intro!: inv_fold inv_kick_one)

lemma inv_force_apply_min_commission:
  assumes "inv s" and "st_force_apply_min_commission orig x s = (Inr u, t)"
  shows "inv t"
proof -
  from assms(2) obtain p where p: "Validators s x = Some p"
    and t: "t = s \<or> t = s\<lparr>Validators := (Validators s)(x \<mapsto> p\<lparr>commission := MinCommission s\<rparr>)\<rparr>"
    by (auto simp: st_force_apply_min_commission_def op_simps split: if_splits)
  have "inv (s\<lparr>Validators := (Validators s)(x \<mapsto> p\<lparr>commission := MinCommission s\<rparr>), Nominators := Nominators s\<rparr>)"
    by (rule inv_same_roles [OF assms(1)]) (use p inv_roles [OF assms(1)] in \<open>auto simp: roles_inv_def\<close>)
  with t assms(1) show ?thesis by auto
qed

section \<open>Payees, controllers and parameters\<close>

lemma inv_set_payee: "inv s \<Longrightarrow> st_set_payee orig p s = (Inr u, t) \<Longrightarrow> inv t"
  by (erule inv_core) (auto simp: st_set_payee_def op_simps get_ledger_def)

lemma inv_set_controller:
  assumes "inv s" and "st_set_controller orig s = (Inr u, t)"
  shows "inv t"
proof -
  from assms(2) obtain x c where x: "Bonded s x = Some c" "Ledger s x = None" and orig: "orig = Signed x"
    by (auto simp: st_set_controller_def op_simps)
  obtain l where l: "Ledger s c = Some l" using ledgers_inv_bonded [OF inv_ledgers [OF assms(1)] x(1)] by blast
  then have ne: "c \<noteq> x" using x by auto
  have "t = s\<lparr>Bonded := (Bonded s)(x \<mapsto> x), Ledger := (Ledger s)(c := None, x \<mapsto> l)\<rparr>"
    using assms(2) x l ne orig by (auto simp: st_set_controller_def op_simps Let_def)
  with ledgers_inv_move [OF inv_ledgers [OF assms(1)] x(1) l x(2)] assms(1) show ?thesis
    by (auto simp: staking_inv_def elim: roles_inv_bonded)
qed

lemma inv_params:
  "inv s \<Longrightarrow> st_set_validator_count cfg orig n s = (Inr u, t) \<Longrightarrow> inv t"
  "inv s \<Longrightarrow> st_increase_validator_count cfg orig n s = (Inr u, t) \<Longrightarrow> inv t"
  "inv s \<Longrightarrow> st_scale_validator_count cfg orig f s = (Inr u, t) \<Longrightarrow> inv t"
  by (auto simp: st_set_validator_count_def st_increase_validator_count_def st_scale_validator_count_def
      put_validator_count_def op_simps Let_def staking_inv_def)

lemma inv_root:
  "inv s \<Longrightarrow> st_force m orig s = (Inr u, t) \<Longrightarrow> inv t"
  "inv s \<Longrightarrow> st_set_invulnerables orig a s = (Inr u, t) \<Longrightarrow> inv t"
  "inv s \<Longrightarrow> st_cancel_deferred_slash cfg orig e i s = (Inr u, t) \<Longrightarrow> inv t"
  "inv s \<Longrightarrow> st_set_min_commission cfg orig c s = (Inr u, t) \<Longrightarrow> inv t"
  "inv s \<Longrightarrow> st_set_staking_configs orig c1 c2 c3 c4 c5 c6 s = (Inr u, t) \<Longrightarrow> inv t"
  by (erule inv_core, simp add: st_force_def st_set_invulnerables_def st_cancel_deferred_slash_def
      st_set_min_commission_def st_set_staking_configs_def op_simps Let_def, (auto simp: core_def) [])+

section \<open>Slashing\<close>

lemma inv_do_slash:
  assumes "inv s" and "do_slash cfg e (x, v) (rp, im, s) = (rp', im', t)"
  shows "inv t"
proof (cases "\<exists>c l. Bonded s x = Some c \<and> Ledger s c = Some l")
  case False
  with assms show ?thesis by (auto simp: do_slash_def split: option.splits)
next
  case True
  then obtain c l where l: "Bonded s x = Some c" "Ledger s c = Some l" by blast
  obtain r l1 y where r: "ledger_slash cfg v (sc_minimum_balance (Currency cfg)) e l (session s) = (r, l1, y)"
    by (metis prod.exhaust)
  obtain i m z where z: "sc_slash (Currency cfg) x r (staking_currency s) = ((i, m), z)" by (metis prod.exhaust)
  define s1 where "s1 = s\<lparr>session := y, staking_currency := z\<rparr>"
  have t: "t = (if r = 0 then s\<lparr>session := y\<rparr> else st_deposit_event (SE_Slashed x r) (update_ledger cfg c l1 s1))"
    using assms(2) l r z by (auto simp: do_slash_def s1_def)
  note eff = ledger_slash_effect [OF r inv_ledger(3) [OF assms(1) l(2)] fractions_law]
  have "ledger_ok cfg l1" using inv_ledger(2) [OF assms(1) l(2)] eff by (simp add: ledger_ok_def)
  moreover have "inv (s\<lparr>staking_currency := z\<rparr>)"
    by (rule inv_currency [OF assms(1) slash_law [OF inv_cinv [OF assms(1)] z]])
  then have "inv s1" by (rule inv_core) (simp add: s1_def core_def)
  ultimately have "inv (update_ledger cfg c l1 s1)"
    using eff(5) l(2) by (intro inv_update_ledger) (auto simp: s1_def)
  then have "inv (st_deposit_event (SE_Slashed x r) (update_ledger cfg c l1 s1))" by (rule inv_event)
  moreover have "inv (s\<lparr>session := y\<rparr>)" by (rule inv_core [OF assms(1)]) simp
  ultimately show ?thesis by (simp add: t)
qed

lemma inv_slash_fold:
  assumes "inv s" and "fold (do_slash cfg e) ps (rp, im, s) = (rp', im', t)"
  shows "inv t"
  using assms
proof (induction ps arbitrary: rp im s)
  case (Cons p ps)
  obtain x v where p: "p = (x, v)" by fastforce
  obtain rp1 im1 s1 where 1: "do_slash cfg e (x, v) (rp, im, s) = (rp1, im1, s1)" by (metis prod.exhaust)
  show ?case using Cons.IH [OF inv_do_slash [OF Cons.prems(1) 1]] Cons.prems(2) p 1 by simp
qed simp

lemma inv_pay_reporters:
  assumes "inv s"
  shows "inv (pay_reporters cfg rp im rs s)"
proof (cases "rp = 0 \<or> rs = []")
  case True
  with inv_with_currency [OF assms slash_handler_law] show ?thesis by (auto simp: pay_reporters_def)
next
  case False
  obtain w c where c: "resolve_rewards (Currency cfg) (min rp im div ucast (of_nat (length rs) :: u32)) rs (min rp im) (staking_currency s) = (w, c)"
    by fastforce
  have "inv (s\<lparr>staking_currency := c\<rparr>)"
    by (rule inv_currency [OF assms resolve_rewards_keep [OF inv_cinv [OF assms] c]])
  from inv_with_currency [OF this slash_handler_law] False c show ?thesis
    by (auto simp: pay_reporters_def Let_def)
qed

lemma inv_apply_slash:
  assumes "inv s"
  shows "inv (apply_slash cfg e u s)"
proof -
  obtain rp im t where t: "fold (do_slash cfg e) ((us_validator u, us_own u) # us_others u) (us_payout u, 0, s) = (rp, im, t)"
    by (metis prod.exhaust)
  have "inv t" by (rule inv_slash_fold [OF assms t])
  then show ?thesis unfolding apply_slash_def t by (simp add: inv_pay_reporters)
qed

lemma inv_spans: "inv s \<Longrightarrow> inv (drop_spans sp s)" "inv s \<Longrightarrow> inv (add_offending_validator cfg x d s)"
  by (erule inv_core, simp)+

lemma inv_kick_out:
  assumes "inv s"
  shows "inv (kick_out_if_recent cfg p s)"
proof -
  obtain sp s1 where 1: "fetch_spans (sp_stash p) (sp_window_start p) 0 0 (sp_reward_proportion p) s = (sp, s1)" by fastforce
  have "inv s1" by (rule inv_core [OF assms core_fetch [OF 1]])
  then have "inv (chill_stash cfg (sp_stash p) s1)" by (rule inv_chill)
  with \<open>inv s1\<close> show ?thesis
    by (auto simp: kick_out_if_recent_def 1 Let_def intro: inv_spans)
qed

lemma inv_slash_validator:
  assumes "inv s" and "slash_validator cfg p own s = (a, b, t)"
  shows "inv t"
proof -
  obtain sp s1 where 1: "fetch_spans (sp_stash p) (sp_window_start p) 0 0 (sp_reward_proportion p) s = (sp, s1)" by fastforce
  obtain ts sp2 s2 where 2: "compare_and_update_span_slash cfg (sp_slash_era p) own sp s1 = (ts, sp2, s2)" by (metis prod.exhaust)
  have "core s2 = core s" using core_fetch [OF 1] core_compare [OF 2] by simp
  then have "inv s2" by (rule inv_core [OF assms(1)])
  moreover from this have "inv (chill_stash cfg (sp_stash p) s2)" by (rule inv_chill)
  ultimately show ?thesis
    using assms(2) by (auto simp: slash_validator_def 1 2 intro: inv_spans split: if_splits)
qed

lemma inv_compute_slash:
  assumes "inv s" and "compute_slash cfg p s = (u, t)"
  shows "inv t"
proof -
  define prior where "prior = (case ValidatorSlashInEra s (sp_slash_era p, sp_stash p) of None \<Rightarrow> 0 | Some (q, _) \<Rightarrow> q)"
  consider "t = kick_out_if_recent cfg p s" | "t = s"
    | V a b s2 a' b' where
      "slash_validator cfg p (times_perbill cfg (sp_slash p) (exp_own (sp_exposure p))) (s\<lparr>ValidatorSlashInEra := V\<rparr>) = (a, b, s2)"
      "slash_nominators cfg p prior (add_offending_validator cfg (sp_stash p) (sp_disable_strategy p \<noteq> DS_Never) s2) = (a', b', t)"
    using assms(2) by (auto simp: compute_slash_def Let_def prior_def [symmetric] split: if_splits prod.splits)
  then show ?thesis
  proof cases
    case 3
    have "inv s2" by (rule inv_slash_validator [OF inv_core [OF assms(1)] 3(1)]) simp
    with core_slash_nominators [OF 3(2)] show ?thesis by (auto elim: inv_core)
  qed (use assms(1) inv_kick_out in auto)
qed

lemma inv_handle_offender:
  assumes "inv s"
  shows "inv (handle_offender cfg a e d od s)"
proof -
  obtain det f where od: "od = (det, f)" by fastforce
  obtain x ex where x: "offender det = (x, ex)" by fastforce
  obtain u s1 where 1: "compute_slash cfg \<lparr>sp_stash = x, sp_slash = f, sp_exposure = ex, sp_slash_era = e,
      sp_window_start = saturating_sub a (BondingDuration cfg), sp_now = a,
      sp_reward_proportion = SlashRewardFraction s, sp_disable_strategy = d\<rparr> s = (u, s1)" by fastforce
  have "inv (st_deposit_event (SE_SlashReported x f e) s1)" by (rule inv_event [OF inv_compute_slash [OF assms 1]])
  with assms inv_apply_slash [OF this] show ?thesis
    by (auto simp: handle_offender_def od x 1 Let_def split: option.splits elim: inv_core)
qed

lemma inv_on_offence: "inv s \<Longrightarrow> inv (on_offence cfg os fs i d s)"
  by (auto simp: on_offence_def split: option.splits intro!: inv_fold inv_handle_offender)

lemma inv_report_offence:
  assumes "inv s" and "\<And>s. inv s \<Longrightarrow> inv (snd (inner s))"
  shows "inv (snd (report_offence inner i s))"
  using assms by (auto simp: report_offence_def split: list.splits intro: inv_event)

section \<open>Payouts\<close>

lemma inv_make_payout:
  assumes "inv s" and "ledgers_below K s" and "K + unat a < 2 ^ 128" and "make_payout cfg x a s = (i, t)"
  shows "inv t \<and> ledgers_below (K + unat a) t"
proof -
  have keep: "inv (s\<lparr>staking_currency := y\<rparr>) \<and> ledgers_below (K + unat a) (s\<lparr>staking_currency := y\<rparr>)"
    if "cinv y \<and> lock_of y = lock_of (staking_currency s)" for y
    using inv_currency [OF assms(1) that] assms(2) by (auto simp: ledgers_below_iff trans_le_add1)
  have same: "inv s \<and> ledgers_below (K + unat a) s" using assms(1,2) by (auto simp: ledgers_below_iff trans_le_add1)
  note dep = deposit_creating_law [OF inv_cinv [OF assms(1)]]
  obtain r y where y: "sc_deposit_into_existing (Currency cfg) x a (staking_currency s) = (r, y)" by fastforce
  note ex = keep [OF deposit_into_existing_law [OF inv_cinv [OF assms(1)] y]]
  from assms(4) show ?thesis
  proof (cases rule: make_payout_cases)
    case none
    with same show ?thesis by simp
  next
    case (create w j z)
    with keep [OF dep] show ?thesis by simp
  next
    case (existing r' y')
    with ex y show ?thesis by simp
  next
    case (staked r' y' c l)
    let ?l = "l\<lparr>ledger_active := ledger_active l + a, ledger_total := ledger_total l + a\<rparr>"
    have K: "unat (ledger_total l) \<le> K" using assms(2) staked(3) by (auto simp: ledgers_below_iff)
    then have fits: "unat (ledger_total l) + unat a < 2 ^ 128" using assms(3) by simp
    note lok = ledger_ok_extra(2,3) [OF inv_ledger(2) [OF assms(1) staked(3)] fits]
    have "inv t" unfolding staked(4) using ex y staked(1,3) lok(1) by (intro inv_update_ledger [of _ c l]) auto
    moreover have "ledgers_below (K + unat a) t"
      using ex K y staked(1) lok(2) by (auto simp: ledgers_below_iff staked(4) update_ledger_def with_currency_def split: if_splits)
    ultimately show ?thesis ..
  qed
qed

lemma inv_pay_stakers:
  assumes "inv s" and "ledgers_below K s" and "K + (\<Sum>p\<leftarrow>ps. unat (snd p)) < 2 ^ 128" and "fold (pay_staker cfg) ps (im, s) = (im', t)"
  shows "inv t"
  using assms
proof (induction ps arbitrary: im s K)
  case (Cons p ps)
  obtain x a where p: "p = (x, a)" by fastforce
  obtain i s1 where 1: "make_payout cfg x a s = (i, s1)" by fastforce
  have "inv s1 \<and> ledgers_below (K + unat a) s1"
    by (rule inv_make_payout [OF Cons.prems(1,2) _ 1]) (use Cons.prems(3) p in simp)
  then have "inv (snd (pay_staker cfg p (im, s))) \<and> ledgers_below (K + unat a) (snd (pay_staker cfg p (im, s)))"
    by (auto simp: pay_staker_def p 1 ledgers_below_iff st_deposit_event_def inv_event [unfolded st_deposit_event_def] split: option.splits)
  with Cons.IH [of "snd (pay_staker cfg p (im, s))" "K + unat a" "fst (pay_staker cfg p (im, s))"] Cons.prems(3,4)
  show ?case by (simp add: p add.assoc)
qed simp

lemma inv_payout_stakers:
  assumes "inv s" and "do_payout_stakers cfg x e s = (Inr u, t)" and "payout_fits cfg x e s"
  shows "inv t"
proof -
  from assms(2) obtain now rw c l l1 where st: "CurrentEra s = Some now" "ErasValidatorReward s e = Some rw" "Bonded s x = Some c"
      "Ledger s c = Some l" "claim_era cfg now e l = Inr l1"
    by (auto simp: do_payout_stakers_def op_simps get_ledger_def)
  define s1 where "s1 = s\<lparr>Ledger := (Ledger s)(c \<mapsto> l1)\<rparr>"
  note l1 = claim_era_ok [OF st(5) inv_ledger(2) [OF assms(1) st(4)]]
  have "ledgers_inv cfg (lock_of (staking_currency s)) (Bonded s) ((Ledger s)(c \<mapsto> l1))"
    using ledgers_invD(3) [OF inv_ledgers [OF assms(1)] st(4)] l1
    by (intro ledgers_inv_update [OF inv_ledgers [OF assms(1)] st(4)]) auto
  then have inv1: "inv s1" using assms(1) by (simp add: staking_inv_def s1_def)
  have stash: "ledger_stash l1 = x" using l1(2) ledgers_inv_stash [OF inv_ledgers [OF assms(1)] st(3,4)] by simp
  define ps where "ps = validator_shares cfg x x e rw s1"
  have ps: "ps = validator_shares cfg x x e rw s" by (simp add: ps_def validator_shares_def validator_points_def s1_def)
  obtain im t1 where t1: "fold (pay_staker cfg) ps (0, st_deposit_event (SE_PayoutStarted e x) s1) = (im, t1)" by fastforce
  from assms(3) st(2) obtain K where K: "ledgers_below K s" "K + (\<Sum>p\<leftarrow>ps. unat (snd p)) < 2 ^ 128"
    by (auto simp: payout_fits_def ps)
  have "ledgers_below K (st_deposit_event (SE_PayoutStarted e x) s1)"
    using K(1) l1(3) st(4) by (auto simp: ledgers_below_iff s1_def st_deposit_event_def split: if_splits)
  from inv_pay_stakers [OF inv_event [OF inv1] this K(2) t1] have "inv (with_currency (Reward cfg im) t1)"
    by (rule inv_with_currency) (rule reward_law)
  moreover have "t = s1 \<or> t = with_currency (Reward cfg im) t1"
    using assms(2) st t1 stash
    by (simp add: do_payout_stakers_def op_simps get_ledger_def s1_def [symmetric] ps_def [symmetric] Let_def ok_iff split: if_splits)
  ultimately show ?thesis using inv1 by auto
qed

section \<open>Sessions and eras\<close>

lemma inv_new_session: "inv s \<Longrightarrow> new_session cfg i el s = (vs, t) \<Longrightarrow> inv t"
  by (erule inv_core) (rule core_new_session)

lemma inv_start_era:
  assumes "inv s"
  shows "inv (start_era cfg i s)"
proof -
  have "inv (apply_unapplied_slashes cfg e t)" if "core t = core s" for e t
    unfolding apply_unapplied_slashes_def
    by (rule inv_fold [OF inv_apply_slash inv_core [OF assms]]) (simp_all add: that)
  then show ?thesis by (simp add: start_era_def Let_def core_prune_bonded_eras)
qed

lemma inv_start_session:
  assumes "inv s"
  shows "inv (start_session cfg i s)"
proof -
  have "inv (fold (\<lambda>(index, disabled). if disabled then with_session (disable_validator (SessionInterface cfg) index) else id) ds t)"
    if "inv t" for ds t
    by (rule inv_fold [OF _ that]) (auto elim: inv_core)
  then show ?thesis using assms inv_start_era [OF assms]
    by (auto simp: start_session_def Let_def split: option.splits)
qed

lemma inv_end_era:
  assumes "inv s"
  shows "inv (end_era cfg now info s)"
proof (cases "era_start info")
  case None
  with assms show ?thesis by (simp add: end_era_def)
next
  case (Some b)
  obtain vp rm where p: "EraPayout cfg (unwrap_or (ErasTotalStake s (era_idx info)) 0)
      (sc_total_issuance (Currency cfg) (staking_currency s)) (now - b) = (vp, rm)" by fastforce
  obtain im c where c: "sc_issue (Currency cfg) rm (staking_currency s) = (im, c)" by fastforce
  note law = issue_law [OF inv_cinv [OF assms] c]
  have "inv (s\<lparr>staking_currency := RewardRemainder cfg im c\<rparr>)"
    using law remainder_law [of c im] by (intro inv_currency [OF assms]) auto
  then show ?thesis
    by (rule inv_core) (use Some p c in \<open>simp add: end_era_def Let_def core_def st_deposit_event_def\<close>)
qed

lemma inv_end_session: "inv s \<Longrightarrow> inv (end_session cfg now i s)"
  by (auto simp: end_session_def inv_end_era split: option.splits)

lemma inv_hooks: "inv s \<Longrightarrow> inv (st_on_finalize now s)" "inv s \<Longrightarrow> inv (reward_by_ids ps s)"
    "inv s \<Longrightarrow> get_npos_voters cfg n s = (vs, t) \<Longrightarrow> inv t"
  by (erule inv_core, auto simp: st_on_finalize_def reward_by_ids_def get_npos_voters_def Let_def
      split: option.splits prod.splits)+

end

end
