(* ===== verification/Fixed_Point.thy ===== *)
theory Fixed_Point
  imports Prelude
begin

text \<open>
  Divisions with the roundings of the framework's fractions and fixed-point numbers, on natural
  numbers, and the saturation of a result to a word. The instances of the contracts for fractions
  and fixed-point numbers are built from them.
\<close>

definition div_ceil :: "nat \<Rightarrow> nat \<Rightarrow> nat" where
  "div_ceil a b = (a + b - 1) div b"

text \<open>Rounding to the nearest, down in the middle: how the framework multiplies by a fraction.\<close>

definition div_near :: "nat \<Rightarrow> nat \<Rightarrow> nat" where
  "div_near a b = (if b < 2 * (a mod b) then a div b + 1 else a div b)"

definition clamp :: "nat \<Rightarrow> 'a::len word" where
  "clamp n = of_nat (min n (2 ^ LENGTH('a) - 1))"

lemma unat_clamp: "unat (clamp n :: 'a::len word) = min n (2 ^ LENGTH('a) - 1)"
proof -
  have "min n (2 ^ LENGTH('a) - 1) < 2 ^ LENGTH('a)" by (simp add: min_less_iff_disj)
  then show ?thesis by (simp add: clamp_def unat_of_nat)
qed

lemma clamp_mono: "m \<le> n \<Longrightarrow> (clamp m :: 'a::len word) \<le> clamp n"
  by (simp add: word_le_nat_alt unat_clamp min_le_iff_disj)

lemma div_ceil_ge:
  assumes "0 < b"
  shows "a \<le> b * div_ceil a b"
proof -
  have "(a + b - 1) mod b < b" using assms by simp
  with mult_div_mod_eq [of b "a + b - 1"] show ?thesis unfolding div_ceil_def by linarith
qed

lemma div_ceil_le:
  assumes "0 < b" and "a \<le> b * k"
  shows "div_ceil a b \<le> k"
proof -
  have "a + b - 1 < (k + 1) * b" using assms by (simp add: algebra_simps)
  then have "div_ceil a b < k + 1" using assms(1) by (simp add: div_ceil_def div_less_iff_less_mult)
  then show ?thesis by simp
qed

lemma div_near_mono:
  assumes "a \<le> a'"
  shows "div_near a b \<le> div_near a' b"
proof (cases "a div b = a' div b")
  case True
  then have "a mod b \<le> a' mod b" using assms by (metis add_le_cancel_left div_mult_mod_eq)
  with True show ?thesis by (simp add: div_near_def)
next
  case False
  then have "a div b < a' div b" using assms by (simp add: div_le_mono le_neq_implies_less)
  then show ?thesis by (simp add: div_near_def)
qed

lemma div_near_bounds: "a div b \<le> div_near a b" "div_near a b \<le> a div b + 1"
  by (simp_all add: div_near_def)

end
