(* ===== verification/Staking_Adapter.thy ===== *)
theory Staking_Adapter
  imports Staking_Preservation Tokens_Currency Fixed_Point "HOL-Library.Dlist"
begin

text \<open>
  The adapter of the tokens pallet as the currency of the staking pallet. While an imbalance is in
  flight the books of the tokens pallet are not balanced, so the contract of the staking pallet
  speaks of the locks only: they are well-formed, and there is room for the lock of the staking
  pallet among those of every account. Also here: the fixed-point fractions computed with
  natural numbers, a list of voters, and the interpretation of the contracts on all of them.
\<close>

section \<open>The adapter\<close>

fun settle_offset :: "'cur \<Rightarrow> (negative_imbalance, positive_imbalance) same_or_other \<Rightarrow>
    ('acc, 'cur, 'rid, 's) tokens_state \<Rightarrow> ('acc, 'cur, 'rid, 's) tokens_state" where
  "settle_offset c SameNone s = s"
| "settle_offset c (Same n) s = drop_negative c n s"
| "settle_offset c (OtherImbalance p) s = drop_positive c p s"

text \<open>\<open>resolve_creating\<close> is the default of the framework: deposit, and drop the difference.\<close>

definition adapter_resolve_creating ::
  "('acc, 'cur, 'rid, 's) tokens_config \<Rightarrow> 'cur \<Rightarrow> 'acc \<Rightarrow> balance \<Rightarrow>
     ('acc, 'cur, 'rid, 's) tokens_state \<Rightarrow> ('acc, 'cur, 'rid, 's) tokens_state" where
  "adapter_resolve_creating tk c who v s =
     (case adapter_deposit_creating tk c who v s of
        (p, s1) \<Rightarrow> settle_offset c (negative_offset (NegativeImbalance v) p) s1)"

definition on_system ::
  "('s \<Rightarrow> ('e + 'a) \<times> 's) \<Rightarrow> (('acc, 'cur, 'rid, 's) tokens_state, 'e, 'a) storage_op" where
  "on_system f s = (case f (tk_system s) of (r, y) \<Rightarrow> (r, s\<lparr>tk_system := y\<rparr>))"

definition adapter_stake_currency ::
  "('acc, 'cur, 'rid, 's) tokens_config \<Rightarrow> 'cur \<Rightarrow> ('acc, ('acc, 'cur, 'rid, 's) tokens_state) stake_currency" where
  "adapter_stake_currency tk c =
     \<lparr>sc_minimum_balance = ExistentialDeposits tk c,
      sc_free_balance = (\<lambda>s who. free_balance s c who),
      sc_total_balance = (\<lambda>s who. total_balance s c who),
      sc_total_issuance = (\<lambda>s. total_issuance s c),
      sc_set_lock = (\<lambda>i who v. adapter_set_lock tk i c who v),
      sc_remove_lock = (\<lambda>i who. adapter_remove_lock tk i c who),
      sc_deposit_creating = (\<lambda>who v s. map_prod positive_peek id (adapter_deposit_creating tk c who v s)),
      sc_deposit_into_existing =
        (\<lambda>who v. bind_op (adapter_deposit_into_existing tk c who v) (\<lambda>p. ok (positive_peek p))),
      sc_slash = (\<lambda>who v s. map_prod (map_prod negative_peek id) id (adapter_slash tk c who v s)),
      sc_issue = (\<lambda>v s. map_prod negative_peek id (adapter_issue c v s)),
      sc_resolve_creating = adapter_resolve_creating tk c,
      sc_inc_consumers = (\<lambda>who. on_system (inc_consumers tk who)),
      sc_dec_consumers = (\<lambda>who s. s\<lparr>tk_system := dec_consumers tk who (tk_system s)\<rparr>)\<rparr>"

text \<open>The amount the staking pallet has locked, and the states on which its contract holds.\<close>

definition staking_lock :: "'cur \<Rightarrow> ('acc, 'cur, 'rid, 's) tokens_state \<Rightarrow> 'acc \<Rightarrow> balance" where
  "staking_lock c s who = unwrap_or (locked_under s who c STAKING_ID) 0"

definition other_locks :: "'cur \<Rightarrow> ('acc, 'cur, 'rid, 's) tokens_state \<Rightarrow> 'acc \<Rightarrow> balance_lock list" where
  "other_locks c s who = filter (\<lambda>l. lock_id l \<noteq> STAKING_ID) (locks s who c)"

definition lockable ::
  "('acc, 'cur, 'rid, 's) tokens_config \<Rightarrow> 'cur \<Rightarrow> ('acc, 'cur, 'rid, 's) tokens_state \<Rightarrow> bool" where
  "lockable tk c s \<longleftrightarrow> locks_wf tk s \<and> (\<forall>who. length (other_locks c s who) < unat (MaxLocks tk))"

section \<open>Operations that leave the locks alone\<close>

definition same_locks :: "('acc, 'cur, 'rid, 's) tokens_state \<Rightarrow> ('acc, 'cur, 'rid, 's) tokens_state \<Rightarrow> bool" where
  "same_locks s t \<longleftrightarrow> locks_and_reserves t = locks_and_reserves s \<and> frozen_of t = frozen_of s"

lemma same_locks_refl [simp]: "same_locks s s"
  by (simp add: same_locks_def)

lemma same_locks_trans: "same_locks s t \<Longrightarrow> same_locks t r \<Longrightarrow> same_locks s r"
  by (simp add: same_locks_def)

lemma lockable_same:
  assumes "lockable tk c s" and "same_locks s t"
  shows "lockable tk c t \<and> staking_lock c t = staking_lock c s"
proof -
  have "locks t = locks s" using assms(2) by (simp add: same_locks_def locks_and_reserves_def locks_def fun_eq_iff)
  moreover have "locks_wf tk t" using assms by (auto simp: lockable_def same_locks_def intro: locks_wf_frame)
  ultimately show ?thesis
    using assms(1) by (simp add: lockable_def other_locks_def staking_lock_def locked_under_def fun_eq_iff)
qed

lemma same_locks_issuance [simp]: "same_locks s (mutate_total_issuance c f s)" "same_locks s (deposit_event e s)"
  by (simp_all add: same_locks_def)

lemma same_locks_drop [simp]: "same_locks s (drop_negative c n s)" "same_locks s (drop_positive c p s)" "same_locks s (settle_offset c d s)"
proof -
  show n: "same_locks s (drop_negative c n s)" for n by (cases n) simp
  show p: "same_locks s (drop_positive c p s)" for p by (cases p) simp
  show "same_locks s (settle_offset c d s)" by (cases d) (simp_all add: n p)
qed

lemma same_locks_system [simp]: "same_locks s (s\<lparr>tk_system := y\<rparr>)"
  by (simp add: same_locks_def locks_and_reserves_def frozen_of_def accounts_def fun_eq_iff)

lemma do_deposit_same_locks:
  assumes "do_deposit tk c who v ex ch s = (r, t)" and "runtime_config tk"
  shows "same_locks s t"
proof (cases r)
  case (Inl e)
  with do_deposit_error_unchanged [OF _ runtime_configD(1) [OF assms(2)]] assms(1) show ?thesis by force
next
  case (Inr w)
  with do_deposit_frames [OF _ assms(2)] assms(1) show ?thesis by (simp add: same_locks_def)
qed

lemma adapter_deposit_creating_same_locks:
  assumes "runtime_config tk"
  shows "same_locks s (snd (adapter_deposit_creating tk c who v s))"
proof -
  obtain r t where t: "do_deposit tk c who v False False s = (r, t)" by fastforce
  from do_deposit_same_locks [OF t assms] t show ?thesis by (cases r) (auto simp: adapter_deposit_creating_def)
qed

lemma adapter_deposit_into_existing_same_locks:
  assumes "runtime_config tk"
  shows "same_locks s (snd (adapter_deposit_into_existing tk c who v s))"
proof -
  obtain r t where t: "do_deposit tk c who v True False s = (r, t)" by fastforce
  from do_deposit_same_locks [OF t assms] t show ?thesis
    by (cases r) (auto simp: adapter_deposit_into_existing_def bind_op_def ok_def)
qed

lemma set_balances_same_locks:
  assumes "runtime_config tk"
  shows "same_locks s (set_free_balance tk c who a s)" and "same_locks s (set_reserved_balance tk c who a s)"
  using setter_frames [OF runtime_configD(1) [OF assms]] runtime_configD(2) [OF assms] by (simp_all add: same_locks_def)

lemma adapter_slash_same_locks:
  assumes "runtime_config tk"
  shows "same_locks s (snd (adapter_slash tk c who v s))"
  using set_balances_same_locks [OF assms] by (simp add: adapter_slash_def Let_def same_locks_def)

lemma adapter_issue_same_locks: "same_locks s (snd (adapter_issue c v s))"
  by (auto simp: adapter_issue_def Let_def same_locks_def split: option.splits)

lemma adapter_resolve_same_locks:
  assumes "runtime_config tk"
  shows "same_locks s (adapter_resolve_creating tk c who v s)"
  using adapter_deposit_creating_same_locks [OF assms, of s c who v]
  by (auto simp: adapter_resolve_creating_def split_beta intro: same_locks_trans)

section \<open>The two lock operations\<close>

lemma place_or_push_length:
  assumes "distinct (map lock_id ls)" and "length (filter (\<lambda>l. lock_id l \<noteq> i) ls) < n" and "length ls \<le> n"
  shows "length (place_or_push i f nl ls) \<le> n"
proof (cases "i \<in> lock_id ` set ls")
  case True
  with assms show ?thesis by (simp add: place_or_push_eq)
next
  case False
  then have "filter (\<lambda>l. lock_id l \<noteq> i) ls = ls" by (auto simp: filter_id_conv)
  with False assms show ?thesis by (simp add: place_or_push_eq)
qed

lemma other_place_or_push:
  assumes "distinct (map lock_id ls)" and "lock_id nl = i"
  shows "filter (\<lambda>l. lock_id l \<noteq> i) (place_or_push i (\<lambda>_ nl. nl) nl ls) = filter (\<lambda>l. lock_id l \<noteq> i) ls"
proof -
  have "filter (\<lambda>l. lock_id l \<noteq> i) (map (\<lambda>l. if lock_id l = i then nl else l) ls) = filter (\<lambda>l. lock_id l \<noteq> i) ls"
    using assms(2) by (induction ls) auto
  with assms show ?thesis by (simp add: place_or_push_eq)
qed

lemma update_locks_fits: "length ls \<le> unat (MaxLocks tk) \<Longrightarrow> \<exists>t. update_locks tk c who ls s = (Inr (), t)"
  by (auto simp: update_locks_def Let_def split_beta)

lemma adapter_set_lock_law:
  assumes cfg: "runtime_config tk" and ok: "lockable tk c s" and t_def: "t = adapter_set_lock tk STAKING_ID c who v s"
  shows "lockable tk c t \<and> (v \<noteq> 0 \<longrightarrow> staking_lock c t who = v) \<and> (\<forall>a. a \<noteq> who \<longrightarrow> staking_lock c t a = staking_lock c s a)"
proof (cases "v = 0")
  case True
  with ok show ?thesis by (simp add: t_def adapter_set_lock_def set_lock_def ok_def)
next
  case False
  let ?nl = "\<lparr>lock_id = STAKING_ID, lock_amount = v\<rparr>"
  let ?ls = "place_or_push STAKING_ID (\<lambda>_ nl. nl) ?nl (locks s who c)"
  note hooks = runtime_configD(1) [OF cfg]
  have wf: "locks_wf tk s" and d: "distinct (map lock_id (locks s who c))"
    using ok by (simp_all add: lockable_def locks_wf_def)
  have "length ?ls \<le> unat (MaxLocks tk)"
    using ok by (intro place_or_push_length d) (auto simp: lockable_def other_locks_def locks_wf_def)
  from update_locks_fits [OF this] obtain s1 where s1: "update_locks tk c who ?ls s = (Inr (), s1)" by blast
  then have op: "set_lock tk STAKING_ID c who v s = (Inr (), t)" and t: "t = deposit_event (LockSet STAKING_ID c who v) s1"
    using False by (simp_all add: t_def adapter_set_lock_def set_lock_def bind_op_def modify_op_def Let_def)
  note eff = set_lock_effect [OF op hooks runtime_configD(2) [OF cfg] wf False]
  have ls: "locks t a c = (if a = who then ?ls else locks s a c)" for a
    using locks_upd [OF s1 hooks, of a c] by (simp add: t)
  have "other_locks c t a = other_locks c s a" for a
    by (simp add: other_locks_def ls other_place_or_push [OF d])
  then show ?thesis
    using ok eff(1,4) ls by (auto simp: lockable_def staking_lock_def locked_under_def)
qed

lemma adapter_remove_lock_law:
  assumes cfg: "runtime_config tk" and ok: "lockable tk c s" and t_def: "t = adapter_remove_lock tk STAKING_ID c who s"
  shows "lockable tk c t \<and> (\<forall>a. a \<noteq> who \<longrightarrow> staking_lock c t a = staking_lock c s a)"
proof -
  let ?ls = "filter (\<lambda>l. lock_id l \<noteq> STAKING_ID) (locks s who c)"
  note hooks = runtime_configD(1) [OF cfg]
  have "length ?ls \<le> unat (MaxLocks tk)" using ok by (simp add: lockable_def other_locks_def less_imp_le)
  from update_locks_fits [OF this] obtain s1 where s1: "update_locks tk c who ?ls s = (Inr (), s1)" by blast
  then have op: "remove_lock tk STAKING_ID c who s = (Inr (), t)" and t: "t = deposit_event (LockRemoved STAKING_ID c who) s1"
    by (simp_all add: t_def adapter_remove_lock_def remove_lock_def bind_op_def modify_op_def)
  have wf: "locks_wf tk t" using remove_lock_effect(1) [OF op hooks runtime_configD(2) [OF cfg]] ok by (simp add: lockable_def)
  have "locks t a c = (if a = who then ?ls else locks s a c)" for a
    using locks_upd [OF s1 hooks, of a c] by (simp add: t)
  then show ?thesis
    using ok wf by (auto simp: lockable_def other_locks_def staking_lock_def locked_under_def)
qed

section \<open>Fractions and voters\<close>

definition parts_fractions :: fractions where
  "parts_fractions =
     \<lparr>perbill_mul = (\<lambda>p x. div_near (unat p * x) (10 ^ 9)),
      perbill_from_rational = (\<lambda>p q. of_nat (min p (max q 1) * 10 ^ 9 div max q 1)),
      percent_mul = (\<lambda>p x. div_near (unat p * x) 100),
      percent_mul_floor = (\<lambda>p x. unat p * x div 100),
      perquintill_from_rational_up = (\<lambda>p q. if q = 0 \<or> q < p then None else Some (of_nat (div_ceil (p * 10 ^ 18) q))),
      perquintill_mul_ceil = (\<lambda>p x. div_ceil (unat p * x) (10 ^ 18))\<rparr>"

lemma parts_fractions_cover: "fractions_cover parts_fractions"
proof -
  have "0 < q \<and> (\<forall>x. div_ceil (unat r * x) (10 ^ 18) \<le> x \<and> p * x \<le> q * div_ceil (unat r * x) (10 ^ 18))"
    if "\<not> (q = 0 \<or> q < p)" and r: "r = (of_nat (div_ceil (p * 10 ^ 18) q) :: perquintill)" for p q r
  proof -
    have q: "0 < q" "p \<le> q" using that by auto
    have le: "div_ceil (p * 10 ^ 18) q \<le> 10 ^ 18" using q by (intro div_ceil_le) auto
    then have ur: "unat r = div_ceil (p * 10 ^ 18) q" by (simp add: r unat_of_nat)
    have "div_ceil (unat r * x) (10 ^ 18) \<le> x" for x using le ur by (intro div_ceil_le) auto
    moreover have "p * x \<le> q * div_ceil (unat r * x) (10 ^ 18)" for x
    proof -
      have "p * 10 ^ 18 \<le> q * unat r" using div_ceil_ge [OF q(1), of "p * 10 ^ 18"] ur by simp
      then have "(p * 10 ^ 18) * x \<le> q * unat r * x" by (rule mult_le_mono1)
      also have "\<dots> \<le> q * (10 ^ 18 * div_ceil (unat r * x) (10 ^ 18))"
        using div_ceil_ge [of "10 ^ 18" "unat r * x"] by (simp add: mult.assoc)
      finally show ?thesis by (simp add: mult.assoc mult.left_commute)
    qed
    ultimately show ?thesis using q by simp
  qed
  moreover have "div_ceil (unat perquintill_one * x) (10 ^ 18) = x" for x
  proof (rule antisym)
    show "div_ceil (unat perquintill_one * x) (10 ^ 18) \<le> x" by (rule div_ceil_le) (simp_all add: perquintill_one_def)
    show "x \<le> div_ceil (unat perquintill_one * x) (10 ^ 18)"
      using div_ceil_ge [of "10 ^ 18" "unat perquintill_one * x"] by (simp add: perquintill_one_def)
  qed
  ultimately show ?thesis by (auto simp: fractions_cover_def parts_fractions_def split: if_splits)
qed

definition dlist_voters :: "('acc, 'acc dlist) sorted_list_provider" where
  "dlist_voters =
     \<lparr>vl_iter = list_of_dlist, vl_count = (\<lambda>v. of_nat (length (list_of_dlist v))),
      vl_contains = (\<lambda>v x. x \<in> set (list_of_dlist v)),
      vl_on_insert = (\<lambda>x _. Dlist.insert x), vl_on_update = (\<lambda>_ _ v. v), vl_on_remove = Dlist.remove\<rparr>"

lemma dlist_voters_ok: "voter_list_ok dlist_voters"
  unfolding voter_list_ok_def dlist_voters_def by simp

section \<open>The staking pallet over the tokens pallet\<close>

definition tokens_staking ::
  "('acc, 'cur, 'rid, 's) tokens_config \<Rightarrow> 'cur \<Rightarrow> ('acc, 'k, ('acc, 'cur, 'rid, 's) tokens_state, 'acc dlist, 'x) staking_config \<Rightarrow>
     ('acc, 'k, ('acc, 'cur, 'rid, 's) tokens_state, 'acc dlist, 'x) staking_config" where
  "tokens_staking tk c base =
     base\<lparr>Currency := adapter_stake_currency tk c,
          RewardRemainder := (\<lambda>v. drop_negative c (NegativeImbalance v)),
          Slash := (\<lambda>v. drop_negative c (NegativeImbalance v)),
          Reward := (\<lambda>v. drop_positive c (PositiveImbalance v)),
          VoterList := dlist_voters, Fractions := parts_fractions\<rparr>"

lemma map_prod_snd: "map_prod f id p = (i, y) \<Longrightarrow> snd p = y"
  by (cases p) simp

lemma adapter_stake_currency_contract:
  assumes "runtime_config tk"
  shows "stake_currency_contract (adapter_stake_currency tk c) (lockable tk c) (staking_lock c)"
proof
  fix x who v i y ir
  assume ok: "lockable tk c x"
  let ?cur = "adapter_stake_currency tk c"
  show "lockable tk c (sc_set_lock ?cur STAKING_ID who v x) \<and>
      (v \<noteq> 0 \<longrightarrow> staking_lock c (sc_set_lock ?cur STAKING_ID who v x) who = v) \<and>
      (\<forall>a. a \<noteq> who \<longrightarrow> staking_lock c (sc_set_lock ?cur STAKING_ID who v x) a = staking_lock c x a)"
    using adapter_set_lock_law [OF assms ok refl, of who v] by (simp add: adapter_stake_currency_def)
  show "lockable tk c (sc_remove_lock ?cur STAKING_ID who x) \<and>
      (\<forall>a. a \<noteq> who \<longrightarrow> staking_lock c (sc_remove_lock ?cur STAKING_ID who x) a = staking_lock c x a)"
    using adapter_remove_lock_law [OF assms ok refl, of who] by (simp add: adapter_stake_currency_def)
  show "lockable tk c y \<and> staking_lock c y = staking_lock c x" if "sc_deposit_creating ?cur who v x = (i, y)"
    using lockable_same [OF ok adapter_deposit_creating_same_locks [OF assms, of x c who v]] that
    by (simp add: adapter_stake_currency_def map_prod_snd)
  show "lockable tk c (sc_resolve_creating ?cur who v x) \<and> staking_lock c (sc_resolve_creating ?cur who v x) = staking_lock c x"
    using lockable_same [OF ok adapter_resolve_same_locks [OF assms, of x c who v]] by (simp add: adapter_stake_currency_def)
  show "lockable tk c y \<and> staking_lock c y = staking_lock c x" if "sc_issue ?cur v x = (i, y)"
    using lockable_same [OF ok adapter_issue_same_locks [of x c v]] that
    by (simp add: adapter_stake_currency_def map_prod_snd)
  show "lockable tk c y \<and> staking_lock c y = staking_lock c x" if "sc_inc_consumers ?cur who x = (ir, y)"
    using lockable_same [OF ok same_locks_system] that
    by (auto simp: adapter_stake_currency_def on_system_def split: prod.splits)
  show "lockable tk c (sc_dec_consumers ?cur who x) \<and> staking_lock c (sc_dec_consumers ?cur who x) = staking_lock c x"
    using lockable_same [OF ok same_locks_system] by (simp add: adapter_stake_currency_def)
next
  fix x who v r y
  assume ok: "lockable tk c x" and op: "sc_deposit_into_existing (adapter_stake_currency tk c) who v x = (r, y)"
  have "y = snd (adapter_deposit_into_existing tk c who v x)"
    using op by (auto simp: adapter_stake_currency_def bind_op_def ok_def split: prod.splits sum.splits)
  with lockable_same [OF ok adapter_deposit_into_existing_same_locks [OF assms, of x c who v]]
  show "lockable tk c y \<and> staking_lock c y = staking_lock c x" by simp
next
  fix x who v im y
  assume ok: "lockable tk c x" and op: "sc_slash (adapter_stake_currency tk c) who v x = (im, y)"
  then have "y = snd (adapter_slash tk c who v x)" by (simp add: adapter_stake_currency_def map_prod_snd)
  with lockable_same [OF ok adapter_slash_same_locks [OF assms, of x c who v]]
  show "lockable tk c y \<and> staking_lock c y = staking_lock c x" by simp
qed

lemma tokens_staking_world:
  assumes "runtime_config tk"
  shows "staking_world (tokens_staking tk c base) (lockable tk c) (staking_lock c)"
proof (intro staking_world.intro staking_world_axioms.intro)
  show "stake_currency_contract (Currency (tokens_staking tk c base)) (lockable tk c) (staking_lock c)"
    using adapter_stake_currency_contract [OF assms, of c] by (simp add: tokens_staking_def)
  fix x v
  assume "lockable tk c x"
  note same = lockable_same [OF this same_locks_drop(1)] lockable_same [OF this same_locks_drop(2)]
  show "lockable tk c (Reward (tokens_staking tk c base) v x) \<and> staking_lock c (Reward (tokens_staking tk c base) v x) = staking_lock c x"
    and "lockable tk c (Slash (tokens_staking tk c base) v x) \<and> staking_lock c (Slash (tokens_staking tk c base) v x) = staking_lock c x"
    and "lockable tk c (RewardRemainder (tokens_staking tk c base) v x) \<and>
      staking_lock c (RewardRemainder (tokens_staking tk c base) v x) = staking_lock c x"
    using same by (simp_all add: tokens_staking_def del: drop_negative.simps drop_positive.simps)
qed (simp_all add: tokens_staking_def dlist_voters_ok parts_fractions_cover)

interpretation stake_adapter: stake_currency_contract "adapter_stake_currency (runtime_tokens can_dec inc_p dec_p inc_c dec_c) c"
  "lockable (runtime_tokens can_dec inc_p dec_p inc_c dec_c) c" "staking_lock c"
  for can_dec :: "'acc \<Rightarrow> 's \<Rightarrow> bool" and inc_p dec_p inc_c dec_c c
  by (rule adapter_stake_currency_contract [OF runtime_tokens_config])

interpretation staked_tokens: staking_world "tokens_staking (runtime_tokens can_dec inc_p dec_p inc_c dec_c) c base"
  "lockable (runtime_tokens can_dec inc_p dec_p inc_c dec_c) c" "staking_lock c"
  for can_dec :: "'acc \<Rightarrow> 's \<Rightarrow> bool" and inc_p dec_p inc_c dec_c c base
  by (rule tokens_staking_world [OF runtime_tokens_config])

end
