(* ===== verification/Staking_Steps.thy ===== *)
theory Staking_Steps
  imports Staking_Adapter
begin

text \<open>
  Runs of the staking pallet. A step is a call that succeeds, a callback of the session pallet, of
  the election, of the offences pallet or of the block author, or a step of somebody else: a change
  of the currency that leaves the locks of the pallet alone, a change of the order of the voters,
  a change of the session pallet. The states reached from the genesis satisfy the invariant.
\<close>

section \<open>Calls\<close>

datatype ('acc, 'k) staking_call =
  Call_bond balance "'acc reward_destination"
| Call_bond_extra balance
| Call_unbond balance
| Call_withdraw_unbonded u32
| Call_validate validator_prefs
| Call_nominate "'k list"
| Call_chill
| Call_set_payee "'acc reward_destination"
| Call_set_controller
| Call_set_validator_count u32
| Call_increase_validator_count u32
| Call_scale_validator_count percent
| Call_force_no_eras
| Call_force_new_era
| Call_set_invulnerables "'acc list"
| Call_force_unstake 'acc u32
| Call_force_new_era_always
| Call_cancel_deferred_slash era_index "u32 list"
| Call_payout_stakers 'acc era_index
| Call_rebond balance
| Call_reap_stash 'acc u32
| Call_kick "'k list"
| Call_set_staking_configs "balance config_op" "balance config_op" "u32 config_op" "u32 config_op" "percent config_op" "perbill config_op"
| Call_chill_other 'acc
| Call_force_apply_min_commission 'acc
| Call_set_min_commission perbill

fun dispatch_staking ::
  "('acc, 'k, 's, 'v, 'x) staking_config \<Rightarrow> 'acc origin \<Rightarrow> ('acc, 'k) staking_call \<Rightarrow> ('acc, 's, 'v, 'x, unit) staking_op" where
  "dispatch_staking cfg orig (Call_bond v p) = st_bond cfg orig v p"
| "dispatch_staking cfg orig (Call_bond_extra v) = st_bond_extra cfg orig v"
| "dispatch_staking cfg orig (Call_unbond v) = st_unbond cfg orig v"
| "dispatch_staking cfg orig (Call_withdraw_unbonded n) = st_withdraw_unbonded cfg orig n"
| "dispatch_staking cfg orig (Call_validate p) = st_validate cfg orig p"
| "dispatch_staking cfg orig (Call_nominate ts) = st_nominate cfg orig ts"
| "dispatch_staking cfg orig Call_chill = st_chill cfg orig"
| "dispatch_staking cfg orig (Call_set_payee p) = st_set_payee orig p"
| "dispatch_staking cfg orig Call_set_controller = st_set_controller orig"
| "dispatch_staking cfg orig (Call_set_validator_count n) = st_set_validator_count cfg orig n"
| "dispatch_staking cfg orig (Call_increase_validator_count n) = st_increase_validator_count cfg orig n"
| "dispatch_staking cfg orig (Call_scale_validator_count f) = st_scale_validator_count cfg orig f"
| "dispatch_staking cfg orig Call_force_no_eras = st_force_no_eras orig"
| "dispatch_staking cfg orig Call_force_new_era = st_force_new_era orig"
| "dispatch_staking cfg orig (Call_set_invulnerables a) = st_set_invulnerables orig a"
| "dispatch_staking cfg orig (Call_force_unstake x n) = st_force_unstake cfg orig x n"
| "dispatch_staking cfg orig Call_force_new_era_always = st_force_new_era_always orig"
| "dispatch_staking cfg orig (Call_cancel_deferred_slash e i) = st_cancel_deferred_slash cfg orig e i"
| "dispatch_staking cfg orig (Call_payout_stakers x e) = st_payout_stakers cfg orig x e"
| "dispatch_staking cfg orig (Call_rebond v) = st_rebond cfg orig v"
| "dispatch_staking cfg orig (Call_reap_stash x n) = st_reap_stash cfg orig x n"
| "dispatch_staking cfg orig (Call_kick who) = st_kick cfg orig who"
| "dispatch_staking cfg orig (Call_set_staking_configs a b c d e f) = st_set_staking_configs orig a b c d e f"
| "dispatch_staking cfg orig (Call_chill_other c) = st_chill_other cfg orig c"
| "dispatch_staking cfg orig (Call_force_apply_min_commission x) = st_force_apply_min_commission orig x"
| "dispatch_staking cfg orig (Call_set_min_commission p) = st_set_min_commission cfg orig p"

text \<open>
  The sizes that no check of the code keeps in range: the counters of the two roles are 32 bits wide,
  and the rewards of a payout are added to the ledgers without a check.
\<close>

fun call_fits :: "('acc, 'k, 's, 'v, 'x) staking_config \<Rightarrow> ('acc, 'k) staking_call \<Rightarrow> ('acc, 's, 'v, 'x) staking_state \<Rightarrow> bool" where
  "call_fits cfg (Call_validate p) s \<longleftrightarrow> unat (CounterForValidators s) + 1 < 2 ^ 32"
| "call_fits cfg (Call_nominate ts) s \<longleftrightarrow> unat (CounterForNominators s) + 1 < 2 ^ 32"
| "call_fits cfg (Call_payout_stakers x e) s \<longleftrightarrow> payout_fits cfg x e s"
| "call_fits cfg _ s \<longleftrightarrow> True"

section \<open>Steps\<close>

inductive staking_step ::
  "('acc, 'k, 's, 'v, 'x) staking_config \<Rightarrow> ('s \<Rightarrow> bool) \<Rightarrow> ('s \<Rightarrow> 'acc \<Rightarrow> balance) \<Rightarrow>
     ('acc, 's, 'v, 'x) staking_state \<Rightarrow> ('acc, 's, 'v, 'x) staking_state \<Rightarrow> bool"
  for cfg :: "('acc, 'k, 's, 'v, 'x) staking_config" and cinv lock_of where
  call: "dispatch_staking cfg orig c s = (Inr u, t) \<Longrightarrow> call_fits cfg c s \<Longrightarrow> staking_step cfg cinv lock_of s t"
| new_session: "new_session cfg i el s = (vs, t) \<Longrightarrow> staking_step cfg cinv lock_of s t"
| start_session: "staking_step cfg cinv lock_of s (start_session cfg i s)"
| end_session: "staking_step cfg cinv lock_of s (end_session cfg now i s)"
| on_finalize: "staking_step cfg cinv lock_of s (st_on_finalize now s)"
| reward: "staking_step cfg cinv lock_of s (reward_by_ids ps s)"
| offence: "staking_step cfg cinv lock_of s (on_offence cfg offs fs i d s)"
| voters: "get_npos_voters cfg n s = (vs, t) \<Longrightarrow> staking_step cfg cinv lock_of s t"
| currency: "cinv x \<Longrightarrow> lock_of x = lock_of (staking_currency s) \<Longrightarrow> staking_step cfg cinv lock_of s (s\<lparr>staking_currency := x\<rparr>)"
| rebag: "set (vl_iter (VoterList cfg) v) = set (vl_iter (VoterList cfg) (voter_list s)) \<Longrightarrow>
    staking_step cfg cinv lock_of s (s\<lparr>voter_list := v\<rparr>)"
| sessions: "staking_step cfg cinv lock_of s (s\<lparr>session := x\<rparr>)"

text \<open>The storage before the genesis: nothing bonded, nobody in a role.\<close>

definition blank_staking :: "'s \<Rightarrow> 'v \<Rightarrow> 'x \<Rightarrow> ('acc, 's, 'v, 'x) staking_state" where
  "blank_staking cur vl se =
     \<lparr>ValidatorCount = 0, MinimumValidatorCount = 0, Invulnerables = [], Bonded = Map.empty, MinNominatorBond = 0,
      MinValidatorBond = 0, MinimumActiveStake = 0, MinCommission = 0, Ledger = Map.empty, Payee = Map.empty,
      Validators = Map.empty, CounterForValidators = 0, MaxValidatorsCount = None, Nominators = Map.empty,
      CounterForNominators = 0, MaxNominatorsCount = None, CurrentEra = None, ActiveEra = None,
      ErasStartSessionIndex = Map.empty, ErasStakers = Map.empty, ErasStakersClipped = Map.empty,
      ErasValidatorPrefs = Map.empty, ErasValidatorReward = Map.empty, ErasRewardPoints = Map.empty,
      ErasTotalStake = Map.empty, ForceEra = NotForcing, SlashRewardFraction = 0, CanceledSlashPayout = 0,
      UnappliedSlashes = Map.empty, BondedEras = [], ValidatorSlashInEra = Map.empty, NominatorSlashInEra = Map.empty,
      SlashingSpans = Map.empty, SpanSlash = Map.empty, CurrentPlannedSession = 0, OffendingValidators = [],
      ChillThreshold = None, staking_events = [], staking_currency = cur, voter_list = vl, session = se\<rparr>"

inductive staking_reachable ::
  "('acc, 'k, 's, 'v, 'x) staking_config \<Rightarrow> ('s \<Rightarrow> bool) \<Rightarrow> ('s \<Rightarrow> 'acc \<Rightarrow> balance) \<Rightarrow> ('acc, 's, 'v, 'x) staking_state \<Rightarrow> bool"
  for cfg :: "('acc, 'k, 's, 'v, 'x) staking_config" and cinv lock_of where
  genesis: "cinv cur \<Longrightarrow> vl_iter (VoterList cfg) vl = [] \<Longrightarrow> length (g_stakers g) < 2 ^ 31 \<Longrightarrow> g_validator_count g \<le> MaxWinners cfg \<Longrightarrow>
    staking_genesis_build cfg g (blank_staking cur vl se) = Some s \<Longrightarrow> staking_reachable cfg cinv lock_of s"
| step: "staking_reachable cfg cinv lock_of s \<Longrightarrow> staking_step cfg cinv lock_of s t \<Longrightarrow> staking_reachable cfg cinv lock_of t"

context staking_world
begin

lemma inv_withdraw: "inv s \<Longrightarrow> st_withdraw_unbonded cfg orig n s = (Inr u, t) \<Longrightarrow> inv t"
  by (simp add: st_withdraw_unbonded_def op_simps) (erule exE, erule inv_do_withdraw_unbonded, blast)

lemma inv_payout: "inv s \<Longrightarrow> st_payout_stakers cfg orig x e s = (Inr u, t) \<Longrightarrow> payout_fits cfg x e s \<Longrightarrow> inv t"
  by (simp add: st_payout_stakers_def op_simps) (blast intro: inv_payout_stakers)

lemma inv_dispatch:
  assumes "inv s" and "dispatch_staking cfg orig c s = (Inr u, t)" and "call_fits cfg c s"
  shows "inv t"
  using assms(2,3)
  by (cases c; simp only: dispatch_staking.simps call_fits.simps st_force_no_eras_def st_force_new_era_def st_force_new_era_always_def)
    (erule inv_bond [OF assms(1)] inv_bond_extra [OF assms(1)] inv_unbond [OF assms(1)] inv_withdraw [OF assms(1)]
      inv_validate [OF assms(1)] inv_nominate [OF assms(1)] inv_st_chill [OF assms(1)] inv_set_payee [OF assms(1)]
      inv_set_controller [OF assms(1)] inv_params [OF assms(1)] inv_root [OF assms(1)] inv_force_unstake [OF assms(1)]
      inv_rebond [OF assms(1)] inv_reap_stash [OF assms(1)] inv_kick [OF assms(1)] inv_chill_other [OF assms(1)]
      inv_force_apply_min_commission [OF assms(1)] inv_payout [OF assms(1)], assumption?)+

lemma inv_step: "staking_step cfg cinv lock_of s t \<Longrightarrow> inv s \<Longrightarrow> inv t"
proof (induction rule: staking_step.induct)
  case (call orig c s u t)
  from call(3,1,2) show ?case by (rule inv_dispatch)
next
  case (new_session i el s vs t)
  from new_session(2,1) show ?case by (rule inv_new_session)
next
  case (voters n s vs t)
  from voters(2,1) show ?case by (rule inv_hooks(3))
next
  case (currency x s)
  then show ?case by (simp add: inv_currency)
next
  case (rebag v s)
  then show ?case by (simp add: staking_inv_def roles_inv_voters [OF rebag(1)])
next
  case (sessions s x)
  show ?case by (rule inv_core [OF sessions]) simp
qed (simp_all add: inv_start_session inv_end_session inv_hooks(1,2) inv_on_offence)

section \<open>Genesis\<close>

lemma inv_blank:
  assumes "cinv cur" and "vl_iter (VoterList cfg) vl = []"
  shows "inv (blank_staking cur vl se)"
  using assms by (simp add: staking_inv_def blank_staking_def ledgers_inv_def roles_inv_def)

lemma bond_counters:
  assumes "st_bond cfg orig v p s = (Inr u, t)"
  shows "CounterForValidators t = CounterForValidators s" and "CounterForNominators t = CounterForNominators s"
  using assms
  by (auto simp: st_bond_def op_simps Let_def inc_consumers_Inr update_ledger_def with_currency_def st_deposit_event_def)

lemma validate_counters:
  assumes "st_validate cfg orig p s = (Inr u, t)"
  shows "unat (CounterForValidators t) \<le> unat (CounterForValidators s) + 1"
    and "unat (CounterForNominators t) \<le> unat (CounterForNominators s)"
  using assms
  by (auto simp: st_validate_def op_simps Let_def get_ledger_def st_deposit_event_def do_add_validator_def insert_validator_def
      with_voters_def do_remove_nominator_def unat_saturating_add unat_saturating_sub split: if_splits)

lemma nominate_counters:
  assumes "st_nominate cfg orig ts s = (Inr u, t)"
  shows "unat (CounterForNominators t) \<le> unat (CounterForNominators s) + 1"
    and "unat (CounterForValidators t) \<le> unat (CounterForValidators s)"
  using assms
  by (auto simp: st_nominate_def op_simps Let_def get_ledger_def do_add_nominator_def insert_nominator_def
      with_voters_def do_remove_validator_def unat_saturating_add unat_saturating_sub split: if_splits)

lemma genesis_staker_step:
  assumes "inv s" and "genesis_staker cfg staker (Some s) = Some t"
    and "unat (CounterForValidators s) + 1 < 2 ^ 32" and "unat (CounterForNominators s) + 1 < 2 ^ 32"
  shows "inv t" and "unat (CounterForValidators t) \<le> unat (CounterForValidators s) + 1"
    and "unat (CounterForNominators t) \<le> unat (CounterForNominators s) + 1"
proof -
  obtain x y b st where staker: "staker = (x, y, b, st)" by (metis prod.exhaust)
  from assms(2) staker obtain s1 where 1: "st_bond cfg (Signed x) b RD_Staked s = (Inr (), s1)"
    and 2: "assert_ok (case st of Validator \<Rightarrow> st_validate cfg (Signed x) default_prefs s1
              | Nominator votes \<Rightarrow> st_nominate cfg (Signed x) (map (Unlookup cfg) votes) s1
              | Idle \<Rightarrow> (Inr (), s1)) = Some t"
    by (auto simp: genesis_staker_def assert_ok_def split: if_splits prod.splits sum.splits bind_splits)
  note inv1 = inv_bond [OF assms(1) 1] and cnt = bond_counters [OF 1]
  have "inv t \<and> unat (CounterForValidators t) \<le> unat (CounterForValidators s) + 1 \<and>
      unat (CounterForNominators t) \<le> unat (CounterForNominators s) + 1"
  proof (cases st)
    case Idle
    with 2 inv1 cnt show ?thesis by (simp add: assert_ok_def)
  next
    case Validator
    with 2 obtain u where v: "st_validate cfg (Signed x) default_prefs s1 = (Inr u, t)"
      by (auto simp: assert_ok_def split: prod.splits sum.splits)
    with inv_validate [OF inv1 v] validate_counters [OF v] cnt assms(3) show ?thesis by simp
  next
    case (Nominator votes)
    with 2 obtain u where v: "st_nominate cfg (Signed x) (map (Unlookup cfg) votes) s1 = (Inr u, t)"
      by (auto simp: assert_ok_def split: prod.splits sum.splits)
    with inv_nominate [OF inv1 v] nominate_counters [OF v] cnt assms(4) show ?thesis by simp
  qed
  then show "inv t" and "unat (CounterForValidators t) \<le> unat (CounterForValidators s) + 1"
    and "unat (CounterForNominators t) \<le> unat (CounterForNominators s) + 1" by simp_all
qed

lemma genesis_fold_None: "fold (genesis_staker cfg) ss None = None"
  by (induction ss) (auto simp: genesis_staker_def split: prod.splits)

lemma inv_genesis_fold:
  assumes "inv s" and "fold (genesis_staker cfg) ss (Some s) = Some t"
    and "unat (CounterForValidators s) + length ss < 2 ^ 32" and "unat (CounterForNominators s) + length ss < 2 ^ 32"
  shows "inv t"
  using assms
proof (induction ss arbitrary: s)
  case (Cons x ss)
  obtain s1 where 1: "genesis_staker cfg x (Some s) = Some s1"
    using Cons.prems(2) genesis_fold_None by (cases "genesis_staker cfg x (Some s)") auto
  note st = genesis_staker_step [OF Cons.prems(1) 1]
  show ?case
    by (rule Cons.IH [of s1]) (use Cons.prems(2-) 1 st in auto)
qed simp

lemma inv_genesis:
  assumes "cinv cur" and "vl_iter (VoterList cfg) vl = []" and "length (g_stakers g) < 2 ^ 31" and "g_validator_count g \<le> MaxWinners cfg"
    and "staking_genesis_build cfg g (blank_staking cur vl se) = Some s"
  shows "inv s"
proof -
  define b :: "('acc, 's, 'v, 'x) staking_state" where "b = blank_staking cur vl se"
  define s1 where "s1 = b\<lparr>ValidatorCount := g_validator_count g, MinimumValidatorCount := g_minimum_validator_count g,
                 Invulnerables := g_invulnerables g, ForceEra := g_force_era g, CanceledSlashPayout := g_canceled_payout g,
                 SlashRewardFraction := g_slash_reward_fraction g, MinNominatorBond := g_min_nominator_bond g,
                 MinValidatorBond := g_min_validator_bond g,
                 MaxValidatorsCount := (case g_max_validator_count g of Some x \<Rightarrow> Some x | None \<Rightarrow> MaxValidatorsCount b),
                 MaxNominatorsCount := (case g_max_nominator_count g of Some x \<Rightarrow> Some x | None \<Rightarrow> MaxNominatorsCount b)\<rparr>"
  have "inv b" unfolding b_def by (rule inv_blank [OF assms(1,2)])
  then have inv1: "inv s1" using assms(4) by (simp add: staking_inv_def s1_def)
  have run: "fold (genesis_staker cfg) (g_stakers g) (Some s1) = Some s"
    using assms(5) unfolding staking_genesis_build_def Let_def b_def [symmetric] s1_def [symmetric]
    by (auto split: bind_splits if_splits)
  have "CounterForValidators s1 = 0" "CounterForNominators s1 = 0" by (simp_all add: s1_def b_def blank_staking_def)
  then show ?thesis using assms(3) by (intro inv_genesis_fold [OF inv1 run]) simp_all
qed

lemma reachable_inv: "staking_reachable cfg cinv lock_of s \<Longrightarrow> inv s"
proof (induction rule: staking_reachable.induct)
  case genesis
  then show ?case by (rule inv_genesis)
next
  case (step s t)
  then show ?case by (blast intro: inv_step)
qed

section \<open>The checks of the storage\<close>

lemma foldl_chunks: "unat (a :: balance) + chunk_sum u < 2 ^ 128 \<Longrightarrow> unat (foldl (\<lambda>a c. a + chunk_value c) a u) = unat a + chunk_sum u"
  by (induction u arbitrary: a) (simp_all add: unat_plus_less)

lemma inv_ledger_consistent:
  assumes "inv s" and "Bonded s x = Some c"
  shows "ensure_ledger_consistent s c = Inr ()"
proof -
  obtain l where l: "Ledger s c = Some l" using ledgers_inv_bonded [OF inv_ledgers [OF assms(1)] assms(2)] by blast
  have "unat (ledger_active l) + chunk_sum (unlocking l) = unat (ledger_total l)"
    using inv_ledger(3) [OF assms(1) l] by (simp add: balanced_ledger_def)
  then show ?thesis using foldl_chunks [of "ledger_active l" "unlocking l"] unat_u128 [of "ledger_total l"]
    by (simp add: ensure_ledger_consistent_def l word_eq_unat)
qed

lemma inv_check_count:
  assumes "inv s"
  shows "check_count cfg s = Inr ()"
proof -
  let ?it = "vl_iter (VoterList cfg) (voter_list s)"
  have r: "roles_inv cfg (Bonded s) (Validators s) (CounterForValidators s) (Nominators s) (CounterForNominators s) (voter_list s)"
    by (rule inv_roles [OF assms])
  have "length ?it = card (set ?it)" using voters_law by (simp add: voter_list_ok_def distinct_card)
  also have "\<dots> = card (dom (Validators s)) + card (dom (Nominators s))"
    using r by (simp add: roles_inv_def card_Un_disjoint)
  also have "\<dots> = unat (CounterForNominators s) + unat (CounterForValidators s)" using r by (simp add: roles_inv_def)
  finally have "vl_count (VoterList cfg) (voter_list s) = CounterForNominators s + CounterForValidators s"
    using voters_law by (simp add: voter_list_ok_def)
  then show ?thesis using assms by (auto simp: check_count_def target_list_count_def staking_inv_def)
qed

end

end
