(* ===== verification/Staking_Timing.thy ===== *)
theory Staking_Timing
  imports Staking_Steps
begin

text \<open>
  Eras and sessions over time. An era is planned one session before it starts: the session pallet
  ends a session, starts the next one and asks for the validators of the one after it, so the
  planned era is the active one or the next. This decides when unbonded funds can leave and when a
  deferred slash is applied.
\<close>

section \<open>The clock\<close>

definition clock :: "('acc, 's, 'v, 'x) staking_state \<Rightarrow> era_index option \<times> era_index option \<times> (era_index \<rightharpoonup> session_index)" where
  "clock s = (CurrentEra s, map_option era_idx (ActiveEra s), ErasStartSessionIndex s)"

text \<open>The part of the storage a slash or a payout leaves alone, besides the clock: the queue.\<close>

definition timed where
  "timed s = (clock s, UnappliedSlashes s)"

named_theorems timed_simps

lemma timed_fields [timed_simps]:
  "timed (st_deposit_event e s) = timed s" "timed (with_session f s) = timed s" "timed (with_currency g s) = timed s"
  "timed (with_voters h s) = timed s" "timed (set_force_era m s) = timed s" "timed (update_ledger cfg c l s) = timed s"
  "timed (update_voter cfg x y s) = timed s" "timed (ensure_new_era s) = timed s"
  "timed (s\<lparr>Bonded := b\<rparr>) = timed s" "timed (s\<lparr>Ledger := lg\<rparr>) = timed s" "timed (s\<lparr>Payee := p\<rparr>) = timed s"
  "timed (s\<lparr>Validators := vs\<rparr>) = timed s" "timed (s\<lparr>CounterForValidators := cv\<rparr>) = timed s"
  "timed (s\<lparr>Nominators := ns\<rparr>) = timed s" "timed (s\<lparr>CounterForNominators := cn\<rparr>) = timed s"
  "timed (s\<lparr>staking_currency := cu\<rparr>) = timed s" "timed (s\<lparr>voter_list := vl\<rparr>) = timed s" "timed (s\<lparr>session := se\<rparr>) = timed s"
  "timed (s\<lparr>SlashingSpans := ss\<rparr>) = timed s" "timed (s\<lparr>SpanSlash := sp\<rparr>) = timed s"
  "timed (s\<lparr>NominatorSlashInEra := nse\<rparr>) = timed s" "timed (s\<lparr>ValidatorSlashInEra := vse\<rparr>) = timed s"
  "timed (s\<lparr>OffendingValidators := ov\<rparr>) = timed s" "timed (s\<lparr>BondedEras := be\<rparr>) = timed s"
  "timed (s\<lparr>ErasRewardPoints := rp\<rparr>) = timed s" "timed (s\<lparr>ErasValidatorReward := vr\<rparr>) = timed s"
  "timed (s\<lparr>MinimumActiveStake := ms\<rparr>) = timed s" "timed (s\<lparr>Invulnerables := iv\<rparr>) = timed s"
  "timed (s\<lparr>ValidatorCount := n\<rparr>) = timed s" "timed (s\<lparr>MinCommission := mc\<rparr>) = timed s"
  "timed (s\<lparr>MinNominatorBond := nb\<rparr>) = timed s" "timed (s\<lparr>MinValidatorBond := vb\<rparr>) = timed s"
  "timed (s\<lparr>MaxNominatorsCount := mn\<rparr>) = timed s" "timed (s\<lparr>MaxValidatorsCount := mv\<rparr>) = timed s"
  "timed (s\<lparr>staking_events := ev\<rparr>) = timed s" "timed (s\<lparr>ChillThreshold := ct\<rparr>) = timed s" "timed (s\<lparr>CurrentPlannedSession := pls\<rparr>) = timed s"
  by (simp_all add: timed_def clock_def st_deposit_event_def with_session_def with_currency_def with_voters_def set_force_era_def
      update_ledger_def update_voter_def ensure_new_era_def split: forcing.splits)

lemma timed_roles [timed_simps]:
  "timed (snd (do_remove_validator cfg x s)) = timed s" "timed (snd (do_remove_nominator cfg x s)) = timed s"
  "timed (do_add_validator cfg x p s) = timed s" "timed (do_add_nominator cfg x n s) = timed s"
  "timed (insert_validator x p s) = timed s" "timed (insert_nominator x n s) = timed s"
  by (simp_all add: do_remove_validator_def do_remove_nominator_def do_add_validator_def do_add_nominator_def
      insert_validator_def insert_nominator_def timed_simps)

lemma timed_chill [timed_simps]: "timed (chill_stash cfg x s) = timed s"
proof -
  obtain a s1 where 1: "do_remove_validator cfg x s = (a, s1)" by fastforce
  obtain b s2 where 2: "do_remove_nominator cfg x s1 = (b, s2)" by fastforce
  have "timed s2 = timed s" using timed_roles(1) [of cfg x s] timed_roles(2) [of cfg x s1] 1 2 by simp
  then show ?thesis by (simp add: chill_stash_def 1 2 timed_simps)
qed

lemma timed_spans [timed_simps]:
  "timed (remove_span_slashes a P s) = timed s" "timed (drop_spans x s) = timed s" "timed (clear_era_metadata e s) = timed s"
  "timed (add_offending_validator cfg a d s) = timed s"
  by (auto simp: remove_span_slashes_def drop_spans_def clear_era_metadata_def add_offending_validator_def Let_def timed_simps
      split: prod.splits option.splits sum.splits)

lemma timed_fetch: "fetch_spans a w p sl pr s = (x, t) \<Longrightarrow> timed t = timed s"
  by (auto simp: fetch_spans_def Let_def timed_simps split: option.splits prod.splits)

lemma timed_compare: "compare_and_update_span_slash cfg e sl x s = (i, y, t) \<Longrightarrow> timed t = timed s"
  by (auto simp: compare_and_update_span_slash_def Let_def timed_simps split: option.splits prod.splits if_splits)

lemma timed_fold: "(\<And>x t. timed (f x t) = timed t) \<Longrightarrow> timed (fold f xs s) = timed s"
  by (induction xs arbitrary: s) auto

lemma timed_clear_stash: "clear_stash_metadata x n s = (Inr u, t) \<Longrightarrow> timed t = timed s"
  by (auto simp: clear_stash_metadata_def op_simps timed_simps split: option.splits)

lemma timed_kill_stash:
  assumes "kill_stash cfg x n s = (Inr u, t)"
  shows "timed t = timed s"
proof -
  from assms obtain c s0 where "Bonded s x = Some c" and s0: "clear_stash_metadata x n s = (Inr (), s0)"
    and t: "t = with_currency (sc_dec_consumers (Currency cfg) x) (snd (do_remove_nominator cfg x (snd (do_remove_validator cfg x
      (s0\<lparr>Bonded := (Bonded s0)(x := None), Ledger := (Ledger s0)(c := None), Payee := (Payee s0)(x := None)\<rparr>)))))"
    by (auto simp: kill_stash_def op_simps Let_def)
  show ?thesis by (simp add: t timed_simps timed_clear_stash [OF s0])
qed

lemma timed_do_withdraw:
  assumes "do_withdraw_unbonded cfg c n s = (Inr u, t)"
  shows "timed t = timed s"
proof -
  obtain l where l: "Ledger s c = Some l"
    using assms by (cases "Ledger s c") (simp_all add: do_withdraw_unbonded_def bind_op_def get_ledger_def)
  define l1 where "l1 = (case CurrentEra s of Some now \<Rightarrow> consolidate_unlocked l now | None \<Rightarrow> l)"
  show ?thesis
  proof (cases "unlocking l1 = [] \<and> ledger_active l1 < sc_minimum_balance (Currency cfg)")
    case True
    obtain r s0 where k: "kill_stash cfg (ledger_stash l) n s = (r, s0)" by fastforce
    have s0: "kill_stash cfg (ledger_stash l) n s = (Inr (), s0)"
      using assms l True k by (cases r) (simp_all add: do_withdraw_unbonded_def bind_op_def get_ledger_def Let_def l1_def [symmetric])
    with assms l True have "timed t = timed s0"
      by (auto simp: do_withdraw_unbonded_def bind_op_def modify_op_def get_ledger_def Let_def l1_def [symmetric] timed_simps)
    with timed_kill_stash [OF s0] show ?thesis by simp
  next
    case False
    with assms l have "t = (if ledger_total l1 < ledger_total l
        then st_deposit_event (SE_Withdrawn (ledger_stash l) (ledger_total l - ledger_total l1)) (update_ledger cfg c l1 s)
        else update_ledger cfg c l1 s)"
      by (simp add: do_withdraw_unbonded_def op_simps get_ledger_def Let_def l1_def [symmetric])
    then show ?thesis by (simp add: timed_simps)
  qed
qed

lemma clock_timed: "timed t = timed s \<Longrightarrow> clock t = clock s"
  by (simp add: timed_def)

subsection \<open>Calls\<close>

lemma timed_bonding:
  "st_bond cfg orig v p s = (Inr u, t) \<Longrightarrow> timed t = timed s"
  "st_bond_extra cfg orig v s = (Inr u, t) \<Longrightarrow> timed t = timed s"
  "st_withdraw_unbonded cfg orig n s = (Inr u, t) \<Longrightarrow> timed t = timed s"
  "st_rebond cfg orig v s = (Inr u, t) \<Longrightarrow> timed t = timed s"
  "st_force_unstake cfg orig x n s = (Inr u, t) \<Longrightarrow> timed t = timed s"
  "st_reap_stash cfg orig x n s = (Inr u, t) \<Longrightarrow> timed t = timed s"
proof -
  show "st_bond cfg orig v p s = (Inr u, t) \<Longrightarrow> timed t = timed s"
    by (auto simp: st_bond_def op_simps Let_def inc_consumers_Inr timed_simps)
  show "st_bond_extra cfg orig v s = (Inr u, t) \<Longrightarrow> timed t = timed s"
    by (auto simp: st_bond_extra_def op_simps Let_def get_ledger_def timed_simps split: option.splits)
  show "st_withdraw_unbonded cfg orig n s = (Inr u, t) \<Longrightarrow> timed t = timed s"
    by (auto simp: st_withdraw_unbonded_def op_simps dest: timed_do_withdraw)
  show "st_rebond cfg orig v s = (Inr u, t) \<Longrightarrow> timed t = timed s"
    by (auto simp: st_rebond_def op_simps get_ledger_def timed_simps split_beta)
  show "st_force_unstake cfg orig x n s = (Inr u, t) \<Longrightarrow> timed t = timed s"
    by (auto simp: st_force_unstake_def op_simps timed_simps dest: timed_kill_stash)
  show "st_reap_stash cfg orig x n s = (Inr u, t) \<Longrightarrow> timed t = timed s"
    by (auto simp: st_reap_stash_def op_simps Let_def timed_simps dest: timed_kill_stash split: if_splits)
qed

lemma timed_unbond:
  assumes "st_unbond cfg orig v s = (Inr u, t)"
  shows "timed t = timed s"
  using assms by (cases rule: unbond_cases) (auto simp: timed_simps dest: timed_do_withdraw)

lemma timed_role_calls:
  "st_validate cfg orig p s = (Inr u, t) \<Longrightarrow> timed t = timed s"
  "st_nominate cfg orig ts s = (Inr u, t) \<Longrightarrow> timed t = timed s"
  "st_chill cfg orig s = (Inr u, t) \<Longrightarrow> timed t = timed s"
  "st_chill_other cfg orig c s = (Inr u, t) \<Longrightarrow> timed t = timed s"
  "st_force_apply_min_commission orig x s = (Inr u, t) \<Longrightarrow> timed t = timed s"
  "st_set_payee orig rd s = (Inr u, t) \<Longrightarrow> timed t = timed s"
  "st_set_controller orig s = (Inr u, t) \<Longrightarrow> timed t = timed s"
proof -
  show "st_validate cfg orig p s = (Inr u, t) \<Longrightarrow> timed t = timed s"
    by (auto simp: st_validate_def op_simps Let_def get_ledger_def timed_simps)
  show "st_nominate cfg orig ts s = (Inr u, t) \<Longrightarrow> timed t = timed s"
    by (auto simp: st_nominate_def op_simps Let_def get_ledger_def timed_simps)
  show "st_chill cfg orig s = (Inr u, t) \<Longrightarrow> timed t = timed s"
    by (auto simp: st_chill_def op_simps get_ledger_def timed_simps)
  show "st_chill_other cfg orig c s = (Inr u, t) \<Longrightarrow> timed t = timed s"
    by (auto simp: st_chill_other_def op_simps get_ledger_def Let_def ensure_over_threshold_def timed_simps split: if_splits)
  show "st_force_apply_min_commission orig x s = (Inr u, t) \<Longrightarrow> timed t = timed s"
    by (auto simp: st_force_apply_min_commission_def op_simps timed_simps split: if_splits)
  show "st_set_payee orig rd s = (Inr u, t) \<Longrightarrow> timed t = timed s"
    by (auto simp: st_set_payee_def op_simps get_ledger_def timed_simps)
  show "st_set_controller orig s = (Inr u, t) \<Longrightarrow> timed t = timed s"
    by (auto simp: st_set_controller_def op_simps Let_def timed_simps split: option.splits if_splits)
qed

lemma timed_kick:
  assumes "st_kick cfg orig who s = (Inr u, t)"
  shows "timed t = timed s"
proof -
  have "timed (kick_one cfg x y s) = timed s" for x y s
    by (auto simp: kick_one_def timed_simps split: option.splits)
  with assms show ?thesis by (auto simp: st_kick_def op_simps get_ledger_def intro!: timed_fold)
qed

lemma clock_params:
  "st_set_validator_count cfg orig n s = (Inr u, t) \<Longrightarrow> clock t = clock s"
  "st_increase_validator_count cfg orig n s = (Inr u, t) \<Longrightarrow> clock t = clock s"
  "st_scale_validator_count cfg orig f s = (Inr u, t) \<Longrightarrow> clock t = clock s"
  "st_force m orig s = (Inr u, t) \<Longrightarrow> clock t = clock s"
  "st_set_invulnerables orig a s = (Inr u, t) \<Longrightarrow> clock t = clock s"
  "st_cancel_deferred_slash cfg orig e i s = (Inr u, t) \<Longrightarrow> clock t = clock s"
  "st_set_min_commission cfg orig c s = (Inr u, t) \<Longrightarrow> clock t = clock s"
  "st_set_staking_configs orig c1 c2 c3 c4 c5 c6 s = (Inr u, t) \<Longrightarrow> clock t = clock s"
  by (auto simp: clock_def st_set_validator_count_def st_increase_validator_count_def st_scale_validator_count_def
      put_validator_count_def st_force_def st_set_invulnerables_def st_cancel_deferred_slash_def st_set_min_commission_def
      st_set_staking_configs_def set_force_era_def st_deposit_event_def op_simps Let_def)

subsection \<open>Payouts\<close>

lemma timed_make_payout: "make_payout cfg x a s = (i, t) \<Longrightarrow> timed t = timed s"
  by (erule make_payout_cases) (simp_all add: timed_simps)

lemma timed_pay_staker: "pay_staker cfg p (im, s) = (im', t) \<Longrightarrow> timed t = timed s"
  by (auto simp: pay_staker_def timed_simps dest: timed_make_payout split: prod.splits option.splits)

lemma timed_pay_stakers: "fold (pay_staker cfg) ps (im, s) = (im', t) \<Longrightarrow> timed t = timed s"
proof (induction ps arbitrary: im s)
  case (Cons p ps)
  obtain im1 s1 where 1: "pay_staker cfg p (im, s) = (im1, s1)" by fastforce
  from Cons.IH [of im1 s1] Cons.prems 1 timed_pay_staker [OF 1] show ?case by simp
qed simp

lemma timed_payout:
  assumes "do_payout_stakers cfg x e s = (Inr u, t)"
  shows "timed t = timed s"
proof -
  from assms obtain now rw c l l1 where st: "CurrentEra s = Some now" "ErasValidatorReward s e = Some rw" "Bonded s x = Some c"
      "Ledger s c = Some l" "claim_era cfg now e l = Inr l1"
    by (auto simp: do_payout_stakers_def op_simps get_ledger_def)
  define s1 where "s1 = s\<lparr>Ledger := (Ledger s)(c \<mapsto> l1)\<rparr>"
  obtain im t1 where t1: "fold (pay_staker cfg) (validator_shares cfg x (ledger_stash l1) e rw s1)
      (0, st_deposit_event (SE_PayoutStarted e (ledger_stash l1)) s1) = (im, t1)" by fastforce
  have "t = s1 \<or> t = with_currency (Reward cfg im) t1"
    using assms st t1 by (simp add: do_payout_stakers_def op_simps get_ledger_def s1_def [symmetric] Let_def ok_iff split: if_splits)
  then show ?thesis using timed_pay_stakers [OF t1] by (auto simp: s1_def timed_simps)
qed

lemma timed_payout_stakers: "st_payout_stakers cfg orig x e s = (Inr u, t) \<Longrightarrow> timed t = timed s"
  by (auto simp: st_payout_stakers_def op_simps dest: timed_payout)

lemma clock_dispatch:
  assumes "dispatch_staking cfg orig c s = (Inr u, t)"
  shows "clock t = clock s"
  using assms
  by (cases c; simp only: dispatch_staking.simps st_force_no_eras_def st_force_new_era_def st_force_new_era_always_def)
    (erule timed_bonding [THEN clock_timed] timed_unbond [THEN clock_timed] timed_role_calls [THEN clock_timed]
      timed_kick [THEN clock_timed] timed_payout_stakers [THEN clock_timed] clock_params)+

subsection \<open>Slashes\<close>

lemma timed_do_slash: "do_slash cfg e p (rp, im, s) = (rp', im', t) \<Longrightarrow> timed t = timed s"
  by (auto simp: do_slash_def timed_simps Let_def split: prod.splits option.splits if_splits)

lemma timed_slash_fold: "fold (do_slash cfg e) ps (rp, im, s) = (rp', im', t) \<Longrightarrow> timed t = timed s"
proof (induction ps arbitrary: rp im s)
  case (Cons p ps)
  obtain rp1 im1 s1 where 1: "do_slash cfg e p (rp, im, s) = (rp1, im1, s1)" by (metis prod.exhaust)
  from Cons.IH [of rp1 im1 s1] Cons.prems 1 timed_do_slash [OF 1] show ?case by simp
qed simp

lemma timed_apply_slash [timed_simps]: "timed (apply_slash cfg e u s) = timed s"
proof -
  obtain rp im t where t: "fold (do_slash cfg e) ((us_validator u, us_own u) # us_others u) (us_payout u, 0, s) = (rp, im, t)"
    by (metis prod.exhaust)
  have "timed (pay_reporters cfg rp im rs t) = timed t" for rs
    by (auto simp: pay_reporters_def Let_def timed_simps split: prod.splits)
  then show ?thesis unfolding apply_slash_def t using timed_slash_fold [OF t] by simp
qed

lemma timed_kick_out [timed_simps]: "timed (kick_out_if_recent cfg p s) = timed s"
proof -
  obtain sp s1 where 1: "fetch_spans (sp_stash p) (sp_window_start p) 0 0 (sp_reward_proportion p) s = (sp, s1)" by fastforce
  show ?thesis using timed_fetch [OF 1] by (simp add: kick_out_if_recent_def 1 Let_def timed_simps)
qed

lemma timed_slash_validator:
  assumes "slash_validator cfg p own s = (a, b, t)"
  shows "timed t = timed s"
proof -
  obtain sp s1 where 1: "fetch_spans (sp_stash p) (sp_window_start p) 0 0 (sp_reward_proportion p) s = (sp, s1)" by fastforce
  obtain ts sp2 s2 where 2: "compare_and_update_span_slash cfg (sp_slash_era p) own sp s1 = (ts, sp2, s2)" by (metis prod.exhaust)
  have "timed s2 = timed s" using timed_fetch [OF 1] timed_compare [OF 2] by simp
  then show ?thesis using assms by (auto simp: slash_validator_def 1 2 timed_simps split: if_splits)
qed

lemma timed_slash_nominator:
  assumes "slash_nominator cfg p q n (a, b, s) = (a', b', t)"
  shows "timed t = timed s"
proof -
  define es where "es = unwrap_or (NominatorSlashInEra s (sp_slash_era p, ie_who n)) 0 +
     saturating_sub (times_perbill cfg (sp_slash p) (ie_value n)) (times_perbill cfg q (ie_value n))"
  define s0 where "s0 = s\<lparr>NominatorSlashInEra := (NominatorSlashInEra s)((sp_slash_era p, ie_who n) \<mapsto> es)\<rparr>"
  obtain sp s1 where 1: "fetch_spans (ie_who n) (sp_window_start p) a 0 (sp_reward_proportion p) s0 = (sp, s1)" by fastforce
  obtain ts sp2 s2 where 2: "compare_and_update_span_slash cfg (sp_slash_era p) es sp s1 = (ts, sp2, s2)" by (metis prod.exhaust)
  have "timed t = timed s2"
    using assms by (auto simp: slash_nominator_def Let_def es_def [symmetric] s0_def [symmetric] 1 2 timed_simps)
  also have "\<dots> = timed s0" using timed_fetch [OF 1] timed_compare [OF 2] by simp
  finally show ?thesis by (simp add: s0_def timed_simps)
qed

lemma timed_slash_nominators:
  assumes "slash_nominators cfg p q s = (a, b, t)"
  shows "timed t = timed s"
proof -
  have "fold (slash_nominator cfg p q) ns (a0, b0, s) = (a, b, t) \<Longrightarrow> timed t = timed s" for ns a0 b0 s
  proof (induction ns arbitrary: a0 b0 s)
    case (Cons n ns)
    obtain a1 b1 s1 where 1: "slash_nominator cfg p q n (a0, b0, s) = (a1, b1, s1)" by (metis prod.exhaust)
    from Cons.IH [of a1 b1 s1] Cons.prems 1 timed_slash_nominator [OF 1] show ?case by simp
  qed simp
  with assms show ?thesis by (simp add: slash_nominators_def)
qed

lemma timed_compute_slash:
  assumes "compute_slash cfg p s = (u, t)"
  shows "timed t = timed s"
proof -
  define prior where "prior = (case ValidatorSlashInEra s (sp_slash_era p, sp_stash p) of None \<Rightarrow> 0 | Some (q, _) \<Rightarrow> q)"
  consider "t = kick_out_if_recent cfg p s" | "t = s"
    | V a b s2 a' b' where
      "slash_validator cfg p (times_perbill cfg (sp_slash p) (exp_own (sp_exposure p))) (s\<lparr>ValidatorSlashInEra := V\<rparr>) = (a, b, s2)"
      "slash_nominators cfg p prior (add_offending_validator cfg (sp_stash p) (sp_disable_strategy p \<noteq> DS_Never) s2) = (a', b', t)"
    using assms by (auto simp: compute_slash_def Let_def prior_def [symmetric] split: if_splits prod.splits)
  then show ?thesis
    by cases (auto simp: timed_simps dest!: timed_slash_validator timed_slash_nominators)
qed

lemma clock_handle_offender: "clock (handle_offender cfg a e d od s) = clock s"
proof -
  obtain det f where od: "od = (det, f)" by fastforce
  obtain x ex where x: "offender det = (x, ex)" by fastforce
  obtain u s1 where 1: "compute_slash cfg \<lparr>sp_stash = x, sp_slash = f, sp_exposure = ex, sp_slash_era = e,
      sp_window_start = saturating_sub a (BondingDuration cfg), sp_now = a,
      sp_reward_proportion = SlashRewardFraction s, sp_disable_strategy = d\<rparr> s = (u, s1)" by fastforce
  have *: "clock (st_deposit_event ev s1) = clock s" for ev
    using timed_compute_slash [OF 1] by (intro clock_timed) (simp add: timed_simps)
  have queued: "clock (t\<lparr>UnappliedSlashes := q\<rparr>) = clock t" for t q by (simp add: clock_def)
  show ?thesis
    by (cases u) (simp_all add: handle_offender_def od x 1 Let_def * queued clock_timed [OF timed_apply_slash])
qed

lemma clock_on_offence: "clock (on_offence cfg os fs i d s) = clock s"
proof -
  have "clock (fold (handle_offender cfg a e d) ods s) = clock s" for a e ods s
    by (induction ods arbitrary: s) (simp_all add: clock_handle_offender)
  then show ?thesis by (simp add: on_offence_def split: option.splits)
qed

lemma timed_hooks:
  "timed (st_on_finalize now s) = timed s" "timed (reward_by_ids ps s) = timed s" "timed (end_session cfg now i s) = timed s"
  "get_npos_voters cfg n s = (vs, t) \<Longrightarrow> timed t = timed s"
  by (auto simp: st_on_finalize_def reward_by_ids_def end_session_def end_era_def get_npos_voters_def Let_def timed_def clock_def
      st_deposit_event_def split: option.splits prod.splits)

section \<open>Sessions\<close>

text \<open>A session starts the planned era if its start has come, which empties the queue of that era.\<close>

lemma start_session_timed:
  assumes "n = (case ActiveEra s of None \<Rightarrow> 0 | Some info \<Rightarrow> era_idx info + 1)"
  shows "timed (start_session cfg i s) =
    (case ErasStartSessionIndex s n of
       Some k \<Rightarrow> if k \<le> i then ((CurrentEra s, Some n, ErasStartSessionIndex s), (UnappliedSlashes s)(n := None)) else timed s
     | None \<Rightarrow> timed s)"
proof -
  have disabled: "timed (fold (\<lambda>(index, disabled). if disabled then with_session (disable_validator (SessionInterface cfg) index) else id) ds t) = timed t"
    for ds t by (rule timed_fold) (auto simp: timed_simps)
  define s1 where "s1 = s\<lparr>ActiveEra := Some \<lparr>era_idx = n, era_start = None\<rparr>\<rparr>"
  define s2 where "s2 = prune_bonded_eras cfg n i s1"
  have "timed (fold (\<lambda>(pruned_era, _). clear_era_metadata pruned_era) ps t) = timed t" for ps t
    by (rule timed_fold) (auto simp: timed_simps)
  then have s2: "timed s2 = timed s1"
    by (auto simp: s2_def prune_bonded_eras_def Let_def timed_simps split: list.splits)
  have "timed (start_era cfg i s) = timed (s2\<lparr>UnappliedSlashes := (UnappliedSlashes s2)(n := None)\<rparr>)"
    unfolding start_era_def Let_def assms [symmetric] s1_def [symmetric] s2_def [symmetric] apply_unapplied_slashes_def
    by (rule timed_fold) (simp add: timed_simps)
  also have "\<dots> = ((CurrentEra s, Some n, ErasStartSessionIndex s), (UnappliedSlashes s)(n := None))"
    using s2 by (simp add: timed_def clock_def s1_def)
  finally have start: "timed (start_era cfg i s) = ((CurrentEra s, Some n, ErasStartSessionIndex s), (UnappliedSlashes s)(n := None))" .
  show ?thesis
    unfolding start_session_def Let_def assms [symmetric] disabled using start by (simp split: option.splits)
qed

text \<open>Planning a session plans the next era or changes neither the clock nor the queue.\<close>

lemma store_stakers_info_timed:
  assumes "store_stakers_info cfg es e s = (vs, t)"
  shows "timed t = timed s"
proof -
  have exps: "timed b = timed a" if "fold (store_exposure cfg e) xs (n, a) = (m, b)" for xs n a m b
    using that
  proof (induction xs arbitrary: n a)
    case (Cons x xs)
    obtain y z where x: "x = (y, z)" by fastforce
    from Cons.IH Cons.prems show ?case by (force simp: x store_exposure_def timed_def clock_def)
  qed simp
  obtain b s1 where 1: "fold (store_exposure cfg e) es (0, s) = (b, s1)" by fastforce
  define s2 where "s2 = s1\<lparr>ErasTotalStake := (ErasTotalStake s1)(e \<mapsto> b)\<rparr>"
  have "t = fold (\<lambda>stash s. s\<lparr>ErasValidatorPrefs := (ErasValidatorPrefs s)
      ((e, stash) \<mapsto> unwrap_or (Validators s stash) default_prefs)\<rparr>) (map fst es) s2"
    using assms by (auto simp: store_stakers_info_def Let_def 1 s2_def)
  also have "timed \<dots> = timed s2" by (rule timed_fold) (simp add: timed_def clock_def)
  finally show ?thesis using exps [OF 1] by (simp add: s2_def timed_def clock_def)
qed

definition planned_start :: "('acc, 'k, 's, 'v, 'x) staking_config \<Rightarrow> era_index \<Rightarrow> session_index \<Rightarrow> (era_index \<rightharpoonup> session_index) \<Rightarrow> (era_index \<rightharpoonup> session_index)" where
  "planned_start cfg e i S = (case checked_sub e (HistoryDepth cfg + 1) of Some old \<Rightarrow> (S(e \<mapsto> i))(old := None) | None \<Rightarrow> S(e \<mapsto> i))"

lemma trigger_new_era_timed:
  assumes "trigger_new_era cfg i es s = (vs, t)" and "CurrentEra s = Some c"
  shows "timed t = ((Some (c + 1), map_option era_idx (ActiveEra s), planned_start cfg (c + 1) i (ErasStartSessionIndex s)), UnappliedSlashes s)"
  using assms
  by (auto simp: trigger_new_era_def Let_def clear_era_information_def timed_def clock_def planned_start_def split: option.splits dest!: store_stakers_info_timed)

lemma new_session_timed:
  assumes "new_session cfg i el s = (vs, t)" and "CurrentEra s = Some c"
  shows "timed t = timed s \<or>
    timed t = ((Some (c + 1), map_option era_idx (ActiveEra s), planned_start cfg (c + 1) i (ErasStartSessionIndex s)), UnappliedSlashes s)"
proof -
  let ?next = "((Some (c + 1), map_option era_idx (ActiveEra s), planned_start cfg (c + 1) i (ErasStartSessionIndex s)), UnappliedSlashes s)"
  have trig: "timed r = timed s \<or> timed r = ?next" if "try_trigger_new_era cfg i el (s\<lparr>CurrentPlannedSession := i\<rparr>) = (ws, r)" for ws r
  proof (cases el)
    case None
    with that show ?thesis by (auto simp: try_trigger_new_era_def timed_simps)
  next
    case (Some sups)
    show ?thesis
      using that trigger_new_era_timed [of cfg i "collect_exposures cfg sups (s\<lparr>CurrentPlannedSession := i\<rparr>)"
          "st_deposit_event SE_StakersElected (s\<lparr>CurrentPlannedSession := i\<rparr>)" _ r c] assms(2)
      by (auto simp: try_trigger_new_era_def Some Let_def timed_simps st_deposit_event_def split: if_splits prod.splits)
  qed
  obtain ws r where r: "try_trigger_new_era cfg i el (s\<lparr>CurrentPlannedSession := i\<rparr>) = (ws, r)" by fastforce
  have "timed t = timed s \<or> timed t = timed r"
    using assms r by (auto simp: new_session_def plan_session_def Let_def timed_simps split: if_splits)
  with trig [OF r] show ?thesis by auto
qed

text \<open>
  The session pallet, which is not part of the repository, calls the session manager once per rotation:
  the session \<open>i\<close> ends, the next one starts, and the one after it is planned (the documented order
  of \<open>pallet_session\<close>'s \<open>rotate_session\<close>).
\<close>

definition rotate_session ::
  "('acc, 'k, 's, 'v, 'x) staking_config \<Rightarrow> u64 \<Rightarrow> session_index \<Rightarrow> 'acc supports option \<Rightarrow>
     ('acc, 's, 'v, 'x) staking_state \<Rightarrow> ('acc, 's, 'v, 'x) staking_state" where
  "rotate_session cfg now i el s = snd (new_session cfg (i + 2) el (start_session cfg (i + 1) (end_session cfg now i s)))"

text \<open>
  In session \<open>i\<close> the planned era is the active one, or the next one, which then starts with the next
  session; no later era has a start.
\<close>

definition era_inv :: "session_index \<Rightarrow> ('acc, 's, 'v, 'x) staking_state \<Rightarrow> bool" where
  "era_inv i s \<longleftrightarrow>
     (case clock s of
        (Some c, Some a, S) \<Rightarrow>
          (\<forall>e. c < e \<longrightarrow> S e = None) \<and> (a = c \<or> unat c = unat a + 1 \<and> S c = Some (i + 1))
      | _ \<Rightarrow> False)"

lemma era_inv_clock: "clock t = clock s \<Longrightarrow> era_inv i t = era_inv i s"
  by (simp add: era_inv_def)

lemma era_invD:
  assumes "era_inv i s" and "CurrentEra s = Some c"
  obtains a where "map_option era_idx (ActiveEra s) = Some a" "\<And>e. c < e \<Longrightarrow> ErasStartSessionIndex s e = None"
    "a = c \<or> unat c = unat a + 1 \<and> ErasStartSessionIndex s c = Some (i + 1)"
  using assms by (auto simp: era_inv_def clock_def split: option.splits)

text \<open>A rotation makes the planned era active, and plans the next era or not.\<close>

lemma rotate_session_timed:
  assumes inv: "era_inv i s" and c: "CurrentEra s = Some c" and fits: "unat c + 1 < 2 ^ 32"
    and q_def: "q = (if map_option era_idx (ActiveEra s) = Some c then UnappliedSlashes s else (UnappliedSlashes s)(c := None))"
    and t_def: "t = rotate_session cfg now i el s"
  shows "timed t = ((Some c, Some c, ErasStartSessionIndex s), q) \<or>
    timed t = ((Some (c + 1), Some c, planned_start cfg (c + 1) (i + 2) (ErasStartSessionIndex s)), q)"
proof -
  define s1 where "s1 = end_session cfg now i s"
  define s2 where "s2 = start_session cfg (i + 1) s1"
  have t1: "timed s1 = timed s" by (simp add: s1_def timed_hooks)
  then have f1: "CurrentEra s1 = Some c" "map_option era_idx (ActiveEra s1) = map_option era_idx (ActiveEra s)"
    "ErasStartSessionIndex s1 = ErasStartSessionIndex s" "UnappliedSlashes s1 = UnappliedSlashes s"
    using c by (simp_all add: timed_def clock_def)
  obtain a where a: "map_option era_idx (ActiveEra s) = Some a" and late: "\<And>e. c < e \<Longrightarrow> ErasStartSessionIndex s e = None"
    and planned: "a = c \<or> unat c = unat a + 1 \<and> ErasStartSessionIndex s c = Some (i + 1)"
    using era_invD [OF inv c] by blast
  have n: "(case ActiveEra s1 of None \<Rightarrow> 0 | Some info \<Rightarrow> era_idx info + 1) = a + 1"
    using f1(2) a by (auto split: option.splits)
  have s2: "timed s2 = ((Some c, Some c, ErasStartSessionIndex s), q)"
  proof (cases "a = c")
    case True
    have "c < c + 1" using fits by (simp add: word_less_nat_alt unat_plus_less)
    with late True have "ErasStartSessionIndex s1 (a + 1) = None" by (simp add: f1)
    then have "timed s2 = timed s1" unfolding s2_def start_session_timed [OF n [symmetric]] by simp
    then show ?thesis using True a f1 by (simp add: timed_def clock_def q_def)
  next
    case False
    then have ac: "unat c = unat a + 1" "ErasStartSessionIndex s c = Some (i + 1)"
      using planned by auto
    then have "a + 1 = c" using unat_u32 [of c] by (simp add: word_eq_unat unat_plus_less)
    moreover have "q = (UnappliedSlashes s)(c := None)" unfolding q_def a using False by simp
    ultimately show ?thesis
      unfolding s2_def start_session_timed [OF n [symmetric]] using ac f1 by simp
  qed
  have t: "t = snd (new_session cfg (i + 2) el s2)" by (simp add: t_def rotate_session_def s1_def s2_def)
  obtain vs r where r: "new_session cfg (i + 2) el s2 = (vs, r)" by fastforce
  have f2: "CurrentEra s2 = Some c" "map_option era_idx (ActiveEra s2) = Some c"
    "ErasStartSessionIndex s2 = ErasStartSessionIndex s" "UnappliedSlashes s2 = q"
    using s2 by (simp_all add: timed_def clock_def)
  from new_session_timed [OF r f2(1)] s2 show ?thesis by (simp add: t r f2)
qed

lemma planned_start_sel:
  assumes "HistoryDepth cfg + 1 \<noteq> 0"
  shows "planned_start cfg e i S e = Some i" and "e < e' \<Longrightarrow> S e' = None \<Longrightarrow> planned_start cfg e i S e' = None"
proof -
  have ne: "old \<noteq> e" if "checked_sub e (HistoryDepth cfg + 1) = Some old" for old
    using that assms by (auto simp: checked_sub_Some_iff word_eq_unat)
  show "planned_start cfg e i S e = Some i" using ne by (auto simp: planned_start_def split: option.splits)
  show "planned_start cfg e i S e' = None" if "e < e'" "S e' = None"
    using that by (auto simp: planned_start_def split: option.splits)
qed

lemma rotate_session_era_inv:
  assumes inv: "era_inv i s" and c: "CurrentEra s = Some c" and fits: "unat c + 1 < 2 ^ 32" and hist: "HistoryDepth cfg + 1 \<noteq> 0"
  shows "era_inv (i + 1) (rotate_session cfg now i el s)"
proof -
  let ?t = "rotate_session cfg now i el s"
  have late: "ErasStartSessionIndex s e = None" if "c < e" for e
    using era_invD [OF inv c] that by metis
  have succ: "unat (c + 1) = unat c + 1" "c < c + 1"
    using fits by (simp_all add: unat_plus_less word_less_nat_alt)
  then have "ErasStartSessionIndex s e = None" if "c + 1 < e" for e using late that by force
  then have "\<forall>e. c + 1 < e \<longrightarrow> planned_start cfg (c + 1) (i + 2) (ErasStartSessionIndex s) e = None"
    using planned_start_sel(2) [OF hist] by blast
  then have plan: "era_inv (i + 1) ?t" if "clock ?t = (Some (c + 1), Some c, planned_start cfg (c + 1) (i + 2) (ErasStartSessionIndex s))"
    using that succ planned_start_sel(1) [OF hist] by (simp add: era_inv_def add.assoc)
  have same: "era_inv (i + 1) ?t" if "clock ?t = (Some c, Some c, ErasStartSessionIndex s)"
    using that late by (simp add: era_inv_def)
  show ?thesis using rotate_session_timed [OF inv c fits refl refl, of cfg now el] plan same by (auto simp: timed_def)
qed

section \<open>Runs\<close>

text \<open>
  A run of the pallet over time: sessions rotate one after the other, and between the rotations
  anything else happens. The session and era counters stay in range.
\<close>

inductive session_run ::
  "('acc, 'k, 's, 'v, 'x) staking_config \<Rightarrow> session_index \<Rightarrow> ('acc, 's, 'v, 'x) staking_state \<Rightarrow>
     session_index \<Rightarrow> ('acc, 's, 'v, 'x) staking_state \<Rightarrow> bool"
  for cfg :: "('acc, 'k, 's, 'v, 'x) staking_config" and i s where
  here: "session_run cfg i s i s"
| rotate: "session_run cfg i s j t \<Longrightarrow> unat (unwrap_or (CurrentEra t) 0) + 1 < 2 ^ 32 \<Longrightarrow>
    session_run cfg i s (j + 1) (rotate_session cfg now j el t)"
| call: "session_run cfg i s j t \<Longrightarrow> dispatch_staking cfg orig c t = (Inr u, r) \<Longrightarrow> session_run cfg i s j r"
| on_finalize: "session_run cfg i s j t \<Longrightarrow> session_run cfg i s j (st_on_finalize now t)"
| reward: "session_run cfg i s j t \<Longrightarrow> session_run cfg i s j (reward_by_ids ps t)"
| offence: "session_run cfg i s j t \<Longrightarrow> session_run cfg i s j (on_offence cfg offs fs k d t)"
| voters: "session_run cfg i s j t \<Longrightarrow> get_npos_voters cfg n t = (vs, r) \<Longrightarrow> session_run cfg i s j r"
| outside: "session_run cfg i s j t \<Longrightarrow> session_run cfg i s j (t\<lparr>staking_currency := cu, voter_list := vl, session := se\<rparr>)"

definition active_era :: "('acc, 's, 'v, 'x) staking_state \<Rightarrow> nat" where
  "active_era s = (case ActiveEra s of None \<Rightarrow> 0 | Some info \<Rightarrow> unat (era_idx info))"

definition current_era :: "('acc, 's, 'v, 'x) staking_state \<Rightarrow> nat" where
  "current_era s = unat (unwrap_or (CurrentEra s) 0)"

lemma era_inv_planned:
  assumes "era_inv i s"
  shows "current_era s = active_era s \<or> current_era s = active_era s + 1"
  using assms by (auto simp: era_inv_def clock_def current_era_def active_era_def split: option.splits)

lemma rotate_session_eras:
  assumes "era_inv i s" and "current_era s + 1 < 2 ^ 32"
  shows "active_era (rotate_session cfg now i el s) = current_era s"
    and "current_era s \<le> current_era (rotate_session cfg now i el s)"
proof -
  obtain c where c: "CurrentEra s = Some c" using assms(1) by (auto simp: era_inv_def clock_def split: option.splits)
  have fits: "unat c + 1 < 2 ^ 32" using assms(2) by (simp add: current_era_def c)
  have "unat (c + 1) = unat c + 1" using fits by (simp add: unat_plus_less)
  with rotate_session_timed [OF assms(1) c fits refl refl, of cfg now el]
  show "active_era (rotate_session cfg now i el s) = current_era s" "current_era s \<le> current_era (rotate_session cfg now i el s)"
    by (auto simp: timed_def clock_def active_era_def current_era_def c)
qed

lemma clock_eras: "clock t = clock s \<Longrightarrow> active_era t = active_era s \<and> current_era t = current_era s"
  by (auto simp: clock_def active_era_def current_era_def split: option.splits)

lemma era_inv_frame:
  "clock t = clock s \<Longrightarrow> era_inv j s \<and> n \<le> active_era s \<Longrightarrow> era_inv j t \<and> n \<le> active_era t"
  using era_inv_clock [of t s j] clock_eras [of t s] by simp

lemma session_run_era_inv:
  assumes "session_run cfg i s j t" and "era_inv i s" and "HistoryDepth cfg + 1 \<noteq> 0"
  shows "era_inv j t \<and> active_era s \<le> active_era t"
  using assms
proof (induction rule: session_run.induct)
  case (rotate j t now el)
  then have IH: "era_inv j t" "active_era s \<le> active_era t" by simp_all
  obtain c where c: "CurrentEra t = Some c" using IH(1) by (auto simp: era_inv_def clock_def split: option.splits)
  have "unat c + 1 < 2 ^ 32" using rotate.hyps(2) by (simp add: c)
  then have "era_inv (j + 1) (rotate_session cfg now j el t)" by (rule rotate_session_era_inv [OF IH(1) c _ rotate.prems(2)])
  moreover have "active_era t \<le> active_era (rotate_session cfg now j el t)"
    using rotate_session_eras(1) [OF IH(1), where cfg = cfg and now = now and el = el] rotate.hyps(2) era_inv_planned [OF IH(1)] by (auto simp: current_era_def)
  ultimately show ?case using IH(2) by simp
next
  case (call j t orig c u r)
  show ?case by (rule era_inv_frame [OF clock_dispatch [OF call.hyps(2)]]) (rule call.IH [OF call.prems])
next
  case (on_finalize j t now)
  show ?case by (rule era_inv_frame [OF clock_timed [OF timed_hooks(1)]]) (rule on_finalize.IH [OF on_finalize.prems])
next
  case (reward j t ps)
  show ?case by (rule era_inv_frame [OF clock_timed [OF timed_hooks(2)]]) (rule reward.IH [OF reward.prems])
next
  case (offence j t offs fs k d)
  show ?case by (rule era_inv_frame [OF clock_on_offence]) (rule offence.IH [OF offence.prems])
next
  case (voters j t n vs r)
  show ?case by (rule era_inv_frame [OF clock_timed [OF timed_hooks(4) [OF voters.hyps(2)]]]) (rule voters.IH [OF voters.prems])
next
  case (outside j t se vl cu)
  have "clock (t\<lparr>staking_currency := cu, voter_list := vl, session := se\<rparr>) = clock t" by (simp add: clock_def)
  then show ?case by (rule era_inv_frame) (rule outside.IH [OF outside.prems])
qed simp

text \<open>The chunk that unbonding makes is the last one, and unlocks a bonding period after the planned era.\<close>

lemma push_chunk_last: "push_chunk cfg v e u = Inr u' \<Longrightarrow> u' \<noteq> [] \<and> chunk_era (last u') = e"
  by (auto simp: push_chunk_def split: if_splits)

lemma unbond_last_chunk:
  assumes "st_unbond cfg (Signed x) v s = (Inr u, t)" and "Ledger s x = Some l0" and "v \<noteq> 0" and "ledger_active l0 \<noteq> 0"
    and "length (unlocking l0) < unat (MaxUnlockingChunks cfg)"
  obtains l where "Ledger t x = Some l" "unlocking l \<noteq> []"
    "chunk_era (last (unlocking l)) = unwrap_or (CurrentEra s) 0 + BondingDuration cfg"
proof -
  let ?v = "min v (ledger_active l0)"
  have nz: "?v \<noteq> 0" using assms(3,4) by (auto simp: min_def)
  obtain w a where wa: "(w, a) = (if ledger_active l0 - ?v < sc_minimum_balance (Currency cfg)
       then (?v + (ledger_active l0 - ?v), 0) else (?v, ledger_active l0 - ?v))" by (metis prod.collapse)
  have "unbond_value cfg x l0 ?v s = (Inr u, t)"
    using assms(1,2,5) by (simp add: st_unbond_def op_simps get_ledger_def)
  then obtain us where us: "push_chunk cfg w (unwrap_or (CurrentEra s) 0 + BondingDuration cfg) (unlocking l0) = Inr us"
    and t: "t = st_deposit_event (SE_Unbonded (ledger_stash l0) w)
       (update_voter cfg (ledger_stash l0) (ledger_stash l0) (update_ledger cfg x (l0\<lparr>ledger_active := a, unlocking := us\<rparr>) s))"
    using nz by (auto simp: unbond_value_def Let_def wa [symmetric] op_simps)
  have "Ledger t x = Some (l0\<lparr>ledger_active := a, unlocking := us\<rparr>)"
    by (simp add: t st_deposit_event_def update_voter_def with_voters_def update_ledger_def with_currency_def)
  then show thesis using push_chunk_last [OF us] by (intro that) auto
qed

text \<open>A withdrawal leaves every chunk in place whose era the current era has not reached.\<close>

lemma withdraw_keeps_chunk:
  assumes "st_withdraw_unbonded cfg (Signed x) n t = (Inr w, t')" and "Ledger t x = Some l" and "k \<in> set (unlocking l)"
    and "current_era t < unat (chunk_era k)"
  shows "\<exists>l'. Ledger t' x = Some l' \<and> k \<in> set (unlocking l')"
proof -
  define l1 where "l1 = (case CurrentEra t of Some now \<Rightarrow> consolidate_unlocked l now | None \<Rightarrow> l)"
  have k: "k \<in> set (unlocking l1)"
    using assms(3,4) by (auto simp: l1_def consolidate_unlocked_def current_era_def word_less_nat_alt split: option.splits)
  then have "\<not> (unlocking l1 = [] \<and> ledger_active l1 < sc_minimum_balance (Currency cfg))" by auto
  then have "Ledger t' x = Some l1"
    using assms(1,2) by (auto simp: st_withdraw_unbonded_def do_withdraw_unbonded_def op_simps get_ledger_def l1_def [symmetric] Let_def
        update_ledger_def with_currency_def st_deposit_event_def)
  with k show ?thesis by blast
qed

section \<open>Rotations and nothing else\<close>

fun rotate_all ::
  "('acc, 'k, 's, 'v, 'x) staking_config \<Rightarrow> session_index \<Rightarrow> (u64 \<times> 'acc supports option) list \<Rightarrow>
     ('acc, 's, 'v, 'x) staking_state \<Rightarrow> ('acc, 's, 'v, 'x) staking_state" where
  "rotate_all cfg i [] s = s"
| "rotate_all cfg i ((now, el) # es) s = rotate_all cfg (i + 1) es (rotate_session cfg now i el s)"

lemma rotate_all_run:
  assumes "session_run cfg i s j t" and "era_inv j t" and "HistoryDepth cfg + 1 \<noteq> 0" and "current_era t + length es < 2 ^ 32"
  shows "session_run cfg i s (j + of_nat (length es)) (rotate_all cfg j es t)"
  using assms
proof (induction es arbitrary: j t)
  case (Cons x es)
  obtain now el where x: "x = (now, el)" by fastforce
  let ?t = "rotate_session cfg now j el t"
  obtain c where c: "CurrentEra t = Some c" using Cons.prems(2) by (auto simp: era_inv_def clock_def split: option.splits)
  have fits: "unat c + 1 < 2 ^ 32" using Cons.prems(4) by (simp add: current_era_def c)
  have "unat (c + 1) = unat c + 1" using fits by (simp add: unat_plus_less)
  then have "current_era ?t \<le> current_era t + 1"
    using rotate_session_timed [OF Cons.prems(2) c fits refl refl, of cfg now el] by (auto simp: timed_def clock_def current_era_def c)
  moreover have "session_run cfg i s (j + 1) ?t"
    by (rule session_run.rotate [OF Cons.prems(1)]) (use fits in \<open>simp add: c\<close>)
  moreover have "era_inv (j + 1) ?t" by (rule rotate_session_era_inv [OF Cons.prems(2) c fits Cons.prems(3)])
  ultimately have "session_run cfg i s (j + 1 + of_nat (length es)) (rotate_all cfg (j + 1) es ?t)"
    using Cons.IH Cons.prems(3,4) by simp
  then show ?case by (simp add: x add.assoc)
qed simp

text \<open>A rotation empties no queue of an era that has started before it.\<close>

lemma rotate_all_queue:
  assumes "era_inv i s" and "HistoryDepth cfg + 1 \<noteq> 0" and "current_era s + length es < 2 ^ 32" and "unat e \<le> active_era s"
  shows "UnappliedSlashes (rotate_all cfg i es s) e = UnappliedSlashes s e"
  using assms
proof (induction es arbitrary: i s)
  case (Cons x es)
  obtain now el where x: "x = (now, el)" by fastforce
  let ?t = "rotate_session cfg now i el s"
  obtain c where c: "CurrentEra s = Some c" using Cons.prems(1) by (auto simp: era_inv_def clock_def split: option.splits)
  have fits: "unat c + 1 < 2 ^ 32" using Cons.prems(3) by (simp add: current_era_def c)
  have "unat (c + 1) = unat c + 1" using fits by (simp add: unat_plus_less)
  moreover have "map_option era_idx (ActiveEra s) \<noteq> Some c \<longrightarrow> e \<noteq> c"
    using era_inv_planned [OF Cons.prems(1)] Cons.prems(1,4) c
    by (auto simp: era_inv_def clock_def active_era_def current_era_def split: option.splits)
  ultimately have cur: "current_era ?t \<le> current_era s + 1" and act: "active_era ?t = current_era s"
    and queue: "UnappliedSlashes ?t e = UnappliedSlashes s e"
    using rotate_session_timed [OF Cons.prems(1) c fits refl refl, of cfg now el]
    by (auto simp: timed_def clock_def active_era_def current_era_def c split: if_splits)
  have inv: "era_inv (i + 1) ?t" by (rule rotate_session_era_inv [OF Cons.prems(1) c fits Cons.prems(2)])
  have "unat e \<le> active_era ?t" using act era_inv_planned [OF Cons.prems(1)] Cons.prems(4) by auto
  from Cons.IH [OF inv Cons.prems(2) _ this] cur Cons.prems(3) queue show ?case by (simp add: x)
qed simp

text \<open>What a rotation without slashes to apply leaves alone: the ledgers and the parameters.\<close>

definition quiet where
  "quiet s = (Ledger s, ForceEra s, MinimumValidatorCount s)"

lemma quiet_fold: "(\<And>x t. quiet (f x t) = quiet t) \<Longrightarrow> quiet (fold f xs s) = quiet s"
  by (induction xs arbitrary: s) auto

lemma quiet_end_session: "quiet (end_session cfg now i s) = quiet s"
  by (auto simp: end_session_def end_era_def quiet_def st_deposit_event_def Let_def split: option.splits prod.splits)

lemma quiet_clear:
  "quiet (fold (\<lambda>(pruned_era, _). clear_era_metadata pruned_era) ps t) = quiet t"
  "UnappliedSlashes (fold (\<lambda>(pruned_era, _). clear_era_metadata pruned_era) ps t) = UnappliedSlashes t"
  by (induction ps arbitrary: t) (auto simp: quiet_def clear_era_metadata_def)

lemma quiet_start_session:
  assumes "\<And>e. e = (case ActiveEra s of None \<Rightarrow> 0 | Some info \<Rightarrow> era_idx info + 1) \<Longrightarrow>
      ErasStartSessionIndex s e = None \<or> UnappliedSlashes s e = None"
  shows "quiet (start_session cfg i s) = quiet s"
proof -
  define n where "n = (case ActiveEra s of None \<Rightarrow> 0 | Some info \<Rightarrow> era_idx info + 1)"
  define s1 where "s1 = s\<lparr>ActiveEra := Some \<lparr>era_idx = n, era_start = None\<rparr>\<rparr>"
  have disabled: "quiet (fold (\<lambda>(index, disabled). if disabled then with_session (disable_validator (SessionInterface cfg) index) else id) ds t) = quiet t"
    for ds t by (rule quiet_fold) (auto simp: quiet_def with_session_def)
  have prune: "quiet (prune_bonded_eras cfg n i s1) = quiet s1 \<and> UnappliedSlashes (prune_bonded_eras cfg n i s1) = UnappliedSlashes s1"
  proof -
    define B where "B = BondedEras s1 @ [(n, i)]"
    show ?thesis
      unfolding prune_bonded_eras_def Let_def B_def [symmetric]
      by (simp add: quiet_clear(2) quiet_clear(1) [unfolded quiet_def prod.inject] quiet_def with_session_def split: list.splits)
  qed
  have "quiet (start_era cfg i s) = quiet s" if "UnappliedSlashes s1 n = None"
    using that unfolding start_era_def Let_def n_def [symmetric] s1_def [symmetric] apply_unapplied_slashes_def
    using prune by (simp add: quiet_def s1_def)
  with assms [OF n_def] show ?thesis
    unfolding start_session_def Let_def disabled n_def [symmetric] by (auto simp: s1_def split: option.splits)
qed

lemma quiet_store_stakers_info:
  assumes "store_stakers_info cfg es e s = (vs, t)"
  shows "quiet t = quiet s"
proof -
  have exps: "quiet b = quiet a" if "fold (store_exposure cfg e) xs (n, a) = (m, b)" for xs n a m b
    using that
  proof (induction xs arbitrary: n a)
    case (Cons x xs)
    obtain y z where x: "x = (y, z)" by fastforce
    from Cons.IH Cons.prems show ?case by (force simp: x store_exposure_def quiet_def)
  qed simp
  obtain b s1 where 1: "fold (store_exposure cfg e) es (0, s) = (b, s1)" by fastforce
  define s2 where "s2 = s1\<lparr>ErasTotalStake := (ErasTotalStake s1)(e \<mapsto> b)\<rparr>"
  have "t = fold (\<lambda>stash s. s\<lparr>ErasValidatorPrefs := (ErasValidatorPrefs s)
      ((e, stash) \<mapsto> unwrap_or (Validators s stash) default_prefs)\<rparr>) (map fst es) s2"
    using assms by (auto simp: store_stakers_info_def Let_def 1 s2_def)
  also have "quiet \<dots> = quiet s2" by (rule quiet_fold) (simp add: quiet_def)
  finally show ?thesis using exps [OF 1] by (simp add: s2_def quiet_def)
qed

definition election_ok :: "'acc supports \<Rightarrow> ('acc, 's, 'v, 'x) staking_state \<Rightarrow> bool" where
  "election_ok sups s \<longleftrightarrow> max (MinimumValidatorCount s) 1 \<le> (of_nat (length sups) :: u32)"

lemma new_session_always:
  assumes "ForceEra s = ForceAlways" and "election_ok sups s" and "CurrentEra s = Some c"
    and "new_session cfg i (Some sups) s = (vs, t)"
  shows "timed t = ((Some (c + 1), map_option era_idx (ActiveEra s), planned_start cfg (c + 1) i (ErasStartSessionIndex s)), UnappliedSlashes s)"
    and "quiet t = quiet s"
proof -
  define s1 where "s1 = st_deposit_event SE_StakersElected (s\<lparr>CurrentPlannedSession := i\<rparr>)"
  define es where "es = collect_exposures cfg sups (s\<lparr>CurrentPlannedSession := i\<rparr>)"
  have s1: "CurrentEra s1 = Some c" "ActiveEra s1 = ActiveEra s" "ErasStartSessionIndex s1 = ErasStartSessionIndex s"
    "UnappliedSlashes s1 = UnappliedSlashes s" "ForceEra s1 = ForceAlways" "quiet s1 = quiet s"
    using assms by (simp_all add: s1_def st_deposit_event_def quiet_def)
  obtain ws r where r: "trigger_new_era cfg i es s1 = (ws, r)" by fastforce
  have qr: "quiet r = quiet s1"
    using r by (auto simp: trigger_new_era_def Let_def clear_era_information_def quiet_def
        split: option.splits dest!: quiet_store_stakers_info)
  have "\<not> (of_nat (length es) :: u32) < max (MinimumValidatorCount s) 1"
    using assms(2) by (simp add: election_ok_def es_def collect_exposures_def linorder_not_less)
  then have "t = r"
    using assms r qr s1(5)
    by (auto simp: new_session_def plan_session_def try_trigger_new_era_def Let_def s1_def [symmetric] es_def [symmetric] quiet_def)
  with trigger_new_era_timed [OF r s1(1)] qr s1
  show "timed t = ((Some (c + 1), map_option era_idx (ActiveEra s), planned_start cfg (c + 1) i (ErasStartSessionIndex s)), UnappliedSlashes s)"
    and "quiet t = quiet s" by simp_all
qed

lemma rotate_always:
  assumes inv: "era_inv i s" and c: "CurrentEra s = Some c" and fits: "unat c + 1 < 2 ^ 32"
    and force: "ForceEra s = ForceAlways" and el: "election_ok sups s"
    and idle: "map_option era_idx (ActiveEra s) = Some c \<or> UnappliedSlashes s c = None"
    and t_def: "t = rotate_session cfg now i (Some sups) s"
  shows "CurrentEra t = Some (c + 1)" and "map_option era_idx (ActiveEra t) = Some c"
    and "UnappliedSlashes t = UnappliedSlashes s" and "quiet t = quiet s"
proof -
  define s1 where "s1 = end_session cfg now i s"
  define s2 where "s2 = start_session cfg (i + 1) s1"
  have t1: "timed s1 = timed s" "quiet s1 = quiet s" by (simp_all add: s1_def timed_hooks quiet_end_session)
  obtain a where a: "map_option era_idx (ActiveEra s) = Some a" and late: "\<And>e. c < e \<Longrightarrow> ErasStartSessionIndex s e = None"
    and planned: "a = c \<or> unat c = unat a + 1 \<and> ErasStartSessionIndex s c = Some (i + 1)"
    using era_invD [OF inv c] by blast
  have n: "(case ActiveEra s1 of None \<Rightarrow> 0 | Some info \<Rightarrow> era_idx info + 1) = a + 1"
    using t1(1) a by (auto simp: timed_def clock_def split: option.splits)
  have "ErasStartSessionIndex s (a + 1) = None \<or> UnappliedSlashes s (a + 1) = None"
  proof (cases "a = c")
    case True
    have "c < c + 1" using fits by (simp add: word_less_nat_alt unat_plus_less)
    with late True show ?thesis by simp
  next
    case False
    then have "a + 1 = c" using planned unat_u32 [of c] by (auto simp: word_eq_unat unat_plus_less)
    with idle a False show ?thesis by simp
  qed
  then have "quiet s2 = quiet s1"
    unfolding s2_def using t1(1) by (intro quiet_start_session) (simp add: n timed_def clock_def)
  then have q2: "quiet s2 = quiet s" using t1(2) by simp
  obtain vs where t: "new_session cfg (i + 2) (Some sups) s2 = (vs, t)"
    by (metis t_def rotate_session_def s1_def s2_def prod.collapse)
  have c2: "CurrentEra s2 = Some c"
    using start_session_timed [OF n [symmetric], of cfg "i + 1"] t1(1) c
    by (auto simp: s2_def timed_def clock_def split: option.splits if_splits)
  have f2: "ForceEra s2 = ForceAlways" "election_ok sups s2" using q2 force el by (simp_all add: quiet_def election_ok_def)
  note ns = new_session_always [OF f2 c2 t]
  show "quiet t = quiet s" using ns(2) q2 by simp
  show "CurrentEra t = Some (c + 1)" using ns(1) by (simp add: timed_def clock_def)
  have alt: "timed t = ((Some c, Some c, ErasStartSessionIndex s), q) \<or>
      timed t = ((Some (c + 1), Some c, planned_start cfg (c + 1) (i + 2) (ErasStartSessionIndex s)), q)"
    if "q = (if map_option era_idx (ActiveEra s) = Some c then UnappliedSlashes s else (UnappliedSlashes s)(c := None))" for q
    by (rule rotate_session_timed [OF inv c fits that t_def])
  have "(UnappliedSlashes s)(c := None) = UnappliedSlashes s" if "UnappliedSlashes s c = None" using that by (simp add: fun_upd_idem)
  with alt idle show "map_option era_idx (ActiveEra t) = Some c" "UnappliedSlashes t = UnappliedSlashes s"
    by (auto simp: timed_def clock_def split: if_splits)
qed

lemma rotate_all_always:
  assumes "era_inv i s" and "CurrentEra s = Some c" and "unat c + n < 2 ^ 32" and "ForceEra s = ForceAlways" and "election_ok sups s"
    and "map_option era_idx (ActiveEra s) = Some c \<or> UnappliedSlashes s c = None" and "HistoryDepth cfg + 1 \<noteq> 0"
    and "\<And>k. 0 < k \<Longrightarrow> k < n \<Longrightarrow> UnappliedSlashes s (c + of_nat k) = None"
  shows "CurrentEra (rotate_all cfg i (replicate n (now, Some sups)) s) = Some (c + of_nat n) \<and>
    UnappliedSlashes (rotate_all cfg i (replicate n (now, Some sups)) s) = UnappliedSlashes s \<and>
    quiet (rotate_all cfg i (replicate n (now, Some sups)) s) = quiet s"
  using assms
proof (induction n arbitrary: i s c)
  case (Suc n)
  define t where "t = rotate_session cfg now i (Some sups) s"
  have fits: "unat c + 1 < 2 ^ 32" using Suc.prems(3) by simp
  note r = rotate_always [OF Suc.prems(1,2) fits Suc.prems(4-6) t_def]
  have inv: "era_inv (i + 1) t" unfolding t_def by (rule rotate_session_era_inv [OF Suc.prems(1,2) fits Suc.prems(7)])
  have step: "rotate_all cfg i (replicate (Suc n) (now, Some sups)) s = rotate_all cfg (i + 1) (replicate n (now, Some sups)) t"
    by (simp add: t_def)
  show ?case
  proof (cases "n = 0")
    case True
    with r show ?thesis by (simp add: t_def)
  next
    case False
    have "unat (c + 1) = unat c + 1" using fits by (simp add: unat_plus_less)
    moreover have "ForceEra t = ForceAlways" "election_ok sups t" using r(4) Suc.prems(4,5) by (simp_all add: quiet_def election_ok_def)
    moreover have "UnappliedSlashes t (c + 1) = None" using r(3) Suc.prems(8) [of 1] False by simp
    moreover have "UnappliedSlashes t (c + 1 + of_nat k) = None" if "0 < k" "k < n" for k
      using r(3) Suc.prems(8) [of "Suc k"] that by (simp add: add.assoc)
    ultimately show ?thesis
      unfolding step using Suc.IH [OF inv r(1)] Suc.prems(3,7) r(3,4) by (simp add: add.assoc)
  qed
qed simp

end
