(* ===== verification/Staking_Properties.thy ===== *)
theory Staking_Properties
  imports Staking_Timing Tokens_Properties "HOL-Library.While_Combinator"
begin

text \<open>
  The properties of the staking pallet, over the currency adapter of the tokens pallet where they
  speak of the currency, with witnesses on a small instance.
\<close>

section \<open>An instance\<close>

definition demo_staking_base ::
  "(nat, nat, (nat, currency_id, reserve_identifier, unit) tokens_state, nat dlist, unit) staking_config" where
  "demo_staking_base =
     \<lparr>Currency = adapter_stake_currency demo_config (Token RUSD), to_vote = (\<lambda>v _. ucast v), to_currency = (\<lambda>v _. v),
      MaxWinners = 10, MaxNominations = 16, HistoryDepth = 84,
      RewardRemainder = (\<lambda>_ x. x), Slash = (\<lambda>_ x. x), Reward = (\<lambda>_ x. x),
      SessionsPerEra = 24, BondingDuration = 28, SlashDeferDuration = 27, AdminOrigin = (\<lambda>r. r = Root),
      SessionInterface = \<lparr>disable_validator = (\<lambda>_ x. x), session_validators = (\<lambda>_. []), prune_historical_up_to = (\<lambda>_ x. x)\<rparr>,
      EraPayout = (\<lambda>_ _ _. (0, 0)), MaxNominatorRewardedPerValidator = 64, OffendingValidatorsThreshold = 170000000,
      VoterList = dlist_voters, MaxUnlockingChunks = 32, OnStakerSlash = (\<lambda>_ _ _ x. x), Fractions = parts_fractions,
      Lookup = Inr, Unlookup = id\<rparr>"

definition demo_staking where
  "demo_staking = tokens_staking demo_config (Token RUSD) demo_staking_base"

definition demo_stakers :: "nat staking_genesis" where
  "demo_stakers =
     \<lparr>g_validator_count = 5, g_minimum_validator_count = 1, g_invulnerables = [], g_force_era = NotForcing,
      g_slash_reward_fraction = 0, g_canceled_payout = 0, g_stakers = [(1, 1, 60, Validator), (2, 2, 40, Nominator [1])],
      g_min_nominator_bond = 0, g_min_validator_bond = 0, g_max_validator_count = None, g_max_nominator_count = None\<rparr>"

definition demo_staked where
  "demo_staked = the (staking_genesis_build demo_staking demo_stakers (blank_staking demo_state Dlist.empty ()))"

lemmas staking_eval =
  demo_staking_def demo_staking_base_def tokens_staking_def demo_stakers_def demo_staked_def
  staking_genesis_build_def genesis_staker_def assert_ok_def st_bond_def st_validate_def st_nominate_def st_unbond_def
  unbond_value_def push_chunk_def min_active_bond_def get_ledger_def update_ledger_def update_voter_def weight_of_def slashable_balance_of_def
  do_add_validator_def do_add_nominator_def do_remove_validator_def do_remove_nominator_def insert_validator_def insert_nominator_def
  nominators_get_def with_currency_def with_voters_def st_deposit_event_def blank_staking_def era_range_def
  adapter_stake_currency_def adapter_set_lock_def on_system_def dlist_voters_def default_prefs_def

lemma demo_build: "staking_genesis_build demo_staking demo_stakers (blank_staking demo_state Dlist.empty ()) = Some demo_staked"
  by (simp add: staking_eval tokens_eval)

lemma demo_lockable: "lockable demo_config (Token RUSD) demo_state"
proof -
  have "locks_wf demo_config demo_state" by (rule tokens_invD(2) [OF demo_inv])
  moreover have "other_locks (Token RUSD) demo_state who = []" for who
    by (simp add: other_locks_def locks_def demo_state_def)
  moreover have "0 < unat (MaxLocks demo_config)" by (simp add: demo_config_def runtime_tokens_def)
  ultimately show ?thesis by (simp add: lockable_def)
qed

lemma demo_staking_reachable:
  "staking_reachable demo_staking (lockable demo_config (Token RUSD)) (staking_lock (Token RUSD)) demo_staked"
  by (rule staking_reachable.genesis [where cur = demo_state and vl = Dlist.empty and g = demo_stakers, OF _ _ _ _ demo_build])
    (simp_all add: demo_lockable demo_staking_def tokens_staking_def dlist_voters_def demo_stakers_def demo_staking_base_def)

section \<open>The invariant\<close>

text \<open>
  (C2) In every state of the staking pallet reached from a genesis by calls, sessions, offences, payouts
  and steps of other pallets that leave its locks alone: stashes and controllers are paired by the
  ledgers; every ledger adds up, is within its bounds and, unless its total is zero, is what the currency
  has locked of the stash (a lock of zero is not written, so with a total of zero an older lock may
  remain); validators and nominators are different bonded stashes and exactly the voters; and of the
  checks the pallet has for its storage, the one of the counters (\<open>check_count\<close>) and the one of every
  ledger (\<open>ensure_ledger_consistent\<close>) pass. The checks of the exposures and of the nominators' backing
  depend on what the election returned and are not claimed.
\<close>

theorem staking_reachable_inv:
  fixes can_dec :: "'acc \<Rightarrow> 's \<Rightarrow> bool"
  assumes tk_def: "tk = runtime_tokens can_dec inc_p dec_p inc_c dec_c"
    and "staking_reachable (tokens_staking tk c base) (lockable tk c) (staking_lock c) s"
  shows "(\<forall>x ctrl. Bonded s x = Some ctrl \<longrightarrow>
        ensure_ledger_consistent s ctrl = Inr () \<and>
        (\<exists>l. Ledger s ctrl = Some l \<and> ledger_stash l = x \<and> length (unlocking l) \<le> unat (MaxUnlockingChunks base) \<and>
           sorted_wrt (<) (claimed_rewards l) \<and>
           (ledger_total l \<noteq> 0 \<longrightarrow> staking_lock c (staking_currency s) x = ledger_total l))) \<and>
      (\<forall>ctrl l. Ledger s ctrl = Some l \<longrightarrow> Bonded s (ledger_stash l) = Some ctrl) \<and>
      dom (Validators s) \<inter> dom (Nominators s) = {} \<and> dom (Validators s) \<union> dom (Nominators s) \<subseteq> dom (Bonded s) \<and>
      set (vl_iter (VoterList (tokens_staking tk c base)) (voter_list s)) = dom (Validators s) \<union> dom (Nominators s) \<and>
      check_count (tokens_staking tk c base) s = Inr ()"
proof -
  note inv = staked_tokens.reachable_inv [OF assms(2) [unfolded tk_def], folded tk_def]
  note led = staked_tokens.inv_ledgers [OF inv [unfolded tk_def], folded tk_def]
  have "\<exists>l. Ledger s ctrl = Some l \<and> ledger_stash l = x \<and> length (unlocking l) \<le> unat (MaxUnlockingChunks base) \<and>
      sorted_wrt (<) (claimed_rewards l) \<and> (ledger_total l \<noteq> 0 \<longrightarrow> staking_lock c (staking_currency s) x = ledger_total l)"
    if "Bonded s x = Some ctrl" for x ctrl
    using ledgers_inv_bonded [OF led that] ledgers_invD(2,3) [OF led] by (fastforce simp: ledger_ok_def tokens_staking_def)
  moreover have "ensure_ledger_consistent s ctrl = Inr ()" if "Bonded s x = Some ctrl" for x ctrl
    by (rule staked_tokens.inv_ledger_consistent [OF inv [unfolded tk_def] that])
  moreover have "check_count (tokens_staking tk c base) s = Inr ()"
    using staked_tokens.inv_check_count [OF inv [unfolded tk_def]] by (simp add: tk_def)
  ultimately show ?thesis
    using ledgers_invD(1) [OF led] staked_tokens.inv_roles [OF inv [unfolded tk_def]] by (auto simp: roles_inv_def tk_def)
qed

theorem staking_reachable_inv_witness:
  "Bonded demo_staked 1 = Some 1 \<and> staking_lock (Token RUSD) (staking_currency demo_staked) 1 = 60 \<and>
   check_count demo_staking demo_staked = Inr ()"
proof -
  note inv = staking_reachable_inv [OF demo_config_def demo_staking_reachable [unfolded demo_staking_def], folded demo_staking_def]
  have b: "Bonded demo_staked 1 = Some 1" and l: "Ledger demo_staked 1 = Some \<lparr>ledger_stash = 1, ledger_total = 60,
      ledger_active = 60, unlocking = [], claimed_rewards = []\<rparr>"
    by (simp_all add: staking_eval tokens_eval)
  from inv [THEN conjunct1, rule_format, OF b] l
  have "staking_lock (Token RUSD) (staking_currency demo_staked) 1 = 60" by auto
  with b inv show ?thesis by blast
qed

section \<open>Slashing a ledger\<close>

text \<open>
  (C36) Slashing a ledger keeps it balanced and takes from its total exactly the amount it returns: at
  least what was asked for or all there is, and more than what was asked for only by less than the
  minimum balance, when it clears a part of the ledger of dust.
\<close>

theorem ledger_slash_exact:
  assumes "ledger_slash cfg a mb era l x = (r, l', y)" and "balanced_ledger l" and "fractions_cover (Fractions cfg)"
  shows "balanced_ledger l' \<and> unat (ledger_total l') + unat r = unat (ledger_total l) \<and>
    min (unat a) (unat (ledger_total l)) \<le> unat r \<and> (unat r \<le> unat a \<or> unat r < unat a + unat mb)"
  using ledger_slash_effect [OF assms] by (simp add: overshoot_ok_def)

definition demo_ledger :: "nat staking_ledger" where
  "demo_ledger = \<lparr>ledger_stash = 1, ledger_total = 100, ledger_active = 60,
     unlocking = [\<lparr>chunk_value = 30, chunk_era = 30\<rparr>, \<lparr>chunk_value = 10, chunk_era = 31\<rparr>], claimed_rewards = []\<rparr>"

theorem ledger_slash_exact_witness:
  "\<exists>r l'. ledger_slash demo_staking 50 8 2 demo_ledger () = (r, l', ()) \<and> 50 \<le> unat r \<and> unat r < 58 \<and>
     unat (ledger_total l') + unat r = 100"
proof -
  obtain r l' where r: "ledger_slash demo_staking 50 8 2 demo_ledger () = (r, l', ())" by (metis old.unit.exhaust prod.exhaust)
  have "balanced_ledger demo_ledger" by (simp add: balanced_ledger_def demo_ledger_def)
  moreover have "fractions_cover (Fractions demo_staking)"
    by (simp add: demo_staking_def tokens_staking_def parts_fractions_cover)
  ultimately show ?thesis
    using ledger_slash_exact [OF r] r by (auto simp: demo_ledger_def)
qed

section \<open>Rebonding\<close>

text \<open>
  The loop of \<open>rebond\<close> as it is written: a ledger, the balance rebonded so far, and whether
  the loop was left by its \<open>break\<close>.
\<close>

definition rebond_body :: "balance \<Rightarrow> 'acc staking_ledger \<times> balance \<times> bool \<Rightarrow> 'acc staking_ledger \<times> balance \<times> bool" where
  "rebond_body v st =
     (case st of (l, b, _) \<Rightarrow>
        let c = last (unlocking l);
            (l1, b1) =
              (if b + chunk_value c \<le> v
               then (l\<lparr>ledger_active := ledger_active l + chunk_value c, unlocking := butlast (unlocking l)\<rparr>, b + chunk_value c)
               else (l\<lparr>ledger_active := ledger_active l + (v - b),
                       unlocking := butlast (unlocking l) @ [c\<lparr>chunk_value := chunk_value c - (v - b)\<rparr>]\<rparr>, b + (v - b)))
        in (l1, b1, v \<le> b1))"

definition rebond_while :: "'acc staking_ledger \<Rightarrow> balance \<Rightarrow> ('acc staking_ledger \<times> balance \<times> bool) option" where
  "rebond_while l v =
     while_option (\<lambda>(l, _, broke). \<not> broke \<and> unlocking l \<noteq> []) (rebond_body v) (l, 0, False)"

lemma rebond_loop_body:
  "unlocking l \<noteq> [] \<Longrightarrow>
     rebond_loop v b l = (case rebond_body v (l, b, False) of (l1, b1, broke) \<Rightarrow> if broke then (l1, b1) else rebond_loop v b1 l1)"
  by (subst rebond_loop.simps) (simp add: rebond_body_def Let_def)

lemma rebond_body_shrinks:
  "unlocking l \<noteq> [] \<Longrightarrow> rebond_body v (l, b, False) = (l1, b1, False) \<Longrightarrow> length (unlocking l1) < length (unlocking l)"
  by (auto simp: rebond_body_def Let_def split: if_splits)

lemma rebond_while_loop:
  "\<exists>broke. while_option (\<lambda>(l, _, broke). \<not> broke \<and> unlocking l \<noteq> []) (rebond_body v) (l, b, False) =
     Some (fst (rebond_loop v b l), snd (rebond_loop v b l), broke)"
proof (induction "length (unlocking l)" arbitrary: l b rule: less_induct)
  case less
  let ?W = "while_option (\<lambda>(l :: 'a staking_ledger, _ :: balance, broke). \<not> broke \<and> unlocking l \<noteq> []) (rebond_body v)"
  show ?case
  proof (cases "unlocking l = []")
    case True
    then have "rebond_loop v b l = (l, b)" by (subst rebond_loop.simps) simp
    then show ?thesis using True by (intro exI [of _ False], subst while_option_unfold) simp
  next
    case False
    obtain l1 b1 d where body: "rebond_body v (l, b, False) = (l1, b1, d)" by (metis prod_cases3)
    have "?W (l, b, False) = ?W (l1, b1, d)" using False body by (subst while_option_unfold) simp
    moreover have "?W (l1, b1, True) = Some (l1, b1, True)" by (subst while_option_unfold) simp
    ultimately show ?thesis
      using rebond_loop_body [OF False, of v b] body less.hyps [of l1 b1] rebond_body_shrinks [OF False, of v b l1 b1]
      by (cases d) auto
  qed
qed

text \<open>
  (C37) The loop of \<open>rebond\<close> ends for every ledger and every amount, even where its additions would
  wrap around, with the ledger and the amount of the recursive definition; and on a ledger
  that adds up it moves exactly the amount asked for, or all that is unlocking, back to the active
  part, without changing the total.
\<close>

theorem rebond_terminates:
  "(\<exists>broke. rebond_while l v = Some (fst (ledger_rebond l v), snd (ledger_rebond l v), broke)) \<and>
   (balanced_ledger l \<longrightarrow> (case ledger_rebond l v of (l', r) \<Rightarrow>
      balanced_ledger l' \<and> ledger_total l' = ledger_total l \<and> unat r = min (unat v) (chunk_sum (unlocking l)) \<and>
      unat (ledger_active l') = unat (ledger_active l) + unat r))"
proof -
  obtain l' r where r: "ledger_rebond l v = (l', r)" by fastforce
  show ?thesis
    using rebond_while_loop [of v l 0] ledger_rebond_effect [OF r]
    by (auto simp: rebond_while_def ledger_rebond_def [symmetric] r)
qed

theorem rebond_terminates_witness:
  "\<exists>l' broke. rebond_while demo_ledger 15 = Some (l', 15, broke) \<and> ledger_total l' = 100 \<and> ledger_active l' = 75"
proof -
  have "balanced_ledger demo_ledger" by (simp add: balanced_ledger_def demo_ledger_def)
  moreover have "chunk_sum (unlocking demo_ledger) = 40" by (simp add: demo_ledger_def)
  moreover obtain l' r where r: "ledger_rebond demo_ledger 15 = (l', r)" by fastforce
  ultimately show ?thesis
    using rebond_terminates [of demo_ledger 15] by (auto simp: demo_ledger_def word_eq_unat)
qed

section \<open>Slashing spans\<close>

text \<open>
  (C38) The slashing spans of a stash partition the eras: an era from the earliest one on lies in
  exactly one span. Ending a span after an era leaves every era up to it in its span and
  puts all later ones in the next; and forgetting the spans before a window changes no
  era of the window.
\<close>

theorem spans_partition:
  assumes "spans_ok sp"
  shows "(\<forall>e. earliest_era sp \<le> unat e \<longrightarrow> (\<exists>!x. x \<in> set (spans_iter sp) \<and> contains_era x e)) \<and>
    (\<forall>now sp'. spans_end_span now sp = (True, sp') \<and> unat now + 1 < 2 ^ 32 \<and> unat (spans_index sp) + 1 < 2 ^ 32 \<longrightarrow>
       spans_ok sp' \<and> (\<forall>e \<le> now. era_span_index sp' e = era_span_index sp e) \<and>
       (\<forall>e > now. era_span_index sp' e = Some (spans_index sp + 1))) \<and>
    (\<forall>w pruned sp'. spans_prune w sp = (pruned, sp') \<longrightarrow> spans_ok sp' \<and> (\<forall>e \<ge> w. era_span_index sp' e = era_span_index sp e))"
proof -
  have "\<exists>!x. x \<in> set (spans_iter sp) \<and> contains_era x e" if "earliest_era sp \<le> unat e" for e
    using era_span_exists [OF assms that] era_span_Some_iff [OF assms, of e] by (metis option.inject)
  then show ?thesis using spans_end_span_effect [OF _ assms] spans_prune_effect [OF _ assms] by blast
qed

definition demo_spans :: slashing_spans where
  "demo_spans = \<lparr>spans_index = 2, last_start = 20, last_nonzero_slash = 12, prior = [5, 7]\<rparr>"

theorem spans_partition_witness:
  "(\<exists>!x. x \<in> set (spans_iter demo_spans) \<and> contains_era x 9) \<and>
   era_span_index (snd (spans_end_span 25 demo_spans)) 25 = Some 2 \<and>
   era_span_index (snd (spans_end_span 25 demo_spans)) 26 = Some 3 \<and>
   era_span_index (snd (spans_prune 16 demo_spans)) 17 = Some 1"
proof -
  have ok: "spans_ok demo_spans" by (simp add: spans_ok_def demo_spans_def)
  have e: "fst (spans_end_span 25 demo_spans)" "earliest_era demo_spans \<le> unat (9 :: era_index)" "spans_index demo_spans = 2"
    by (simp_all add: spans_end_span_def demo_spans_def earliest_era_def Let_def)
  have idx: "era_span_index demo_spans 25 = Some 2" "era_span_index demo_spans 17 = Some 1"
    by (simp_all add: era_span_index_def era_span_def spans_iter_def contains_era_def demo_spans_def)
  obtain sp1 where sp1: "spans_end_span 25 demo_spans = (True, sp1)" using e(1) by (metis prod.collapse)
  obtain q sp2 where sp2: "spans_prune 16 demo_spans = (q, sp2)" by fastforce
  note part = spans_partition [OF ok]
  have "era_span_index sp1 25 = Some 2" "era_span_index sp1 26 = Some 3"
    using part [THEN conjunct2, THEN conjunct1, rule_format, of 25 sp1] sp1 e(3) idx(1) by simp_all
  then show ?thesis using part sp1 sp2 e idx by auto
qed

section \<open>Payouts\<close>

lemma payout_keeps_claims:
  assumes "fold (pay_staker cfg) ps (a, s) = (b, t)"
  shows "CurrentEra t = CurrentEra s \<and> Bonded t = Bonded s \<and> ErasValidatorReward t = ErasValidatorReward s \<and>
    map_option claimed_rewards \<circ> Ledger t = map_option claimed_rewards \<circ> Ledger s"
  using assms
proof (induction ps arbitrary: a s)
  case (Cons p ps)
  obtain x v where p: "p = (x, v)" by fastforce
  obtain i s1 where i: "make_payout cfg x v s = (i, s1)" by fastforce
  have "CurrentEra s1 = CurrentEra s \<and> Bonded s1 = Bonded s \<and> ErasValidatorReward s1 = ErasValidatorReward s \<and>
      map_option claimed_rewards \<circ> Ledger s1 = map_option claimed_rewards \<circ> Ledger s"
    using i by (cases rule: make_payout_cases) (auto simp: update_ledger_def with_currency_def fun_eq_iff)
  with Cons.IH [of _ s1] Cons.IH [of _ "st_deposit_event _ s1"] Cons.prems show ?case
    by (auto simp: p pay_staker_def i st_deposit_event_def split: option.splits)
qed simp

text \<open>
  (C39) The reward of a validator for an era is paid once: after a payout, a second one for the same
  stash and era fails as already claimed.
\<close>

theorem payout_once:
  assumes "do_payout_stakers cfg x e s = (Inr u, t)" and "Bonded s x = Some ctrl" and "Ledger s ctrl = Some l"
    and "sorted_wrt (<) (claimed_rewards l)"
  shows "do_payout_stakers cfg x e t = (Inl (staking_fail AlreadyClaimed), t)"
proof -
  from assms(1-3) obtain now rw l1 where st: "CurrentEra s = Some now" "ErasValidatorReward s e = Some rw"
      "e \<le> now" "saturating_sub now (HistoryDepth cfg) \<le> e" "claim_era cfg now e l = Inr l1"
    by (auto simp: do_payout_stakers_def op_simps get_ledger_def)
  let ?c = "filter (\<lambda>y. saturating_sub now (HistoryDepth cfg) \<le> y) (claimed_rewards l)"
  obtain i where i: "binary_search ?c e = Inl i" "l1 = l\<lparr>claimed_rewards := take i ?c @ e # drop i ?c\<rparr>"
    using st(5) by (auto simp: claim_era_def Let_def split: sum.splits if_splits)
  have srt: "sorted_wrt (<) ?c" using assms(4) by (rule sorted_wrt_filter)
  have l1: "sorted_wrt (<) (claimed_rewards l1)" "e \<in> set (claimed_rewards l1)"
    using binary_search_insert(1) [OF srt i(1)] by (simp_all add: i(2))
  have t: "CurrentEra t = Some now \<and> Bonded t x = Some ctrl \<and> ErasValidatorReward t e = Some rw \<and>
      map_option claimed_rewards (Ledger t ctrl) = Some (claimed_rewards l1)"
    using assms(1-3) st by (auto simp: do_payout_stakers_def op_simps get_ledger_def with_currency_def st_deposit_event_def Let_def fun_eq_iff
        dest!: payout_keeps_claims split: if_splits prod.splits)
  then obtain l2 where l2: "Ledger t ctrl = Some l2" "claimed_rewards l2 = claimed_rewards l1" by auto
  let ?c2 = "filter (\<lambda>y. saturating_sub now (HistoryDepth cfg) \<le> y) (claimed_rewards l2)"
  have "sorted (map (\<lambda>y. y) ?c2)" using l1(1) by (simp add: l2(2) strict_sorted_imp_sorted sorted_wrt_filter)
  then obtain j where "binary_search ?c2 e = Inr j"
    using binary_search_found_iff [of "\<lambda>y. y" ?c2 e] l1(2) st(4) by (auto simp: l2(2))
  then have "claim_era cfg now e l2 = Inl (staking_fail AlreadyClaimed)" by (simp add: claim_era_def Let_def)
  then show ?thesis using t st(3,4) l2 by (simp add: do_payout_stakers_def op_defs get_ledger_def)
qed

definition demo_paid where
  "demo_paid = demo_staked\<lparr>CurrentEra := Some 1, ErasValidatorReward := [0 \<mapsto> 50],
     ErasRewardPoints := [0 \<mapsto> \<lparr>points_total = 20, individual = [1 \<mapsto> 20]\<rparr>],
     ErasStakersClipped := [(0, 1) \<mapsto> \<lparr>exp_total = 100, exp_own = 60, exp_others = [\<lparr>ie_who = 2, ie_value = 40\<rparr>]\<rparr>]\<rparr>"

theorem payout_once_witness:
  "\<exists>t. do_payout_stakers demo_staking 1 0 demo_paid = (Inr (), t) \<and>
     do_payout_stakers demo_staking 1 0 t = (Inl (staking_fail AlreadyClaimed), t)"
proof -
  have b: "Bonded demo_paid 1 = Some 1" and l: "Ledger demo_paid 1 = Some \<lparr>ledger_stash = 1, ledger_total = 60,
      ledger_active = 60, unlocking = [], claimed_rewards = []\<rparr>"
    by (simp_all add: demo_paid_def staking_eval tokens_eval)
  have d: "HistoryDepth demo_staking = 84" "CurrentEra demo_paid = Some 1" "ErasValidatorReward demo_paid 0 = Some 50"
    by (simp_all add: demo_paid_def staking_eval)
  have d': "saturating_sub 1 (84 :: era_index) = 0" by (simp add: saturating_sub_def word_le_nat_alt)
  have "binary_search [] (0 :: era_index) = Inl 0" by (simp add: binary_search_by_key_def bsearch_loop.simps)
  then obtain l1 where "claim_era demo_staking 1 0 \<lparr>ledger_stash = 1, ledger_total = 60, ledger_active = 60, unlocking = [], claimed_rewards = []\<rparr>
      = Inr l1" by (simp add: claim_era_def d d')
  then have "fst (do_payout_stakers demo_staking 1 0 demo_paid) = Inr ()"
    using b l d by (simp add: do_payout_stakers_def op_defs get_ledger_def d' Let_def split: prod.splits)
  then obtain t where t: "do_payout_stakers demo_staking 1 0 demo_paid = (Inr (), t)" by (metis prod.collapse)
  show ?thesis using t payout_once [OF t b l] by simp
qed

section \<open>Slashes and withdrawals\<close>

text \<open>
  (C7) Funds that are unbonded stay slashable: when the deferral of slashes is at least two eras
  shorter than the bonding duration, then, whatever happens after the unbonding, a withdrawal that
  takes out the chunk made by the unbonding (or one that unlocks later) happens only after every era up to
  the one of the unbonding has seen the era start at which its deferred slashes are applied. Conversely,
  a withdrawal before that leaves the chunk in the ledger.
\<close>

theorem slashed_before_withdrawal:
  assumes "era_inv i s" and "HistoryDepth cfg + 1 \<noteq> 0" and "current_era s + unat (BondingDuration cfg) < 2 ^ 32"
    and "unat (SlashDeferDuration cfg) + 2 \<le> unat (BondingDuration cfg)"
    and "st_unbond cfg (Signed ctrl) v s = (Inr u, s1)" and "v \<noteq> 0" and "Ledger s ctrl = Some l0" and "ledger_active l0 \<noteq> 0"
    and "length (unlocking l0) < unat (MaxUnlockingChunks cfg)"
    and "session_run cfg i s1 j t" and "Ledger s1 ctrl = Some l"
    and "st_withdraw_unbonded cfg (Signed ctrl) n t = (Inr w, t')" and "Ledger t ctrl = Some lt"
    and "k \<in> set (unlocking lt)" and "chunk_era (last (unlocking l)) \<le> chunk_era k" and "e \<le> active_era s"
  shows "e + unat (SlashDeferDuration cfg) + 1 \<le> active_era t \<or> (\<exists>l'. Ledger t' ctrl = Some l' \<and> k \<in> set (unlocking l'))"
proof (cases "current_era t < unat (chunk_era k)")
  case True
  then show ?thesis using withdraw_keeps_chunk [OF assms(12-14)] by blast
next
  case False
  have "dispatch_staking cfg (Signed ctrl) (Call_unbond v) s = (Inr u, s1)" using assms(5) by simp
  then have s1: "era_inv i s1" using era_inv_clock [OF clock_dispatch] assms(1) by blast
  have t: "era_inv j t" using session_run_era_inv [OF assms(10) s1 assms(2)] by blast
  have "chunk_era (last (unlocking l)) = unwrap_or (CurrentEra s) 0 + BondingDuration cfg"
    using unbond_last_chunk [OF assms(5,7,6,8,9)] assms(11) by (metis option.inject)
  then have "unat (chunk_era (last (unlocking l))) = current_era s + unat (BondingDuration cfg)"
    using assms(3) by (simp add: current_era_def unat_plus_less)
  then have "current_era s + unat (BondingDuration cfg) \<le> current_era t"
    using False assms(15) by (simp add: word_le_nat_alt)
  then show ?thesis using assms(4,16) era_inv_planned [OF t] era_inv_planned [OF assms(1)] by auto
qed

definition demo_unbonding where
  "demo_unbonding = demo_staked\<lparr>CurrentEra := Some 1, ActiveEra := Some \<lparr>era_idx = 1, era_start = None\<rparr>\<rparr>"

lemma demo_unbonding_era_inv: "era_inv 3 demo_unbonding"
  by (simp add: era_inv_def clock_def demo_unbonding_def staking_eval tokens_eval)

lemma demo_unbonding_state:
  "CurrentEra demo_unbonding = Some 1" "current_era demo_unbonding = 1" "active_era demo_unbonding = 1"
  "Ledger demo_unbonding 1 = Some \<lparr>ledger_stash = 1, ledger_total = 60, ledger_active = 60, unlocking = [], claimed_rewards = []\<rparr>"
  by (simp_all add: demo_unbonding_def current_era_def active_era_def staking_eval tokens_eval)

definition demo_leaving where
  "demo_leaving = demo_unbonding\<lparr>ForceEra := ForceAlways\<rparr>"

text \<open>Account 1 unbonds in era 1 and withdraws 28 rotations later, in era 28, with era 29 planned.\<close>

theorem slashed_before_withdrawal_witness:
  "\<exists>s1 t t'. st_unbond (demo_staking\<lparr>SlashDeferDuration := 26\<rparr>) (Signed 1) 20 demo_leaving = (Inr (), s1) \<and>
     t = rotate_all (demo_staking\<lparr>SlashDeferDuration := 26\<rparr>) 3 (replicate 28 (0, Some [(1, [])])) s1 \<and>
     st_withdraw_unbonded (demo_staking\<lparr>SlashDeferDuration := 26\<rparr>) (Signed 1) 0 t = (Inr (), t') \<and>
     map_option unlocking (Ledger t' 1) = Some [] \<and> 28 \<le> active_era t"
proof -
  let ?cfg = "demo_staking\<lparr>SlashDeferDuration := 26\<rparr>"
  have cfg: "BondingDuration ?cfg = 28" "HistoryDepth ?cfg = 84" "MaxUnlockingChunks ?cfg = 32"
    "\<not> 40 < sc_minimum_balance (Currency demo_staking)" by (simp_all add: staking_eval tokens_eval)
  have inv: "era_inv 3 demo_leaving" using demo_unbonding_era_inv by (simp add: demo_leaving_def era_inv_def clock_def)
  have st: "CurrentEra demo_leaving = Some 1" "current_era demo_leaving = 1" "active_era demo_leaving = 1"
    "Ledger demo_leaving 1 = Some \<lparr>ledger_stash = 1, ledger_total = 60, ledger_active = 60, unlocking = [], claimed_rewards = []\<rparr>"
    using demo_unbonding_state by (simp_all add: demo_leaving_def current_era_def active_era_def)
  have res: "fst (st_unbond ?cfg (Signed 1) 20 demo_leaving) = Inr ()"
    by (simp add: demo_leaving_def demo_unbonding_def staking_eval tokens_eval)
  then obtain s1 where s1: "st_unbond ?cfg (Signed 1) 20 demo_leaving = (Inr (), s1)" by (metis prod.collapse)
  then have s1': "s1 = snd (st_unbond ?cfg (Signed 1) 20 demo_leaving)" by simp
  let ?l = "\<lparr>ledger_stash = 1, ledger_total = 60, ledger_active = 40, unlocking = [\<lparr>chunk_value = 20, chunk_era = 29\<rparr>], claimed_rewards = []\<rparr>"
  have f1: "Ledger s1 1 = Some ?l" "ForceEra s1 = ForceAlways" "CurrentEra s1 = Some 1" "MinimumValidatorCount s1 = 1"
    "map_option era_idx (ActiveEra s1) = Some 1" "UnappliedSlashes s1 = Map.empty"
    unfolding s1' by (simp_all add: demo_leaving_def demo_unbonding_def staking_eval tokens_eval)
  have "dispatch_staking ?cfg (Signed 1) (Call_unbond 20) demo_leaving = (Inr (), s1)" using s1 by simp
  then have inv1: "era_inv 3 s1" using era_inv_clock [OF clock_dispatch] inv by blast
  define t where "t = rotate_all ?cfg 3 (replicate 28 (0, Some [(1, [])])) s1"
  have t: "CurrentEra t = Some 29" "Ledger t 1 = Some ?l"
    using rotate_all_always [OF inv1 f1(3) _ f1(2), where n = 28 and sups = "[(1, [])]" and cfg = ?cfg and now = 0] f1 cfg
    by (simp_all add: t_def election_ok_def quiet_def)
  obtain j where run: "session_run ?cfg 3 s1 j t"
    using rotate_all_run [OF session_run.here inv1, of ?cfg "replicate 28 (0, Some [(1, [])])"]
    by (auto simp: t_def cfg current_era_def f1)
  obtain t' where w: "st_withdraw_unbonded ?cfg (Signed 1) 0 t = (Inr (), t')" and gone: "map_option unlocking (Ledger t' 1) = Some []"
    by (simp add: t cfg(4) st_withdraw_unbonded_def do_withdraw_unbonded_def op_defs get_ledger_def consolidate_unlocked_def Let_def
        update_ledger_def with_currency_def st_deposit_event_def del: One_nat_def)
  have "28 \<le> active_era t"
    using slashed_before_withdrawal [OF inv _ _ _ s1 _ st(4) _ _ run f1(1) w t(2), of "\<lparr>chunk_value = 20, chunk_era = 29\<rparr>" 1] gone
    by (auto simp: cfg st)
  with s1 w gone show ?thesis unfolding t_def by blast
qed

text \<open>
  (C34) With a deferral only one era shorter than the bonding duration, which is what the runtime
  configures (27 and 28), this fails: the era is planned a session before it starts, so the chunks
  unbonded in era \<open>c\<close> can be withdrawn while the slash for an offence of era \<open>c\<close> is still queued.
\<close>

theorem withdrawal_escapes_slash:
  assumes "era_inv i s" and "CurrentEra s = Some c" and "map_option era_idx (ActiveEra s) = Some c"
    and "ForceEra s = ForceAlways" and "election_ok sups s" and "HistoryDepth cfg + 1 \<noteq> 0"
    and "unat c + unat (BondingDuration cfg) < 2 ^ 32" and "BondingDuration cfg = SlashDeferDuration cfg + 1"
    and "UnappliedSlashes s = [c + SlashDeferDuration cfg + 1 \<mapsto> q]"
    and "Ledger s ctrl = Some l" and "\<forall>k \<in> set (unlocking l). chunk_era k \<le> c + BondingDuration cfg"
    and "sc_minimum_balance (Currency cfg) \<le> ledger_active l"
    and t_def: "t = rotate_all cfg i (replicate (unat (BondingDuration cfg)) (now, Some sups)) s"
  shows "\<exists>r. st_withdraw_unbonded cfg (Signed ctrl) n t = (Inr (), r) \<and>
      map_option unlocking (Ledger r ctrl) = Some [] \<and>
      UnappliedSlashes r (c + SlashDeferDuration cfg + 1) = Some q"
proof -
  let ?n = "unat (BondingDuration cfg)"
  have slot: "c + SlashDeferDuration cfg + 1 = c + of_nat ?n" using assms(8) by (simp add: add.assoc)
  have "UnappliedSlashes s (c + of_nat k) = None" if "k < ?n" for k
  proof -
    have "(of_nat k :: era_index) \<noteq> of_nat ?n"
      using that unat_u32 [of "BondingDuration cfg"] by (simp add: word_eq_unat unat_of_nat)
    then show ?thesis using assms(9) slot by simp
  qed
  with rotate_all_always [OF assms(1,2,7,4,5) disjI1 [OF assms(3)] assms(6), of now]
  have t: "CurrentEra t = Some (c + BondingDuration cfg)" "UnappliedSlashes t = UnappliedSlashes s" "Ledger t ctrl = Some l"
    using assms(10) by (auto simp: t_def quiet_def)
  define l1 where "l1 = consolidate_unlocked l (c + BondingDuration cfg)"
  have l1: "unlocking l1 = []" "ledger_active l1 = ledger_active l" "ledger_stash l1 = ledger_stash l"
    using assms(11) by (auto simp: l1_def consolidate_unlocked_def filter_empty_conv not_less)
  then have "\<not> (unlocking l1 = [] \<and> ledger_active l1 < sc_minimum_balance (Currency cfg))" using assms(12) by simp
  then show ?thesis
    using t l1 assms(9) by (auto simp: st_withdraw_unbonded_def do_withdraw_unbonded_def op_defs get_ledger_def l1_def [symmetric] Let_def
        update_ledger_def with_currency_def st_deposit_event_def)
qed

definition demo_fleeing where
  "demo_fleeing = demo_unbonding\<lparr>ForceEra := ForceAlways,
     UnappliedSlashes := [29 \<mapsto> [\<lparr>us_validator = 1, us_own = 30, us_others = [], us_reporters = [], us_payout = 0\<rparr>]],
     Ledger := [1 \<mapsto> \<lparr>ledger_stash = 1, ledger_total = 60, ledger_active = 10, unlocking = [\<lparr>chunk_value = 50, chunk_era = 29\<rparr>],
       claimed_rewards = []\<rparr>]\<rparr>"

theorem withdrawal_escapes_slash_witness:
  "\<exists>r. st_withdraw_unbonded demo_staking (Signed 1) 0 (rotate_all demo_staking 3 (replicate 28 (0, Some [(1, [])])) demo_fleeing) = (Inr (), r) \<and>
     map_option unlocking (Ledger r 1) = Some [] \<and> UnappliedSlashes r 29 \<noteq> None"
proof -
  have cfg: "BondingDuration demo_staking = 28" "SlashDeferDuration demo_staking = 27" "HistoryDepth demo_staking = 84"
    "sc_minimum_balance (Currency demo_staking) \<le> 10"
    by (simp_all add: staking_eval tokens_eval)
  have inv: "era_inv 3 demo_fleeing"
    using demo_unbonding_era_inv by (simp add: demo_fleeing_def era_inv_def clock_def)
  have el: "election_ok [(1, [])] demo_fleeing"
    by (simp add: demo_fleeing_def demo_unbonding_def election_ok_def staking_eval tokens_eval)
  have st: "CurrentEra demo_fleeing = Some 1" "map_option era_idx (ActiveEra demo_fleeing) = Some 1" "ForceEra demo_fleeing = ForceAlways"
    by (simp_all add: demo_fleeing_def demo_unbonding_def)
  obtain q l where ql: "UnappliedSlashes demo_fleeing = [29 \<mapsto> q]" "Ledger demo_fleeing 1 = Some l"
    "unlocking l = [\<lparr>chunk_value = 50, chunk_era = 29\<rparr>]" "ledger_active l = 10"
    by (simp add: demo_fleeing_def)
  from withdrawal_escapes_slash [OF inv st el _ _ _ _ ql(2) _ _ refl, where cfg = demo_staking and q = q and n = 0 and now = 0]
  show ?thesis by (auto simp: cfg ql)
qed

text \<open>
  (C35) An offence that is reported so late that the era at which its slash is to be applied has
  already started is queued under that era, where nothing applies it any more, however many sessions follow.
\<close>

theorem late_slash_never_applied:
  assumes "era_inv i s" and "HistoryDepth cfg + 1 \<noteq> 0" and "current_era s + length es < 2 ^ 32"
    and "ActiveEra s = Some info" and "offence_era s (era_idx info) k = Some e"
    and "unat e + unat (SlashDeferDuration cfg) + 1 \<le> active_era s"
    and slot_def: "slot = saturating_add (saturating_add e (SlashDeferDuration cfg)) 1"
  shows "UnappliedSlashes (rotate_all cfg i es (on_offence cfg offs fs k d s)) slot =
    UnappliedSlashes (on_offence cfg offs fs k d s) slot"
proof -
  let ?t = "on_offence cfg offs fs k d s"
  have c: "clock ?t = clock s" by (rule clock_on_offence)
  have "era_inv i ?t" using assms(1) era_inv_clock [OF c] by blast
  moreover have "current_era ?t + length es < 2 ^ 32" using assms(3) clock_eras [OF c] by simp
  moreover have "unat slot \<le> active_era ?t"
  proof -
    have "unat slot \<le> unat e + unat (SlashDeferDuration cfg) + 1"
      unfolding slot_def by (simp add: unat_saturating_add)
    then show ?thesis using assms(6) clock_eras [OF c] by simp
  qed
  ultimately show ?thesis using rotate_all_queue [OF _ assms(2)] by metis
qed

definition demo_late where
  "demo_late = demo_staked\<lparr>CurrentEra := Some 30, ActiveEra := Some \<lparr>era_idx = 30, era_start = None\<rparr>,
     ErasStartSessionIndex := [30 \<mapsto> 100], BondedEras := [(2, 10), (30, 100)]\<rparr>"

definition demo_offence :: "nat offence_details" where
  "demo_offence = \<lparr>offender = (1, \<lparr>exp_total = 60, exp_own = 60, exp_others = []\<rparr>), reporters = []\<rparr>"

theorem late_slash_never_applied_witness:
  "\<exists>q. q \<noteq> [] \<and> UnappliedSlashes (on_offence demo_staking [demo_offence] [500000000] 12 DS_Never demo_late) 30 = Some q \<and>
     UnappliedSlashes (rotate_all demo_staking 104 (replicate 1000 (0, None))
       (on_offence demo_staking [demo_offence] [500000000] 12 DS_Never demo_late)) 30 = Some q"
proof -
  have cfg: "SlashDeferDuration demo_staking = 27" "HistoryDepth demo_staking = 84" "Fractions demo_staking = parts_fractions"
    by (simp_all add: staking_eval)
  have st: "era_inv 104 demo_late" "current_era demo_late = 30" "active_era demo_late = 30"
    "ActiveEra demo_late = Some \<lparr>era_idx = 30, era_start = None\<rparr>" "offence_era demo_late 30 12 = Some 2"
    by (simp_all add: demo_late_def era_inv_def clock_def current_era_def active_era_def offence_era_def)
  have inv: "Invulnerables demo_late = []" "ValidatorSlashInEra demo_late (2, 1) = None"
    by (simp_all add: demo_late_def staking_eval tokens_eval)
  have slot: "saturating_add (saturating_add 2 (SlashDeferDuration demo_staking)) (1 :: era_index) = 30"
    by (simp add: cfg saturating_add_def)
  let ?s = "on_offence demo_staking [demo_offence] [500000000] 12 DS_Never demo_late"
  have "\<exists>q. q \<noteq> [] \<and> UnappliedSlashes ?s 30 = Some q"
    using st(4,5) inv slot by (auto simp: on_offence_def handle_offender_def demo_offence_def compute_slash_def times_perbill_def cfg
        parts_fractions_def div_near_def Let_def word_eq_unat split: prod.splits list.splits option.splits)
  moreover have "UnappliedSlashes (rotate_all demo_staking 104 (replicate 1000 (0, None)) ?s) 30 = UnappliedSlashes ?s 30"
    by (rule late_slash_never_applied [OF st(1) _ _ st(4), where e = 2]) (simp_all add: cfg st saturating_add_def)
  ultimately show ?thesis by auto
qed

end
