(* ===== verification/Transaction_Payment.thy ===== *)
theory Transaction_Payment
  imports Tokens_Currency
begin

text \<open>
  The transaction payment pallet (\<^verbatim>\<open>modules/transaction_payment/src/lib.rs\<close>): the fee of a
  transaction, the multiplier that follows the congestion of the chain, charging a transaction
  before its dispatch and refunding it afterwards, and the interface through which the EVM
  charges weight. The currency, the fixed-point numbers and the weights of the framework are
  arguments.
\<close>

section \<open>Data\<close>

text \<open>A multiplier is a \<open>FixedU128\<close>: the word is the number of its \<open>10\<^sup>-\<^sup>1\<^sup>8\<close> parts.\<close>

type_synonym multiplier = u128

record weight =
  ref_time :: u64
  proof_size :: u64

datatype pays = PaysYes | PaysNo

datatype dispatch_class = NormalClass | OperationalClass | MandatoryClass

record dispatch_info =
  di_weight :: weight
  di_class :: dispatch_class
  di_pays_fee :: pays

record post_dispatch_info =
  actual_weight :: "weight option"
  post_pays_fee :: pays

record inclusion_fee =
  base_fee :: balance
  len_fee :: balance
  adjusted_weight_fee :: balance

record fee_details =
  inclusion_part :: "inclusion_fee option"
  fee_tip :: balance

datatype withdraw_reason = TransactionPaymentReason | TipReason

datatype validity_error = InvalidPayment

text \<open>
  What the pallet uses of the framework: fixed-point arithmetic, the minimum of two weights, the
  weight and the payment of a finished dispatch, and the sum of the parts of a fee.
\<close>

record fee_frame =
  fx_from_rational :: "u128 \<Rightarrow> u64 \<Rightarrow> multiplier"
  fx_from_integer :: "u128 \<Rightarrow> multiplier"
  fx_mul :: "multiplier \<Rightarrow> multiplier \<Rightarrow> multiplier"
  fx_div :: "multiplier \<Rightarrow> multiplier \<Rightarrow> multiplier"
  fx_mul_int :: "multiplier \<Rightarrow> balance \<Rightarrow> balance"
  perquintill_times :: "u64 \<Rightarrow> u64 \<Rightarrow> u64"
  weight_min :: "weight \<Rightarrow> weight \<Rightarrow> weight"
  calc_actual_weight :: "post_dispatch_info \<Rightarrow> dispatch_info \<Rightarrow> weight"
  calc_pays_fee :: "post_dispatch_info \<Rightarrow> dispatch_info \<Rightarrow> pays"
  final_fee :: "fee_details \<Rightarrow> balance"

record ('acc, 's, 'n, 'p) fee_currency =
  fc_free_balance :: "'s \<Rightarrow> 'acc \<Rightarrow> balance"
  fc_ensure_can_withdraw :: "'s \<Rightarrow> 'acc \<Rightarrow> balance \<Rightarrow> withdraw_reason set \<Rightarrow> balance \<Rightarrow> unit result"
  fc_withdraw :: "'acc \<Rightarrow> balance \<Rightarrow> withdraw_reason set \<Rightarrow> existence_requirement \<Rightarrow> ('s, dispatch_error, 'n) storage_op"
  fc_deposit_into_existing :: "'acc \<Rightarrow> balance \<Rightarrow> ('s, dispatch_error, 'p) storage_op"
  fc_reserve :: "'acc \<Rightarrow> balance \<Rightarrow> ('s, dispatch_error, unit) storage_op"
  fc_unreserve :: "'acc \<Rightarrow> balance \<Rightarrow> 's \<Rightarrow> balance \<times> 's"
  fc_offset :: "'n \<Rightarrow> 'p \<Rightarrow> ('n, 'p) same_or_other"
  fc_split :: "'n \<Rightarrow> balance \<Rightarrow> 'n \<times> 'n"
  fc_zero :: 'n
  fc_drop_negative :: "'n \<Rightarrow> 's \<Rightarrow> 's"
  fc_drop_positive :: "'p \<Rightarrow> 's \<Rightarrow> 's"

record ('acc, 's, 'n, 'p) payment_config =
  AllNonNativeCurrencyIds :: "currency_id list"
  NativeCurrencyId :: currency_id
  PaymentCurrency :: "('acc, 's, 'n, 'p) fee_currency"
  OnTransactionPayment :: "'n list \<Rightarrow> 's \<Rightarrow> 's"
  TransactionByteFee :: balance
  WeightToFee :: "weight \<Rightarrow> balance"
  LengthToFee :: "weight \<Rightarrow> balance"
  MinimumMultiplier :: multiplier
  TargetBlockFullness :: u64
  AdjustmentVariable :: multiplier
  base_extrinsic :: "dispatch_class \<Rightarrow> weight"
  max_total :: "dispatch_class \<Rightarrow> weight option"
  max_block :: weight
  max_block_length :: u32
  Frame :: fee_frame

datatype 'acc payment_event = TransactionFeePaid 'acc balance balance

record ('acc, 's) payment_state =
  NextFeeMultiplier :: multiplier
  DefaultFeeCurrencyId :: "'acc \<rightharpoonup> currency_id"
  block_weight :: "dispatch_class \<Rightarrow> weight"
  payment_balances :: 's
  payment_events :: "'acc payment_event list"

type_synonym ('acc, 's, 'e, 'a) payment_op = "(('acc, 's) payment_state, 'e, 'a) storage_op"

definition on_balances :: "('s, 'e, 'a) storage_op \<Rightarrow> ('acc, 's, 'e, 'a) payment_op" where
  "on_balances f s = (case f (payment_balances s) of (r, b) \<Rightarrow> (r, s\<lparr>payment_balances := b\<rparr>))"

section \<open>The multiplier\<close>

text \<open>\<open>TargetedFeeAdjustment::convert\<close>.\<close>

definition convert_multiplier ::
  "('acc, 's, 'n, 'p) payment_config \<Rightarrow> (dispatch_class \<Rightarrow> weight) \<Rightarrow> multiplier \<Rightarrow> multiplier" where
  "convert_multiplier cfg current_block_weight previous =
     (let min_multiplier = MinimumMultiplier cfg;
          previous = max previous min_multiplier;
          normal_max_weight = unwrap_or (max_total cfg NormalClass) (max_block cfg);
          normal_block_weight = weight_min (Frame cfg) (current_block_weight NormalClass) normal_max_weight;
          normal_max_weight = ref_time normal_max_weight;
          normal_block_weight = ref_time normal_block_weight;
          s = TargetBlockFullness cfg;
          v = AdjustmentVariable cfg;
          target_weight = ucast (perquintill_times (Frame cfg) s normal_max_weight) :: u128;
          block_weight = ucast normal_block_weight :: u128;
          positive = (target_weight \<le> block_weight);
          diff_abs = max block_weight target_weight - min block_weight target_weight;
          diff = fx_from_rational (Frame cfg) diff_abs (max normal_max_weight 1);
          diff_squared = fx_mul (Frame cfg) diff diff;
          v_squared_2 = fx_div (Frame cfg) (fx_mul (Frame cfg) v v) (fx_from_integer (Frame cfg) 2);
          first_term = fx_mul (Frame cfg) v diff;
          second_term = fx_mul (Frame cfg) v_squared_2 diff_squared
      in if positive then
           let excess = fx_mul (Frame cfg) (saturating_add first_term second_term) previous
           in max (saturating_add previous excess) min_multiplier
         else
           let negative = fx_mul (Frame cfg) (saturating_sub first_term second_term) previous
           in max (saturating_sub previous negative) min_multiplier)"

definition payment_on_finalize ::
  "('acc, 's, 'n, 'p) payment_config \<Rightarrow> ('acc, 's) payment_state \<Rightarrow> ('acc, 's) payment_state" where
  "payment_on_finalize cfg s = s\<lparr>NextFeeMultiplier := convert_multiplier cfg (block_weight s) (NextFeeMultiplier s)\<rparr>"

section \<open>Calls\<close>

definition set_default_fee_token ::
  "'acc origin \<Rightarrow> currency_id option \<Rightarrow> ('acc, 's, dispatch_error, unit) payment_op" where
  "set_default_fee_token orig fee_token =
     bind_op (pure (ensure_signed orig)) (\<lambda>who.
     modify_op (\<lambda>s. s\<lparr>DefaultFeeCurrencyId := (DefaultFeeCurrencyId s)(who := fee_token)\<rparr>))"

section \<open>Fees\<close>

definition weight_to_fee :: "('acc, 's, 'n, 'p) payment_config \<Rightarrow> weight \<Rightarrow> balance" where
  "weight_to_fee cfg w = WeightToFee cfg (weight_min (Frame cfg) w (max_block cfg))"

definition length_to_fee :: "('acc, 's, 'n, 'p) payment_config \<Rightarrow> u32 \<Rightarrow> balance" where
  "length_to_fee cfg len = LengthToFee cfg \<lparr>ref_time = ucast len, proof_size = 0\<rparr>"

definition compute_fee_raw ::
  "('acc, 's, 'n, 'p) payment_config \<Rightarrow> ('acc, 's) payment_state \<Rightarrow> u32 \<Rightarrow> weight \<Rightarrow> balance \<Rightarrow> pays \<Rightarrow> dispatch_class \<Rightarrow> fee_details" where
  "compute_fee_raw cfg s len w tip pays_fee class =
     (if pays_fee = PaysYes then
        let fixed_len_fee = saturating_mul (TransactionByteFee cfg) (ucast len);
            unadjusted_weight_fee = weight_to_fee cfg w;
            adjusted = fx_mul_int (Frame cfg) (NextFeeMultiplier s) unadjusted_weight_fee;
            base = weight_to_fee cfg (base_extrinsic cfg class)
        in \<lparr>inclusion_part = Some \<lparr>base_fee = base, len_fee = fixed_len_fee, adjusted_weight_fee = adjusted\<rparr>, fee_tip = tip\<rparr>
      else \<lparr>inclusion_part = None, fee_tip = tip\<rparr>)"

definition compute_fee_details where
  "compute_fee_details cfg s len info tip =
     compute_fee_raw cfg s len (di_weight info) tip (di_pays_fee info) (di_class info)"

definition compute_fee ::
  "('acc, 's, 'n, 'p) payment_config \<Rightarrow> ('acc, 's) payment_state \<Rightarrow> u32 \<Rightarrow> dispatch_info \<Rightarrow> balance \<Rightarrow> balance" where
  "compute_fee cfg s len info tip = final_fee (Frame cfg) (compute_fee_details cfg s len info tip)"

definition compute_actual_fee_details where
  "compute_actual_fee_details cfg s len info post_info tip =
     compute_fee_raw cfg s len (calc_actual_weight (Frame cfg) post_info info) tip
       (calc_pays_fee (Frame cfg) post_info info) (di_class info)"

definition compute_actual_fee ::
  "('acc, 's, 'n, 'p) payment_config \<Rightarrow> ('acc, 's) payment_state \<Rightarrow> u32 \<Rightarrow> dispatch_info \<Rightarrow> post_dispatch_info \<Rightarrow> balance \<Rightarrow> balance" where
  "compute_actual_fee cfg s len info post_info tip =
     final_fee (Frame cfg) (compute_actual_fee_details cfg s len info post_info tip)"

text \<open>The queries: a call is known by its dispatch information and its encoded size.\<close>

definition query_info ::
  "('acc, 's, 'n, 'p) payment_config \<Rightarrow> ('acc, 's) payment_state \<Rightarrow> dispatch_info \<Rightarrow> u32 \<Rightarrow> weight \<times> dispatch_class \<times> balance" where
  "query_info cfg s info len = (di_weight info, di_class info, compute_fee cfg s len info 0)"

definition query_fee_details ::
  "('acc, 's, 'n, 'p) payment_config \<Rightarrow> ('acc, 's) payment_state \<Rightarrow> dispatch_info \<Rightarrow> u32 \<Rightarrow> fee_details" where
  "query_fee_details cfg s info len = compute_fee_details cfg s len info 0"

definition estimate_call_fee ::
  "('acc, 's, 'n, 'p) payment_config \<Rightarrow> ('acc, 's) payment_state \<Rightarrow> dispatch_info \<Rightarrow> nat \<Rightarrow> post_dispatch_info \<Rightarrow> balance" where
  "estimate_call_fee cfg s info encoded_size post_info =
     compute_actual_fee cfg s (of_nat encoded_size) info post_info 0"

definition convert_weight :: "('acc, 's, 'n, 'p) payment_config \<Rightarrow> ('acc, 's) payment_state \<Rightarrow> weight \<Rightarrow> balance" where
  "convert_weight cfg s w = fx_mul_int (Frame cfg) (NextFeeMultiplier s) (weight_to_fee cfg w)"

text \<open>
  \<open>ensure_can_charge_fee\<close>: the loop looks for a currency that can pay, and stops at the native one
  if it can; the branch for other currencies is empty.
\<close>

fun charge_fee_loop ::
  "('acc, 's, 'n, 'p) payment_config \<Rightarrow> 'acc \<Rightarrow> balance \<Rightarrow> withdraw_reason set \<Rightarrow> ('acc, 's) payment_state \<Rightarrow> currency_id list \<Rightarrow>
     currency_id option" where
  "charge_fee_loop cfg who fee reason s [] = None"
| "charge_fee_loop cfg who fee reason s (c # cs) =
     (if c = NativeCurrencyId cfg then
        let native_is_enough =
              (case checked_sub (fc_free_balance (PaymentCurrency cfg) (payment_balances s) who) fee of
                 None \<Rightarrow> False
               | Some new_free_balance \<Rightarrow>
                   fc_ensure_can_withdraw (PaymentCurrency cfg) (payment_balances s) who fee reason new_free_balance = Inr ())
        in if native_is_enough then Some c else charge_fee_loop cfg who fee reason s cs
      else charge_fee_loop cfg who fee reason s cs)"

definition charge_fee_order :: "('acc, 's, 'n, 'p) payment_config \<Rightarrow> 'acc \<Rightarrow> ('acc, 's) payment_state \<Rightarrow> currency_id list" where
  "charge_fee_order cfg who s =
     remdups_adj (case DefaultFeeCurrencyId s who of
         Some default_fee_currency_id \<Rightarrow> [default_fee_currency_id, NativeCurrencyId cfg] @ AllNonNativeCurrencyIds cfg
       | None \<Rightarrow> [NativeCurrencyId cfg] @ AllNonNativeCurrencyIds cfg)"

definition ensure_can_charge_fee ::
  "('acc, 's, 'n, 'p) payment_config \<Rightarrow> 'acc \<Rightarrow> balance \<Rightarrow> withdraw_reason set \<Rightarrow> ('acc, 's) payment_state \<Rightarrow> ('acc, 's) payment_state" where
  "ensure_can_charge_fee cfg who fee reason s =
     (case charge_fee_loop cfg who fee reason s (charge_fee_order cfg who s) of None \<Rightarrow> s | Some _ \<Rightarrow> s)"

text \<open>The runtime's handler of a claim: it is to see to it that the account has native tokens.\<close>

definition on_claim_handle ::
  "('acc, 's, 'n, 'p) payment_config \<Rightarrow> balance \<Rightarrow> ('acc \<Rightarrow> 's \<Rightarrow> nat) \<Rightarrow> 'acc \<Rightarrow> ('acc, 's, dispatch_error, unit) payment_op" where
  "on_claim_handle cfg existential_deposit providers who =
     modify_op (\<lambda>s. if providers who (payment_balances s) = 0
       then ensure_can_charge_fee cfg who existential_deposit {TransactionPaymentReason} s else s)"

section \<open>Charging a transaction\<close>

definition withdraw_fee ::
  "('acc, 's, 'n, 'p) payment_config \<Rightarrow> balance \<Rightarrow> 'acc \<Rightarrow> dispatch_info \<Rightarrow> nat \<Rightarrow>
     ('acc, 's, validity_error, balance \<times> 'n option) payment_op" where
  "withdraw_fee cfg tip who info len s =
     (let fee = compute_fee cfg s (of_nat len) info tip;
          reason = (if tip = 0 then {TransactionPaymentReason} else {TransactionPaymentReason, TipReason});
          s1 = ensure_can_charge_fee cfg who fee reason s
      in case on_balances (fc_withdraw (PaymentCurrency cfg) who fee reason KeepAlive) s1 of
           (Inr imb, t) \<Rightarrow> (Inr (fee, Some imb), t)
         | (Inl _, t) \<Rightarrow> (Inl InvalidPayment, t))"

definition get_priority ::
  "('acc, 's, 'n, 'p) payment_config \<Rightarrow> dispatch_info \<Rightarrow> nat \<Rightarrow> balance \<Rightarrow> u64" where
  "get_priority cfg info len fee =
     (let weight_saturation = ref_time (max_block cfg) div max (ref_time (di_weight info)) 1;
          len_saturation = (ucast (max_block_length cfg) :: u64) div max (of_nat len) 1;
          coefficient = ucast (min weight_saturation len_saturation) :: balance
      in of_nat (min (unat (saturating_mul fee coefficient)) (2 ^ 64 - 1)))"

text \<open>Validation withdraws the fee and drops the imbalance; only the priority leaves it.\<close>

definition payment_validate ::
  "('acc, 's, 'n, 'p) payment_config \<Rightarrow> balance \<Rightarrow> 'acc \<Rightarrow> dispatch_info \<Rightarrow> nat \<Rightarrow> ('acc, 's, validity_error, u64) payment_op" where
  "payment_validate cfg tip who info len =
     bind_op (withdraw_fee cfg tip who info len) (\<lambda>(fee, imb).
     bind_op (modify_op (\<lambda>s. s\<lparr>payment_balances :=
         (case imb of None \<Rightarrow> payment_balances s
          | Some n \<Rightarrow> fc_drop_negative (PaymentCurrency cfg) n (payment_balances s))\<rparr>)) (\<lambda>_.
     ok (get_priority cfg info len fee)))"

type_synonym ('acc, 'n) payment_pre = "balance \<times> 'acc \<times> 'n option \<times> balance"

definition payment_pre_dispatch ::
  "('acc, 's, 'n, 'p) payment_config \<Rightarrow> balance \<Rightarrow> 'acc \<Rightarrow> dispatch_info \<Rightarrow> nat \<Rightarrow>
     ('acc, 's, validity_error, ('acc, 'n) payment_pre) payment_op" where
  "payment_pre_dispatch cfg tip who info len =
     bind_op (withdraw_fee cfg tip who info len) (\<lambda>(fee, imb). ok (tip, who, imb, fee))"

text \<open>The payment that is left when a refund has been given back, or could not be.\<close>

definition settle_refund ::
  "('acc, 's, 'n, 'p) payment_config \<Rightarrow> 'acc \<Rightarrow> balance \<Rightarrow> 'n \<Rightarrow> ('acc, 's, validity_error, 'n) payment_op" where
  "settle_refund cfg who refund payed s =
     (case on_balances (fc_deposit_into_existing (PaymentCurrency cfg) who refund) s of
        (Inr refund_imbalance, t) \<Rightarrow>
          (case fc_offset (PaymentCurrency cfg) payed refund_imbalance of
             Same actual_payment \<Rightarrow> (Inr actual_payment, t)
           | SameNone \<Rightarrow> (Inr (fc_zero (PaymentCurrency cfg)), t)
           | OtherImbalance p \<Rightarrow>
               (Inl InvalidPayment, t\<lparr>payment_balances := fc_drop_positive (PaymentCurrency cfg) p (payment_balances t)\<rparr>))
      | (Inl _, t) \<Rightarrow> (Inr payed, t))"

definition distribute_fee ::
  "('acc, 's, 'n, 'p) payment_config \<Rightarrow> 'n \<Rightarrow> balance \<Rightarrow> ('acc, 's) payment_state \<Rightarrow> ('acc, 's) payment_state" where
  "distribute_fee cfg actual_payment tip s =
     (case fc_split (PaymentCurrency cfg) actual_payment tip of
        (a, b) \<Rightarrow> s\<lparr>payment_balances := OnTransactionPayment cfg [a, b] (payment_balances s)\<rparr>)"

definition payment_post_dispatch ::
  "('acc, 's, 'n, 'p) payment_config \<Rightarrow> ('acc, 'n) payment_pre option \<Rightarrow> dispatch_info \<Rightarrow> post_dispatch_info \<Rightarrow> nat \<Rightarrow>
     ('acc, 's, validity_error, unit) payment_op" where
  "payment_post_dispatch cfg pre info post_info len s =
     (case pre of
        Some (tip, who, Some payed, fee) \<Rightarrow>
          let actual_fee = compute_actual_fee cfg s (of_nat len) info post_info tip;
              refund = saturating_sub fee actual_fee
          in bind_op (settle_refund cfg who refund payed) (\<lambda>actual_payment.
             modify_op (\<lambda>s. let s = distribute_fee cfg actual_payment tip s
               in s\<lparr>payment_events := payment_events s @ [TransactionFeePaid who actual_fee tip]\<rparr>)) s
      | _ \<Rightarrow> ok () s)"

section \<open>Charging weight for the EVM\<close>

definition reserve_fee ::
  "('acc, 's, 'n, 'p) payment_config \<Rightarrow> 'acc \<Rightarrow> weight \<Rightarrow> ('acc, 's, dispatch_error, balance) payment_op" where
  "reserve_fee cfg who w =
     (let fee = weight_to_fee cfg w in
      bind_op (modify_op (ensure_can_charge_fee cfg who fee {TransactionPaymentReason})) (\<lambda>_.
      bind_op (on_balances (fc_reserve (PaymentCurrency cfg) who fee)) (\<lambda>_.
      ok fee)))"

definition unreserve_fee ::
  "('acc, 's, 'n, 'p) payment_config \<Rightarrow> 'acc \<Rightarrow> balance \<Rightarrow> ('acc, 's) payment_state \<Rightarrow> ('acc, 's) payment_state" where
  "unreserve_fee cfg who fee s = s\<lparr>payment_balances := snd (fc_unreserve (PaymentCurrency cfg) who fee (payment_balances s))\<rparr>"

definition unreserve_and_charge_fee ::
  "('acc, 's, 'n, 'p) payment_config \<Rightarrow> 'acc \<Rightarrow> weight \<Rightarrow> ('acc, 's, validity_error, balance \<times> 'n) payment_op" where
  "unreserve_and_charge_fee cfg who w s =
     (let fee = weight_to_fee cfg w;
          s1 = unreserve_fee cfg who fee s
      in case on_balances (fc_withdraw (PaymentCurrency cfg) who fee {TransactionPaymentReason} KeepAlive) s1 of
           (Inr imb, t) \<Rightarrow> (Inr (fee, imb), t)
         | (Inl _, t) \<Rightarrow> (Inl InvalidPayment, t))"

definition refund_fee ::
  "('acc, 's, 'n, 'p) payment_config \<Rightarrow> 'acc \<Rightarrow> weight \<Rightarrow> 'n \<Rightarrow> ('acc, 's, validity_error, unit) payment_op" where
  "refund_fee cfg who refund_weight payed =
     (let refund = weight_to_fee cfg refund_weight in
      bind_op (settle_refund cfg who refund payed) (\<lambda>actual_payment.
      modify_op (distribute_fee cfg actual_payment 0)))"

section \<open>Parameters of the runtime\<close>

text \<open>The polynomial from weight to fee: degree, sign, fractional and integer coefficient.\<close>

record fee_coefficient =
  fee_degree :: nat
  fee_negative :: bool
  coeff_frac :: u32
  coeff_integer :: balance

definition MILLI_REEF :: balance where
  "MILLI_REEF = REEF_unit div 1000"

definition fee_polynomial :: "(nat \<Rightarrow> nat \<Rightarrow> u32) \<Rightarrow> u64 \<Rightarrow> fee_coefficient list" where
  "fee_polynomial from_rational extrinsic_base_weight =
     (let p = MILLI_REEF; q = ucast extrinsic_base_weight :: balance
      in [\<lparr>fee_degree = 1, fee_negative = False, coeff_frac = from_rational (unat (p mod q)) (unat q), coeff_integer = p div q\<rparr>])"

text \<open>The runtime's fee parameters, over those that other crates define.\<close>

definition runtime_payment :: "('acc, 's, 'n, 'p) payment_config \<Rightarrow> ('acc, 's, 'n, 'p) payment_config" where
  "runtime_payment base =
     base\<lparr>TransactionByteFee := 10 * MILLI_REEF,
          TargetBlockFullness := 250000000000000000,
          AdjustmentVariable := fx_from_rational (Frame base) 1 100000,
          MinimumMultiplier := fx_from_rational (Frame base) 1 1000000000\<rparr>"

end
