(* ===== verification/Transaction_Payment_Properties.thy ===== *)
theory Transaction_Payment_Properties
  imports Transaction_Payment Fixed_Point Tokens_Properties
begin

text \<open>
  What the transaction payment pallet guarantees: the contracts of the framework and of the
  currency it relies on, that a transaction is charged exactly its fee, and how the multiplier
  follows the load of the blocks. The contracts are interpreted on the adapter of the tokens pallet
  and on fixed-point numbers computed with natural numbers.
\<close>

section \<open>Contracts\<close>

fun fee_sum :: "inclusion_fee option \<Rightarrow> balance" where
  "fee_sum None = 0"
| "fee_sum (Some i) = saturating_add (saturating_add (base_fee i) (len_fee i)) (adjusted_weight_fee i)"

definition weight_le :: "weight \<Rightarrow> weight \<Rightarrow> bool" where
  "weight_le a b \<longleftrightarrow> ref_time a \<le> ref_time b \<and> proof_size a \<le> proof_size b"

lemma saturating_add_mono: "a \<le> b \<Longrightarrow> c \<le> d \<Longrightarrow> saturating_add a c \<le> saturating_add b (d :: balance)"
  by (auto simp: unat_order unat_saturating_add)

text \<open>Looking for a currency that can pay changes nothing, whatever the preferred currency is.\<close>

lemma ensure_can_charge_fee_id [simp]: "ensure_can_charge_fee cfg who fee reason s = s"
  by (simp add: ensure_can_charge_fee_def split: option.splits)

lemma on_claim_handle_id [simp]: "on_claim_handle cfg ed providers who s = (Inr (), s)"
  by (simp add: on_claim_handle_def modify_op_def)

locale fee_frame_contract =
  fixes fr :: fee_frame
  assumes mul_int_mono: "a \<le> b \<Longrightarrow> fx_mul_int fr m a \<le> fx_mul_int fr m b"
    and weight_min_law: "ref_time (weight_min fr w w') = min (ref_time w) (ref_time w')"
      "proof_size (weight_min fr w w') = min (proof_size w) (proof_size w')"
    and actual_weight_law: "weight_le (calc_actual_weight fr post info) (di_weight info)"
    and pays_fee_law: "calc_pays_fee fr post info = PaysYes \<Longrightarrow> di_pays_fee info = PaysYes"
    and final_fee_law: "final_fee fr d = saturating_add (fee_sum (inclusion_part d)) (fee_tip d)"

locale fee_currency_contract =
  fixes fc :: "('acc, 's, 'n, 'p) fee_currency" and peek_n :: "'n \<Rightarrow> balance" and peek_p :: "'p \<Rightarrow> balance"
    and issuance :: "'s \<Rightarrow> balance"
  assumes withdraw_law: "fc_withdraw fc who v r er x = (Inr n, y) \<Longrightarrow>
      peek_n n = v \<and> issuance y = issuance x \<and> v \<le> fc_free_balance fc x who \<and> fc_free_balance fc y = (fc_free_balance fc x)(who := fc_free_balance fc x who - v)"
    and deposit_law: "fc_deposit_into_existing fc who v x = (Inr p, y) \<Longrightarrow>
      peek_p p = v \<and> issuance y = issuance x \<and> fc_free_balance fc y = (fc_free_balance fc x)(who := saturating_add (fc_free_balance fc x who) v)"
    and deposit_error_law: "fc_deposit_into_existing fc who v x = (Inl e, y) \<Longrightarrow> y = x"
    and offset_law: "case fc_offset fc n p of
        Same n' \<Rightarrow> peek_p p < peek_n n \<and> peek_n n' = peek_n n - peek_p p
      | SameNone \<Rightarrow> peek_p p = peek_n n
      | OtherImbalance _ \<Rightarrow> peek_n n < peek_p p"
    and split_law: "fc_split fc n v = (a, b) \<Longrightarrow> peek_n a = min (peek_n n) v \<and> peek_n b = peek_n n - peek_n a"
    and zero_law: "peek_n (fc_zero fc) = 0"

locale payment_world = fee_frame_contract "Frame cfg" + fee_currency_contract "PaymentCurrency cfg" peek_n peek_p issuance
  for cfg :: "('acc, 's, 'n, 'p) payment_config" and peek_n :: "'n \<Rightarrow> balance" and peek_p :: "'p \<Rightarrow> balance" and issuance :: "'s \<Rightarrow> balance" +
  assumes weight_to_fee_law: "weight_le a b \<Longrightarrow> WeightToFee cfg a \<le> WeightToFee cfg b"
begin

lemma weight_fee_mono: "weight_le a b \<Longrightarrow> weight_to_fee cfg a \<le> weight_to_fee cfg b"
  unfolding weight_to_fee_def by (rule weight_to_fee_law) (auto simp: weight_le_def weight_min_law min_def)

text \<open>The refund is never negative: the fee after the dispatch is at most the fee before it.\<close>

lemma actual_fee_le:
  assumes "NextFeeMultiplier t = NextFeeMultiplier s"
  shows "compute_actual_fee cfg t len info post tip \<le> compute_fee cfg s len info tip"
proof (cases "calc_pays_fee (Frame cfg) post info")
  case PaysYes
  have "weight_to_fee cfg (calc_actual_weight (Frame cfg) post info) \<le> weight_to_fee cfg (di_weight info)"
    by (rule weight_fee_mono [OF actual_weight_law])
  then show ?thesis
    using PaysYes pays_fee_law [OF PaysYes] assms
    by (auto simp: compute_actual_fee_def compute_fee_def compute_actual_fee_details_def compute_fee_details_def compute_fee_raw_def
        final_fee_law Let_def intro!: saturating_add_mono mul_int_mono)
next
  case PaysNo
  have "tip \<le> saturating_add x tip" for x
    using unat_u128 [of tip] by (simp add: unat_order unat_saturating_add)
  with PaysNo show ?thesis
    by (simp add: compute_actual_fee_def compute_fee_def compute_actual_fee_details_def compute_fee_details_def compute_fee_raw_def
        final_fee_law Let_def)
qed

lemma settle_refund_exact:
  assumes "settle_refund cfg who refund payed s = (r, t)" and "refund \<le> peek_n payed"
    and refunded_def: "refunded = (case fc_deposit_into_existing (PaymentCurrency cfg) who refund (payment_balances s) of (Inr _, _) \<Rightarrow> refund | _ \<Rightarrow> 0)"
  obtains n where "r = Inr n" "peek_n n = peek_n payed - refunded"
    "fc_free_balance (PaymentCurrency cfg) (payment_balances t) =
       (fc_free_balance (PaymentCurrency cfg) (payment_balances s))
         (who := saturating_add (fc_free_balance (PaymentCurrency cfg) (payment_balances s) who) refunded)"
    "issuance (payment_balances t) = issuance (payment_balances s)" "refunded \<le> peek_n payed"
proof -
  obtain x y where xy: "fc_deposit_into_existing (PaymentCurrency cfg) who refund (payment_balances s) = (x, y)" by fastforce
  show thesis
  proof (cases x)
    case (Inl e)
    with xy assms(1) deposit_error_law [of who refund "payment_balances s" e y] show thesis
      by (intro that [of payed]) (auto simp: settle_refund_def on_balances_def refunded_def)
  next
    case (Inr p)
    note law = deposit_law [OF xy [unfolded Inr]]
    have "refunded = refund" using xy Inr by (simp add: refunded_def)
    with law offset_law [where n = payed and p = p] assms(1,2) xy Inr zero_law show thesis
      by (cases "fc_offset (PaymentCurrency cfg) payed p")
        (auto simp: settle_refund_def on_balances_def not_less [symmetric] intro: that)
  qed
qed

lemma payment_exact:
  assumes pre: "payment_pre_dispatch cfg tip who info len s = (Inr pre, s1)"
    and post: "payment_post_dispatch cfg (Some pre) info post_info len s2 = (r, s3)"
    and mult: "NextFeeMultiplier s2 = NextFeeMultiplier s"
    and fee: "fee = compute_fee cfg s (of_nat len) info tip"
    and actual: "actual = compute_actual_fee cfg s2 (of_nat len) info post_info tip"
    and refunded: "refunded = (case fc_deposit_into_existing (PaymentCurrency cfg) who (fee - actual) (payment_balances s2) of
        (Inr _, _) \<Rightarrow> fee - actual | _ \<Rightarrow> 0)"
  shows "r = Inr () \<and> actual \<le> fee \<and>
    fee \<le> fc_free_balance (PaymentCurrency cfg) (payment_balances s) who \<and>
    fc_free_balance (PaymentCurrency cfg) (payment_balances s1) =
      (fc_free_balance (PaymentCurrency cfg) (payment_balances s))(who := fc_free_balance (PaymentCurrency cfg) (payment_balances s) who - fee) \<and>
    (\<exists>a b x. payment_balances s3 = OnTransactionPayment cfg [a, b] x \<and>
       peek_n a = min (fee - refunded) tip \<and> peek_n a + peek_n b = fee - refunded \<and> refunded \<le> fee \<and>
       issuance x = issuance (payment_balances s2) \<and>
       fc_free_balance (PaymentCurrency cfg) x =
         (fc_free_balance (PaymentCurrency cfg) (payment_balances s2))
           (who := saturating_add (fc_free_balance (PaymentCurrency cfg) (payment_balances s2) who) refunded))"
proof -
  have le: "actual \<le> fee" unfolding fee actual by (rule actual_fee_le [OF mult])
  obtain n y where w: "fc_withdraw (PaymentCurrency cfg) who fee
        (if tip = 0 then {TransactionPaymentReason} else {TransactionPaymentReason, TipReason}) KeepAlive (payment_balances s) = (Inr n, y)"
    and s1: "s1 = s\<lparr>payment_balances := y\<rparr>" and p: "pre = (tip, who, Some n, fee)"
    using pre by (auto simp: payment_pre_dispatch_def withdraw_fee_def op_simps Let_def on_balances_def fee split: prod.splits sum.splits)
  note law = withdraw_law [OF w]
  obtain q t where q: "settle_refund cfg who (fee - actual) n s2 = (q, t)" by fastforce
  have sub: "saturating_sub fee actual = fee - actual" using le by (simp add: saturating_sub_def)
  have bound: "fee - actual \<le> peek_n n" using law le by (simp add: unat_order unat_sub)
  from settle_refund_exact [OF q bound refunded] obtain m where m: "q = Inr m" "peek_n m = fee - refunded"
    "fc_free_balance (PaymentCurrency cfg) (payment_balances t) = (fc_free_balance (PaymentCurrency cfg) (payment_balances s2))
       (who := saturating_add (fc_free_balance (PaymentCurrency cfg) (payment_balances s2) who) refunded)" "issuance (payment_balances t) = issuance (payment_balances s2)" "refunded \<le> fee"
    using law by metis
  obtain a b where ab: "fc_split (PaymentCurrency cfg) m tip = (a, b)" by fastforce
  have "r = Inr ()" and s3: "payment_balances s3 = OnTransactionPayment cfg [a, b] (payment_balances t)"
    using post q m(1) ab by (auto simp: p payment_post_dispatch_def actual [symmetric] Let_def sub op_defs distribute_fee_def)
  moreover have "peek_n a = min (fee - refunded) tip" "peek_n a + peek_n b = fee - refunded"
    using split_law [OF ab] m(2) by simp_all
  ultimately show ?thesis using le law s1 m(3-5) by (metis payment_state.select_convs(4) payment_state.update_convs(4) payment_state.surjective)
qed

end

section \<open>Fixed-point numbers and weights\<close>

definition weight_polynomial_fee :: "(u32 \<Rightarrow> nat \<Rightarrow> nat) \<Rightarrow> fee_coefficient list \<Rightarrow> weight \<Rightarrow> balance" where
  "weight_polynomial_fee mulp cs w =
     fold (\<lambda>c acc.
       let x = clamp (unat (ref_time w) ^ fee_degree c) :: balance;
           frac = clamp (mulp (coeff_frac c) (unat x));
           int = saturating_mul (coeff_integer c) x
       in if fee_negative c then saturating_sub (saturating_sub acc frac) int else saturating_add (saturating_add acc frac) int) cs 0"

definition parts_frame :: fee_frame where
  "parts_frame =
     \<lparr>fx_from_rational = (\<lambda>a b. clamp (unat a * 10 ^ 18 div max 1 (unat b))),
      fx_from_integer = (\<lambda>a. clamp (unat a * 10 ^ 18)),
      fx_mul = (\<lambda>a b. clamp (unat a * unat b div 10 ^ 18)),
      fx_div = (\<lambda>a b. clamp (unat a * 10 ^ 18 div max 1 (unat b))),
      fx_mul_int = (\<lambda>m v. clamp (unat m * unat v div 10 ^ 18)),
      perquintill_times = (\<lambda>p v. clamp (div_near (unat p * unat v) (10 ^ 18))),
      weight_min = (\<lambda>a b. \<lparr>ref_time = min (ref_time a) (ref_time b), proof_size = min (proof_size a) (proof_size b)\<rparr>),
      calc_actual_weight = (\<lambda>post info.
        case actual_weight post of None \<Rightarrow> di_weight info
        | Some w \<Rightarrow> \<lparr>ref_time = min (ref_time w) (ref_time (di_weight info)), proof_size = min (proof_size w) (proof_size (di_weight info))\<rparr>),
      calc_pays_fee = (\<lambda>post info. if di_pays_fee info = PaysYes \<and> post_pays_fee post = PaysYes then PaysYes else PaysNo),
      final_fee = (\<lambda>d. saturating_add (fee_sum (inclusion_part d)) (fee_tip d))\<rparr>"

lemma parts_frame_contract: "fee_frame_contract parts_frame"
proof
  fix a b :: balance and m :: multiplier
  assume "a \<le> b"
  then have "unat m * unat a div 10 ^ 18 \<le> unat m * unat b div 10 ^ 18" by (intro div_le_mono mult_le_mono2) (simp add: word_le_nat_alt)
  then show "fx_mul_int parts_frame m a \<le> fx_mul_int parts_frame m b" by (simp add: parts_frame_def clamp_mono)
qed (auto simp: parts_frame_def weight_le_def split: option.splits if_splits)

text \<open>The runtime's polynomial has one term, of degree one and not negative: heavier is not cheaper.\<close>

lemma runtime_weight_fee_mono:
  assumes "\<And>p x y. x \<le> y \<Longrightarrow> mulp p x \<le> mulp p y" and "weight_le a b"
  shows "weight_polynomial_fee mulp (fee_polynomial from_rational bw) a \<le> weight_polynomial_fee mulp (fee_polynomial from_rational bw) b"
proof -
  have x: "(clamp (unat (ref_time a)) :: balance) \<le> clamp (unat (ref_time b))"
    using assms(2) by (intro clamp_mono) (simp add: weight_le_def word_le_nat_alt)
  have frac: "(clamp (mulp f (unat (clamp (unat (ref_time a)) :: balance))) :: balance) \<le> clamp (mulp f (unat (clamp (unat (ref_time b)) :: balance)))" for f
    using x by (intro clamp_mono assms(1)) (simp add: word_le_nat_alt)
  have int: "saturating_mul k (clamp (unat (ref_time a))) \<le> saturating_mul k (clamp (unat (ref_time b)))" for k :: balance
    using x by (auto simp: word_le_nat_alt unat_saturating_mul min_le_iff_disj)
  show ?thesis
    using saturating_add_mono [OF frac int] by (simp add: weight_polynomial_fee_def fee_polynomial_def Let_def)
qed

section \<open>The adapter of the tokens pallet\<close>

definition tokens_fee_currency ::
  "('acc, 'cur, 'rid, 's) tokens_config \<Rightarrow> 'cur \<Rightarrow>
     ('acc, ('acc, 'cur, 'rid, 's) tokens_state, negative_imbalance, positive_imbalance) fee_currency" where
  "tokens_fee_currency tk c =
     \<lparr>fc_free_balance = (\<lambda>s who. free_balance s c who),
      fc_ensure_can_withdraw = (\<lambda>s who v _ _. fst (ensure_can_withdraw c who v s)),
      fc_withdraw = (\<lambda>who v _ er. adapter_withdraw tk c who v er),
      fc_deposit_into_existing = adapter_deposit_into_existing tk c,
      fc_reserve = reserve tk c, fc_unreserve = unreserve tk c,
      fc_offset = negative_offset, fc_split = negative_split, fc_zero = NegativeImbalance 0,
      fc_drop_negative = drop_negative c, fc_drop_positive = drop_positive c\<rparr>"

lemma ledger_of_holding:
  assumes "ledger_of t = put_holding c who f r (ledger_of s)"
  shows "unat (free_balance t c a) = (if a = who then f else unat (free_balance s c a))"
  using arg_cong [where f = "\<lambda>l. held_free l c a", OF assms] by (simp add: free_balance_def)

lemma ledger_issuance:
  assumes "ledger_of t = put_holding c who f r (ledger_of s)"
  shows "total_issuance t c = total_issuance s c"
  using arg_cong [where f = "\<lambda>l. issued l c", OF assms] by (simp add: word_eq_unat)

lemma tokens_fee_contract:
  assumes hooks: "unit_hooks tk"
  shows "fee_currency_contract (tokens_fee_currency tk c) negative_peek positive_peek (\<lambda>s. total_issuance s c)"
proof
  fix who v r er x n y
  assume "fc_withdraw (tokens_fee_currency tk c) who v r er x = (Inr n, y)"
  then have w: "adapter_withdraw tk c who v er x = (Inr n, y)" by (simp add: tokens_fee_currency_def)
  note led = adapter_withdraw_ledger [OF w hooks]
  have "free_balance y c a = ((\<lambda>a. free_balance x c a)(who := free_balance x c who - v)) a" for a
    using ledger_of_holding [OF led [THEN conjunct2, THEN conjunct1], of a] led
    by (auto simp: word_eq_unat free_balance_def unat_sub word_le_nat_alt)
  then show "negative_peek n = v \<and> total_issuance y c = total_issuance x c \<and> v \<le> fc_free_balance (tokens_fee_currency tk c) x who \<and>
      fc_free_balance (tokens_fee_currency tk c) y =
        (fc_free_balance (tokens_fee_currency tk c) x)(who := fc_free_balance (tokens_fee_currency tk c) x who - v)"
    using led ledger_issuance [OF led [THEN conjunct2, THEN conjunct1]] by (auto simp: tokens_fee_currency_def word_le_nat_alt free_balance_def)
next
  fix who v x p y
  assume "fc_deposit_into_existing (tokens_fee_currency tk c) who v x = (Inr p, y)"
  then obtain w where op: "do_deposit tk c who v True False x = (Inr w, y)" and p: "p = PositiveImbalance v"
    by (auto simp: tokens_fee_currency_def adapter_deposit_into_existing_def op_simps)
  have "total_issuance y c = total_issuance x c \<and>
      free_balance y c a = ((\<lambda>a. free_balance x c a)(who := saturating_add (free_balance x c who) v)) a" for a
  proof (cases "v = 0")
    case True
    with op show ?thesis by (simp add: do_deposit_def ok_def)
  next
    case False
    note led = do_deposit_effect(2) [OF op hooks False, simplified if_False]
    from ledger_of_holding [OF led, of a] ledger_issuance [OF led] show ?thesis by (auto simp: word_eq_unat free_balance_def unat_saturating_add)
  qed
  then show "positive_peek p = v \<and> total_issuance y c = total_issuance x c \<and> fc_free_balance (tokens_fee_currency tk c) y =
      (fc_free_balance (tokens_fee_currency tk c) x)(who := saturating_add (fc_free_balance (tokens_fee_currency tk c) x who) v)"
    by (auto simp: tokens_fee_currency_def p)
next
  fix who v x e y
  assume "fc_deposit_into_existing (tokens_fee_currency tk c) who v x = (Inl e, y)"
  then have "do_deposit tk c who v True False x = (Inl e, y)"
    by (auto simp: tokens_fee_currency_def adapter_deposit_into_existing_def op_simps)
  then show "y = x" by (rule do_deposit_error_unchanged [OF _ hooks])
next
  fix n p
  show "case fc_offset (tokens_fee_currency tk c) n p of
      Same n' \<Rightarrow> positive_peek p < negative_peek n \<and> negative_peek n' = negative_peek n - positive_peek p
    | SameNone \<Rightarrow> positive_peek p = negative_peek n
    | OtherImbalance _ \<Rightarrow> negative_peek n < positive_peek p"
    by (cases n; cases p) (auto simp: tokens_fee_currency_def saturating_sub_def)
next
  fix n v a b
  assume "fc_split (tokens_fee_currency tk c) n v = (a, b)"
  then show "negative_peek a = min (negative_peek n) v \<and> negative_peek b = negative_peek n - negative_peek a"
    by (cases n) (auto simp: tokens_fee_currency_def saturating_sub_def Let_def)
qed (simp add: tokens_fee_currency_def)

definition tokens_payment ::
  "('acc, 'cur, 'rid, 's) tokens_config \<Rightarrow> 'cur \<Rightarrow> u64 \<Rightarrow>
     ('acc, ('acc, 'cur, 'rid, 's) tokens_state, negative_imbalance, positive_imbalance) payment_config \<Rightarrow>
     ('acc, ('acc, 'cur, 'rid, 's) tokens_state, negative_imbalance, positive_imbalance) payment_config" where
  "tokens_payment tk c extrinsic_base_weight base =
     runtime_payment (base\<lparr>PaymentCurrency := tokens_fee_currency tk c, Frame := parts_frame,
       OnTransactionPayment := fold (drop_negative c),
       WeightToFee := weight_polynomial_fee (\<lambda>p x. div_near (unat p * x) (10 ^ 9))
         (fee_polynomial (\<lambda>p q. clamp (min p (max q 1) * 10 ^ 9 div max q 1)) extrinsic_base_weight)\<rparr>)"

interpretation fee_frame: fee_frame_contract parts_frame
  by (rule parts_frame_contract)

interpretation fee_tokens: fee_currency_contract "tokens_fee_currency (runtime_tokens can_dec inc_p dec_p inc_c dec_c) c"
  negative_peek positive_peek "\<lambda>s. total_issuance s c"
  for can_dec :: "'acc \<Rightarrow> 's \<Rightarrow> bool" and inc_p dec_p inc_c dec_c c
  by (rule tokens_fee_contract [OF runtime_configD(1) [OF runtime_tokens_config]])

interpretation paid_tokens: payment_world "tokens_payment (runtime_tokens can_dec inc_p dec_p inc_c dec_c) c bw base"
  negative_peek positive_peek "\<lambda>s. total_issuance s c"
  for can_dec :: "'acc \<Rightarrow> 's \<Rightarrow> bool" and inc_p dec_p inc_c dec_c c bw base
proof -
  let ?cfg = "tokens_payment (runtime_tokens can_dec inc_p dec_p inc_c dec_c) c bw base"
  have eqs: "Frame ?cfg = parts_frame" "PaymentCurrency ?cfg = tokens_fee_currency (runtime_tokens can_dec inc_p dec_p inc_c dec_c) c"
    by (simp_all add: tokens_payment_def runtime_payment_def)
  have "WeightToFee ?cfg a \<le> WeightToFee ?cfg b" if "weight_le a b" for a b
    using runtime_weight_fee_mono [OF _ that] by (simp add: tokens_payment_def runtime_payment_def div_near_mono)
  then show "payment_world ?cfg negative_peek positive_peek (\<lambda>s. total_issuance s c)"
    by (intro payment_world.intro payment_world_axioms.intro)
      (simp_all only: eqs parts_frame_contract tokens_fee_contract [OF runtime_configD(1) [OF runtime_tokens_config]])
qed

section \<open>An instance\<close>

text \<open>A small instance: an account with 100 pays for a call of weight 3 that turns out to weigh 1.\<close>

definition demo_payment :: "(nat, (nat, currency_id, reserve_identifier, unit) tokens_state, negative_imbalance, positive_imbalance) payment_config" where
  "demo_payment = tokens_payment demo_config (Token RUSD) 100000000000000
     \<lparr>AllNonNativeCurrencyIds = [Token RUSD], NativeCurrencyId = Token REEF, PaymentCurrency = tokens_fee_currency demo_config (Token RUSD),
      OnTransactionPayment = (\<lambda>_ s. s), TransactionByteFee = 0, WeightToFee = (\<lambda>_. 0), LengthToFee = (\<lambda>_. 0),
      MinimumMultiplier = 0, TargetBlockFullness = 0, AdjustmentVariable = 0,
      base_extrinsic = (\<lambda>_. \<lparr>ref_time = 1, proof_size = 0\<rparr>),
      max_total = (\<lambda>_. Some \<lparr>ref_time = 4000, proof_size = 4000\<rparr>), max_block = \<lparr>ref_time = 5000, proof_size = 5000\<rparr>,
      max_block_length = 5242880, Frame = parts_frame\<rparr>"

definition demo_payment_state :: "(nat, (nat, currency_id, reserve_identifier, unit) tokens_state) payment_state" where
  "demo_payment_state =
     \<lparr>NextFeeMultiplier = 1000000000000000000, DefaultFeeCurrencyId = Map.empty, block_weight = (\<lambda>_. \<lparr>ref_time = 1010, proof_size = 0\<rparr>),
      payment_balances = demo_state, payment_events = []\<rparr>"

definition demo_info :: dispatch_info where
  "demo_info = \<lparr>di_weight = \<lparr>ref_time = 3, proof_size = 0\<rparr>, di_class = NormalClass, di_pays_fee = PaysYes\<rparr>"

definition demo_post_info :: post_dispatch_info where
  "demo_post_info = \<lparr>actual_weight = Some \<lparr>ref_time = 1, proof_size = 0\<rparr>, post_pays_fee = PaysYes\<rparr>"

lemmas payment_eval =
  demo_payment_def demo_payment_state_def demo_info_def demo_post_info_def tokens_payment_def runtime_payment_def parts_frame_def
  weight_polynomial_fee_def fee_polynomial_def MILLI_REEF_def REEF_unit_def DOLLARS_def clamp_def div_near_def saturating_mul_def
  compute_fee_def compute_actual_fee_def compute_fee_details_def compute_actual_fee_details_def compute_fee_raw_def weight_to_fee_def

lemma demo_fee: "compute_fee demo_payment demo_payment_state 0 demo_info 5 = 45"
  by (simp add: payment_eval saturating_add_def word_le_nat_alt min_def)

lemma demo_actual_fee: "NextFeeMultiplier t = 1000000000000000000 \<Longrightarrow> compute_actual_fee demo_payment t 0 demo_info demo_post_info 5 = 25"
  by (simp add: payment_eval saturating_add_def word_le_nat_alt min_def)

section \<open>Properties\<close>

lemma drop_negative_burns:
  "free_balance (drop_negative c n s) c a = free_balance s c a"
  "unat (total_issuance (drop_negative c n s) c) = unat (total_issuance s c) - unat (negative_peek n)"
  by (cases n; simp add: free_balance_def accounts_def mutate_total_issuance_def total_issuance_def unat_saturating_sub)+

text \<open>
  (C6) Charging a transaction: when the fee could be taken before the dispatch, the settlement after
  it never fails, whatever the dispatch did; the payer gets back the difference to the actual
  fee (nothing if the account is gone), and exactly the rest of the fee, tip included, is burned.
\<close>

theorem fee_charged_exactly:
  assumes tk: "tk = runtime_tokens can_dec inc_p dec_p inc_c dec_c" and cfg: "cfg = tokens_payment tk c bw base"
    and pre: "payment_pre_dispatch cfg tip who info len s = (Inr pre, s1)"
    and post: "payment_post_dispatch cfg (Some pre) info post_info len s2 = (r, s3)"
    and mult: "NextFeeMultiplier s2 = NextFeeMultiplier s"
    and fee: "fee = compute_fee cfg s (of_nat len) info tip"
    and actual: "actual = compute_actual_fee cfg s2 (of_nat len) info post_info tip"
    and refunded: "refunded = (case adapter_deposit_into_existing tk c who (fee - actual) (payment_balances s2) of
        (Inr _, _) \<Rightarrow> fee - actual | _ \<Rightarrow> 0)"
  shows "r = Inr () \<and> actual \<le> fee \<and> refunded \<le> fee \<and> fee \<le> free_balance (payment_balances s) c who \<and>
    free_balance (payment_balances s1) c who = free_balance (payment_balances s) c who - fee \<and>
    (\<forall>a. free_balance (payment_balances s3) c a =
       (if a = who then saturating_add (free_balance (payment_balances s2) c who) refunded else free_balance (payment_balances s2) c a)) \<and>
    unat (total_issuance (payment_balances s3) c) = unat (total_issuance (payment_balances s2) c) - unat (fee - refunded)"
proof -
  have cur: "PaymentCurrency cfg = tokens_fee_currency tk c" "OnTransactionPayment cfg = fold (drop_negative c)"
    by (simp_all add: cfg tokens_payment_def runtime_payment_def)
  have ref: "refunded = (case fc_deposit_into_existing (PaymentCurrency cfg) who (fee - actual) (payment_balances s2) of
        (Inr _, _) \<Rightarrow> fee - actual | _ \<Rightarrow> 0)"
    by (simp add: refunded cur tokens_fee_currency_def)
  note exact = paid_tokens.payment_exact [OF pre [unfolded cfg tk] post [unfolded cfg tk] mult fee [unfolded cfg tk]
      actual [unfolded cfg tk] ref [unfolded cfg tk], folded tk, folded cfg]
  from exact obtain a b x where x: "payment_balances s3 = drop_negative c b (drop_negative c a x)"
    "negative_peek a = min (fee - refunded) tip" "negative_peek a + negative_peek b = fee - refunded"
    "total_issuance x c = total_issuance (payment_balances s2) c"
    "\<And>y. free_balance x c y = (if y = who then saturating_add (free_balance (payment_balances s2) c who) refunded else free_balance (payment_balances s2) c y)"
    by (auto simp: cur tokens_fee_currency_def fun_eq_iff)
  have "unat (negative_peek a) + unat (negative_peek b) = unat (fee - refunded)"
  proof -
    have le: "negative_peek a \<le> fee - refunded" by (simp add: x(2))
    have "negative_peek b = (fee - refunded) - negative_peek a" using x(3) by (metis add_diff_cancel_left')
    with le show ?thesis by (simp add: unat_sub word_le_nat_alt)
  qed
  then have "unat (total_issuance (payment_balances s3) c) = unat (total_issuance (payment_balances s2) c) - unat (fee - refunded)"
    by (simp add: x(1,4) drop_negative_burns)
  moreover have "free_balance (payment_balances s3) c y = free_balance x c y" for y
    by (simp add: x(1) drop_negative_burns)
  ultimately show ?thesis using exact x(5) by (auto simp: cur tokens_fee_currency_def)
qed

theorem fee_charged_exactly_witness:
  "\<exists>pre s1 s3. payment_pre_dispatch demo_payment 5 1 demo_info 0 demo_payment_state = (Inr pre, s1) \<and>
     payment_post_dispatch demo_payment (Some pre) demo_info demo_post_info 0 s1 = (Inr (), s3) \<and>
     free_balance (payment_balances s1) (Token RUSD) 1 = 55 \<and> free_balance (payment_balances s3) (Token RUSD) 1 = 75 \<and>
     unat (total_issuance (payment_balances s3) (Token RUSD)) = 125"
proof -
  have cur: "PaymentCurrency demo_payment = tokens_fee_currency demo_config (Token RUSD)"
    by (simp add: demo_payment_def tokens_payment_def runtime_payment_def)
  obtain b where b: "adapter_withdraw demo_config (Token RUSD) 1 45 KeepAlive demo_state = (Inr (NegativeImbalance 45), b)"
      and tot: "total_issuance b (Token RUSD) = 150" "free_balance b (Token RUSD) 1 = 55"
    by (simp add: adapter_withdraw_def tokens_eval)
  define s1 where "s1 = demo_payment_state\<lparr>payment_balances := b\<rparr>"
  have pre: "payment_pre_dispatch demo_payment 5 1 demo_info 0 demo_payment_state = (Inr (5, 1, Some (NegativeImbalance 45), 45), s1)"
    using b demo_fee
    by (simp add: payment_pre_dispatch_def withdraw_fee_def Let_def on_balances_def op_defs cur tokens_fee_currency_def s1_def)
      (simp add: demo_payment_state_def ok_def)
  obtain r s3 where post: "payment_post_dispatch demo_payment (Some (5, 1, Some (NegativeImbalance 45), 45)) demo_info demo_post_info 0 s1 = (r, s3)"
    by fastforce
  have m: "NextFeeMultiplier s1 = NextFeeMultiplier demo_payment_state" by (simp add: s1_def)
  then have actual: "compute_actual_fee demo_payment s1 (of_nat 0) demo_info demo_post_info 5 = 25"
    using demo_actual_fee [of s1] by (simp add: demo_payment_state_def)
  have "(case adapter_deposit_into_existing demo_config (Token RUSD) 1 20 b of (Inr _, _) \<Rightarrow> 20 | _ \<Rightarrow> 0) = (20 :: balance)"
    using b by (auto simp: adapter_deposit_into_existing_def adapter_withdraw_def tokens_eval)
  moreover have diff: "45 - 25 = (20 :: balance)" by simp
  ultimately have refunded: "20 = (case adapter_deposit_into_existing demo_config (Token RUSD) 1 (45 - 25) (payment_balances s1) of
      (Inr _, _) \<Rightarrow> 45 - 25 | _ \<Rightarrow> (0 :: balance))"
    unfolding diff by (simp add: s1_def)
  from fee_charged_exactly [OF demo_config_def demo_payment_def pre post m _ actual [symmetric] refunded] demo_fee
  have "r = Inr ()" "free_balance (payment_balances s3) (Token RUSD) 1 = saturating_add 55 20"
    "unat (total_issuance (payment_balances s3) (Token RUSD)) = 150 - unat (25 :: balance)"
    using tot by (simp_all add: s1_def)
  then show ?thesis using pre post tot by (auto simp: s1_def saturating_add_def)
qed

lemma unat_ucast_u64: "unat (ucast (x :: u64) :: u128) = unat x"
proof -
  have "unat x < 2 ^ 64" using unsigned_less [where 'a = nat and w = x] by simp
  then show ?thesis by (simp add: unsigned_ucast_eq take_bit_nat_eq_self_iff)
qed

lemma div_le_mult_bound: "a \<le> b \<Longrightarrow> 0 < b \<Longrightarrow> a * k div b \<le> (k :: nat)"
  by (metis div_le_mono div_mult_self1_is_m mult_le_mono1)

text \<open>The target is a quarter of the capacity, rounded; one percent of it is at least a five hundredth of the capacity.\<close>

lemma target_bounds:
  fixes goal cap :: nat
  assumes "goal = div_near (250000000000000000 * cap) (10 ^ 18)"
  shows "goal \<le> cap" and "1000 \<le> cap \<Longrightarrow> goal \<le> 100 * d \<Longrightarrow> cap \<le> 500 * d"
proof -
  have q: "250000000000000000 * cap div 10 ^ 18 = cap div 4" by simp
  have "goal \<le> cap div 4 + 1" "cap div 4 \<le> goal"
    using div_near_bounds [of "250000000000000000 * cap" "10 ^ 18"] unfolding q assms by simp_all
  moreover have "cap \<le> 4 * (cap div 4) + 3" "4 * (cap div 4) \<le> cap"
    using mod_less_divisor [of 4 cap] mult_div_mod_eq [of 4 cap] by linarith+
  moreover have "goal = 0" if "cap < 2" using that by (cases cap) (simp_all add: assms div_near_def)
  ultimately show "goal \<le> cap" "1000 \<le> cap \<Longrightarrow> goal \<le> 100 * d \<Longrightarrow> cap \<le> 500 * d" by linarith+
qed

text \<open>The two terms of the adjustment for a difference \<open>d\<close> within the capacity.\<close>

lemma adjustment_terms:
  assumes "unat x = d" and "d \<le> cap" and "unat y = max cap 1"
    and D: "D = fx_from_rational parts_frame x y" and F: "F = fx_mul parts_frame (10 ^ 13) D"
    and S: "S = fx_mul parts_frame (fx_div parts_frame (fx_mul parts_frame (10 ^ 13) (10 ^ 13)) (fx_from_integer parts_frame 2))
      (fx_mul parts_frame D D)"
  shows "unat F \<le> 10 ^ 13" and "unat S \<le> 5 * 10 ^ 7" and "d = 0 \<Longrightarrow> F = 0 \<and> S = 0"
    and "0 < cap \<Longrightarrow> cap \<le> 500 * d \<Longrightarrow> 10 ^ 10 \<le> unat F"
proof -
  have le: "d * 10 ^ 18 div max cap 1 \<le> 10 ^ 18" using assms(2) by (intro div_le_mult_bound) auto
  then have uD: "unat D = d * 10 ^ 18 div max cap 1"
    using assms(1,3) by (simp add: D parts_frame_def unat_clamp max.commute)
  have D18: "unat D \<le> 10 ^ 18" unfolding uD by (rule le)
  have uF: "unat F = 10 ^ 13 * unat D div 10 ^ 18" using D18 by (simp add: F parts_frame_def unat_clamp)
  show "unat F \<le> 10 ^ 13" unfolding uF using D18 by simp
  have half: "fx_div parts_frame (fx_mul parts_frame (10 ^ 13) (10 ^ 13)) (fx_from_integer parts_frame 2) = 50000000"
    by (simp add: parts_frame_def clamp_def)
  have "unat D * unat D \<le> 10 ^ 18 * 10 ^ 18" by (rule mult_le_mono [OF D18 D18])
  then have "unat D * unat D div 10 ^ 18 \<le> 10 ^ 18 * 10 ^ 18 div 10 ^ 18" by (rule div_le_mono)
  then have "unat (fx_mul parts_frame D D) \<le> 10 ^ 18" by (simp add: parts_frame_def unat_clamp)
  then have "50000000 * unat (fx_mul parts_frame D D) div 10 ^ 18 \<le> 50000000" by simp
  then show "unat S \<le> 5 * 10 ^ 7" unfolding S half by (simp add: parts_frame_def unat_clamp)
  show "F = 0 \<and> S = 0" if "d = 0"
  proof -
    have "D = 0" using uD that by (simp add: word_eq_unat)
    then show ?thesis by (simp add: F S parts_frame_def clamp_def)
  qed
  show "10 ^ 10 \<le> unat F" if "0 < cap" "cap \<le> 500 * d"
  proof -
    have "10 ^ 15 * max cap 1 \<le> d * 10 ^ 18" using that by simp
    then have "10 ^ 15 \<le> unat D" unfolding uD by (simp add: less_eq_div_iff_mult_less_eq)
    then have "10 ^ 13 * 10 ^ 15 \<le> 10 ^ 13 * unat D" by (rule mult_le_mono2)
    then have "10 ^ 13 * 10 ^ 15 div 10 ^ 18 \<le> 10 ^ 13 * unat D div 10 ^ 18" by (rule div_le_mono)
    then show ?thesis unfolding uF by simp
  qed
qed

text \<open>A factor of at least \<open>10\<^sup>-\<^sup>9\<close> of a multiplier not below the minimum is not rounded to nothing.\<close>

lemma adjustment_counts:
  assumes "10 ^ 9 \<le> unat f" and "10 ^ 9 \<le> unat p"
  shows "1 \<le> unat (fx_mul parts_frame f p)"
proof -
  have "10 ^ 9 * 10 ^ 9 \<le> unat f * unat p" using assms by (intro mult_le_mono)
  then have "10 ^ 9 * 10 ^ 9 div 10 ^ 18 \<le> unat f * unat p div 10 ^ 18" by (rule div_le_mono)
  then show ?thesis by (simp add: parts_frame_def unat_clamp)
qed

lemma adjustment_bound:
  assumes "unat f \<le> n"
  shows "unat (fx_mul parts_frame f p) \<le> n * unat p div 10 ^ 18"
proof -
  have "unat f * unat p div 10 ^ 18 \<le> n * unat p div 10 ^ 18" using assms by (intro div_le_mono mult_le_mono1)
  then show ?thesis by (simp add: parts_frame_def unat_clamp)
qed

text \<open>
  (C40) The fee multiplier follows the load of the blocks. It never falls below its minimum; a block at
  the target leaves it alone, a fuller block does not lower it and an emptier one does not raise
  it; a block at least one percent over the target strictly raises it, unless it is the largest number
  there is; a block at least one percent under the target strictly lowers it, unless it is at its minimum; and
  no block changes it by more than a hundred-thousandth (plus the second-order term) of its value.
\<close>

theorem multiplier_follows_load:
  assumes frame: "Frame base = parts_frame" and cfg: "cfg = runtime_payment base"
    and cap: "cap = unwrap_or (max_total cfg NormalClass) (max_block cfg)"
    and w: "w = min (unat (ref_time (block_weight s NormalClass))) (unat (ref_time cap))"
    and goal: "goal = div_near (unat (TargetBlockFullness cfg) * unat (ref_time cap)) (10 ^ 18)"
    and nxt: "m = NextFeeMultiplier (payment_on_finalize cfg s)" and prev: "p = max (NextFeeMultiplier s) (MinimumMultiplier cfg)"
  shows "MinimumMultiplier cfg \<le> m \<and> (goal \<le> w \<longrightarrow> p \<le> m) \<and> (w \<le> goal \<longrightarrow> m \<le> p) \<and>
    (1000 \<le> unat (ref_time cap) \<and> 101 * goal \<le> 100 * w \<and> p \<noteq> max_value \<longrightarrow> p < m) \<and>
    (1000 \<le> unat (ref_time cap) \<and> 100 * w \<le> 99 * goal \<and> MinimumMultiplier cfg < p \<longrightarrow> m < p) \<and>
    unat m \<le> unat p + (10 ^ 13 + 5 * 10 ^ 7) * unat p div 10 ^ 18 \<and> unat p \<le> unat m + 10 ^ 13 * unat p div 10 ^ 18"
proof -
  have fr: "Frame cfg = parts_frame" and par: "AdjustmentVariable cfg = 10 ^ 13" "MinimumMultiplier cfg = 10 ^ 9"
      "TargetBlockFullness cfg = 250000000000000000"
    using frame by (simp_all add: cfg runtime_payment_def parts_frame_def clamp_def)
  define C where "C = unat (ref_time cap)"
  define W where "W = (ucast (ref_time (weight_min (Frame cfg) (block_weight s NormalClass) cap)) :: u128)"
  define G where "G = (ucast (perquintill_times (Frame cfg) (TargetBlockFullness cfg) (ref_time cap)) :: u128)"
  define D where "D = fx_from_rational (Frame cfg) (max W G - min W G) (max (ref_time cap) 1)"
  define F where "F = fx_mul (Frame cfg) (AdjustmentVariable cfg) D"
  define S where "S = fx_mul (Frame cfg) (fx_div (Frame cfg) (fx_mul (Frame cfg) (AdjustmentVariable cfg) (AdjustmentVariable cfg))
        (fx_from_integer (Frame cfg) 2)) (fx_mul (Frame cfg) D D)"
  have goal': "goal = div_near (250000000000000000 * C) (10 ^ 18)" by (simp add: goal par C_def)
  note bounds = target_bounds [OF goal']
  have "C < 2 ^ 64" using unsigned_less [where 'a = nat and w = "ref_time cap"] by (simp add: C_def)
  then have uG: "unat G = goal" using bounds(1) goal by (simp add: G_def fr parts_frame_def unat_clamp unat_ucast_u64 par C_def)
  have uW: "unat W = w" by (simp add: W_def fr parts_frame_def w unat_min unat_ucast_u64)
  have gw: "G \<le> W \<longleftrightarrow> goal \<le> w" by (simp add: word_le_nat_alt uG uW)
  have diff: "unat (max W G - min W G) = max w goal - min w goal"
    using gw by (cases "G \<le> W") (simp_all add: max_def min_def unat_sub uG uW not_le word_le_nat_alt)
  have "max w goal - min w goal \<le> C" using bounds(1) by (auto simp: w C_def)
  moreover have "unat (max (ref_time cap) 1) = max C 1" by (simp add: unat_max C_def)
  ultimately have terms: "unat F \<le> 10 ^ 13" "unat S \<le> 5 * 10 ^ 7" "w = goal \<Longrightarrow> F = 0 \<and> S = 0"
    "0 < C \<Longrightarrow> C \<le> 500 * (max w goal - min w goal) \<Longrightarrow> 10 ^ 10 \<le> unat F"
    using adjustment_terms [OF diff _ _ D_def [unfolded fr] F_def [unfolded fr par] S_def [unfolded fr par]] by simp_all
  have m: "m = (if G \<le> W then max (saturating_add p (fx_mul (Frame cfg) (saturating_add F S) p)) (MinimumMultiplier cfg)
       else max (saturating_sub p (fx_mul (Frame cfg) (saturating_sub F S) p)) (MinimumMultiplier cfg))"
    unfolding nxt payment_on_finalize_def convert_multiplier_def Let_def prev S_def F_def D_def G_def W_def cap by simp
  have pm: "10 ^ 9 \<le> unat p" using prev by (simp add: word_le_nat_alt par unat_max)
  define up where "up = unat (fx_mul parts_frame (saturating_add F S) p)"
  define down where "down = unat (fx_mul parts_frame (saturating_sub F S) p)"
  have um: "unat m = (if goal \<le> w then max (min (unat p + up) (2 ^ 128 - 1)) (10 ^ 9) else max (unat p - down) (10 ^ 9))"
    unfolding m gw fr par by (simp add: unat_max unat_saturating_add unat_saturating_sub up_def down_def)
  have le: "up \<le> (10 ^ 13 + 5 * 10 ^ 7) * unat p div 10 ^ 18" "down \<le> 10 ^ 13 * unat p div 10 ^ 18"
    unfolding up_def down_def using terms(1,2)
    by (intro adjustment_bound; simp add: unat_saturating_add unat_saturating_sub)+
  have big: "1 \<le> up \<and> 1 \<le> down" if "1000 \<le> C" "goal \<le> 100 * (max w goal - min w goal)"
  proof -
    have "10 ^ 10 \<le> unat F" using terms(4) bounds(2) [OF that] that(1) by simp
    then have "10 ^ 9 \<le> unat (saturating_add F S)" "10 ^ 9 \<le> unat (saturating_sub F S)"
      using terms(2) unat_u128 [of F] by (simp_all add: unat_saturating_add unat_saturating_sub)
    then show ?thesis unfolding up_def down_def using adjustment_counts pm by blast
  qed
  have same: "up = 0 \<and> down = 0" if "w = goal"
    using terms(3) [OF that] by (simp add: up_def down_def parts_frame_def clamp_def saturating_add_def saturating_sub_def)
  have top: "unat p < 2 ^ 128 - 1" if "p \<noteq> max_value"
    using that unat_u128 [of p] by (simp add: word_eq_unat unat_max_value)
  note p128 = unat_u128 [of p]
  show ?thesis
    unfolding word_le_nat_alt word_less_nat_alt par C_def [symmetric]
  proof (intro conjI impI)
    show "unat (10 ^ 9 :: multiplier) \<le> unat m" using um by simp
    show "goal \<le> w \<Longrightarrow> unat p \<le> unat m" using um p128 by (simp add: le_max_iff_disj)
    show "unat m \<le> unat p" if "w \<le> goal"
      using um same pm p128 that by (cases "w = goal") simp_all
    show "unat p < unat m" if "1000 \<le> C \<and> 101 * goal \<le> 100 * w \<and> p \<noteq> max_value"
    proof -
      have "goal \<le> w" "1 \<le> up" using that big by auto
      then show ?thesis using um top that by (simp add: less_max_iff_disj)
    qed
    show "unat m < unat p" if "1000 \<le> C \<and> 100 * w \<le> 99 * goal \<and> unat (10 ^ 9 :: multiplier) < unat p"
    proof -
      have "0 < goal" using bounds(2) [of 0] that by (cases "goal = 0") auto
      then have "\<not> goal \<le> w" using that by linarith
      moreover have "1 \<le> down" using that big calculation by auto
      ultimately show ?thesis using um that by simp
    qed
    show "unat m \<le> unat p + (10 ^ 13 + 5 * 10 ^ 7) * unat p div 10 ^ 18" using um le(1) pm by (auto simp: max_def min_def)
    show "unat p \<le> unat m + 10 ^ 13 * unat p div 10 ^ 18" using um le(2) p128 by (auto simp: max_def min_def)
  qed
qed

text \<open>A block one percent over the target lifts the multiplier off its minimum; an empty block lowers a multiplier of one.\<close>

theorem multiplier_follows_load_witness:
  "MinimumMultiplier demo_payment < NextFeeMultiplier (payment_on_finalize demo_payment (demo_payment_state\<lparr>NextFeeMultiplier := 0\<rparr>)) \<and>
   NextFeeMultiplier (payment_on_finalize demo_payment
     (demo_payment_state\<lparr>NextFeeMultiplier := 10 ^ 18, block_weight := (\<lambda>_. \<lparr>ref_time = 0, proof_size = 0\<rparr>)\<rparr>)) < 10 ^ 18"
proof -
  obtain base where base: "demo_payment = runtime_payment base" "Frame base = parts_frame"
    by (simp add: demo_payment_def tokens_payment_def)
  have cap: "unwrap_or (max_total demo_payment NormalClass) (max_block demo_payment) = \<lparr>ref_time = 4000, proof_size = 4000\<rparr>"
    "TargetBlockFullness demo_payment = 250000000000000000" "ref_time (block_weight demo_payment_state NormalClass) = 1010"
    by (simp_all add: demo_payment_def tokens_payment_def runtime_payment_def demo_payment_state_def)
  have mm: "MinimumMultiplier demo_payment = 10 ^ 9"
    by (simp add: demo_payment_def tokens_payment_def runtime_payment_def parts_frame_def clamp_def)
  have "(10 ^ 9 :: multiplier) \<noteq> max_value" by (simp add: max_value_def)
  then show ?thesis
    using multiplier_follows_load [OF base(2,1) refl refl refl refl refl, of "demo_payment_state\<lparr>NextFeeMultiplier := 0\<rparr>"]
      multiplier_follows_load [OF base(2,1) refl refl refl refl refl,
        of "demo_payment_state\<lparr>NextFeeMultiplier := 10 ^ 18, block_weight := (\<lambda>_. \<lparr>ref_time = 0, proof_size = 0\<rparr>)\<rparr>"]
    by (simp add: cap mm div_near_def max_def)
qed

end
