(* ===== verification/Spec2Isabelle.thy ===== *)
theory Spec2Isabelle
  imports Poc_Properties Evm_Accounts_Properties Evm_Bridge_Properties Currencies_Properties Account_Merge Evm_Properties Staking_Properties Transaction_Payment_Properties
begin

text \<open>
  A verification library for the runtime of the Reef chain. The runtime is a composition of pallets;
  each has a storage and calls, and relies on others through traits. The library models the pallets
  that hold the chain's money and contracts, one group of theories per pallet, and proves what makes
  them correct. File names below are relative to \<^verbatim>\<open>src/\<close>.

  \<^bold>\<open>How the code is modelled\<close>

  \<^item> The storage of a pallet is a record with one field per storage item; a storage map is a partial
    function. Machine integers are words of their width, with Rust's checked, saturating and wrapping
    operations (\<open>Prelude\<close>).
  \<^item> A function that reads and writes the storage is a \<open>storage_op\<close>: it takes the storage and returns an
    error or a value together with the storage after it. The writes made before an error stay, unless
    the function is wrapped in \<open>transactional\<close>; the framework rolls a failing call back, so step
    relations have steps for successful calls only.
  \<^item> Code outside the repository (the framework, the EVM interpreter, hash functions and elliptic
    curves, ERC20 contracts, the election and the session pallet) is an argument, usually a field
    of the pallet's configuration record. What is relied on is a named hypothesis or the assumptions
    of a locale, and each locale is interpreted on definitions of the library.

  \<^bold>\<open>Parts\<close>

  \<^item> \<^emph>\<open>Shared.\<close> \<open>Prelude\<close>: integers, storage operations, binary search, sums over accounts.
    \<open>Fixed_Point\<close>: roundings. \<open>Primitives\<close>: \<^verbatim>\<open>primitives/src/lib.rs\<close>, origins and errors.
    \<open>Currency_Contract\<close>: the currency of a pallet as a record, its contract as a locale.
  \<^item> \<^emph>\<open>Tokens pallet\<close>, \<^verbatim>\<open>orml/tokens/src/lib.rs\<close> and \<^verbatim>\<open>imbalances.rs\<close>. \<open>Tokens_Storage\<close> (storage,
    account mutation, dust), \<open>Tokens\<close> (transfer, withdraw, deposit, slash, locks), \<open>Tokens_Reserves\<close> (reserves,
    plain and named), \<open>Tokens_Calls\<close> (calls and fungibles traits), \<open>Tokens_Adapter\<close> (\<open>CurrencyAdapter\<close> and imbalances).
    \<open>Ledger\<close> is the abstract specification; \<open>Tokens_View\<close>, \<open>Tokens_Ledger\<close> and \<open>Tokens_Named\<close> show that every
    operation is a move of the ledger and of the map of named reserves; \<open>Tokens_Invariants\<close>
    and \<open>Tokens_Steps\<close> show that issuance stays the sum of all holdings and that locks and reserves stay well
    formed under every operation that is meant to keep it so, and name the ones that are not;
    \<open>Tokens_Currency\<close> interprets the currency contract on the adapter; \<open>Tokens_Properties\<close> has the properties.
  \<^item> \<^emph>\<open>Proof of commitment\<close>, \<^verbatim>\<open>modules/poc/src/lib.rs\<close>. \<open>Poc\<close> (calls and the era change of
    \<open>on_initialize\<close>), \<open>Poc_Election\<close> (the vote count as exact sums, independent of the iteration order),
    \<open>Poc_Invariants\<close> (preservation for every currency that keeps the contract), \<open>Poc_Properties\<close>.
  \<^item> \<^emph>\<open>EVM accounts\<close>, \<^verbatim>\<open>modules/evm-accounts/src/lib.rs\<close>: \<open>Evm_Accounts\<close>, \<open>Evm_Accounts_Properties\<close>.
  \<^item> \<^emph>\<open>EVM bridge\<close>, \<^verbatim>\<open>modules/evm-bridge/src/lib.rs\<close>: \<open>Evm_Bridge\<close>, \<open>Evm_Bridge_Properties\<close>, with panics as a
    second kind of failure. \<open>Evm_Types\<close> has the traits of \<^verbatim>\<open>modules/support/src/lib.rs\<close>.
  \<^item> \<^emph>\<open>Currencies\<close>, \<^verbatim>\<open>modules/currencies/src/lib.rs\<close>: \<open>Currencies\<close>, \<open>Currencies_Properties\<close> (its ERC20
    side composed with the bridge, over any executor whose contract follows the standard). \<open>Account_Merge\<close> composes EVM
    accounts, currencies and tokens for the claim of an address.
  \<^item> \<^emph>\<open>EVM\<close>, \<^verbatim>\<open>modules/evm/src/lib.rs\<close> and \<^verbatim>\<open>runner/\<close>. \<open>Evm\<close> (storage, code and its reference counts,
    maintenance), \<open>Storage_Meter\<close>, \<open>Evm_Handler\<close> (what the interpreter can ask for, nested frames),
    \<open>Evm_Runner\<close> (calls and creations). \<open>Evm_Effects\<close> and \<open>Evm_Steps\<close> lift what one request can do to whole executions and
    to runs of the chain; \<open>Evm_Code\<close> and \<open>Evm_Properties\<close> have the invariant of the code and the properties.
  \<^item> \<^emph>\<open>Staking\<close>, \<^verbatim>\<open>modules/staking/src/\<close>. \<open>Staking_Types\<close>, \<open>Staking_Ledger\<close> (\<open>StakingLedger\<close>), \<open>Staking_Spans\<close> and
    \<open>Staking_Slashing\<close> (\<^verbatim>\<open>slashing.rs\<close>), \<open>Staking\<close> (\<^verbatim>\<open>pallet/mod.rs\<close>), \<open>Staking_Eras\<close> (\<^verbatim>\<open>pallet/impls.rs\<close>, \<^verbatim>\<open>inflation.rs\<close>),
    \<open>Staking_Interface\<close> (genesis, the interface for other pallets, the storage checks). \<open>Staking_Invariants\<close> and
    \<open>Staking_Preservation\<close> prove the invariant in the locale \<open>staking_world\<close>; \<open>Staking_Adapter\<close> interprets it on the tokens
    pallet; \<open>Staking_Steps\<close> has the runs, \<open>Staking_Timing\<close> the relation of planned and active eras
    (with sessions rotated in the order documented for the session pallet), on which the properties of unbonding and slashing in \<open>Staking_Properties\<close> rest.
  \<^item> \<^emph>\<open>Transaction payment\<close>, \<^verbatim>\<open>modules/transaction_payment/src/lib.rs\<close> and its parameters in
    \<^verbatim>\<open>runtime/src/lib.rs\<close>: \<open>Transaction_Payment\<close> (fees, multiplier, charging and refunding),
    \<open>Transaction_Payment_Properties\<close> (contracts, their interpretation on the tokens adapter, properties).

  The \<open>demo_\<close> definitions are small concrete instances on which the properties are evaluated.

  \<^bold>\<open>Bounds and fuel\<close>

  \<^item> A contract may run forever, so a program is a codatatype and \<open>run\<close> takes fuel that counts the
    requests along a path; \<open>None\<close> means the fuel was used up. The properties of executions hold for every
    amount of fuel. They speak of executions that end: in the program gas ends them, and the gasometer
    is outside the repository.
  \<^item> All other recursions are total. The loop of \<open>rebond\<close> is also given as it is written, with a proof that it ends.
  \<^item> Hypotheses that a sum of eras or sessions stays below \<open>2 ^ 32\<close> exclude wrap-around that would
    need billions of eras; they are written out where they are used.

  \<^bold>\<open>Not modelled\<close>

  \<^item> Weights and benchmarks: measured numbers without effect on the storage. Events are modelled.
  \<^item> The migrations of the staking pallet, which run once at an upgrade from storage formats that
    are no longer declared.
  \<^item> \<^verbatim>\<open>orml/authority\<close>, the containers of \<^verbatim>\<open>orml/utilities\<close> and the precompiled contracts of
    \<^verbatim>\<open>runtime/common\<close>: dispatching and scheduling of arbitrary calls of the runtime; a precompile
    is an argument of the EVM model, and the properties of executions let it write
    whatever it likes unless they say otherwise. \<^verbatim>\<open>orml/currencies\<close> is not part of the runtime.
  \<^item> The forwarding implementations of the fungible traits in \<^verbatim>\<open>modules/currencies\<close>.
  \<^item> The node, its RPC and command line, and the build tools: input and output around the runtime.
\<close>

end
